(* ===== verification/JsText.thy ===== *)
theory JsText
  imports Prelude
begin

text \<open>
  The JavaScript string operations the services use, on HOL strings. A HOL \<open>char\<close> is
  one UTF-16 code unit below 256, so the model covers the strings of the Latin-1 range;
  \<open>length\<close> counts code units as JavaScript does, and every regular expression and every
  enumeration of the code is ASCII.
\<close>

section \<open>Trimming and case\<close>

definition code :: "char \<Rightarrow> nat" where
  "code c = of_char c"

text \<open>
  White space and line terminators of ECMAScript below 256: tab, line feed, vertical
  tab, form feed, carriage return, space, no-break space.
\<close>

definition js_space :: "char \<Rightarrow> bool" where
  "js_space c \<longleftrightarrow> code c \<in> {9, 10, 11, 12, 13, 32, 160}"

definition trim :: "string \<Rightarrow> string" where
  "trim s = rev (dropWhile js_space (rev (dropWhile js_space s)))"

text \<open>
  \<open>toUpperCase\<close> in the Latin-1 range: sharp s becomes two letters, and the two letters
  whose capital lies outside the range (micro sign, y with diaeresis) stay, which no
  comparison with an ASCII constant can tell.
\<close>

definition upper_char :: "char \<Rightarrow> string" where
  "upper_char c =
     (let n = code c in
      if 97 \<le> n \<and> n \<le> 122 then [char_of (n - 32)]
      else if n = 223 then ''SS''
      else if 224 \<le> n \<and> n \<le> 254 \<and> n \<noteq> 247 then [char_of (n - 32)]
      else [c])"

definition toUpperCase :: "string \<Rightarrow> string" where
  "toUpperCase s = concat (map upper_char s)"

definition lower_char :: "char \<Rightarrow> char" where
  "lower_char c =
     (let n = code c in
      if 65 \<le> n \<and> n \<le> 90 \<or> 192 \<le> n \<and> n \<le> 222 \<and> n \<noteq> 215 then char_of (n + 32) else c)"

definition toLowerCase :: "string \<Rightarrow> string" where
  "toLowerCase s = map lower_char s"

lemma code_bound [simp]: "code c < 256"
  by (simp add: code_def)

lemma code_char_of [simp]: "n < 256 \<Longrightarrow> code (char_of n) = n"
  by (simp add: code_def of_char_of)

lemma char_of_code [simp]: "char_of (code c) = c"
  by (simp add: code_def)

lemma code_eq_iff: "code c = code d \<longleftrightarrow> c = d"
  by (simp add: code_def)

lemma length_toLowerCase [simp]: "length (toLowerCase s) = length s"
  by (simp add: toLowerCase_def)

lemma lower_char_idem [simp]: "lower_char (lower_char c) = lower_char c"
  by (auto simp: lower_char_def Let_def)

lemma toLowerCase_idem [simp]: "toLowerCase (toLowerCase s) = toLowerCase s"
  by (simp add: toLowerCase_def)

subsection \<open>Trimming\<close>

lemma trim_Nil_iff: "trim s = [] \<longleftrightarrow> (\<forall>c\<in>set s. js_space c)"
proof
  assume t: "trim s = []"
  have "dropWhile js_space s = []"
  proof (rule ccontr)
    assume ne: "dropWhile js_space s \<noteq> []"
    then have "\<not> js_space (hd (dropWhile js_space s))" by (rule hd_dropWhile)
    moreover from t have "\<forall>c\<in>set (dropWhile js_space s). js_space c"
      by (simp add: trim_def)
    ultimately show False using ne hd_in_set by blast
  qed
  then show "\<forall>c\<in>set s. js_space c" by simp
next
  assume "\<forall>c\<in>set s. js_space c"
  then have "dropWhile js_space s = []" by (simp only: dropWhile_eq_Nil_conv)
  then show "trim s = []" unfolding trim_def by (simp only: rev.simps dropWhile.simps)
qed

lemma length_trim: "length (trim s) \<le> length s"
proof -
  have "length (trim s) \<le> length (dropWhile js_space s)"
    by (metis length_dropWhile_le length_rev trim_def)
  also have "\<dots> \<le> length s" by (rule length_dropWhile_le)
  finally show ?thesis .
qed

text \<open>Neither end of a trimmed string is white space.\<close>

lemma last_trim: "trim s \<noteq> [] \<Longrightarrow> \<not> js_space (last (trim s))"
  by (metis hd_dropWhile last_rev rev_is_Nil_conv trim_def)

lemma hd_trim: "trim s \<noteq> [] \<Longrightarrow> \<not> js_space (hd (trim s))"
proof -
  let ?d = "dropWhile js_space s"
  assume ne: "trim s \<noteq> []"
  then have dne: "?d \<noteq> []" by (metis dropWhile.simps(1) rev.simps(1) trim_def)
  obtain ys where ys: "rev ?d = ys @ dropWhile js_space (rev ?d)"
    by (metis takeWhile_dropWhile_id)
  then have "?d = trim s @ rev ys"
    by (metis rev_append rev_rev_ident trim_def)
  with ne have "hd (trim s) = hd ?d" by (metis hd_append2)
  then show ?thesis using dne by (simp add: hd_dropWhile)
qed

lemma trim_fixed:
  assumes "s \<noteq> []" "\<not> js_space (hd s)" "\<not> js_space (last s)"
  shows "trim s = s"
proof -
  from assms have a: "dropWhile js_space s = s" by (cases s) auto
  from assms have "dropWhile js_space (rev s) = rev s"
    by (metis dropWhile.simps(2) hd_rev list.collapse rev_is_Nil_conv)
  with a show ?thesis by (simp add: trim_def)
qed

lemma trim_idem [simp]: "trim (trim s) = trim s"
proof (cases "trim s = []")
  case True
  moreover have "trim [] = []" by (simp add: trim_def)
  ultimately show ?thesis by (simp only:)
next
  case False
  then show ?thesis by (intro trim_fixed hd_trim last_trim)
qed

section \<open>Splitting, joining, decimal numerals\<close>

text \<open>\<open>s.split(sep)\<close> for a one-character separator: never the empty list.\<close>

fun split_on :: "char \<Rightarrow> string \<Rightarrow> string list" where
  "split_on sep [] = [[]]"
| "split_on sep (c # cs) =
     (if c = sep then [] # split_on sep cs
      else (case split_on sep cs of
              [] \<Rightarrow> [[c]]
            | w # ws \<Rightarrow> (c # w) # ws))"

lemma split_on_not_Nil [simp]: "split_on sep s \<noteq> []"
  by (induction s) (auto split: list.splits)

lemma split_on_none: "sep \<notin> set s \<Longrightarrow> split_on sep s = [s]"
  by (induction s) auto

lemma split_on_append:
  "sep \<notin> set a \<Longrightarrow> split_on sep (a @ sep # b) = a # split_on sep b"
  by (induction a) auto

lemma split_on_one: "split_on sep s = [b] \<longleftrightarrow> s = b \<and> sep \<notin> set b"
proof
  show "split_on sep s = [b] \<Longrightarrow> s = b \<and> sep \<notin> set b"
  proof (induction s arbitrary: b)
    case Nil
    then show ?case by simp
  next
    case (Cons c s)
    show ?case
    proof (cases "c = sep")
      case True
      with Cons.prems show ?thesis by simp
    next
      case False
      with Cons.prems obtain b' where "b = c # b'" and "split_on sep s = [b']"
        by (cases "split_on sep s") auto
      with Cons.IH [of b'] False show ?thesis by simp
    qed
  qed
qed (simp add: split_on_none)

lemma split_on_Cons_iff:
  "split_on sep s = a # w # ws \<longleftrightarrow>
     (\<exists>t. s = a @ sep # t \<and> sep \<notin> set a \<and> split_on sep t = w # ws)"
proof
  show "split_on sep s = a # w # ws \<Longrightarrow>
      \<exists>t. s = a @ sep # t \<and> sep \<notin> set a \<and> split_on sep t = w # ws"
  proof (induction s arbitrary: a)
    case Nil
    then show ?case by simp
  next
    case (Cons c s)
    show ?case
    proof (cases "c = sep")
      case True
      with Cons.prems show ?thesis by simp
    next
      case False
      with Cons.prems obtain a' where "a = c # a'" and "split_on sep s = a' # w # ws"
        by (cases "split_on sep s") auto
      with Cons.IH [of a'] False show ?thesis by auto
    qed
  qed
qed (auto simp: split_on_append)

lemma split_on_two:
  "split_on sep s = [a, b] \<longleftrightarrow> s = a @ sep # b \<and> sep \<notin> set a \<and> sep \<notin> set b"
  by (auto simp: split_on_Cons_iff split_on_one)

text \<open>\<open>xs.join(sep)\<close>.\<close>

fun join :: "string \<Rightarrow> string list \<Rightarrow> string" where
  "join sep [] = []"
| "join sep [x] = x"
| "join sep (x # y # zs) = x @ sep @ join sep (y # zs)"

text \<open>Decimal digits: \<open>\d\<close> of a regular expression, and its value.\<close>

definition is_digit :: "char \<Rightarrow> bool" where
  "is_digit c \<longleftrightarrow> 48 \<le> code c \<and> code c \<le> 57"

definition digit_val :: "char \<Rightarrow> nat" where
  "digit_val c = code c - 48"

definition digit_char :: "nat \<Rightarrow> char" where
  "digit_char n = char_of (n mod 10 + 48)"

lemma is_digit_digit_char [simp]: "is_digit (digit_char n)"
proof -
  have "n mod 10 < 10" by simp
  then show ?thesis unfolding is_digit_def digit_char_def by (subst (1 2) code_char_of) auto
qed

lemma digit_val_digit_char [simp]: "digit_val (digit_char n) = n mod 10"
proof -
  have "n mod 10 < 10" by simp
  then show ?thesis unfolding digit_val_def digit_char_def by (subst code_char_of) auto
qed

lemma digit_val_less: "is_digit c \<Longrightarrow> digit_val c < 10"
  by (auto simp: is_digit_def digit_val_def)

lemma digit_char_digit_val: "is_digit c \<Longrightarrow> digit_char (digit_val c) = c"
  by (auto simp: is_digit_def digit_val_def digit_char_def)

fun dec_value :: "nat \<Rightarrow> string \<Rightarrow> nat" where
  "dec_value acc [] = acc"
| "dec_value acc (c # cs) = dec_value (10 * acc + digit_val c) cs"

text \<open>\<open>String(n)\<close> of a natural number.\<close>

fun dec_string :: "nat \<Rightarrow> string" where
  "dec_string n = (if n < 10 then [digit_char n] else dec_string (n div 10) @ [digit_char n])"

declare dec_string.simps [simp del]

lemma dec_value_append: "dec_value a (xs @ ys) = dec_value (dec_value a xs) ys"
  by (induction xs arbitrary: a) auto

lemma dec_value_dec_string [simp]: "dec_value 0 (dec_string n) = n"
proof (induction n rule: dec_string.induct)
  case (1 n)
  show ?case
  proof (cases "n < 10")
    case True
    then show ?thesis by (simp add: dec_string.simps [of n])
  next
    case False
    then show ?thesis
      using 1 by (simp add: dec_string.simps [of n] dec_value_append)
  qed
qed

lemma dec_string_inj: "dec_string m = dec_string n \<longleftrightarrow> m = n"
  by (metis dec_value_dec_string)

section \<open>Regular expressions\<close>

text \<open>
  The expressions of the code are anchored sequences of character classes, so one is a
  list of classes, and \<open>/^...$/.test(s)\<close> compares class by class.
\<close>

fun match_re :: "(char \<Rightarrow> bool) list \<Rightarrow> string \<Rightarrow> bool" where
  "match_re [] [] = True"
| "match_re (p # ps) (c # cs) = (p c \<and> match_re ps cs)"
| "match_re _ _ = False"

definition lit :: "char \<Rightarrow> char \<Rightarrow> bool" where
  "lit a c \<longleftrightarrow> c = a"

lemma match_re_length: "match_re ps s \<Longrightarrow> length s = length ps"
  by (induction ps s rule: match_re.induct) auto

lemma match_re_append:
  "length s = length ps \<Longrightarrow> match_re (ps @ qs) (s @ t) = (match_re ps s \<and> match_re qs t)"
  by (induction ps s rule: match_re.induct) auto

lemma match_re_replicate:
  "match_re (replicate n p) s \<longleftrightarrow> length s = n \<and> (\<forall>c\<in>set s. p c)"
proof (induction n arbitrary: s)
  case 0
  then show ?case by (cases s) auto
next
  case (Suc n)
  then show ?case by (cases s) auto
qed

lemma match_re_map:
  "(\<And>p c. p \<in> set ps \<Longrightarrow> p c \<Longrightarrow> p (f c)) \<Longrightarrow> match_re ps s \<Longrightarrow> match_re ps (map f s)"
  by (induction ps s rule: match_re.induct) auto

lemma match_re_set:
  "match_re ps s \<Longrightarrow> (\<And>p. p \<in> set ps \<Longrightarrow> \<not> p x) \<Longrightarrow> x \<notin> set s"
  by (induction ps s rule: match_re.induct) auto

end
