(* ===== verification/JsValue.thy ===== *)
theory JsValue
  imports JsText
begin

text \<open>
  The values a request body, a query string or a JSON reply can hold: what TypeScript
  calls \<open>unknown\<close>. An object is the list of its own properties in enumeration order,
  with distinct names; reading an absent property gives \<open>undefined\<close>. Numbers are the
  doubles: rationals, the infinities and NaN.
\<close>

datatype jsnum = Fin rat | PosInf | NegInf | NaN

datatype jsval =
    Undefined
  | Null
  | Bool bool
  | Num jsnum
  | Str string
  | Arr "jsval list"
  | Obj "(string \<times> jsval) list"

type_synonym js_object = "(string \<times> jsval) list"

definition js_get :: "js_object \<Rightarrow> string \<Rightarrow> jsval" where
  "js_get ps f = (case map_of ps f of None \<Rightarrow> Undefined | Some v \<Rightarrow> v)"

text \<open>\<open>Object.prototype.hasOwnProperty.call(input, field)\<close>.\<close>

definition has_own :: "js_object \<Rightarrow> string \<Rightarrow> bool" where
  "has_own ps f \<longleftrightarrow> map_of ps f \<noteq> None"

text \<open>\<open>Number.isSafeInteger\<close> on a number, giving the integer.\<close>

definition safe_integer :: "jsnum \<Rightarrow> int option" where
  "safe_integer n =
     (case n of
        Fin r \<Rightarrow> if r = of_int \<lfloor>r\<rfloor> \<and> \<bar>\<lfloor>r\<rfloor>\<bar> \<le> 9007199254740991 then Some \<lfloor>r\<rfloor> else None
      | _ \<Rightarrow> None)"

text \<open>A nullable string as a property value of a payload.\<close>

definition str_or_null :: "string option \<Rightarrow> jsval" where
  "str_or_null s = (case s of None \<Rightarrow> Null | Some t \<Rightarrow> Str t)"

lemma js_get_Nil [simp]: "js_get [] f = Undefined"
  by (simp add: js_get_def)

lemma js_get_Cons [simp]: "js_get ((g, v) # ps) f = (if f = g then v else js_get ps f)"
  by (simp add: js_get_def)

lemma has_own_simps [simp]:
  "has_own [] f = False"
  "has_own ((g, v) # ps) f = (f = g \<or> has_own ps f)"
  by (auto simp: has_own_def)

lemma not_has_own_get: "\<not> has_own ps f \<Longrightarrow> js_get ps f = Undefined"
  by (simp add: has_own_def js_get_def)

lemma safe_integer_of_int [simp]:
  "\<bar>i\<bar> \<le> 9007199254740991 \<Longrightarrow> safe_integer (Fin (of_int i)) = Some i"
  by (simp add: safe_integer_def)

lemma safe_integer_numeral [simp]:
  "safe_integer (Fin (numeral k)) =
     (if (numeral k :: int) \<le> 9007199254740991 then Some (numeral k) else None)"
  "safe_integer (Fin 1) = Some 1"
  "safe_integer (Fin 0) = Some 0"
  by (simp_all add: safe_integer_def)

lemma safe_integer_bounds: "safe_integer n = Some i \<Longrightarrow> \<bar>i\<bar> \<le> 9007199254740991"
  by (auto simp: safe_integer_def split: jsnum.splits if_splits)

end
