(* ===== verification/Domain_Errors.thy ===== *)
theory Domain_Errors
  imports JsValue
begin

text \<open>
  \<open>apps/issue-service-nest/src/domain/errors.ts\<close>: the errors the issue service throws on
  purpose, beside the kinds it does not: a JavaScript \<open>TypeError\<close> and an error of
  the database driver (a constraint of the schema, or a lost connection) or of the Kafka
  producer, with its message, and the framework's \<open>HttpException\<close> with status and message.
\<close>

datatype exn =
    DomainError (err_status: nat) (err_code: string) (err_message: string) (err_details: js_object)
  | TypeError
  | DbError string
  | KafkaError string
  | HttpException nat string

definition validationError :: "string \<Rightarrow> string \<Rightarrow> exn" where
  "validationError field message =
     DomainError 400 ''VALIDATION_ERROR'' ''Request validation failed'' [(field, Str message)]"

definition notFound :: exn where
  "notFound = DomainError 404 ''ISSUE_NOT_FOUND'' ''Issue was not found'' []"

definition concurrentIssueModification :: exn where
  "concurrentIssueModification =
     DomainError 409 ''CONCURRENT_ISSUE_MODIFICATION'' ''Issue changed since it was last loaded'' []"

lemma error_codes [simp]:
  "err_status (validationError f m) = 400" "err_code (validationError f m) = ''VALIDATION_ERROR''"
  "err_status notFound = 404" "err_code notFound = ''ISSUE_NOT_FOUND''"
  "err_status concurrentIssueModification = 409"
  "err_code concurrentIssueModification = ''CONCURRENT_ISSUE_MODIFICATION''"
  by (simp_all add: validationError_def notFound_def concurrentIssueModification_def)

text \<open>\<open>error instanceof DomainError && error.status === 404\<close>.\<close>

definition is_domain_404 :: "exn \<Rightarrow> bool" where
  "is_domain_404 e = (case e of DomainError st _ _ _ \<Rightarrow> st = 404 | _ \<Rightarrow> False)"

lemma is_domain_404_simps [simp]:
  "is_domain_404 (DomainError st c m d) = (st = 404)"
  "is_domain_404 TypeError = False" "is_domain_404 (DbError x) = False"
  "is_domain_404 (KafkaError x) = False" "is_domain_404 (HttpException n x) = False"
  by (simp_all add: is_domain_404_def)

end
