(* ===== verification/Dates.thy ===== *)
theory Dates
  imports JsText
begin

text \<open>
  The part of ECMAScript's \<open>Date\<close> that the validators use: days and milliseconds since
  1970-01-01 in UTC, \<open>Date.parse\<close> of the ISO format, \<open>toISOString\<close>. The definitions are
  those of the language specification (\<open>DayFromYear\<close>, \<open>YearFromTime\<close>, \<open>MakeDay\<close>); like
  the engine under Node, \<open>Date.parse\<close> checks a day only against 1 to 31 and lets a day
  past the end of its month roll over, which is why the code compares the result with
  what it parsed.
\<close>

section \<open>Civil days\<close>

definition leap_year :: "int \<Rightarrow> bool" where
  "leap_year y \<longleftrightarrow> y mod 4 = 0 \<and> (y mod 100 \<noteq> 0 \<or> y mod 400 = 0)"

definition days_in_year :: "int \<Rightarrow> int" where
  "days_in_year y = (if leap_year y then 366 else 365)"

definition day_from_year :: "int \<Rightarrow> int" where
  "day_from_year y = 365 * (y - 1970) + (y - 1969) div 4 - (y - 1901) div 100 + (y - 1601) div 400"

text \<open>The last year that starts no later than the given day.\<close>

definition year_from_day :: "int \<Rightarrow> int" where
  "year_from_day d =
     (let y = 1970 + 400 * d div 146097 in
      if d < day_from_year y then y - 1
      else if day_from_year (y + 1) \<le> d then y + 1 else y)"

definition month_lengths :: "bool \<Rightarrow> int list" where
  "month_lengths leap = [31, if leap then 29 else 28, 31, 30, 31, 30, 31, 31, 30, 31, 30, 31]"

definition days_in_month :: "int \<Rightarrow> nat \<Rightarrow> int" where
  "days_in_month y m = month_lengths (leap_year y) ! (m - 1)"

definition days_before_month :: "bool \<Rightarrow> nat \<Rightarrow> int" where
  "days_before_month leap m = sum_list (take (m - 1) (month_lengths leap))"

text \<open>\<open>MakeDay\<close> for a month from 1 to 12.\<close>

definition make_day :: "int \<Rightarrow> nat \<Rightarrow> int \<Rightarrow> int" where
  "make_day y m d = day_from_year y + days_before_month (leap_year y) m + d - 1"

text \<open>Month and day of the month of a day within its year.\<close>

fun month_day :: "nat \<Rightarrow> int list \<Rightarrow> int \<Rightarrow> nat \<times> int" where
  "month_day m [] d = (m, d + 1)"
| "month_day m (l # ls) d = (if d < l then (m, d + 1) else month_day (Suc m) ls (d - l))"

definition civil_of_day :: "int \<Rightarrow> int \<times> nat \<times> int" where
  "civil_of_day n =
     (let y = year_from_day n;
          md = month_day 1 (month_lengths (leap_year y)) (n - day_from_year y)
      in (y, fst md, snd md))"

definition valid_date :: "int \<Rightarrow> nat \<Rightarrow> int \<Rightarrow> bool" where
  "valid_date y m d \<longleftrightarrow> 1 \<le> m \<and> m \<le> 12 \<and> 1 \<le> d \<and> d \<le> days_in_month y m"

lemma int_div_step:
  fixes x n :: int
  assumes "0 < n"
  shows "(x + 1) div n = x div n + (if (x + 1) mod n = 0 then 1 else 0)"
proof -
  define k r where "k = x div n" and "r = x mod n"
  have x: "x = n * k + r" and r: "0 \<le> r" "r < n"
    using assms by (simp_all add: k_def r_def)
  show ?thesis
  proof (cases "r + 1 = n")
    case True
    then have "x + 1 = n * (k + 1)" using x by (simp add: algebra_simps)
    then show ?thesis using assms by (simp add: k_def)
  next
    case False
    with r have s: "x + 1 = n * k + (r + 1)" "0 \<le> r + 1" "r + 1 < n" using x by auto
    then have "(x + 1) div n = k" "(x + 1) mod n = r + 1"
      by (rule int_div_pos_eq, rule int_mod_pos_eq)
    then show ?thesis using r by (simp add: k_def)
  qed
qed

lemma int_div_bounds:
  fixes x n :: int
  assumes "0 < n"
  shows "n * (x div n) \<le> x" and "x < n * (x div n) + n"
  using assms
   apply (metis add.right_neutral add_left_mono mult_div_mod_eq pos_mod_sign)
  using assms by (metis add.commute add_strict_right_mono mult_div_mod_eq pos_mod_bound)

lemma linear_calendar_bounds:
  fixes w a b c :: int
  assumes "4 * a \<le> w - 1969" "w - 1969 < 4 * a + 4" "100 * b \<le> w - 1901" "w - 1901 < 100 * b + 100"
    "400 * c \<le> w - 1601" "w - 1601 < 400 * c + 400"
  shows "146097 * (w - 1970) - 700 \<le> 400 * (365 * (w - 1970) + a - b + c)"
    and "400 * (365 * (w - 1970) + a - b + c) \<le> 146097 * (w - 1970) + 700"
  using assms by (simp_all add: algebra_simps)


lemma leap_cases:
  "days_in_year y = 365 + (if y mod 4 = 0 then 1 else 0) - (if y mod 100 = 0 then 1 else 0)
      + (if y mod 400 = 0 then 1 else 0)"
proof -
  have d: "400 dvd y \<longrightarrow> 100 dvd y" and e: "100 dvd y \<longrightarrow> 4 dvd y"
    using dvd_trans [of 100 400 y] dvd_trans [of 4 100 y] by simp_all
  show ?thesis unfolding days_in_year_def leap_year_def mod_eq_0_iff_dvd using d e
    by (cases "4 dvd y"; cases "100 dvd y"; cases "400 dvd y") simp_all
qed
lemma century_mods:
 "((y::int) + 1 - 1969) mod 4 = 0 \<longleftrightarrow> y mod 4 = 0"
  "(y + 1 - 1901) mod 100 = 0 \<longleftrightarrow> y mod 100 = 0"
  "(y + 1 - 1601) mod 400 = 0 \<longleftrightarrow> y mod 400 = 0"
  by (simp_all add: mod_eq_0_iff_dvd dvd_diff_left_iff algebra_simps)

lemma day_from_year_Suc: "day_from_year (y + 1) = day_from_year y + days_in_year y"
proof -
  have s: "y + 1 - 1969 = y - 1969 + 1" "y + 1 - 1901 = y - 1901 + 1" "y + 1 - 1601 = y - 1601 + 1"
     by simp_all
  have "(y - 1969 + 1) div 4 = (y - 1969) div 4 + (if y mod 4 = 0 then 1 else 0)"
    using int_div_step [of 4 "y - 1969"]  century_mods(1) [of y] unfolding s by simp
  moreover have "(y - 1901 + 1) div 100 = (y - 1901) div 100 + (if y mod 100 = 0 then 1 else 0)"
    using int_div_step [of 100 "y - 1901"] century_mods(2) [of y] unfolding s by simp
  moreover have "(y - 1601 + 1) div 400 = (y - 1601) div 400 + (if y mod 400 = 0 then 1 else 0)"
    using int_div_step [of 400 "y - 1601"] century_mods(3) [of y] unfolding s by simp
  ultimately show ?thesis
    unfolding day_from_year_def leap_cases s by (simp only: algebra_simps)
qed

lemma day_from_year_less: "day_from_year y < day_from_year (y + 1)"
  by (simp add: day_from_year_Suc days_in_year_def)

lemma day_from_year_mono: "x \<le> y \<Longrightarrow> day_from_year x \<le> day_from_year y"
  by (induction y rule: int_ge_induct) (auto intro: order_trans less_imp_le [OF day_from_year_less])

lemma day_from_year_bounds:
  "146097 * (w - 1970) - 700 \<le> 400 * day_from_year w"
  "400 * day_from_year w \<le> 146097 * (w - 1970) + 700"
  unfolding day_from_year_def by (rule linear_calendar_bounds; rule int_div_bounds; simp)+

lemma year_from_day_spec:
  "day_from_year (year_from_day d) \<le> d \<and> d < day_from_year (year_from_day d + 1)"
proof -
  define z where "z = 1970 + 400 * d div 146097"
  have q: "146097 * (z - 1970) \<le> 400 * d" "400 * d < 146097 * (z - 1970) + 146097"
    using int_div_bounds [of 146097 "400 * d"] by (simp_all add: z_def)
  have lo: "day_from_year (z - 1) \<le> d"
    using day_from_year_bounds(2) [of "z - 1"] q(1) by (simp add: algebra_simps)
  have hi: "d < day_from_year (z + 1 + 1)"
    using day_from_year_bounds(1) [of "z + 1 + 1"] q(2) by (simp add: algebra_simps)
  show ?thesis
    unfolding year_from_day_def z_def [symmetric] Let_def using lo hi by auto
qed

lemma year_from_day_eq:
  assumes lo: "day_from_year y \<le> d" and hi: "d < day_from_year (y + 1)"
  shows "year_from_day d = y"
proof -
  define z where "z = year_from_day d"
  have "day_from_year z \<le> d" "d < day_from_year (z + 1)"
    using year_from_day_spec by (simp_all add: z_def)
  with lo hi have "\<not> z + 1 \<le> y" "\<not> y + 1 \<le> z"
    using day_from_year_mono [of "z + 1" y] day_from_year_mono [of "y + 1" z] by auto
  then show ?thesis by (simp add: z_def)
qed

subsection \<open>Month and day\<close>

lemma month_day_take:
  "\<lbrakk>k < length ls; 0 \<le> d; d < ls ! k; \<forall>l\<in>set ls. 0 \<le> l\<rbrakk>
   \<Longrightarrow> month_day m ls (sum_list (take k ls) + d) = (m + k, d + 1)"
proof (induction ls arbitrary: m k)
  case Nil
  then show ?case by simp
next
  case (Cons l ls)
  show ?case
  proof (cases k)
    case 0
    with Cons.prems show ?thesis by simp
  next
    case (Suc j)
    then have "0 \<le> sum_list (take j ls) + d"
      using Cons.prems by (auto intro!: add_nonneg_nonneg sum_list_nonneg dest: in_set_takeD)
    with Suc Cons show ?thesis by (simp add: algebra_simps)
  qed
qed

lemma month_day_split:
  "\<lbrakk>0 \<le> d; d < sum_list ls\<rbrakk> \<Longrightarrow>
   \<exists>k e. k < length ls \<and> 0 \<le> e \<and> e < ls ! k \<and> d = sum_list (take k ls) + e \<and>
     month_day m ls d = (m + k, e + 1)"
proof (induction ls arbitrary: m d)
  case Nil
  then show ?case by simp
next
  case (Cons l ls)
  show ?case
  proof (cases "d < l")
    case True
    with Cons.prems show ?thesis by (intro exI [of _ 0] exI [of _ d]) simp
  next
    case False
    with Cons.prems Cons.IH [of "d - l" "Suc m"] obtain k e where
      "k < length ls" "0 \<le> e" "e < ls ! k" "d - l = sum_list (take k ls) + e"
      "month_day (Suc m) ls (d - l) = (Suc m + k, e + 1)" by auto
    with False show ?thesis by (intro exI [of _ "Suc k"] exI [of _ e]) simp
  qed
qed

lemma length_month_lengths [simp]: "length (month_lengths b) = 12"
  by (simp add: month_lengths_def)

lemma sum_month_lengths: "sum_list (month_lengths (leap_year y)) = days_in_year y"
  by (simp add: month_lengths_def days_in_year_def)

lemma month_lengths_nonneg: "\<forall>l\<in>set (month_lengths b). 0 \<le> l"
  by (simp add: month_lengths_def)

lemma sum_take_le:
  fixes ls :: "int list"
  shows "\<lbrakk>k < length ls; \<forall>l\<in>set ls. 0 \<le> l\<rbrakk> \<Longrightarrow> sum_list (take k ls) + ls ! k \<le> sum_list ls"
proof (induction ls arbitrary: k)
  case Nil
  then show ?case by simp
next
  case (Cons l ls)
  then show ?case by (cases k) (auto intro: sum_list_nonneg)
qed

text \<open>A real date survives the trip through its day number, and every day is a real date.\<close>

lemma civil_of_make_day:
  assumes "valid_date y m d"
  shows "civil_of_day (make_day y m d) = (y, m, d)"
proof -
  let ?ls = "month_lengths (leap_year y)"
  from assms have m: "m - 1 < length ?ls" "1 \<le> m" and d: "0 \<le> d - 1" "d - 1 < ?ls ! (m - 1)"
    by (auto simp: valid_date_def days_in_month_def)
  have pos: "0 \<le> sum_list (take (m - 1) ?ls)"
    using month_lengths_nonneg by (auto intro!: sum_list_nonneg dest: in_set_takeD)
  have le: "sum_list (take (m - 1) ?ls) + ?ls ! (m - 1) \<le> days_in_year y"
    using sum_take_le [OF m(1) month_lengths_nonneg] by (simp add: sum_month_lengths)
  have md: "make_day y m d = day_from_year y + (sum_list (take (m - 1) ?ls) + (d - 1))"
    by (simp add: make_day_def days_before_month_def)
  have "year_from_day (make_day y m d) = y"
    using pos le d unfolding md by (intro year_from_day_eq) (auto simp: day_from_year_Suc)
  then show ?thesis
    using month_day_take [OF m(1) d month_lengths_nonneg, of 1] m(2)
    by (simp add: civil_of_day_def Let_def md)
qed

lemma make_day_of_civil:
  assumes "civil_of_day n = (y, m, d)"
  shows "valid_date y m d" and "make_day y m d = n"
proof -
  let ?ls = "month_lengths (leap_year y)"
  from assms have y: "y = year_from_day n"
    and md: "(m, d) = month_day 1 ?ls (n - day_from_year y)"
    by (auto simp: civil_of_day_def Let_def)
  have "0 \<le> n - day_from_year y" "n - day_from_year y < sum_list ?ls"
    using year_from_day_spec [of n] unfolding sum_month_lengths y
    by (auto simp: day_from_year_Suc)
  from month_day_split [OF this, of 1] obtain k e where
    k: "k < length ?ls" "0 \<le> e" "e < ?ls ! k" "n - day_from_year y = sum_list (take k ?ls) + e"
      "m = 1 + k" "d = e + 1" using md by auto
  then show "valid_date y m d" by (simp add: valid_date_def days_in_month_def)
  from k show "make_day y m d = n" by (simp add: make_day_def days_before_month_def)
qed

section \<open>The ISO format\<close>

definition slice :: "nat \<Rightarrow> nat \<Rightarrow> string \<Rightarrow> string" where
  "slice a b s = take (b - a) (drop a s)"

definition pad2 :: "nat \<Rightarrow> string" where
  "pad2 n = [digit_char (n div 10), digit_char n]"

definition pad3 :: "nat \<Rightarrow> string" where
  "pad3 n = digit_char (n div 100) # pad2 n"

definition pad4 :: "nat \<Rightarrow> string" where
  "pad4 n = digit_char (n div 1000) # pad3 n"

definition pad6 :: "nat \<Rightarrow> string" where
  "pad6 n = pad3 (n div 1000) @ pad3 n"

text \<open>Years outside 0 to 9999 are written with a sign and six digits.\<close>

definition iso_year :: "int \<Rightarrow> string" where
  "iso_year y =
     (if 0 \<le> y \<and> y \<le> 9999 then pad4 (nat y)
      else (if y < 0 then CHR ''-'' else CHR ''+'') # pad6 (nat \<bar>y\<bar>))"

definition iso_date :: "int \<Rightarrow> string" where
  "iso_date n =
     (case civil_of_day n of (y, m, d) \<Rightarrow>
        iso_year y @ CHR ''-'' # pad2 m @ CHR ''-'' # pad2 (nat d))"

definition ms_per_day :: int where
  "ms_per_day = 86400000"

text \<open>\<open>Date.prototype.toISOString\<close> of a time in milliseconds.\<close>

definition to_iso_string :: "int \<Rightarrow> string" where
  "to_iso_string t =
     (let ms = nat (t mod ms_per_day) in
      iso_date (t div ms_per_day) @ CHR ''T'' #
      pad2 (ms div 3600000) @ CHR '':'' # pad2 (ms div 60000 mod 60) @ CHR '':'' #
      pad2 (ms div 1000 mod 60) @ CHR ''.'' # pad3 (ms mod 1000) @ ''Z'')"

text \<open>
  \<open>Date.parse\<close> of a text \<open>YYYY-MM-DDTHH:MM:SS.fff...Z\<close>; digits of the fraction after
  the third are dropped.
\<close>

definition date_parse :: "string \<Rightarrow> int option" where
  "date_parse s =
     (let num = (\<lambda>a b. dec_value 0 (slice a b s));
          y = num 0 4; mo = num 5 7; d = num 8 10;
          h = num 11 13; mi = num 14 16; sec = num 17 19; ms = num 20 23
      in if 1 \<le> mo \<and> mo \<le> 12 \<and> 1 \<le> d \<and> d \<le> 31 \<and>
            (h \<le> 23 \<or> h = 24 \<and> mi = 0 \<and> sec = 0 \<and> ms = 0) \<and> mi \<le> 59 \<and> sec \<le> 59
         then Some (make_day (int y) mo (int d) * ms_per_day
                    + int (((h * 60 + mi) * 60 + sec) * 1000 + ms))
         else None)"

subsection \<open>Digits\<close>

lemma two_digits:
  assumes "is_digit a" "is_digit b"
  shows "pad2 (dec_value 0 [a, b]) = [a, b]"
proof -
  have "(10 * digit_val a + digit_val b) div 10 = digit_val a"
    using digit_val_less [OF assms(2)] by simp
  moreover have "digit_char (10 * digit_val a + digit_val b) = b"
    using digit_val_less [OF assms(2)] digit_char_digit_val [OF assms(2)]
    by (simp add: digit_char_def)
  ultimately show ?thesis using assms by (simp add: pad2_def digit_char_digit_val)
qed

lemma digit_char_mod: "digit_char (10 * n + k) = digit_char k"
  by (simp add: digit_char_def)

lemma pad2_mod: "pad2 (100 * n + k) = pad2 k"
proof -
  have "(100 * n + k) div 10 = 10 * n + k div 10" by simp
  moreover have "100 * n + k = 10 * (10 * n) + k" by simp
  ultimately show ?thesis unfolding pad2_def by (metis digit_char_mod)
qed

lemma dec_value_2: "is_digit a \<Longrightarrow> is_digit b \<Longrightarrow> dec_value 0 [a, b] < 100"
  using digit_val_less [of a] digit_val_less [of b] by simp

lemma three_digits:
  assumes "is_digit a" "is_digit b" "is_digit c"
  shows "pad3 (dec_value 0 [a, b, c]) = [a, b, c]"
proof -
  have e: "dec_value 0 [a, b, c] = 100 * digit_val a + dec_value 0 [b, c]" by simp
  have "(100 * digit_val a + dec_value 0 [b, c]) div 100 = digit_val a"
    using dec_value_2 [OF assms(2,3)] by simp
  then show ?thesis
    unfolding pad3_def e by (simp only: pad2_mod two_digits assms digit_char_digit_val)
qed

lemma dec_value_3: "is_digit a \<Longrightarrow> is_digit b \<Longrightarrow> is_digit c \<Longrightarrow> dec_value 0 [a, b, c] < 1000"
  using digit_val_less [of a] digit_val_less [of b] digit_val_less [of c] by simp

lemma pad3_mod: "pad3 (1000 * n + k) = pad3 k"
proof -
  have "(1000 * n + k) div 100 = 10 * n + k div 100" by simp
  moreover have "1000 * n + k = 100 * (10 * n) + k" by simp
  ultimately show ?thesis unfolding pad3_def by (metis digit_char_mod pad2_mod)
qed

lemma four_digits:
  assumes "is_digit a" "is_digit b" "is_digit c" "is_digit d"
  shows "pad4 (dec_value 0 [a, b, c, d]) = [a, b, c, d]"
proof -
  have e: "dec_value 0 [a, b, c, d] = 1000 * digit_val a + dec_value 0 [b, c, d]" by simp
  have "(1000 * digit_val a + dec_value 0 [b, c, d]) div 1000 = digit_val a"
    using dec_value_3 [OF assms(2,3,4)] by simp
  then show ?thesis
    unfolding pad4_def e by (simp only: pad3_mod three_digits assms digit_char_digit_val)
qed

lemma length_pads [simp]: "length (pad2 n) = 2" "length (pad3 n) = 3" "length (pad4 n) = 4"
  by (simp_all add: pad2_def pad3_def pad4_def)

lemma dec_value_pad2: "n < 100 \<Longrightarrow> dec_value 0 (pad2 n) = n"
  by (simp add: pad2_def)

lemma dec_value_pad3: "n < 1000 \<Longrightarrow> dec_value 0 (pad3 n) = n"
proof -
  assume n: "n < 1000"
  have "dec_value 0 (pad3 n) = 100 * (n div 100 mod 10) + (10 * (n div 10 mod 10) + n mod 10)"
    by (simp add: pad3_def pad2_def)
  moreover have "10 * (n div 10 mod 10) + n mod 10 = n mod 100"
    using mod_mult2_eq [of n 10 10] by simp
  moreover have "n div 100 mod 10 = n div 100" using n by simp
  ultimately show ?thesis by simp
qed

lemma dec_value_pad3_acc: "dec_value a (pad3 k) = 1000 * a + dec_value 0 (pad3 k)"
  unfolding pad3_def pad2_def dec_value.simps digit_val_digit_char by (simp only: algebra_simps)

lemma pad4_split: "r < 1000 \<Longrightarrow> pad4 (1000 * q + r) = digit_char q # pad3 r"
proof -
  assume "r < 1000"
  then have "(1000 * q + r) div 1000 = q" by simp
  then show ?thesis unfolding pad4_def by (simp only: pad3_mod)
qed

lemma dec_value_pad4_split:
  assumes "q < 10" "r < 1000"
  shows "dec_value 0 (pad4 (1000 * q + r)) = 1000 * q + r"
proof -
  have "dec_value 0 (pad4 (1000 * q + r)) = dec_value q (pad3 r)"
    using assms by (simp add: pad4_split)
  also have "\<dots> = 1000 * q + r"
    unfolding dec_value_pad3_acc [of q] dec_value_pad3 [OF assms(2)] ..
  finally show ?thesis .
qed

lemma dec_value_pad4: "n < 10000 \<Longrightarrow> dec_value 0 (pad4 n) = n"
proof -
  assume "n < 10000"
  then have "n div 1000 < 10" by (simp add: less_mult_imp_div_less)
  then have "dec_value 0 (pad4 (1000 * (n div 1000) + n mod 1000)) = 1000 * (n div 1000) + n mod 1000"
    by (rule dec_value_pad4_split) simp
  then show ?thesis by (simp only: mult_div_mod_eq)
qed

text \<open>A list of known length, spelled out.\<close>

lemma length_2E: "length s = 2 \<Longrightarrow> \<exists>a b. s = [a, b]"
  by (auto simp: numeral_2_eq_2 length_Suc_conv)

lemma length_3E: "length s = 3 \<Longrightarrow> \<exists>a b c. s = [a, b, c]"
  by (auto simp: numeral_3_eq_3 length_Suc_conv)

lemma length_4E: "length s = 4 \<Longrightarrow> \<exists>a b c d. s = [a, b, c, d]"
  by (auto simp: eval_nat_numeral length_Suc_conv)

lemma pad2_dec_value: "length s = 2 \<Longrightarrow> \<forall>c\<in>set s. is_digit c \<Longrightarrow> pad2 (dec_value 0 s) = s"
  by (drule length_2E) (auto simp del: dec_value.simps simp: two_digits)

lemma pad3_dec_value: "length s = 3 \<Longrightarrow> \<forall>c\<in>set s. is_digit c \<Longrightarrow> pad3 (dec_value 0 s) = s"
  by (drule length_3E) (auto simp del: dec_value.simps simp: three_digits)

lemma pad4_dec_value: "length s = 4 \<Longrightarrow> \<forall>c\<in>set s. is_digit c \<Longrightarrow> pad4 (dec_value 0 s) = s"
  by (drule length_4E) (auto simp del: dec_value.simps simp: four_digits)

lemma dec_value_bound: "\<forall>c\<in>set s. is_digit c \<Longrightarrow> dec_value 0 s < 10 ^ length s"
proof (induction s rule: rev_induct)
  case Nil
  then show ?case by simp
next
  case (snoc c s)
  then have "dec_value 0 s < 10 ^ length s" "digit_val c < 10"
    by (auto simp: digit_val_less)
  then show ?case by (simp add: dec_value_append)
qed

lemma pad2_eq_iff:
  "\<lbrakk>n < 100; length s = 2; \<forall>c\<in>set s. is_digit c\<rbrakk> \<Longrightarrow> pad2 n = s \<longleftrightarrow> n = dec_value 0 s"
  by (metis dec_value_pad2 pad2_dec_value)

lemma pad3_eq_iff:
  "\<lbrakk>n < 1000; length s = 3; \<forall>c\<in>set s. is_digit c\<rbrakk> \<Longrightarrow> pad3 n = s \<longleftrightarrow> n = dec_value 0 s"
  by (metis dec_value_pad3 pad3_dec_value)

lemma pad4_eq_iff:
  "\<lbrakk>n < 10000; length s = 4; \<forall>c\<in>set s. is_digit c\<rbrakk> \<Longrightarrow> pad4 n = s \<longleftrightarrow> n = dec_value 0 s"
  by (metis dec_value_pad4 pad4_dec_value)

subsection \<open>Which texts name a real date\<close>

definition digits :: "nat \<Rightarrow> string \<Rightarrow> bool" where
  "digits n s \<longleftrightarrow> length s = n \<and> (\<forall>c\<in>set s. is_digit c)"

lemma digits_length: "digits n s \<Longrightarrow> length s = n"
  by (simp add: digits_def)

lemma match_re_digits: "match_re (replicate n is_digit) s = digits n s"
  by (simp add: match_re_replicate digits_def)

definition date_text :: "string \<Rightarrow> string \<Rightarrow> string \<Rightarrow> string" where
  "date_text Y M D = Y @ CHR ''-'' # M @ CHR ''-'' # D"

lemma days_in_month_bounds: "1 \<le> m \<Longrightarrow> m \<le> 12 \<Longrightarrow> 28 \<le> days_in_month y m \<and> days_in_month y m \<le> 31"
proof -
  assume "1 \<le> m" "m \<le> 12"
  then have "month_lengths (leap_year y) ! (m - 1) \<in> set (month_lengths (leap_year y))"
    by (intro nth_mem) simp
  moreover have "\<forall>l\<in>set (month_lengths (leap_year y)). 28 \<le> l \<and> l \<le> 31"
    by (simp add: month_lengths_def)
  ultimately show ?thesis unfolding days_in_month_def by blast
qed

lemma iso_date_prefix:
  assumes "digits 4 Y" "digits 2 M" "digits 2 D"
  shows "take 10 (iso_date n @ r) = date_text Y M D \<longleftrightarrow>
    civil_of_day n = (int (dec_value 0 Y), dec_value 0 M, int (dec_value 0 D))"
proof -
  obtain y m d where c: "civil_of_day n = (y, m, d)" by (cases "civil_of_day n") auto
  have v: "1 \<le> m" "m \<le> 12" "1 \<le> d" "d \<le> 31"
    using make_day_of_civil(1) [OF c] days_in_month_bounds [of m y] by (auto simp: valid_date_def)
  have dY: "dec_value 0 Y < 10000" "length Y = 4" "\<forall>c\<in>set Y. is_digit c"
    using assms(1) dec_value_bound [of Y] by (auto simp: digits_def)
  have dM: "length M = 2" "\<forall>c\<in>set M. is_digit c" "length D = 2" "\<forall>c\<in>set D. is_digit c"
    using assms by (auto simp: digits_def)
  have iso: "iso_date n = iso_year y @ CHR ''-'' # pad2 m @ CHR ''-'' # pad2 (nat d)"
    by (simp add: iso_date_def c)
  show ?thesis
  proof (cases "0 \<le> y \<and> y \<le> 9999")
    case True
    then have ny: "nat y < 10000" "nat d < 100" using v by auto
    from True have yr: "iso_year y = pad4 (nat y)" by (simp add: iso_year_def)
    have "take 10 (iso_date n @ r) = date_text (pad4 (nat y)) (pad2 m) (pad2 (nat d))"
      by (simp add: iso yr date_text_def)
    also have "\<dots> = date_text Y M D \<longleftrightarrow> pad4 (nat y) = Y \<and> pad2 m = M \<and> pad2 (nat d) = D"
      using dY dM by (simp add: date_text_def)
    also have "\<dots> \<longleftrightarrow> nat y = dec_value 0 Y \<and> m = dec_value 0 M \<and> nat d = dec_value 0 D"
      using pad4_eq_iff [of "nat y" Y] pad2_eq_iff [of m M] pad2_eq_iff [of "nat d" D] v dY dM ny
      by simp
    finally show ?thesis using True v by (auto simp: c)
  next
    case False
    then have "\<not> is_digit (hd (iso_year y))" and ne: "iso_year y \<noteq> []"
      by (auto simp: iso_year_def is_digit_def code_def)
    moreover have "is_digit (hd Y)" "Y \<noteq> []" using dY by (cases Y; auto)+
    ultimately have "hd (take 10 (iso_date n @ r)) \<noteq> hd (date_text Y M D)"
      by (auto simp: iso date_text_def hd_append)
    then show ?thesis using False dY by (auto simp: c)
  qed
qed

text \<open>A full timestamp: date, hour, minute, second, and the fraction with what follows it.\<close>

definition ts_text ::
    "string \<Rightarrow> string \<Rightarrow> string \<Rightarrow> string \<Rightarrow> string \<Rightarrow> string \<Rightarrow> string \<Rightarrow> string" where
  "ts_text Y M D h mi sec f =
     date_text Y M D @ CHR ''T'' # h @ CHR '':'' # mi @ CHR '':'' # sec @ CHR ''.'' # f"

definition clock_ms :: "nat \<Rightarrow> nat \<Rightarrow> nat \<Rightarrow> nat \<Rightarrow> nat" where
  "clock_ms h mi sec ms = ((h * 60 + mi) * 60 + sec) * 1000 + ms"

lemma date_parse_ts_text:
  assumes "digits 4 Y" "digits 2 M" "digits 2 D" "digits 2 h" "digits 2 mi" "digits 2 sec" "digits 3 f"
  shows "date_parse (ts_text Y M D h mi sec (f @ r)) =
    (let H = dec_value 0 h; MI = dec_value 0 mi; S = dec_value 0 sec; F = dec_value 0 f;
         m = dec_value 0 M; d = dec_value 0 D
     in if 1 \<le> m \<and> m \<le> 12 \<and> 1 \<le> d \<and> d \<le> 31 \<and>
           (H \<le> 23 \<or> H = 24 \<and> MI = 0 \<and> S = 0 \<and> F = 0) \<and> MI \<le> 59 \<and> S \<le> 59
        then Some (make_day (int (dec_value 0 Y)) m (int d) * ms_per_day + int (clock_ms H MI S F))
        else None)"
proof -
  let ?s = "ts_text Y M D h mi sec (f @ r)"
  have len: "length Y = 4" "length M = 2" "length D = 2" "length h = 2" "length mi = 2"
      "length sec = 2" "length f = 3"
    using assms by (auto simp: digits_def)
  have "slice 0 4 ?s = Y" "slice 5 7 ?s = M" "slice 8 10 ?s = D" "slice 11 13 ?s = h"
      "slice 14 16 ?s = mi" "slice 17 19 ?s = sec" "slice 20 23 ?s = f"
    by (simp_all add: slice_def ts_text_def date_text_def len)
  then show ?thesis by (simp only: date_parse_def Let_def clock_ms_def)
qed

lemma clock_ms_fields:
  assumes "mi < 60" "sec < 60" "ms < 1000"
  shows "clock_ms h mi sec ms div 3600000 = h" "clock_ms h mi sec ms div 60000 mod 60 = mi"
    "clock_ms h mi sec ms div 1000 mod 60 = sec" "clock_ms h mi sec ms mod 1000 = ms"
proof -
  have a: "clock_ms h mi sec ms div 1000 = (h * 60 + mi) * 60 + sec"
    using assms(3) by (simp add: clock_ms_def)
  have b: "clock_ms h mi sec ms div 60000 = h * 60 + mi"
    using a assms(2) div_mult2_eq [of "clock_ms h mi sec ms" 1000 60] by simp
  have c: "clock_ms h mi sec ms div 3600000 = h"
    using b assms(1) div_mult2_eq [of "clock_ms h mi sec ms" 60000 60] by simp
  show "clock_ms h mi sec ms div 3600000 = h" "clock_ms h mi sec ms div 60000 mod 60 = mi"
    "clock_ms h mi sec ms div 1000 mod 60 = sec" "clock_ms h mi sec ms mod 1000 = ms"
    unfolding a b c unfolding clock_ms_def using assms by (simp_all only: mod_mult_self3 mod_less)
qed

lemma clock_ms_less: "\<lbrakk>h < 24; mi < 60; sec < 60; ms < 1000\<rbrakk> \<Longrightarrow> clock_ms h mi sec ms < 86400000"
  by (simp add: clock_ms_def)

lemma day_and_clock:
  assumes "c < 86400000"
  shows "(n * ms_per_day + int c) div ms_per_day = n" "(n * ms_per_day + int c) mod ms_per_day = int c"
  using assms by (simp_all add: ms_per_day_def)

lemma to_iso_string_split:
  assumes "h < 24" "mi < 60" "sec < 60" "ms < 1000"
  shows "to_iso_string (n * ms_per_day + int (clock_ms h mi sec ms)) =
    iso_date n @ CHR ''T'' # pad2 h @ CHR '':'' # pad2 mi @ CHR '':'' # pad2 sec @ CHR ''.'' # pad3 ms @ ''Z''"
  unfolding to_iso_string_def Let_def day_and_clock [OF clock_ms_less [OF assms]] nat_int
  by (simp only: clock_ms_fields [OF assms(2,3,4)])

text \<open>
  The comparison the validators make: a text of the ISO shape survives parsing and
  printing exactly if it names a real date and time of day.
\<close>

theorem timestamp_survives_iff:
  assumes dg: "digits 4 Y" "digits 2 M" "digits 2 D" "digits 2 h" "digits 2 mi" "digits 2 sec" "digits 3 f"
  shows "(\<exists>t. date_parse (ts_text Y M D h mi sec (f @ r)) = Some t \<and>
          take 23 (to_iso_string t) = take 23 (ts_text Y M D h mi sec (f @ r))) \<longleftrightarrow>
    valid_date (int (dec_value 0 Y)) (dec_value 0 M) (int (dec_value 0 D)) \<and>
    dec_value 0 h < 24 \<and> dec_value 0 mi < 60 \<and> dec_value 0 sec < 60"
    (is "?L \<longleftrightarrow> ?R")
proof
  let ?y = "int (dec_value 0 Y)" and ?m = "dec_value 0 M" and ?d = "int (dec_value 0 D)"
  let ?n = "make_day ?y ?m ?d"
  have f: "dec_value 0 f < 1000" using dec_value_bound [of f] dg(7) by (simp add: digits_def)
  have len: "length Y = 4" "length M = 2" "length D = 2" "length h = 2" "length mi = 2"
      "length sec = 2" "length f = 3"
    using dg by (auto simp: digits_def)
  have t23: "take 23 (ts_text Y M D h mi sec (f @ r)) =
      date_text Y M D @ CHR ''T'' # h @ CHR '':'' # mi @ CHR '':'' # sec @ CHR ''.'' # f"
    by (simp add: ts_text_def date_text_def len)
  show "?L \<Longrightarrow> ?R"
  proof -
    assume ?L
    then obtain t where t: "date_parse (ts_text Y M D h mi sec (f @ r)) = Some t"
      and eq: "take 23 (to_iso_string t) = take 23 (ts_text Y M D h mi sec (f @ r))" by blast
    from eq have "take 10 (take 23 (to_iso_string t)) = take 10 (date_text Y M D @ CHR ''T'' # h @ CHR '':'' # mi @ CHR '':'' # sec @ CHR ''.'' # f)"
      by (simp add: t23)
    then have "take 10 (to_iso_string t) = date_text Y M D"
      by (simp add: date_text_def len min_def)
    then have civ: "civil_of_day (t div ms_per_day) = (?y, ?m, ?d)"
      unfolding to_iso_string_def Let_def iso_date_prefix [OF dg(1,2,3)] .
    note day = make_day_of_civil [OF civ]
    from t have p: "dec_value 0 h \<le> 23 \<or>
        dec_value 0 h = 24 \<and> dec_value 0 mi = 0 \<and> dec_value 0 sec = 0 \<and> dec_value 0 f = 0"
      "dec_value 0 mi \<le> 59" "dec_value 0 sec \<le> 59"
      "t = ?n * ms_per_day + int (clock_ms (dec_value 0 h) (dec_value 0 mi) (dec_value 0 sec) (dec_value 0 f))"
      unfolding date_parse_ts_text [OF dg] Let_def by (simp_all split: if_splits)
    have "dec_value 0 h \<noteq> 24"
    proof
      assume "dec_value 0 h = 24"
      with p have "t = (?n + 1) * ms_per_day" by (simp add: clock_ms_def ms_per_day_def)
      then have "t div ms_per_day = ?n + 1" by (simp add: ms_per_day_def)
      with day(2) show False by simp
    qed
    with p day(1) show ?R by auto
  qed
  show "?R \<Longrightarrow> ?L"
  proof -
    assume R: ?R
    then have bounds: "1 \<le> ?m" "?m \<le> 12" "1 \<le> ?d" "?d \<le> 31"
      using days_in_month_bounds [of ?m ?y] by (auto simp: valid_date_def)
    let ?t = "?n * ms_per_day + int (clock_ms (dec_value 0 h) (dec_value 0 mi) (dec_value 0 sec) (dec_value 0 f))"
    have "date_parse (ts_text Y M D h mi sec (f @ r)) = Some ?t"
      unfolding date_parse_ts_text [OF dg] Let_def using R bounds by simp
    moreover have "take 10 (iso_date ?n @ []) = date_text Y M D"
      unfolding iso_date_prefix [OF dg(1,2,3)] using R by (intro civil_of_make_day) simp
    moreover have "length (iso_date ?n) = 10"
      using civil_of_make_day [of ?y ?m ?d] R dec_value_bound [of Y] dg(1)
      by (simp add: iso_date_def iso_year_def digits_def)
    ultimately have iso: "iso_date ?n = date_text Y M D" by simp
    have "to_iso_string ?t = date_text Y M D @ CHR ''T'' # h @ CHR '':'' # mi @ CHR '':'' # sec @ CHR ''.'' # f @ ''Z''"
      using R f dg by (subst to_iso_string_split) (simp_all add: iso pad2_dec_value pad3_dec_value digits_def)
    then have "take 23 (to_iso_string ?t) = take 23 (ts_text Y M D h mi sec (f @ r))"
      unfolding t23 by (simp add: date_text_def len)
    then show ?L using \<open>date_parse _ = Some ?t\<close> by blast
  qed
qed

text \<open>The same for a date alone, read at midnight.\<close>

theorem date_survives_iff:
  assumes dg: "digits 4 Y" "digits 2 M" "digits 2 D"
  shows "(\<exists>t. date_parse (date_text Y M D @ ''T00:00:00.000Z'') = Some t \<and>
          take 10 (to_iso_string t) = date_text Y M D) \<longleftrightarrow>
    valid_date (int (dec_value 0 Y)) (dec_value 0 M) (int (dec_value 0 D))"
    (is "?L \<longleftrightarrow> ?R")
proof -
  let ?y = "int (dec_value 0 Y)" and ?m = "dec_value 0 M" and ?d = "int (dec_value 0 D)"
  have z: "digits 2 ''00''" "digits 3 ''000''"
    by (simp_all add: digits_def is_digit_def code_def)
  have dv: "dec_value 0 ''00'' = 0" "dec_value 0 ''000'' = 0"
    by (simp_all add: digit_val_def code_def)
  have "date_text Y M D @ ''T00:00:00.000Z'' = ts_text Y M D ''00'' ''00'' ''00'' (''000'' @ ''Z'')"
    by (simp add: ts_text_def)
  then have parse: "date_parse (date_text Y M D @ ''T00:00:00.000Z'') =
      (if 1 \<le> ?m \<and> ?m \<le> 12 \<and> 1 \<le> ?d \<and> ?d \<le> 31 then Some (make_day ?y ?m ?d * ms_per_day) else None)"
    by (simp only: date_parse_ts_text [OF dg z(1) z(1) z(1) z(2)] Let_def dv clock_ms_def) simp
  have "take 10 (to_iso_string (make_day ?y ?m ?d * ms_per_day)) = date_text Y M D \<longleftrightarrow>
      civil_of_day (make_day ?y ?m ?d) = (?y, ?m, ?d)"
    unfolding to_iso_string_def Let_def iso_date_prefix [OF dg] by (simp add: ms_per_day_def)
  moreover have "civil_of_day (make_day ?y ?m ?d) = (?y, ?m, ?d) \<longleftrightarrow> ?R"
    using civil_of_make_day make_day_of_civil(1) by blast
  moreover have "?R \<Longrightarrow> 1 \<le> ?m \<and> ?m \<le> 12 \<and> 1 \<le> ?d \<and> ?d \<le> 31"
    using days_in_month_bounds [of ?m ?y] by (auto simp: valid_date_def)
  ultimately show ?thesis unfolding parse by auto
qed

end
