(* ===== verification/Issue_Domain.thy ===== *)
theory Issue_Domain
  imports Domain_Errors Dates
begin

text \<open>
  \<open>apps/issue-service-nest/src/domain/issue.ts\<close>: the issue's data, the validators of
  request values and the workflow. A string-literal union is a datatype, and the list of
  its allowed literals pairs each literal with its constructor. A JavaScript \<open>Date\<close> is
  its time in milliseconds.
\<close>

section \<open>Data\<close>

datatype issue_type = TASK | BUG | STORY
datatype issue_priority = LOW | MEDIUM | HIGH | CRITICAL
datatype issue_status = TODO | IN_PROGRESS | DONE

definition ISSUE_TYPES :: "(string \<times> issue_type) list" where
  "ISSUE_TYPES = [(''TASK'', TASK), (''BUG'', BUG), (''STORY'', STORY)]"

definition ISSUE_PRIORITIES :: "(string \<times> issue_priority) list" where
  "ISSUE_PRIORITIES = [(''LOW'', LOW), (''MEDIUM'', MEDIUM), (''HIGH'', HIGH), (''CRITICAL'', CRITICAL)]"

definition ISSUE_STATUSES :: "(string \<times> issue_status) list" where
  "ISSUE_STATUSES = [(''TODO'', TODO), (''IN_PROGRESS'', IN_PROGRESS), (''DONE'', DONE)]"

fun type_name :: "issue_type \<Rightarrow> string" where
  "type_name TASK = ''TASK''"
| "type_name BUG = ''BUG''"
| "type_name STORY = ''STORY''"

fun priority_name :: "issue_priority \<Rightarrow> string" where
  "priority_name LOW = ''LOW''"
| "priority_name MEDIUM = ''MEDIUM''"
| "priority_name HIGH = ''HIGH''"
| "priority_name CRITICAL = ''CRITICAL''"

fun status_name :: "issue_status \<Rightarrow> string" where
  "status_name TODO = ''TODO''"
| "status_name IN_PROGRESS = ''IN_PROGRESS''"
| "status_name DONE = ''DONE''"

text \<open>A transition that has passed the workflow check.\<close>

record validated_transition =
  vt_from :: issue_status
  vt_to :: issue_status

record issue =
  i_id :: string
  i_projectId :: string
  i_number :: int
  i_key :: string
  i_summary :: string
  i_description :: "string option"
  i_type :: issue_type
  i_priority :: issue_priority
  i_status :: issue_status
  i_reporterUserId :: string
  i_assigneeUserId :: "string option"
  i_epicId :: "string option"
  i_sprintId :: "string option"
  i_version :: int
  i_createdAt :: int
  i_updatedAt :: int

record issue_comment =
  c_id :: string
  c_issueId :: string
  c_authorUserId :: string
  c_body :: string
  c_createdAt :: int
  c_updatedAt :: int

record issue_history =
  h_id :: string
  h_issueId :: string
  h_actorUserId :: string
  h_action :: string
  h_fromValue :: jsval
  h_toValue :: jsval
  h_createdAt :: int

section \<open>Validators\<close>

definition requiredText :: "jsval \<Rightarrow> string \<Rightarrow> nat \<Rightarrow> exn + string" where
  "requiredText value field maxLength =
     (case value of
        Str s \<Rightarrow>
          if length (trim s) = 0 then Inl (validationError field (field @ '' is required''))
          else if length (trim s) > maxLength
          then Inl (validationError field
                 (field @ '' must be '' @ dec_string maxLength @ '' characters or fewer''))
          else Inr (trim s)
      | _ \<Rightarrow> Inl (validationError field (field @ '' is required'')))"

definition optionalText :: "jsval \<Rightarrow> string \<Rightarrow> nat \<Rightarrow> exn + string option" where
  "optionalText value field maxLength =
     (case value of
        Undefined \<Rightarrow> Inr None
      | Null \<Rightarrow> Inr None
      | Str s \<Rightarrow> if length (trim s) = 0 then Inr None
                 else map_result Some (requiredText value field maxLength)
      | _ \<Rightarrow> map_result Some (requiredText value field maxLength))"

definition enumValue :: "jsval \<Rightarrow> string \<Rightarrow> (string \<times> 'a) list \<Rightarrow> exn + 'a" where
  "enumValue value field allowed =
     (case value of
        Str s \<Rightarrow>
          (case map_of allowed (toUpperCase (trim s)) of
             None \<Rightarrow> Inl (validationError field
                       (field @ '' must be one of '' @ join '', '' (map fst allowed)))
           | Some a \<Rightarrow> Inr a)
      | _ \<Rightarrow> Inl (validationError field (field @ '' is required'')))"

text \<open>The expression of \<open>uuid\<close>; its flag \<open>i\<close> lets either case of a letter match.\<close>

definition hex_digit :: "char \<Rightarrow> bool" where
  "hex_digit c \<longleftrightarrow> is_digit c \<or> 97 \<le> code c \<and> code c \<le> 102 \<or> 65 \<le> code c \<and> code c \<le> 70"

definition uuid_version :: "char \<Rightarrow> bool" where
  "uuid_version c \<longleftrightarrow> 49 \<le> code c \<and> code c \<le> 53"

definition uuid_variant :: "char \<Rightarrow> bool" where
  "uuid_variant c \<longleftrightarrow> code c \<in> {56, 57, 97, 98, 65, 66}"

definition UUID_RE :: "(char \<Rightarrow> bool) list" where
  "UUID_RE =
     replicate 8 hex_digit @ lit CHR ''-'' # replicate 4 hex_digit @ lit CHR ''-'' #
     uuid_version # replicate 3 hex_digit @ lit CHR ''-'' #
     uuid_variant # replicate 3 hex_digit @ lit CHR ''-'' # replicate 12 hex_digit"

definition uuid :: "jsval \<Rightarrow> string \<Rightarrow> exn + string" where
  "uuid value field =
     (case value of
        Str s \<Rightarrow> if match_re UUID_RE s then Inr (toLowerCase s)
                 else Inl (validationError field (field @ '' must be a valid UUID''))
      | _ \<Rightarrow> Inl (validationError field (field @ '' must be a valid UUID'')))"

definition optionalUuid :: "jsval \<Rightarrow> string \<Rightarrow> exn + string option" where
  "optionalUuid value field =
     (if value = Undefined \<or> value = Null \<or> value = Str [] then Inr None
      else map_result Some (uuid value field))"

section \<open>The workflow\<close>

fun transitions :: "issue_status \<Rightarrow> issue_status list" where
  "transitions TODO = [IN_PROGRESS]"
| "transitions IN_PROGRESS = [TODO, DONE]"
| "transitions DONE = [IN_PROGRESS]"

definition assertTransition :: "issue_status \<Rightarrow> issue_status \<Rightarrow> exn + validated_transition" where
  "assertTransition from to =
     (if from = to \<or> to \<notin> set (transitions from)
      then Inl (DomainError 409 ''INVALID_ISSUE_TRANSITION''
             (''Issue cannot transition from '' @ status_name from @ '' to '' @ status_name to)
             [(''from'', Str (status_name from)), (''to'', Str (status_name to)),
              (''allowed'', Arr (map (Str \<circ> status_name) (transitions from)))])
      else Inr \<lparr>vt_from = from, vt_to = to\<rparr>)"

section \<open>Facts about the validators\<close>

lemma requiredText_Inr_iff:
  "requiredText v f n = Inr t \<longleftrightarrow> (\<exists>s. v = Str s \<and> t = trim s \<and> t \<noteq> [] \<and> length t \<le> n)"
  by (cases v) (auto simp: requiredText_def)

lemma requiredText_Inl: "requiredText v f n = Inl e \<Longrightarrow> err_code e = ''VALIDATION_ERROR'' \<and> err_status e = 400"
  by (cases v) (auto simp: requiredText_def split: if_splits)

lemma requiredText_fixed: "requiredText v f n = Inr t \<Longrightarrow> trim t = t"
  by (auto simp: requiredText_Inr_iff)

lemma optionalText_Some:
  "optionalText v f n = Inr (Some t) \<Longrightarrow> t \<noteq> [] \<and> length t \<le> n \<and> trim t = t"
  by (cases v) (auto simp: optionalText_def map_result_Inr_iff requiredText_Inr_iff split: if_splits)

lemma enumValue_Inr_D: "enumValue v f allowed = Inr a \<Longrightarrow> a \<in> snd ` set allowed"
  by (cases v) (force simp: enumValue_def split: option.splits dest!: map_of_SomeD)+

lemma enumValue_Inl: "enumValue v f al = Inl e \<Longrightarrow> err_code e = ''VALIDATION_ERROR'' \<and> err_status e = 400"
  by (cases v) (auto simp: enumValue_def split: option.splits)

lemma uuid_Inl: "uuid v f = Inl e \<Longrightarrow> err_code e = ''VALIDATION_ERROR'' \<and> err_status e = 400"
  by (cases v) (auto simp: uuid_def split: if_splits)

lemma hex_digit_lower: "hex_digit c \<Longrightarrow> hex_digit (lower_char c)"
  by (auto simp: hex_digit_def lower_char_def is_digit_def Let_def)

lemma uuid_version_lower: "uuid_version c \<Longrightarrow> uuid_version (lower_char c)"
  by (auto simp: uuid_version_def lower_char_def Let_def)

lemma uuid_variant_lower: "uuid_variant c \<Longrightarrow> uuid_variant (lower_char c)"
  by (auto simp: uuid_variant_def lower_char_def Let_def)

lemma lit_dash_lower: "lit CHR ''-'' c \<Longrightarrow> lit CHR ''-'' (lower_char c)"
  by (simp add: lit_def lower_char_def code_def)

lemma UUID_RE_lower: "match_re UUID_RE s \<Longrightarrow> match_re UUID_RE (toLowerCase s)"
  unfolding toLowerCase_def
proof (rule match_re_map)
  fix p c
  assume "p \<in> set UUID_RE" "p c"
  then show "p (lower_char c)"
    by (auto simp: UUID_RE_def hex_digit_lower uuid_version_lower uuid_variant_lower lit_dash_lower)
qed

text \<open>A canonical UUID: what \<open>uuid\<close> returns, and returns unchanged.\<close>

definition canonical_uuid :: "string \<Rightarrow> bool" where
  "canonical_uuid s \<longleftrightarrow> match_re UUID_RE s \<and> toLowerCase s = s"

lemma uuid_canonical: "uuid v f = Inr s \<Longrightarrow> canonical_uuid s"
  by (cases v) (auto simp: uuid_def canonical_uuid_def UUID_RE_lower split: if_splits)

lemma uuid_of_canonical: "canonical_uuid s \<Longrightarrow> uuid (Str s) f = Inr s"
  by (simp add: uuid_def canonical_uuid_def)

lemma canonical_uuid_length: "canonical_uuid s \<Longrightarrow> length s = 36"
  by (auto simp: canonical_uuid_def UUID_RE_def dest!: match_re_length)

lemma assertTransition_Inr_iff:
  "assertTransition a b = Inr t \<longleftrightarrow> b \<in> set (transitions a) \<and> t = \<lparr>vt_from = a, vt_to = b\<rparr>"
  by (cases a; cases b) (auto simp: assertTransition_def)

lemma assertTransition_code:
  "assertTransition a b = Inl e \<Longrightarrow> err_code e = ''INVALID_ISSUE_TRANSITION'' \<and> err_status e = 409"
  by (auto simp: assertTransition_def split: if_splits)

end
