(* ===== verification/Planning_Domain.thy ===== *)
theory Planning_Domain
  imports Issue_Domain
begin

text \<open>
  \<open>apps/issue-service-nest/src/domain/planning.ts\<close>: epics, sprints and their dates.

  TypeScript types an epic's dates as strings. At run time a date that came from the
  request is a string and one that came from a \<open>DATE\<close> column is what the database driver
  made of it, which by default is a \<open>Date\<close> object; \<open>date_value\<close> keeps the two apart.
\<close>

datatype epic_color = PURPLE | BLUE | GREEN | YELLOW | ORANGE
datatype sprint_status = ACTIVE | COMPLETED

definition EPIC_COLORS :: "(string \<times> epic_color) list" where
  "EPIC_COLORS = [(''PURPLE'', PURPLE), (''BLUE'', BLUE), (''GREEN'', GREEN),
                  (''YELLOW'', YELLOW), (''ORANGE'', ORANGE)]"

datatype date_value = DateString string | DateObject int

record epic =
  e_id :: string
  e_projectId :: string
  e_name :: string
  e_color :: epic_color
  e_startDate :: "date_value option"
  e_targetDate :: "date_value option"
  e_createdAt :: int
  e_updatedAt :: int

record sprint =
  s_id :: string
  s_projectId :: string
  s_name :: string
  s_goal :: "string option"
  s_startDate :: "date_value option"
  s_endDate :: "date_value option"
  s_status :: sprint_status
  s_createdAt :: int
  s_completedAt :: "int option"

definition DATE_RE :: "(char \<Rightarrow> bool) list" where
  "DATE_RE = replicate 4 is_digit @ lit CHR ''-'' # replicate 2 is_digit @ lit CHR ''-'' # replicate 2 is_digit"

definition optionalDate :: "jsval \<Rightarrow> string \<Rightarrow> exn + string option" where
  "optionalDate value field =
     (if value = Undefined \<or> value = Null \<or> value = Str [] then Inr None
      else case value of
        Str s \<Rightarrow>
          if \<not> match_re DATE_RE s
          then Inl (validationError field (field @ '' must be an ISO date (YYYY-MM-DD)''))
          else (case date_parse (s @ ''T00:00:00.000Z'') of
                  None \<Rightarrow> Inl (validationError field (field @ '' must be a valid date''))
                | Some t \<Rightarrow>
                    if slice 0 10 (to_iso_string t) \<noteq> s
                    then Inl (validationError field (field @ '' must be a valid date''))
                    else Inr (Some s))
      | _ \<Rightarrow> Inl (validationError field (field @ '' must be an ISO date (YYYY-MM-DD)'')))"

text \<open>
  The operator \<open>>\<close>: two strings compare by code units, two dates by time; a date against
  a string converts the string to a number, and a date text converts to NaN, which is
  never greater.
\<close>

fun js_greater :: "date_value \<Rightarrow> date_value \<Rightarrow> bool" where
  "js_greater (DateString a) (DateString b) = (b < a)"
| "js_greater (DateObject t) (DateObject u) = (u < t)"
| "js_greater _ _ = False"

fun truthy_date :: "date_value \<Rightarrow> bool" where
  "truthy_date (DateString s) = (s \<noteq> [])"
| "truthy_date (DateObject t) = True"

definition planDates :: "date_value option \<Rightarrow> date_value option \<Rightarrow> exn + unit" where
  "planDates startDate endDate =
     (case (startDate, endDate) of
        (Some a, Some b) \<Rightarrow>
          if truthy_date a \<and> truthy_date b \<and> js_greater a b
          then Inl (DomainError 400 ''VALIDATION_ERROR'' ''Request validation failed''
                 [(''targetDate'', Str ''targetDate must be on or after startDate'')])
          else Inr ()
      | _ \<Rightarrow> Inr ())"

definition epicName :: "jsval \<Rightarrow> exn + string" where
  "epicName value = requiredText value ''name'' 120"

section \<open>Accepted dates are the real ones\<close>

text \<open>The calendar date a text names.\<close>

definition date_of_text :: "string \<Rightarrow> int \<times> nat \<times> int" where
  "date_of_text s =
     (int (dec_value 0 (slice 0 4 s)), dec_value 0 (slice 5 7 s), int (dec_value 0 (slice 8 10 s)))"

definition real_date :: "string \<Rightarrow> bool" where
  "real_date s \<longleftrightarrow> match_re DATE_RE s \<and> (case date_of_text s of (y, m, d) \<Rightarrow> valid_date y m d)"

lemma DATE_RE_iff:
  "match_re DATE_RE s \<longleftrightarrow> (\<exists>Y M D. s = date_text Y M D \<and> digits 4 Y \<and> digits 2 M \<and> digits 2 D)"
proof
  assume m: "match_re DATE_RE s"
  define Y r1 where "Y = take 4 s" and "r1 = drop 4 s"
  have len: "length s = 10" using match_re_length [OF m] by (simp add: DATE_RE_def)
  have s: "s = Y @ r1" and lY: "length Y = 4" using len by (simp_all add: Y_def r1_def)
  from m have "digits 4 Y" and "match_re (lit CHR ''-'' # replicate 2 is_digit @ lit CHR ''-'' # replicate 2 is_digit) r1"
    unfolding DATE_RE_def s by (simp_all add: match_re_append lY match_re_digits)
  then obtain r2 where r1: "r1 = CHR ''-'' # r2"
    and m2: "match_re (replicate 2 is_digit @ lit CHR ''-'' # replicate 2 is_digit) r2"
    by (cases r1) (auto simp: lit_def)
  define M r3 where "M = take 2 r2" and "r3 = drop 2 r2"
  have r2: "r2 = M @ r3" and lM: "length M = 2"
    using len by (auto simp: M_def r3_def s r1 lY)
  from m2 have "digits 2 M" and "match_re (lit CHR ''-'' # replicate 2 is_digit) r3"
    unfolding r2 by (simp_all add: match_re_append lM match_re_digits)
  then obtain D where "r3 = CHR ''-'' # D" "digits 2 D"
    by (cases r3) (auto simp: lit_def match_re_digits)
  then show "\<exists>Y M D. s = date_text Y M D \<and> digits 4 Y \<and> digits 2 M \<and> digits 2 D"
    using \<open>digits 4 Y\<close> \<open>digits 2 M\<close> by (auto simp: s r1 r2 date_text_def)
next
  assume "\<exists>Y M D. s = date_text Y M D \<and> digits 4 Y \<and> digits 2 M \<and> digits 2 D"
  then show "match_re DATE_RE s"
    by (auto simp: DATE_RE_def date_text_def match_re_append digits_length match_re_digits lit_def)
qed

lemma date_text_slices:
  assumes "digits 4 Y" "digits 2 M" "digits 2 D"
  shows "slice 0 4 (date_text Y M D) = Y" "slice 5 7 (date_text Y M D) = M"
    "slice 8 10 (date_text Y M D) = D"
  using assms by (simp_all add: slice_def date_text_def digits_def)

lemma date_check_iff:
  assumes "match_re DATE_RE s"
  shows "(\<exists>t. date_parse (s @ ''T00:00:00.000Z'') = Some t \<and> slice 0 10 (to_iso_string t) = s) \<longleftrightarrow> real_date s"
proof -
  from assms obtain Y M D where s: "s = date_text Y M D" and dg: "digits 4 Y" "digits 2 M" "digits 2 D"
    by (auto simp: DATE_RE_iff)
  show ?thesis
    using date_survives_iff [OF dg] assms
    by (simp add: s real_date_def date_of_text_def date_text_slices [OF dg] slice_def [of 0 10])
qed

lemma optionalDate_Some_iff:
  "optionalDate v f = Inr (Some s) \<longleftrightarrow> v = Str s \<and> real_date s"
proof (cases v)
  case (Str u)
  show ?thesis
  proof (cases "match_re DATE_RE u")
    case True
    then have "u \<noteq> []" by (auto simp: DATE_RE_def dest!: match_re_length)
    then show ?thesis
      using date_check_iff [OF True] True
      by (auto simp: Str optionalDate_def split: option.splits if_splits)
  next
    case False
    then show ?thesis by (auto simp: Str optionalDate_def real_date_def)
  qed
qed (auto simp: optionalDate_def)

lemma optionalDate_None_iff: "optionalDate v f = Inr None \<longleftrightarrow> v \<in> {Undefined, Null, Str []}"
  by (cases v) (auto simp: optionalDate_def split: option.splits if_splits)

section \<open>The text order is the calendar order\<close>

lemma append_less_iff:
  fixes a b x y :: string
  shows "length a = length b \<Longrightarrow> a @ x < b @ y \<longleftrightarrow> a < b \<or> a = b \<and> x < y"
  by (induction a b rule: list_induct2) auto

lemma dec_value_shift: "dec_value a s = a * 10 ^ length s + dec_value 0 s"
proof (induction s arbitrary: a)
  case Nil
  then show ?case by simp
next
  case (Cons c s)
  show ?case using Cons.IH [of "10 * a + digit_val c"] Cons.IH [of "digit_val c"]
    by (simp add: algebra_simps)
qed

lemma char_less_code: "c < d \<longleftrightarrow> code c < code d"
  by (simp add: less_char_def code_def)

lemma digits_less_iff:
  "\<lbrakk>length s = length t; \<forall>c\<in>set s. is_digit c; \<forall>c\<in>set t. is_digit c\<rbrakk>
   \<Longrightarrow> s < t \<longleftrightarrow> dec_value 0 s < dec_value 0 t"
proof (induction s t rule: list_induct2)
  case Nil
  then show ?case by simp
next
  case (Cons c s d t)
  have ih: "s < t \<longleftrightarrow> dec_value 0 s < dec_value 0 t" using Cons by simp
  have b: "dec_value 0 s < 10 ^ length t" "dec_value 0 t < 10 ^ length t"
    using dec_value_bound [of s] dec_value_bound [of t] Cons by simp_all
  have e: "dec_value 0 (c # s) = digit_val c * 10 ^ length t + dec_value 0 s"
    "dec_value 0 (d # t) = digit_val d * 10 ^ length t + dec_value 0 t"
    using dec_value_shift [of "digit_val c" s] dec_value_shift [of "digit_val d" t] Cons.hyps by simp_all
  have dc: "c < d \<longleftrightarrow> digit_val c < digit_val d" "c = d \<longleftrightarrow> digit_val c = digit_val d"
    using Cons.prems by (auto simp: char_less_code is_digit_def digit_val_def code_eq_iff [symmetric])
  have step: "x < y \<Longrightarrow> x * 10 ^ length t + p < y * 10 ^ length t + q"
    if "p < 10 ^ length t" for x y p q :: nat
  proof -
    assume "x < y"
    then have "(x + 1) * 10 ^ length t \<le> y * 10 ^ length t" by (intro mult_right_mono) simp_all
    with that show ?thesis by (simp add: algebra_simps)
  qed
  consider "digit_val c < digit_val d" | "digit_val c = digit_val d" | "digit_val d < digit_val c" by linarith
  then show ?case
  proof cases
    case 1
    then have "c < d" using dc(1) by simp
    moreover have "dec_value 0 (c # s) < dec_value 0 (d # t)" unfolding e using step [OF b(1) 1] .
    ultimately show ?thesis by simp
  next
    case 2
    then have "c = d" using dc(2) by simp
    with ih e show ?thesis by simp
  next
    case 3
    then have "\<not> c < d" "c \<noteq> d" using dc by auto
    moreover have "dec_value 0 (d # t) < dec_value 0 (c # s)" unfolding e using step [OF b(2) 3] .
    ultimately show ?thesis by (simp del: dec_value.simps)
  qed
qed

lemma days_before_month_mono:
  assumes "1 \<le> m" "m < m'" "m' \<le> 12"
  shows "days_before_month l m + month_lengths l ! (m - 1) \<le> days_before_month l m'"
proof -
  have "take m (month_lengths l) = take (m - 1) (month_lengths l) @ [month_lengths l ! (m - 1)]"
    using assms take_Suc_conv_app_nth [of "m - 1" "month_lengths l"] by simp
  then have "days_before_month l m + month_lengths l ! (m - 1) = sum_list (take m (month_lengths l))"
    by (simp add: days_before_month_def)
  also have "take (m' - 1) (month_lengths l) = take m (month_lengths l) @ take (m' - 1 - m) (drop m (month_lengths l))"
    using assms by (simp add: take_add [symmetric])
  then have "sum_list (take m (month_lengths l)) \<le> days_before_month l m'"
    using month_lengths_nonneg [of l]
    by (auto simp: days_before_month_def intro!: sum_list_nonneg dest: in_set_takeD in_set_dropD)
  finally show ?thesis .
qed

lemma make_day_less:
  assumes v: "valid_date y m d" "valid_date y' m' d'"
    and lt: "y < y' \<or> y = y' \<and> (m < m' \<or> m = m' \<and> d < d')"
  shows "make_day y m d < make_day y' m' d'"
proof -
  have in_year: "day_from_year y \<le> make_day y m d \<and> make_day y m d < day_from_year (y + 1)"
    if "valid_date y m d" for y m d
  proof -
    have "year_from_day (make_day y m d) = y"
      using civil_of_make_day [OF that] by (simp add: civil_of_day_def Let_def)
    then show ?thesis using year_from_day_spec [of "make_day y m d"] by simp
  qed
  consider "y < y'" | "y = y'" "m < m'" | "y = y'" "m = m'" "d < d'" using lt by blast
  then show ?thesis
  proof cases
    case 1
    then have "day_from_year (y + 1) \<le> day_from_year y'" by (intro day_from_year_mono) simp
    then show ?thesis using in_year [OF v(1)] in_year [OF v(2)] by simp
  next
    case 2
    then show ?thesis
      using days_before_month_mono [of m m' "leap_year y"] v
      by (auto simp: make_day_def valid_date_def days_in_month_def)
  next
    case 3
    then show ?thesis by (simp add: make_day_def)
  qed
qed

definition day_of_text :: "string \<Rightarrow> int" where
  "day_of_text s = (case date_of_text s of (y, m, d) \<Rightarrow> make_day y m d)"

lemma date_text_less_iff:
  assumes "real_date a" "real_date b"
  shows "a < b \<longleftrightarrow> day_of_text a < day_of_text b"
proof -
  have fwd: "day_of_text a < day_of_text b" if lt: "a < b" and r: "real_date a" "real_date b" for a b
  proof -
    from r obtain Y M D Y' M' D' where
      a: "a = date_text Y M D" "digits 4 Y" "digits 2 M" "digits 2 D" and
      b: "b = date_text Y' M' D'" "digits 4 Y'" "digits 2 M'" "digits 2 D'"
      by (auto simp: real_date_def DATE_RE_iff)
    from lt have "Y < Y' \<or> Y = Y' \<and> (M < M' \<or> M = M' \<and> D < D')"
      using a b by (simp add: date_text_def append_less_iff digits_length)
    then have "int (dec_value 0 Y) < int (dec_value 0 Y') \<or>
        int (dec_value 0 Y) = int (dec_value 0 Y') \<and>
        (dec_value 0 M < dec_value 0 M' \<or> dec_value 0 M = dec_value 0 M' \<and>
         int (dec_value 0 D) < int (dec_value 0 D'))"
      using a b by (auto simp: digits_less_iff digits_def)
    then show ?thesis
      using r a b by (auto simp: real_date_def day_of_text_def date_of_text_def date_text_slices intro!: make_day_less)
  qed
  show ?thesis using fwd [of a b] fwd [of b a] assms by (cases a b rule: linorder_cases) auto
qed

section \<open>Properties\<close>

text \<open>
  \<open>optionalDate\<close> returns a date exactly for a string of the form YYYY-MM-DD that names
  a day of the calendar (month 1 to 12, day within that month and year), and returns that
  string unchanged; 2026-02-30 is refused although \<open>Date.parse\<close> would roll it over.
\<close>

theorem optionalDate_accepts_real_dates:
  "optionalDate value field = Inr (Some s) \<longleftrightarrow>
     value = Str s \<and> match_re DATE_RE s \<and>
     (case date_of_text s of (y, m, d) \<Rightarrow> 1 \<le> m \<and> m \<le> 12 \<and> 1 \<le> d \<and> d \<le> days_in_month y m)"
  unfolding optionalDate_Some_iff real_date_def valid_date_def by (auto split: prod.splits)

text \<open>
  C39: For two dates that \<open>optionalDate\<close> accepted, the string comparison of \<open>planDates\<close> is
  the comparison of calendar days: it passes exactly if the start is not after the end.
\<close>

theorem planDates_compares_days:
  assumes "optionalDate v f = Inr (Some a)" and "optionalDate w g = Inr (Some b)"
  shows "planDates (Some (DateString a)) (Some (DateString b)) = Inr () \<longleftrightarrow> day_of_text a \<le> day_of_text b"
proof -
  have r: "real_date a" "real_date b" using assms by (auto simp: optionalDate_Some_iff)
  then have "a \<noteq> []" "b \<noteq> []" by (auto simp: real_date_def DATE_RE_def dest!: match_re_length)
  then show ?thesis using date_text_less_iff [OF r(2,1)] by (auto simp: planDates_def)
qed

lemma digit_chars [simp]:
  "is_digit CHR ''0''" "is_digit CHR ''1''" "is_digit CHR ''2''" "is_digit CHR ''3''" "is_digit CHR ''4''"
  "is_digit CHR ''5''" "is_digit CHR ''6''" "is_digit CHR ''7''" "is_digit CHR ''8''" "is_digit CHR ''9''"
  by (simp_all add: is_digit_def code_def)

lemma digit_vals [simp]:
  "digit_val CHR ''0'' = 0" "digit_val CHR ''1'' = 1" "digit_val CHR ''2'' = 2" "digit_val CHR ''3'' = 3"
  "digit_val CHR ''4'' = 4" "digit_val CHR ''5'' = 5" "digit_val CHR ''6'' = 6" "digit_val CHR ''7'' = 7"
  "digit_val CHR ''8'' = 8" "digit_val CHR ''9'' = 9"
  by (simp_all add: digit_val_def code_def)

lemma example_dates:
  "real_date ''2024-02-29''" "real_date ''2024-03-01''"
  by (simp_all add: real_date_def DATE_RE_def date_of_text_def slice_def eval_nat_numeral valid_date_def
      days_in_month_def month_lengths_def leap_year_def lit_def)

theorem planDates_compares_days_witness:
  "planDates (Some (DateString ''2024-02-29'')) (Some (DateString ''2024-03-01'')) = Inr () \<longleftrightarrow>
     day_of_text ''2024-02-29'' \<le> day_of_text ''2024-03-01''"
proof -
  have "optionalDate (Str ''2024-02-29'') ''startDate'' = Inr (Some ''2024-02-29'')"
    "optionalDate (Str ''2024-03-01'') ''targetDate'' = Inr (Some ''2024-03-01'')"
    by (simp_all add: optionalDate_Some_iff example_dates)
  then show ?thesis by (rule planDates_compares_days)
qed

end
