(* ===== verification/Schema.thy ===== *)
theory Schema
  imports Planning_Domain
begin

text \<open>
  The tables of the issue service (\<open>apps/issue-service-nest/migrations\<close>) with the row types
  of the two PostgreSQL repositories, and the constraints an INSERT checks. A table is the
  list of its rows in insertion order. \<open>TIMESTAMPTZ\<close> columns are microseconds, \<open>DATE\<close>
  columns day numbers; a column restricted by CHECK to some literals has their datatype.
  Every constraint violation is a \<open>DbError\<close>.
\<close>

section \<open>Rows\<close>

record issue_row =
  r_id :: string
  r_project_id :: string
  r_issue_number :: int
  r_issue_key :: string
  r_summary :: string
  r_description :: "string option"
  r_type :: issue_type
  r_priority :: issue_priority
  r_status :: issue_status
  r_reporter_user_id :: string
  r_assignee_user_id :: "string option"
  r_epic_id :: "string option"
  r_sprint_id :: "string option"
  r_version :: int
  r_created_at :: int
  r_updated_at :: int

record comment_row =
  cr_id :: string
  cr_issue_id :: string
  cr_author_user_id :: string
  cr_body :: string
  cr_created_at :: int
  cr_updated_at :: int

record history_row =
  hr_id :: string
  hr_issue_id :: string
  hr_actor_user_id :: string
  hr_action :: string
  hr_from_value :: jsval
  hr_to_value :: jsval
  hr_created_at :: int

record outbox_row =
  o_event_id :: string
  o_event_type :: string
  o_aggregate_id :: string
  o_aggregate_version :: int
  o_project_id :: string
  o_actor_user_id :: string
  o_payload :: jsval
  o_occurred_at :: int
  o_published_at :: "int option"
  o_publish_attempts :: nat
  o_last_error :: "string option"
  o_next_attempt_at :: int
  o_trace_context :: jsval

record epic_row =
  er_id :: string
  er_project_id :: string
  er_name :: string
  er_color :: epic_color
  er_start_date :: "int option"
  er_target_date :: "int option"
  er_created_at :: int
  er_updated_at :: int

record sprint_row =
  sr_id :: string
  sr_project_id :: string
  sr_name :: string
  sr_goal :: "string option"
  sr_start_date :: "int option"
  sr_end_date :: "int option"
  sr_status :: sprint_status
  sr_created_at :: int
  sr_completed_at :: "int option"

text \<open>
  A record of the topic \<open>issue.events.v1\<close>: its key, and the envelope that is its JSON value.
\<close>

record kafka_message =
  k_key :: string
  k_eventId :: string
  k_eventType :: string
  k_aggregateId :: string
  k_aggregateVersion :: int
  k_projectId :: string
  k_actorUserId :: string
  k_occurredAt :: string
  k_payload :: jsval
  k_schemaVersion :: int

text \<open>
  The durable state the processes share: the tables and the records of the topic.
  \<open>project_issue_sequences\<close> pairs a project with its \<open>last_number\<close>.
\<close>

record db =
  t_sequences :: "(string \<times> int) list"
  t_issues :: "issue_row list"
  t_comments :: "comment_row list"
  t_history :: "history_row list"
  t_outbox :: "outbox_row list"
  t_epics :: "epic_row list"
  t_sprints :: "sprint_row list"
  t_topic :: "kafka_message list"

definition empty_db :: db where
  "empty_db = \<lparr>t_sequences = [], t_issues = [], t_comments = [], t_history = [], t_outbox = [],
     t_epics = [], t_sprints = [], t_topic = []\<rparr>"

section \<open>Constraints\<close>

definition int4_max :: int where
  "int4_max = 2147483647"

text \<open>PostgreSQL refuses the character with code 0 in a text value.\<close>

definition pg_text :: "string \<Rightarrow> bool" where
  "pg_text s \<longleftrightarrow> char_of (0::nat) \<notin> set s"

definition varchar :: "nat \<Rightarrow> string \<Rightarrow> bool" where
  "varchar n s \<longleftrightarrow> pg_text s \<and> length s \<le> n"

definition opt_ok :: "('a \<Rightarrow> bool) \<Rightarrow> 'a option \<Rightarrow> bool" where
  "opt_ok P v = (case v of None \<Rightarrow> True | Some x \<Rightarrow> P x)"

lemma opt_ok_simps [simp]: "opt_ok P None" "opt_ok P (Some x) = P x"
  by (simp_all add: opt_ok_def)

lemma opt_ok_mono: "opt_ok P v \<Longrightarrow> (\<And>x. P x \<Longrightarrow> Q x) \<Longrightarrow> opt_ok Q v"
  by (cases v) simp_all

definition issue_row_ok :: "db \<Rightarrow> issue_row \<Rightarrow> bool" where
  "issue_row_ok d r \<longleftrightarrow>
     0 < r_issue_number r \<and> r_issue_number r \<le> int4_max \<and> varchar 50 (r_issue_key r) \<and>
     varchar 200 (r_summary r) \<and> opt_ok (varchar 5000) (r_description r) \<and>
     0 < r_version r \<and> r_version r \<le> int4_max \<and>
     opt_ok (\<lambda>e. e \<in> er_id ` set (t_epics d)) (r_epic_id r) \<and>
     opt_ok (\<lambda>s. s \<in> sr_id ` set (t_sprints d)) (r_sprint_id r)"

text \<open>A white-space character of the body's CHECK expression \<open>[^[:space:]]\<close> (C locale).\<close>

definition pg_space :: "char \<Rightarrow> bool" where
  "pg_space c \<longleftrightarrow> code c \<in> {9, 10, 11, 12, 13, 32}"

definition comment_row_ok :: "db \<Rightarrow> comment_row \<Rightarrow> bool" where
  "comment_row_ok d c \<longleftrightarrow>
     cr_issue_id c \<in> r_id ` set (t_issues d) \<and> varchar 5000 (cr_body c) \<and>
     (\<exists>x\<in>set (cr_body c). \<not> pg_space x)"

definition dates_ordered :: "int option \<Rightarrow> int option \<Rightarrow> bool" where
  "dates_ordered a b = (case (a, b) of (Some x, Some y) \<Rightarrow> x \<le> y | _ \<Rightarrow> True)"

definition insert_issue_row :: "issue_row \<Rightarrow> db \<Rightarrow> exn + (issue_row \<times> db)" where
  "insert_issue_row r d =
     (if \<not> issue_row_ok d r then Inl (DbError ''issues: check'')
      else if r_id r \<in> r_id ` set (t_issues d)
      then Inl (DbError ''issues_pkey'')
      else if (r_project_id r, r_issue_number r) \<in> (\<lambda>x. (r_project_id x, r_issue_number x)) ` set (t_issues d)
      then Inl (DbError ''ux_issues_project_number'')
      else if (r_project_id r, r_issue_key r) \<in> (\<lambda>x. (r_project_id x, r_issue_key x)) ` set (t_issues d)
      then Inl (DbError ''ux_issues_project_key'')
      else Inr (r, d\<lparr>t_issues := t_issues d @ [r]\<rparr>))"

definition insert_comment_row :: "comment_row \<Rightarrow> db \<Rightarrow> exn + (comment_row \<times> db)" where
  "insert_comment_row c d =
     (if \<not> comment_row_ok d c then Inl (DbError ''issue_comments: check'')
      else if cr_id c \<in> cr_id ` set (t_comments d) then Inl (DbError ''issue_comments_pkey'')
      else Inr (c, d\<lparr>t_comments := t_comments d @ [c]\<rparr>))"

definition insert_history_row :: "history_row \<Rightarrow> db \<Rightarrow> exn + (unit \<times> db)" where
  "insert_history_row h d =
     (if hr_issue_id h \<notin> r_id ` set (t_issues d) \<or> \<not> varchar 50 (hr_action h)
      then Inl (DbError ''issue_history: check'')
      else if hr_id h \<in> hr_id ` set (t_history d) then Inl (DbError ''issue_history_pkey'')
      else Inr ((), d\<lparr>t_history := t_history d @ [h]\<rparr>))"

definition insert_outbox_row :: "outbox_row \<Rightarrow> db \<Rightarrow> exn + (unit \<times> db)" where
  "insert_outbox_row o1 d =
     (if \<not> varchar 100 (o_event_type o1) then Inl (DbError ''outbox_events: check'')
      else if o_event_id o1 \<in> o_event_id ` set (t_outbox d) then Inl (DbError ''outbox_events_pkey'')
      else Inr ((), d\<lparr>t_outbox := t_outbox d @ [o1]\<rparr>))"

lemmas insert_defs = insert_issue_row_def insert_comment_row_def insert_history_row_def
  insert_outbox_row_def

lemma insert_issue_row_Inr:
  "insert_issue_row r d = Inr (x, d') \<longleftrightarrow>
     x = r \<and> d' = d\<lparr>t_issues := t_issues d @ [r]\<rparr> \<and> issue_row_ok d r \<and>
     (\<forall>y\<in>set (t_issues d). r_id y \<noteq> r_id r \<and>
        (r_project_id y = r_project_id r \<longrightarrow>
           r_issue_number y \<noteq> r_issue_number r \<and> r_issue_key y \<noteq> r_issue_key r))"
  by (auto simp: insert_issue_row_def image_iff)

lemma insert_comment_row_Inr:
  "insert_comment_row c d = Inr (x, d') \<longleftrightarrow>
     x = c \<and> d' = d\<lparr>t_comments := t_comments d @ [c]\<rparr> \<and> comment_row_ok d c \<and>
     cr_id c \<notin> cr_id ` set (t_comments d)"
  by (auto simp: insert_comment_row_def)

lemma insert_history_row_Inr:
  "insert_history_row h d = Inr (x, d') \<longleftrightarrow>
     d' = d\<lparr>t_history := t_history d @ [h]\<rparr> \<and> hr_issue_id h \<in> r_id ` set (t_issues d) \<and>
     varchar 50 (hr_action h) \<and> hr_id h \<notin> hr_id ` set (t_history d)"
  by (auto simp: insert_history_row_def)

lemma insert_outbox_row_Inr:
  "insert_outbox_row o1 d = Inr (x, d') \<longleftrightarrow>
     d' = d\<lparr>t_outbox := t_outbox d @ [o1]\<rparr> \<and> varchar 100 (o_event_type o1) \<and>
     o_event_id o1 \<notin> o_event_id ` set (t_outbox d)"
  by (auto simp: insert_outbox_row_def)

lemmas insert_Inr = insert_issue_row_Inr insert_comment_row_Inr insert_history_row_Inr
  insert_outbox_row_Inr

end
