(* ===== verification/Program.thy ===== *)
theory Program
  imports Prelude
begin

text \<open>
  Effectful code. An \<open>async\<close> function that may throw is a program: a function of its
  environment \<open>'e\<close> and the world \<open>'w\<close> to an error \<open>'x\<close> or a value, and a new world. The
  issue service, the gateway and the web client each have an environment and a world of
  their own and share these combinators.
\<close>

type_synonym ('e, 'w, 'x, 'a) program = "'e \<Rightarrow> 'w \<Rightarrow> ('x + 'a) \<times> 'w"

definition returning :: "'a \<Rightarrow> ('e, 'w, 'x, 'a) program" where
  "returning x e w = (Inr x, w)"

definition throwing :: "'x \<Rightarrow> ('e, 'w, 'x, 'a) program" where
  "throwing x e w = (Inl x, w)"

definition andThen :: "('e, 'w, 'x, 'a) program \<Rightarrow> ('a \<Rightarrow> ('e, 'w, 'x, 'b) program) \<Rightarrow> ('e, 'w, 'x, 'b) program" where
  "andThen p f e w = (case p e w of (Inl x, w') \<Rightarrow> (Inl x, w') | (Inr a, w') \<Rightarrow> f a e w')"

text \<open>A pure function that may throw, as a step of a program.\<close>

definition checked :: "'x + 'a \<Rightarrow> ('e, 'w, 'x, 'a) program" where
  "checked r e w = (r, w)"

text \<open>\<open>try p catch (error) handler\<close>.\<close>

definition catching :: "('e, 'w, 'x, 'a) program \<Rightarrow> ('x \<Rightarrow> ('e, 'w, 'x, 'a) program) \<Rightarrow> ('e, 'w, 'x, 'a) program" where
  "catching p handler e w = (case p e w of (Inl x, w') \<Rightarrow> handler x e w' | (Inr a, w') \<Rightarrow> (Inr a, w'))"

definition ask :: "('e \<Rightarrow> 'a) \<Rightarrow> ('e, 'w, 'x, 'a) program" where
  "ask f e w = (Inr (f e), w)"

section \<open>Facts\<close>

lemmas step_defs = returning_def throwing_def checked_def ask_def

lemma andThen_Inr:
  "andThen p f e w = (Inr b, w'') \<longleftrightarrow> (\<exists>a w'. p e w = (Inr a, w') \<and> f a e w' = (Inr b, w''))"
  by (auto simp: andThen_def split: prod.splits sum.splits)

lemma andThen_Inl:
  "andThen p f e w = (Inl x, w'') \<longleftrightarrow>
     p e w = (Inl x, w'') \<or> (\<exists>a w'. p e w = (Inr a, w') \<and> f a e w' = (Inl x, w''))"
  by (auto simp: andThen_def split: prod.splits sum.splits)

lemma program_eval [simp]:
  "returning x e w = (Inr x, w)" "throwing y e w = (Inl y, w)" "checked r e w = (r, w)"
  "ask g e w = (Inr (g e), w)"
  by (simp_all add: step_defs)

section \<open>The errors of a program\<close>

text \<open>Whatever the program throws in the environment \<open>e\<close> has the property \<open>X\<close>.\<close>

definition raises :: "'e \<Rightarrow> ('e, 'w, 'x, 'a) program \<Rightarrow> ('x \<Rightarrow> bool) \<Rightarrow> bool" where
  "raises e p X \<longleftrightarrow> (\<forall>w x w'. p e w = (Inl x, w') \<longrightarrow> X x)"

lemma raises_mono: "raises e p X \<Longrightarrow> (\<And>x. X x \<Longrightarrow> Y x) \<Longrightarrow> raises e p Y"
  by (auto simp: raises_def)

lemma raises_basic [simp]:
  "raises e (returning a) X" "raises e (throwing x) X \<longleftrightarrow> X x"
  "raises e (ask f) X"
  by (auto simp: raises_def)

lemma raises_checked_iff: "raises e (checked r) X \<longleftrightarrow> (\<forall>x. r = Inl x \<longrightarrow> X x)"
  by (auto simp: raises_def)

lemma raises_andThen: "raises e p X \<Longrightarrow> (\<And>a. raises e (f a) X) \<Longrightarrow> raises e (andThen p f) X"
  unfolding raises_def andThen_Inl by blast

lemma raises_asking: "raises e (f (g e)) X \<Longrightarrow> raises e (andThen (ask g) f) X"
  by (auto simp: raises_def andThen_def)

lemma raises_catching: "(\<And>x. raises e (handler x) X) \<Longrightarrow> raises e (catching p handler) X"
  by (auto simp: raises_def catching_def split: prod.splits sum.splits)

lemma raises_catching_some:
  assumes "raises e p X" and "\<And>x. X x \<Longrightarrow> raises e (handler x) Y"
  shows "raises e (catching p handler) Y"
  unfolding raises_def
proof (intro allI impI)
  fix w y w' assume run: "catching p handler e w = (Inl y, w')"
  obtain s v where s: "p e w = (s, v)" by (cases "p e w") auto
  then obtain x where x: "s = Inl x" using run by (cases s) (auto simp: catching_def)
  then have "handler x e v = (Inl y, w')" using run s by (simp add: catching_def)
  moreover have "X x" using assms(1) s x by (auto simp: raises_def)
  ultimately show "Y y" using assms(2) [of x] by (auto simp: raises_def)
qed

section \<open>What a program leaves alone\<close>

definition keeps :: "('w \<Rightarrow> 'b) \<Rightarrow> ('e, 'w, 'x, 'a) program \<Rightarrow> bool" where
  "keeps f p \<longleftrightarrow> (\<forall>e w r w'. p e w = (r, w') \<longrightarrow> f w' = f w)"

lemma keepsD: "\<lbrakk>keeps f p; p e w = (r, w')\<rbrakk> \<Longrightarrow> f w' = f w"
  by (simp add: keeps_def)

lemma keeps_basic: "keeps f (returning a)" "keeps f (throwing x)" "keeps f (checked y)" "keeps f (ask g)"
  by (auto simp: keeps_def)

lemma keeps_andThen: "\<lbrakk>keeps f p; \<And>a. keeps f (q a)\<rbrakk> \<Longrightarrow> keeps f (andThen p q)"
  unfolding keeps_def andThen_def by (auto split: prod.splits sum.splits)

lemma keeps_catching: "\<lbrakk>keeps f p; \<And>x. keeps f (handler x)\<rbrakk> \<Longrightarrow> keeps f (catching p handler)"
  unfolding keeps_def catching_def by (auto split: prod.splits sum.splits)

lemma keeps_if: "\<lbrakk>b \<Longrightarrow> keeps f p; \<not> b \<Longrightarrow> keeps f q\<rbrakk> \<Longrightarrow> keeps f (if b then p else q)"
  by simp

lemma keeps_option: "\<lbrakk>keeps f p; \<And>x. keeps f (q x)\<rbrakk> \<Longrightarrow> keeps f (case v of None \<Rightarrow> p | Some x \<Rightarrow> q x)"
  by (cases v) simp_all

lemmas keeps_rules = keeps_basic keeps_andThen keeps_catching keeps_if keeps_option

end
