(* ===== verification/Database.thy ===== *)
theory Database
  imports Schema Program
begin

text \<open>
  \<open>apps/issue-service-nest/src/infrastructure/database.ts\<close> and what an asynchronous
  function of the service can observe. A program is a function of its environment and the
  world to a result and a new world. Every effect takes the next tick; the environment says
  for each tick what the clock reads, which UUID is drawn, what the other sessions have
  committed before it, whether the connection fails, and what a service answers.
\<close>

section \<open>The world\<close>

text \<open>
  A failing statement either did not reach the server (\<open>FailBefore\<close>) or ran there and its
  answer was lost (\<open>FailAfter\<close>).
\<close>

datatype fault = NoFault | FailBefore string | FailAfter string

text \<open>
  A GET request with the headers the model follows, and what \<open>fetch\<close> makes of it: a
  rejection (network failure or abort), or a status with the parsed body, \<open>None\<close> when
  the body is not JSON.
\<close>

record http_request =
  q_url :: string
  q_user :: string
  q_correlation :: string
  q_secret :: string

datatype http_reply = Rejected | Reply nat "jsval option"

text \<open>
  What becomes of a record given to the producer: stored and acknowledged, stored with the
  acknowledgement lost, or not stored.
\<close>

datatype send_outcome = Acked | Unacked string | NotSent string

text \<open>
  \<open>e_locked\<close> and \<open>e_rank\<close> are the rows other sessions hold locked, and the order of rows
  that an ORDER BY leaves equal; \<open>e_text\<close> is \<open>String\<close> on values that are not strings; two
  fields are variables of the process environment.
\<close>

record env =
  e_uuid :: "nat \<Rightarrow> string"
  e_clock :: "nat \<Rightarrow> int"
  e_fault :: "nat \<Rightarrow> fault"
  e_others :: "nat \<Rightarrow> db \<Rightarrow> db"
  e_uuid_in :: "string \<Rightarrow> string option"
  e_lower :: "char \<Rightarrow> char"
  e_trace :: js_object
  e_http :: "nat \<Rightarrow> http_request \<Rightarrow> http_reply"
  e_locked :: "nat \<Rightarrow> string \<Rightarrow> bool"
  e_rank :: "nat \<Rightarrow> string \<Rightarrow> string"
  e_connect :: "nat \<Rightarrow> string option"
  e_send :: "nat \<Rightarrow> send_outcome"
  e_project_service_url :: "string option"
  e_internal_service_secret :: "string option"
  e_text :: "jsval \<Rightarrow> string"

text \<open>
  \<open>w_tx\<close> is the start time of the open transaction, which is its \<open>NOW()\<close>; \<open>w_connected\<close>
  and \<open>w_running\<close> are the fields of this process's outbox publisher.
\<close>

record world =
  w_db :: db
  w_tick :: nat
  w_tx :: "int option"
  w_connected :: bool
  w_running :: bool

type_synonym 'a prog = "(env, world, exn, 'a) program"

section \<open>Programs\<close>

definition tick :: "world \<Rightarrow> world" where
  "tick w = w\<lparr>w_tick := w_tick w + 1\<rparr>"

definition randomUUID :: "string prog" where
  "randomUUID e w = (Inr (e_uuid e (w_tick w)), tick w)"

text \<open>\<open>new Date()\<close>, in milliseconds.\<close>

definition new_Date :: "int prog" where
  "new_Date e w = (Inr (e_clock e (w_tick w) div 1000), tick w)"

definition current_tick :: "nat prog" where
  "current_tick e w = (Inr (w_tick w), tick w)"

section \<open>Statements\<close>

text \<open>A statement is a function of the environment's input functions, \<open>NOW()\<close> and the tables.\<close>

type_synonym 'a stmt = "env \<Rightarrow> int \<Rightarrow> db \<Rightarrow> exn + ('a \<times> db)"

definition now_of :: "env \<Rightarrow> world \<Rightarrow> int" where
  "now_of e w = (case w_tx w of None \<Rightarrow> e_clock e (w_tick w) | Some t \<Rightarrow> t)"

text \<open>\<open>client.query\<close>: one statement on the session's view of the tables.\<close>

definition client_query :: "'a stmt \<Rightarrow> 'a prog" where
  "client_query s e w =
     (case e_fault e (w_tick w) of
        FailBefore m \<Rightarrow> (Inl (DbError m), tick w)
      | NoFault \<Rightarrow>
          (case s e (now_of e w) (w_db w) of
             Inl x \<Rightarrow> (Inl x, tick w)
           | Inr (a, d) \<Rightarrow> (Inr a, (tick w)\<lparr>w_db := d\<rparr>))
      | FailAfter m \<Rightarrow>
          (case s e (now_of e w) (w_db w) of
             Inl x \<Rightarrow> (Inl (DbError m), tick w)
           | Inr (a, d) \<Rightarrow> (Inl (DbError m), (tick w)\<lparr>w_db := d\<rparr>)))"

text \<open>What the other sessions committed since the last effect.\<close>

definition others :: "env \<Rightarrow> world \<Rightarrow> world" where
  "others e w = w\<lparr>w_db := e_others e (w_tick w) (w_db w)\<rparr>"

text \<open>\<open>Database.query\<close>: the pool runs the statement in a transaction of its own.\<close>

definition query :: "'a stmt \<Rightarrow> 'a prog" where
  "query s e w = client_query s e (others e w)"

section \<open>Transactions\<close>

text \<open>A control statement changes no table.\<close>

definition control :: "unit prog" where
  "control e w =
     (case e_fault e (w_tick w) of
        NoFault \<Rightarrow> (Inr (), tick w)
      | FailBefore m \<Rightarrow> (Inl (DbError m), tick w)
      | FailAfter m \<Rightarrow> (Inl (DbError m), tick w))"

text \<open>
  The \<open>catch\<close> clause: ROLLBACK restores the tables (the server does, when the connection
  is lost) and the error is thrown on, unless ROLLBACK itself fails.
\<close>

definition rollback :: "exn \<Rightarrow> db \<Rightarrow> 'a prog" where
  "rollback x d e w =
     (case control e w of
        (Inl y, w') \<Rightarrow> (Inl y, w'\<lparr>w_db := d, w_tx := None\<rparr>)
      | (Inr _, w') \<Rightarrow> (Inl x, w'\<lparr>w_db := d, w_tx := None\<rparr>))"

text \<open>
  \<open>Database.transaction\<close>. A lost answer to COMMIT leaves the work committed: the ROLLBACK
  that follows it has nothing to undo. The sessions that touch the same rows wait for the
  first statement's row lock, so what they commit comes before BEGIN.
\<close>

definition transaction :: "'a prog \<Rightarrow> 'a prog" where
  "transaction work e w0 =
     (case control e w0 of
        (Inl x, w) \<Rightarrow> (Inl x, w)
      | (Inr _, w1) \<Rightarrow>
          let w = others e w1; d0 = w_db w in
          (case control e w of
             (Inl x, w2) \<Rightarrow> rollback x d0 e w2
           | (Inr _, w2) \<Rightarrow>
               (case work e (w2\<lparr>w_tx := Some (e_clock e (w_tick w))\<rparr>) of
                  (Inl x, w3) \<Rightarrow> rollback x d0 e w3
                | (Inr a, w3) \<Rightarrow>
                    (case e_fault e (w_tick w3) of
                       NoFault \<Rightarrow> (Inr a, (tick w3)\<lparr>w_tx := None\<rparr>)
                     | FailBefore m \<Rightarrow> rollback (DbError m) d0 e (tick w3)
                     | FailAfter m \<Rightarrow> rollback (DbError m) (w_db w3) e (tick w3)))))"

section \<open>Facts\<close>

lemmas prog_defs = step_defs randomUUID_def new_Date_def current_tick_def

lemma tick_simps [simp]:
  "w_db (tick w) = w_db w" "w_tx (tick w) = w_tx w" "w_tick (tick w) = w_tick w + 1"
  by (simp_all add: tick_def)

lemma others_simps [simp]:
  "w_db (others e w) = e_others e (w_tick w) (w_db w)" "w_tx (others e w) = w_tx w"
  "w_tick (others e w) = w_tick w"
  by (simp_all add: others_def)

lemma prog_eval [simp]:
  "current_tick e w = (Inr (w_tick w), tick w)"
  "randomUUID e w = (Inr (e_uuid e (w_tick w)), tick w)"
  "new_Date e w = (Inr (e_clock e (w_tick w) div 1000), tick w)"
  by (simp_all add: prog_defs)

lemma client_query_Inr:
  "client_query s e w = (Inr a, w') \<longleftrightarrow>
     e_fault e (w_tick w) = NoFault \<and>
     (\<exists>d. s e (now_of e w) (w_db w) = Inr (a, d) \<and> w' = (tick w)\<lparr>w_db := d\<rparr>)"
  by (auto simp: client_query_def split: fault.splits sum.splits prod.splits)

text \<open>Whatever a statement's outcome, the tables are as before or as the statement left them.\<close>

lemma client_query_db:
  assumes "client_query s e w = (r, w')"
  shows "w_tx w' = w_tx w \<and>
    (w_db w' = w_db w \<or> (\<exists>a. s e (now_of e w) (w_db w) = Inr (a, w_db w')))"
  using assms by (auto simp: client_query_def split: fault.splits sum.splits prod.splits)

lemma control_db: "control e w = (r, w') \<Longrightarrow> w_db w' = w_db w \<and> w_tx w' = w_tx w \<and> w_tick w' = w_tick w + 1"
  by (auto simp: control_def split: fault.splits)

lemma rollback_result:
  "rollback x d e w = (r, w') \<Longrightarrow> (\<exists>y. r = Inl y) \<and> w_db w' = d \<and> w_tx w' = None"
  by (auto simp: rollback_def split: prod.splits sum.splits)

text \<open>
  A transaction is all or nothing: its tables are what it found, or what its work left when
  the work succeeded. It succeeds only in the second case.
\<close>

lemma transaction_cases:
  assumes "transaction work e w = (r, w')"
  obtains (kept) x where "r = Inl x" and "w_db w' = w_db w \<and> w_tx w' = w_tx w \<or>
        w_db w' = e_others e (w_tick w + 1) (w_db w) \<and> w_tx w' = None"
  | (committed) a w2 w3 where "w_db w2 = e_others e (w_tick w + 1) (w_db w)" and "w_tx w2 \<noteq> None"
      and "work e w2 = (Inr a, w3)" and "w_db w' = w_db w3" and "w_tx w' = None"
      and "r = Inr a \<or> (\<exists>x. r = Inl x)"
proof -
  obtain r1 w1 where c1: "control e w = (r1, w1)" by (cases "control e w") auto
  note d1 = control_db [OF c1]
  show thesis
  proof (cases r1)
    case (Inl x)
    then show thesis using assms c1 d1 kept by (auto simp: transaction_def)
  next
    case (Inr u1)
    obtain r2 w2 where c2: "control e (others e w1) = (r2, w2)"
      by (cases "control e (others e w1)") auto
    note d2 = control_db [OF c2]
    show thesis
    proof (cases r2)
      case (Inl x)
      then have "rollback x (w_db (others e w1)) e w2 = (r, w')"
        using assms c1 c2 Inr by (simp add: transaction_def Let_def)
      then show thesis using kept d1 by (auto dest!: rollback_result)
    next
      case (Inr u2)
      let ?w2 = "w2\<lparr>w_tx := Some (e_clock e (w_tick (others e w1)))\<rparr>"
      obtain r3 w3 where c3: "work e ?w2 = (r3, w3)" by (cases "work e ?w2") auto
      have db2: "w_db ?w2 = e_others e (w_tick w + 1) (w_db w)" using d1 d2 by simp
      note eq = assms [unfolded transaction_def Let_def c1 \<open>r1 = Inr u1\<close> prod.case sum.case c2 Inr c3]
      show thesis
      proof (cases r3)
        case (Inl x)
        then have "rollback x (w_db (others e w1)) e w3 = (r, w')" using eq by simp
        then show thesis using kept d1 by (auto dest!: rollback_result)
      next
        case (Inr a)
        show thesis
        proof (cases "e_fault e (w_tick w3)")
          case NoFault
          then show thesis
            using eq Inr c3 db2 by (intro committed [of ?w2 a w3]) (auto dest: sym)
        next
          case (FailBefore m)
          then have "rollback (DbError m) (w_db (others e w1)) e (tick w3) = (r, w')"
            using eq Inr by simp
          then show thesis using kept d1 by (auto dest!: rollback_result)
        next
          case (FailAfter m)
          then have "rollback (DbError m) (w_db w3) e (tick w3) = (r, w')" using eq Inr by simp
          from rollback_result [OF this] show thesis
            using Inr c3 db2 by (intro committed [of ?w2 a w3]) auto
        qed
      qed
    qed
  qed
qed

end
