(* ===== verification/Codec.thy ===== *)
theory Codec
  imports JsText
begin

text \<open>
  Node's \<open>Buffer\<close> as the cursor code uses it: UTF-8 and unpadded base64url. The locale
  \<open>partial_codec\<close> is the contract an encoder and its decoder have; \<open>codec_chain\<close>
  composes two of them, and is interpreted on \<open>Buffer.from(text).toString('base64url')\<close>
  and its inverse.
\<close>

section \<open>The contract of a codec\<close>

locale partial_codec =
  fixes enc :: "'a \<Rightarrow> 'b"
    and dec :: "'b \<Rightarrow> 'a option"
    and ok :: "'a \<Rightarrow> bool"
  assumes dec_enc: "ok x \<Longrightarrow> dec (enc x) = Some x"
begin

lemma enc_inj: "\<lbrakk>ok x; ok y; enc x = enc y\<rbrakk> \<Longrightarrow> x = y"
  by (metis dec_enc option.inject)

text \<open>
  A decoder followed by the check that encoding gives the input back accepts exactly
  the canonical encodings, whatever the decoder does with other inputs.
\<close>

lemma canonical_iff:
  assumes "\<And>x. dec y = Some x \<Longrightarrow> ok x"
  shows "dec y = Some x \<and> enc x = y \<longleftrightarrow> ok x \<and> enc x = y"
  using assms dec_enc by auto

end

locale codec_chain =
  inner: partial_codec enc1 dec1 ok1 + outer: partial_codec enc2 dec2 ok2
  for enc1 :: "'a \<Rightarrow> 'b" and dec1 ok1 and enc2 :: "'b \<Rightarrow> 'c" and dec2 ok2 +
  assumes ok_chain: "ok1 x \<Longrightarrow> ok2 (enc1 x)"
begin

lemma chain_dec_enc: "ok1 x \<Longrightarrow> Option.bind (dec2 (enc2 (enc1 x))) dec1 = Some x"
  by (simp add: ok_chain inner.dec_enc outer.dec_enc)

end

sublocale codec_chain \<subseteq>
  whole: partial_codec "\<lambda>x. enc2 (enc1 x)" "\<lambda>y. Option.bind (dec2 y) dec1" ok1
  by unfold_locales (rule chain_dec_enc)

section \<open>UTF-8\<close>

text \<open>\<open>Buffer.from(text)\<close>: one byte below 128, two for the rest of the Latin-1 range.\<close>

definition utf8_char :: "char \<Rightarrow> nat list" where
  "utf8_char c = (if code c < 128 then [code c] else [192 + code c div 64, 128 + code c mod 64])"

definition utf8_encode :: "string \<Rightarrow> nat list" where
  "utf8_encode s = concat (map utf8_char s)"

text \<open>
  \<open>buffer.toString('utf8')\<close>, with \<open>None\<close> for a text that has a code point of 256 or more:
  another two-byte sequence, a longer sequence, or the replacement character U+FFFD of a
  malformed one.
\<close>

fun utf8_decode :: "nat list \<Rightarrow> string option" where
  "utf8_decode [] = Some []"
| "utf8_decode (b # bs) =
     (if b < 128 then map_option ((#) (char_of b)) (utf8_decode bs)
      else if b = 194 \<or> b = 195 then
        (case bs of
           c # cs \<Rightarrow> if 128 \<le> c \<and> c < 192
                     then map_option ((#) (char_of ((b - 192) * 64 + (c - 128)))) (utf8_decode cs)
                     else None
         | [] \<Rightarrow> None)
      else None)"

lemma utf8_decode_char: "utf8_decode (utf8_char c @ bs) = map_option ((#) c) (utf8_decode bs)"
proof (cases "code c < 128")
  case True
  then show ?thesis by (simp add: utf8_char_def)
next
  case False
  have "code c div 64 = 2 \<or> code c div 64 = 3"
    using False code_bound [of c] by linarith
  moreover have "code c div 64 * 64 + code c mod 64 = code c" by simp
  ultimately show ?thesis using False by (auto simp: utf8_char_def)
qed

lemma utf8_decode_encode: "utf8_decode (utf8_encode s) = Some s"
  by (induction s) (simp_all add: utf8_encode_def utf8_decode_char)

lemma utf8_encode_bytes: "b \<in> set (utf8_encode s) \<Longrightarrow> b < 256"
proof -
  have "\<forall>b\<in>set (utf8_char c). b < 256" for c
  proof -
    have "code c div 64 < 4" using code_bound [of c] by (simp add: less_mult_imp_div_less)
    then show ?thesis by (auto simp: utf8_char_def)
  qed
  then show "b \<in> set (utf8_encode s) \<Longrightarrow> b < 256" by (auto simp: utf8_encode_def)
qed

section \<open>base64url\<close>

definition b64_char :: "nat \<Rightarrow> char" where
  "b64_char n =
     (if n < 26 then char_of (65 + n) else if n < 52 then char_of (71 + n)
      else if n < 62 then char_of (n - 4) else if n = 62 then CHR ''-'' else CHR ''_'')"

text \<open>The decoder also reads the standard alphabet.\<close>

definition b64_val :: "char \<Rightarrow> nat option" where
  "b64_val c =
     (let n = code c in
      if 65 \<le> n \<and> n \<le> 90 then Some (n - 65) else if 97 \<le> n \<and> n \<le> 122 then Some (n - 71)
      else if 48 \<le> n \<and> n \<le> 57 then Some (n + 4)
      else if n = 45 \<or> n = 43 then Some 62 else if n = 95 \<or> n = 47 then Some 63 else None)"

fun to_sextets :: "nat list \<Rightarrow> nat list" where
  "to_sextets [] = []"
| "to_sextets [a] = [a div 4, a mod 4 * 16]"
| "to_sextets [a, b] = [a div 4, a mod 4 * 16 + b div 16, b mod 16 * 4]"
| "to_sextets (a # b # c # r) =
     a div 4 # (a mod 4 * 16 + b div 16) # (b mod 16 * 4 + c div 64) # c mod 64 # to_sextets r"

fun from_sextets :: "nat list \<Rightarrow> nat list" where
  "from_sextets [] = []"
| "from_sextets [w] = []"
| "from_sextets [w, x] = [w * 4 + x div 16]"
| "from_sextets [w, x, y] = [w * 4 + x div 16, x mod 16 * 16 + y div 4]"
| "from_sextets (w # x # y # z # r) =
     (w * 4 + x div 16) # (x mod 16 * 16 + y div 4) # (y mod 4 * 64 + z) # from_sextets r"

text \<open>\<open>buffer.toString('base64url')\<close> writes no padding.\<close>

definition base64url_encode :: "nat list \<Rightarrow> string" where
  "base64url_encode bs = map b64_char (to_sextets bs)"

text \<open>
  \<open>Buffer.from(text, 'base64url')\<close> never fails: it stops at the first \<open>=\<close> and skips
  characters outside the alphabet.
\<close>

definition base64url_decode :: "string \<Rightarrow> nat list" where
  "base64url_decode s =
     from_sextets (map (the \<circ> b64_val)
       (filter (\<lambda>c. b64_val c \<noteq> None) (takeWhile (\<lambda>c. c \<noteq> CHR ''='') s)))"

lemma from_to_sextets: "\<forall>b\<in>set bs. b < 256 \<Longrightarrow> from_sextets (to_sextets bs) = bs"
proof (induction bs rule: to_sextets.induct)
  case (2 a)
  then show ?case by simp
next
  case (3 a b)
  then have "b div 16 < 16" by (simp add: less_mult_imp_div_less)
  then show ?case by simp
next
  case (4 a b c r)
  then have "b div 16 < 16" "c div 64 < 4" by (simp_all add: less_mult_imp_div_less)
  with 4 show ?case by simp
qed simp

lemma to_sextets_bound: "\<forall>b\<in>set bs. b < 256 \<Longrightarrow> n \<in> set (to_sextets bs) \<Longrightarrow> n < 64"
proof (induction bs rule: to_sextets.induct)
  case (2 a)
  then show ?case by auto
next
  case (3 a b)
  have "a div 4 < 64" "b div 16 < 16" "a mod 4 < 4" "b mod 16 < 16"
    using 3 by (simp_all add: less_mult_imp_div_less)
  with 3 show ?case by auto
next
  case (4 a b c r)
  have "a div 4 < 64" "b div 16 < 16" "c div 64 < 4" "a mod 4 < 4" "b mod 16 < 16" "c mod 64 < 64"
    using 4 by (simp_all add: less_mult_imp_div_less)
  with 4 show ?case by auto
qed simp

lemma b64_val_char: "n < 64 \<Longrightarrow> b64_val (b64_char n) = Some n"
  unfolding b64_char_def b64_val_def Let_def
  by (cases "n < 26"; cases "n < 52"; cases "n < 62"; cases "n = 62") (auto simp: code_def [of "CHR ''-''"] code_def [of "CHR ''_''"])

lemma b64_char_not_pad: "n < 64 \<Longrightarrow> b64_char n \<noteq> CHR ''=''"
proof
  assume "n < 64" "b64_char n = CHR ''=''"
  then have "b64_val CHR ''='' = Some n" using b64_val_char by metis
  then show False by (simp add: b64_val_def code_def)
qed

lemma base64url_decode_encode:
  assumes "\<forall>b\<in>set bs. b < 256"
  shows "base64url_decode (base64url_encode bs) = bs"
proof -
  let ?x = "to_sextets bs"
  have b: "\<forall>n\<in>set ?x. n < 64" using to_sextets_bound [OF assms] by blast
  then have tw: "takeWhile (\<lambda>c. c \<noteq> CHR ''='') (map b64_char ?x) = map b64_char ?x"
    by (auto simp: b64_char_not_pad)
  have fl: "filter (\<lambda>c. b64_val c \<noteq> None) (map b64_char ?x) = map b64_char ?x"
    using b by (auto simp: b64_val_char)
  have mp: "map (the \<circ> b64_val) (map b64_char ?x) = ?x"
    using b by (simp add: b64_val_char map_idI)
  show ?thesis
    unfolding base64url_decode_def base64url_encode_def tw fl mp by (rule from_to_sextets [OF assms])
qed

section \<open>The two together\<close>

text \<open>\<open>Buffer.from(text).toString('base64url')\<close> and \<open>Buffer.from(text, 'base64url').toString('utf8')\<close>.\<close>

definition text_to_b64 :: "string \<Rightarrow> string" where
  "text_to_b64 s = base64url_encode (utf8_encode s)"

definition b64_to_text :: "string \<Rightarrow> string option" where
  "b64_to_text s = utf8_decode (base64url_decode s)"

interpretation utf8: partial_codec utf8_encode utf8_decode "\<lambda>_. True"
  by unfold_locales (rule utf8_decode_encode)

interpretation b64: partial_codec base64url_encode "\<lambda>s. Some (base64url_decode s)" "\<lambda>bs. \<forall>b\<in>set bs. b < 256"
  by unfold_locales (simp add: base64url_decode_encode)

interpretation text_b64: codec_chain utf8_encode utf8_decode "\<lambda>_. True"
    base64url_encode "\<lambda>s. Some (base64url_decode s)" "\<lambda>bs. \<forall>b\<in>set bs. b < 256"
  by unfold_locales (auto dest: utf8_encode_bytes)

lemma b64_to_text_of_text [simp]: "b64_to_text (text_to_b64 s) = Some s"
  using text_b64.whole.dec_enc [of s] by (simp add: b64_to_text_def text_to_b64_def)

lemma text_to_b64_inj: "text_to_b64 s = text_to_b64 t \<longleftrightarrow> s = t"
  using text_b64.whole.enc_inj [of s t] by (auto simp: text_to_b64_def)

end
