(* ===== verification/Issue_List_Query.thy ===== *)
theory Issue_List_Query
  imports Codec Issue_Domain
begin

text \<open>
  \<open>apps/issue-service-nest/src/application/issue-list-query.ts\<close>, with the filter and
  position types of \<open>ports.ts\<close>: the query string of the issue list and its opaque cursor.
  A cursor is the base64url text of \<open>createdAt|id\<close>, the keyset position of the last issue
  of a page.
\<close>

section \<open>Data\<close>

record issue_list_filter =
  f_status :: "issue_status option"
  f_assigneeUserId :: "string option"
  f_sprintId :: "string option"
  f_q :: "string option"

record issue_list_position =
  p_createdAt :: string
  p_id :: string

record issue_list_query =
  lq_filter :: issue_list_filter
  lq_limit :: nat
  lq_after :: "issue_list_position option"

definition ISSUE_LIST_DEFAULT_LIMIT :: nat where
  "ISSUE_LIST_DEFAULT_LIMIT = 25"

definition ISSUE_LIST_MAX_LIMIT :: nat where
  "ISSUE_LIST_MAX_LIMIT = 50"

definition PARAMETERS :: "string list" where
  "PARAMETERS = [''status'', ''assigneeUserId'', ''sprintId'', ''q'', ''limit'', ''cursor'']"

section \<open>The cursor\<close>

definition CURSOR_CREATED_AT :: "(char \<Rightarrow> bool) list" where
  "CURSOR_CREATED_AT =
     replicate 4 is_digit @ lit CHR ''-'' # replicate 2 is_digit @ lit CHR ''-'' #
     replicate 2 is_digit @ lit CHR ''T'' # replicate 2 is_digit @ lit CHR '':'' #
     replicate 2 is_digit @ lit CHR '':'' # replicate 2 is_digit @ lit CHR ''.'' #
     replicate 6 is_digit @ [lit CHR ''Z'']"

definition invalidCursor :: exn where
  "invalidCursor = validationError ''cursor'' ''cursor is not a valid issue list cursor''"

definition encodeIssueCursor :: "issue_list_position \<Rightarrow> string" where
  "encodeIssueCursor position = text_to_b64 (p_createdAt position @ CHR ''|'' # p_id position)"

text \<open>
  The destructuring \<open>[createdAt = '', id = '', extra]\<close> of a split that is never empty. A
  text with a code point above 255 (\<open>None\<close>) passes neither expression, so it is refused.
\<close>

definition cursor_parts :: "string list \<Rightarrow> string \<times> string \<times> bool" where
  "cursor_parts parts =
     (hd parts, (case tl parts of [] \<Rightarrow> [] | b # _ \<Rightarrow> b), length parts > 2)"

definition decodeIssueCursor :: "string \<Rightarrow> exn + issue_list_position" where
  "decodeIssueCursor cursor =
     (case b64_to_text cursor of
        None \<Rightarrow> Inl invalidCursor
      | Some text \<Rightarrow>
          (case cursor_parts (split_on CHR ''|'' text) of (createdAt, idText, extra) \<Rightarrow>
             if extra \<or> text_to_b64 text \<noteq> cursor \<or> \<not> match_re CURSOR_CREATED_AT createdAt
                \<or> (case date_parse createdAt of
                     None \<Rightarrow> True
                   | Some time \<Rightarrow> slice 0 23 (to_iso_string time) \<noteq> slice 0 23 createdAt)
             then Inl invalidCursor
             else (case uuid (Str idText) ''cursor'' of
                     Inl _ \<Rightarrow> Inl invalidCursor
                   | Inr i \<Rightarrow> Inr \<lparr>p_createdAt = createdAt, p_id = i\<rparr>)))"

section \<open>The query string\<close>

text \<open>
  \<open>/^\d{1,3}$/.test(value) ? Number(value) : NaN\<close>: the expression allows one, two or
  three digits.
\<close>

definition parseLimit :: "string \<Rightarrow> exn + nat" where
  "parseLimit value =
     (if (\<exists>n\<in>{1, 2, 3}. match_re (replicate n is_digit) value) \<and>
         1 \<le> dec_value 0 value \<and> dec_value 0 value \<le> ISSUE_LIST_MAX_LIMIT
      then Inr (dec_value 0 value)
      else Inl (validationError ''limit''
             (''limit must be an integer from 1 to '' @ dec_string ISSUE_LIST_MAX_LIMIT)))"

text \<open>\<open>Object.entries(query ?? {})\<close>.\<close>

fun object_entries :: "jsval \<Rightarrow> (string \<times> jsval) list" where
  "object_entries (Obj ps) = ps"
| "object_entries (Arr vs) = zip (map dec_string [0..<length vs]) vs"
| "object_entries (Str s) = zip (map dec_string [0..<length s]) (map (\<lambda>c. Str [c]) s)"
| "object_entries _ = []"

text \<open>The loop that builds \<open>params\<close>; the names are distinct, so each is assigned once.\<close>

fun list_params :: "(string \<times> jsval) list \<Rightarrow> exn + (string \<times> string) list" where
  "list_params [] = Inr []"
| "list_params ((name, value) # rest) =
     (if name \<notin> set PARAMETERS
      then Inl (validationError name (name @ '' is not a supported parameter''))
      else (case value of
              Str s \<Rightarrow> map_result ((#) (name, s)) (list_params rest)
            | _ \<Rightarrow> Inl (validationError name (name @ '' must be given once''))))"

text \<open>\<open>value === undefined ? absent : parse(value)\<close>.\<close>

definition if_given :: "string option \<Rightarrow> (string \<Rightarrow> exn + 'a) \<Rightarrow> 'a \<Rightarrow> exn + 'a" where
  "if_given value parse absent = (case value of None \<Rightarrow> Inr absent | Some s \<Rightarrow> parse s)"

definition parseIssueListQuery :: "jsval \<Rightarrow> exn + issue_list_query" where
  "parseIssueListQuery query =
     try_then (list_params (object_entries query)) (\<lambda>params.
     let param = map_of params in
     try_then (if_given (param ''status'')
                (\<lambda>s. map_result Some (enumValue (Str s) ''status'' ISSUE_STATUSES)) None) (\<lambda>status.
     try_then (if_given (param ''assigneeUserId'')
                (\<lambda>s. map_result Some (uuid (Str s) ''assigneeUserId'')) None) (\<lambda>assigneeUserId.
     try_then (if_given (param ''sprintId'')
                (\<lambda>s. map_result Some (uuid (Str s) ''sprintId'')) None) (\<lambda>sprintId.
     try_then (if_given (param ''q'')
                (\<lambda>s. map_result Some (requiredText (Str s) ''q'' 200)) None) (\<lambda>q.
     try_then (if_given (param ''limit'') parseLimit ISSUE_LIST_DEFAULT_LIMIT) (\<lambda>limit.
     try_then (if_given (param ''cursor'')
                (\<lambda>s. map_result Some (decodeIssueCursor s)) None) (\<lambda>after.
     Inr \<lparr>lq_filter = \<lparr>f_status = status, f_assigneeUserId = assigneeUserId,
                        f_sprintId = sprintId, f_q = q\<rparr>,
          lq_limit = limit, lq_after = after\<rparr>)))))))"

section \<open>Facts\<close>

text \<open>The timestamps a cursor may hold: microseconds, a day of the calendar, a time of day.\<close>

definition real_timestamp :: "string \<Rightarrow> bool" where
  "real_timestamp s \<longleftrightarrow>
     match_re CURSOR_CREATED_AT s \<and>
     (let num = (\<lambda>a b. dec_value 0 (slice a b s)) in
      valid_date (int (num 0 4)) (num 5 7) (int (num 8 10)) \<and>
      num 11 13 < 24 \<and> num 14 16 < 60 \<and> num 17 19 < 60)"

lemma match_re_Nil_iff: "match_re [] s \<longleftrightarrow> s = []"
  by (cases s) auto

lemma match_re_Cons_iff: "match_re (p # ps) s \<longleftrightarrow> (\<exists>c t. s = c # t \<and> p c \<and> match_re ps t)"
  by (cases s) auto

lemma match_re_digits_append:
  "match_re (replicate n is_digit @ ps) s \<longleftrightarrow> (\<exists>a b. s = a @ b \<and> digits n a \<and> match_re ps b)"
proof
  assume m: "match_re (replicate n is_digit @ ps) s"
  then have "length s = n + length ps" by (auto dest: match_re_length)
  with m have "match_re (replicate n is_digit) (take n s) \<and> match_re ps (drop n s)"
    using match_re_append [of "take n s" "replicate n is_digit" ps "drop n s"] by simp
  then show "\<exists>a b. s = a @ b \<and> digits n a \<and> match_re ps b"
    by (metis append_take_drop_id match_re_digits)
next
  assume "\<exists>a b. s = a @ b \<and> digits n a \<and> match_re ps b"
  then show "match_re (replicate n is_digit @ ps) s"
    by (auto simp: match_re_append digits_length match_re_digits)
qed

lemma match_re_field:
  "match_re (replicate n is_digit @ lit c # ps) s \<longleftrightarrow>
     (\<exists>a t. s = a @ c # t \<and> digits n a \<and> match_re ps t)"
  by (auto simp: match_re_digits_append match_re_Cons_iff lit_def)

lemma CURSOR_CREATED_AT_iff:
  "match_re CURSOR_CREATED_AT s \<longleftrightarrow>
     (\<exists>Y M D h mi sec f u. s = ts_text Y M D h mi sec (f @ u @ ''Z'') \<and>
        digits 4 Y \<and> digits 2 M \<and> digits 2 D \<and> digits 2 h \<and> digits 2 mi \<and> digits 2 sec \<and>
        digits 3 f \<and> digits 3 u)"
proof -
  have six: "replicate 6 is_digit = replicate 3 is_digit @ replicate 3 is_digit"
    by (simp add: eval_nat_numeral)
  show ?thesis
    unfolding CURSOR_CREATED_AT_def six append_assoc
    unfolding match_re_field
    unfolding match_re_digits_append match_re_Cons_iff lit_def match_re_Nil_iff ts_text_def date_text_def
      append_assoc append_Cons append_Nil
    by (intro iffI; elim exE conjE; hypsubst; intro exI conjI; (rule refl | assumption)+)
qed

lemma ts_text_slices:
  assumes "digits 4 Y" "digits 2 M" "digits 2 D" "digits 2 h" "digits 2 mi" "digits 2 sec"
  shows "slice 0 4 (ts_text Y M D h mi sec r) = Y" "slice 5 7 (ts_text Y M D h mi sec r) = M"
    "slice 8 10 (ts_text Y M D h mi sec r) = D" "slice 11 13 (ts_text Y M D h mi sec r) = h"
    "slice 14 16 (ts_text Y M D h mi sec r) = mi" "slice 17 19 (ts_text Y M D h mi sec r) = sec"
  using assms by (simp_all add: slice_def ts_text_def date_text_def digits_def)

text \<open>What the cursor's parse-and-print comparison decides.\<close>

lemma timestamp_check_iff:
  "match_re CURSOR_CREATED_AT s \<and>
   (\<exists>t. date_parse s = Some t \<and> slice 0 23 (to_iso_string t) = slice 0 23 s) \<longleftrightarrow> real_timestamp s"
proof (cases "match_re CURSOR_CREATED_AT s")
  case True
  then obtain Y M D h mi sec f u where s: "s = ts_text Y M D h mi sec (f @ u @ ''Z'')"
    and dg: "digits 4 Y" "digits 2 M" "digits 2 D" "digits 2 h" "digits 2 mi" "digits 2 sec" "digits 3 f"
    unfolding CURSOR_CREATED_AT_iff by blast
  have "(\<exists>t. date_parse s = Some t \<and> slice 0 23 (to_iso_string t) = slice 0 23 s) \<longleftrightarrow>
      valid_date (int (dec_value 0 Y)) (dec_value 0 M) (int (dec_value 0 D)) \<and>
      dec_value 0 h < 24 \<and> dec_value 0 mi < 60 \<and> dec_value 0 sec < 60"
    using timestamp_survives_iff [OF dg, of "u @ ''Z''"] unfolding s slice_def by simp
  also have "\<dots> \<longleftrightarrow> real_timestamp s"
    using True unfolding real_timestamp_def s Let_def ts_text_slices [OF dg(1-6)] by simp
  finally show ?thesis using True by blast
qed (simp add: real_timestamp_def)

lemma bar_not_in_timestamp: "match_re CURSOR_CREATED_AT s \<Longrightarrow> CHR ''|'' \<notin> set s"
  by (erule match_re_set) (auto simp: CURSOR_CREATED_AT_def lit_def is_digit_def code_def)

lemma bar_not_in_uuid: "match_re UUID_RE s \<Longrightarrow> CHR ''|'' \<notin> set s"
  by (erule match_re_set)
    (auto simp: UUID_RE_def lit_def is_digit_def hex_digit_def uuid_version_def uuid_variant_def code_def)

lemma not_uuid_Nil: "\<not> match_re UUID_RE []"
  by (simp add: UUID_RE_def eval_nat_numeral)

lemma cursor_parts_iff:
  assumes "match_re UUID_RE i"
  shows "cursor_parts (split_on CHR ''|'' t) = (c, i, False) \<longleftrightarrow>
    t = c @ CHR ''|'' # i \<and> CHR ''|'' \<notin> set c"
proof -
  have "cursor_parts ps = (c, i, False) \<longleftrightarrow> ps = [c, i]" if "ps \<noteq> []" for ps
    using that assms not_uuid_Nil
    by (cases ps; cases "tl ps"; cases "tl (tl ps)") (auto simp: cursor_parts_def)
  then show ?thesis using bar_not_in_uuid [OF assms] by (auto simp: split_on_two)
qed

lemma decode_Inr_iff:
  "decodeIssueCursor cursor = Inr p \<longleftrightarrow>
     (\<exists>i. cursor = text_to_b64 (p_createdAt p @ CHR ''|'' # i) \<and> real_timestamp (p_createdAt p) \<and>
          match_re UUID_RE i \<and> p_id p = toLowerCase i)"
    (is "?L \<longleftrightarrow> ?R")
proof
  assume ?L
  then obtain tx where t: "b64_to_text cursor = Some tx"
    by (auto simp: decodeIssueCursor_def split: option.splits)
  obtain c i e where parts: "cursor_parts (split_on CHR ''|'' tx) = (c, i, e)"
    by (cases "cursor_parts (split_on CHR ''|'' tx)") auto
  from \<open>?L\<close> t parts obtain time where n: "\<not> e" "text_to_b64 tx = cursor" "match_re CURSOR_CREATED_AT c"
      "date_parse c = Some time" "slice 0 23 (to_iso_string time) = slice 0 23 c"
      "match_re UUID_RE i" "p = \<lparr>p_createdAt = c, p_id = toLowerCase i\<rparr>"
    by (auto simp: decodeIssueCursor_def uuid_def split: if_splits option.splits)
  then have "real_timestamp c" using timestamp_check_iff by blast
  moreover have "tx = c @ CHR ''|'' # i"
    using parts n(1) cursor_parts_iff [OF n(6)] by simp
  ultimately show ?R using n by auto
next
  assume ?R
  then obtain i where i: "cursor = text_to_b64 (p_createdAt p @ CHR ''|'' # i)"
      "real_timestamp (p_createdAt p)" "match_re UUID_RE i" "p_id p = toLowerCase i" by blast
  let ?c = "p_createdAt p"
  from i(2) obtain time where m: "match_re CURSOR_CREATED_AT ?c" "date_parse ?c = Some time"
      "slice 0 23 (to_iso_string time) = slice 0 23 ?c"
    using timestamp_check_iff by blast
  have "cursor_parts (split_on CHR ''|'' (?c @ CHR ''|'' # i)) = (?c, i, False)"
    using cursor_parts_iff [OF i(3)] bar_not_in_timestamp [OF m(1)] by blast
  then show ?L using i m by (simp add: decodeIssueCursor_def uuid_def)
qed

lemma decode_encode:
  "real_timestamp (p_createdAt p) \<Longrightarrow> canonical_uuid (p_id p) \<Longrightarrow>
   decodeIssueCursor (encodeIssueCursor p) = Inr p"
  unfolding decode_Inr_iff encodeIssueCursor_def
  by (intro exI [of _ "p_id p"]) (simp add: canonical_uuid_def)

lemma decode_Inl: "decodeIssueCursor cursor = Inl e \<Longrightarrow> e = invalidCursor"
  by (auto simp: decodeIssueCursor_def split: option.splits if_splits prod.splits sum.splits)

lemma parseLimit_Inr_bounds: "parseLimit s = Inr n \<Longrightarrow> 1 \<le> n \<and> n \<le> 50"
  by (auto simp: parseLimit_def ISSUE_LIST_MAX_LIMIT_def split: if_splits)

lemma parseLimit_Inl: "parseLimit s = Inl e \<Longrightarrow> err_status e = 400 \<and> err_code e = ''VALIDATION_ERROR''"
  by (auto simp: parseLimit_def split: if_splits)

lemma list_params_Inl:
  "list_params es = Inl e \<Longrightarrow> err_status e = 400 \<and> err_code e = ''VALIDATION_ERROR''"
  by (induction es rule: list_params.induct)
    (auto simp: map_result_def split: if_splits jsval.splits sum.splits)

lemma list_params_Inr_iff:
  "list_params es = Inr ps \<longleftrightarrow>
     es = map (\<lambda>(n, s). (n, Str s)) ps \<and> fst ` set ps \<subseteq> set PARAMETERS"
proof (induction es arbitrary: ps rule: list_params.induct)
  case 1
  then show ?case by (cases ps) auto
next
  case (2 name v rest)
  then show ?case by (cases ps; cases v) (auto simp: map_result_Inr_iff)
qed

lemma if_given_Inr:
  "if_given v parse absent = Inr x \<longleftrightarrow> (case v of None \<Rightarrow> x = absent | Some s \<Rightarrow> parse s = Inr x)"
  by (auto simp: if_given_def split: option.splits)

lemma if_given_Inl:
  "if_given v parse absent = Inl e \<longleftrightarrow> (\<exists>s. v = Some s \<and> parse s = Inl e)"
  by (auto simp: if_given_def split: option.splits)

lemma map_result_Inl_iff: "map_result f r = Inl e \<longleftrightarrow> r = Inl e"
  by (cases r) auto

lemma parse_Inl:
  "parseIssueListQuery query = Inl e \<Longrightarrow> err_status e = 400 \<and> err_code e = ''VALIDATION_ERROR''"
  unfolding parseIssueListQuery_def Let_def try_then_Inl_iff if_given_Inl map_result_Inl_iff
  by (elim disjE exE conjE)
    (auto dest: list_params_Inl enumValue_Inl uuid_Inl requiredText_Inl parseLimit_Inl decode_Inl
      simp: invalidCursor_def)

section \<open>Properties\<close>

text \<open>
  \<open>decodeIssueCursor\<close> accepts exactly the canonical base64url texts of a position whose
  timestamp has microseconds and names a real day and time of day, and whose id is a UUID;
  it returns that timestamp and the id in lower case. Every other text (padding, the other
  base64 alphabet, ignored characters, extra parts, February 30th, hour 24) is refused.
\<close>

theorem decodeIssueCursor_accepts:
  "decodeIssueCursor cursor = Inr p \<longleftrightarrow>
     (\<exists>i. cursor = text_to_b64 (p_createdAt p @ CHR ''|'' # i) \<and> real_timestamp (p_createdAt p) \<and>
          match_re UUID_RE i \<and> p_id p = toLowerCase i)"
  by (rule decode_Inr_iff)

text \<open>
  Round trip of the cursor: a position with a real timestamp and a lower-case UUID is
  decoded to itself from its encoding, and no other such position has that encoding.
\<close>

theorem issue_cursor_roundtrip:
  assumes "real_timestamp (p_createdAt p)" and "canonical_uuid (p_id p)"
  shows "decodeIssueCursor (encodeIssueCursor p) = Inr p \<and>
    (\<forall>p'. real_timestamp (p_createdAt p') \<and> canonical_uuid (p_id p') \<and>
          encodeIssueCursor p' = encodeIssueCursor p \<longrightarrow> p' = p)"
  using assms decode_encode by (metis sum.inject(2))

definition example_position :: issue_list_position where
  "example_position = \<lparr>p_createdAt = ''2026-07-01T09:05:03.000007Z'',
     p_id = ''0a1b2c3d-0000-4000-8000-00000000000f''\<rparr>"

lemma example_position_ok:
  "real_timestamp (p_createdAt example_position)" "canonical_uuid (p_id example_position)"
  by code_simp+

theorem issue_cursor_roundtrip_witness:
  "decodeIssueCursor (encodeIssueCursor example_position) = Inr example_position"
  using issue_cursor_roundtrip [OF example_position_ok] by blast

text \<open>
  C36: What an accepted issue-list query gives the repository: only known parameters, each
  given once as a string; a page size from 1 to 50 (25 when absent); identifiers that are
  lower-case UUIDs; a search text that is trimmed, not empty and at most 200 long; and a
  position with a real timestamp and a lower-case UUID.
\<close>

theorem parseIssueListQuery_well_formed:
  assumes "parseIssueListQuery query = Inr r"
  shows "(\<forall>(name, v)\<in>set (object_entries query). name \<in> set PARAMETERS \<and> (\<exists>s. v = Str s)) \<and>
    1 \<le> lq_limit r \<and> lq_limit r \<le> 50 \<and>
    (map_of (object_entries query) ''limit'' = None \<longrightarrow> lq_limit r = 25) \<and>
    (\<forall>u. f_assigneeUserId (lq_filter r) = Some u \<longrightarrow> canonical_uuid u) \<and>
    (\<forall>u. f_sprintId (lq_filter r) = Some u \<longrightarrow> canonical_uuid u) \<and>
    (\<forall>t. f_q (lq_filter r) = Some t \<longrightarrow> t \<noteq> [] \<and> length t \<le> 200 \<and> trim t = t) \<and>
    (\<forall>p. lq_after r = Some p \<longrightarrow> real_timestamp (p_createdAt p) \<and> canonical_uuid (p_id p))"
proof -
  from assms obtain ps st u1 u2 q l a where
    ps: "list_params (object_entries query) = Inr ps"
    and u1: "if_given (map_of ps ''assigneeUserId'') (\<lambda>s. map_result Some (uuid (Str s) ''assigneeUserId'')) None = Inr u1"
    and u2: "if_given (map_of ps ''sprintId'') (\<lambda>s. map_result Some (uuid (Str s) ''sprintId'')) None = Inr u2"
    and q: "if_given (map_of ps ''q'') (\<lambda>s. map_result Some (requiredText (Str s) ''q'' 200)) None = Inr q"
    and l: "if_given (map_of ps ''limit'') parseLimit ISSUE_LIST_DEFAULT_LIMIT = Inr l"
    and a: "if_given (map_of ps ''cursor'') (\<lambda>s. map_result Some (decodeIssueCursor s)) None = Inr a"
    and r: "r = \<lparr>lq_filter = \<lparr>f_status = st, f_assigneeUserId = u1, f_sprintId = u2, f_q = q\<rparr>,
                 lq_limit = l, lq_after = a\<rparr>"
    unfolding parseIssueListQuery_def Let_def try_then_Inr_iff by blast
  note es = ps [unfolded list_params_Inr_iff]
  have "\<forall>(name, v)\<in>set (object_entries query). name \<in> set PARAMETERS \<and> (\<exists>s. v = Str s)"
    using es by auto
  moreover have "1 \<le> l \<and> l \<le> 50"
    using l parseLimit_Inr_bounds
    by (auto simp: if_given_Inr ISSUE_LIST_DEFAULT_LIMIT_def split: option.splits)
  moreover have "map_of (object_entries query) ''limit'' = None \<longrightarrow> l = 25"
    using l es by (auto simp: if_given_Inr ISSUE_LIST_DEFAULT_LIMIT_def map_of_map split: option.splits)
  moreover have "\<forall>u. u1 = Some u \<longrightarrow> canonical_uuid u" "\<forall>u. u2 = Some u \<longrightarrow> canonical_uuid u"
    using u1 u2 by (auto simp: if_given_Inr map_result_Inr_iff uuid_canonical split: option.splits)
  moreover have "\<forall>t. q = Some t \<longrightarrow> t \<noteq> [] \<and> length t \<le> 200 \<and> trim t = t"
    using q by (auto simp: if_given_Inr map_result_Inr_iff requiredText_Inr_iff split: option.splits)
  moreover have "\<forall>p. a = Some p \<longrightarrow> real_timestamp (p_createdAt p) \<and> canonical_uuid (p_id p)"
    using a by (auto simp: if_given_Inr map_result_Inr_iff decode_Inr_iff canonical_uuid_def UUID_RE_lower
        split: option.splits)
  ultimately show ?thesis unfolding r by simp
qed

theorem parseIssueListQuery_well_formed_witness:
  "parseIssueListQuery (Obj [(''q'', Str '' Login ''), (''limit'', Str ''7'')]) =
     Inr \<lparr>lq_filter = \<lparr>f_status = None, f_assigneeUserId = None, f_sprintId = None, f_q = Some ''Login''\<rparr>,
          lq_limit = 7, lq_after = None\<rparr> \<and> trim ''Login'' = ''Login''"
proof -
  have p: "parseIssueListQuery (Obj [(''q'', Str '' Login ''), (''limit'', Str ''7'')]) =
     Inr \<lparr>lq_filter = \<lparr>f_status = None, f_assigneeUserId = None, f_sprintId = None, f_q = Some ''Login''\<rparr>,
          lq_limit = 7, lq_after = None\<rparr>"
    by code_simp
  from parseIssueListQuery_well_formed [OF p] p show ?thesis by simp
qed

end
