(* ===== verification/Issue_Repository.thy ===== *)
theory Issue_Repository
  imports Database Issue_List_Query
begin

text \<open>
  \<open>apps/issue-service-nest/src/infrastructure/postgres-issue.repository.ts\<close>, the part that
  serves requests: each SQL statement as a function of the tables, each method as a program
  over them. The outbox methods of the same class are in \<open>Outbox\<close>.
\<close>

section \<open>Rows and parameters\<close>

definition toIssue :: "issue_row \<Rightarrow> issue" where
  "toIssue row = \<lparr>i_id = r_id row, i_projectId = r_project_id row, i_number = r_issue_number row,
     i_key = r_issue_key row, i_summary = r_summary row, i_description = r_description row,
     i_type = r_type row, i_priority = r_priority row, i_status = r_status row,
     i_reporterUserId = r_reporter_user_id row, i_assigneeUserId = r_assignee_user_id row,
     i_epicId = r_epic_id row, i_sprintId = r_sprint_id row, i_version = r_version row,
     i_createdAt = r_created_at row div 1000, i_updatedAt = r_updated_at row div 1000\<rparr>"

definition toComment :: "comment_row \<Rightarrow> issue_comment" where
  "toComment row = \<lparr>c_id = cr_id row, c_issueId = cr_issue_id row, c_authorUserId = cr_author_user_id row,
     c_body = cr_body row, c_createdAt = cr_created_at row div 1000, c_updatedAt = cr_updated_at row div 1000\<rparr>"

text \<open>A parameter for a UUID column, read by PostgreSQL's input function.\<close>

definition uuid_param :: "env \<Rightarrow> string \<Rightarrow> exn + string" where
  "uuid_param e s =
     (case e_uuid_in e s of None \<Rightarrow> Inl (DbError ''invalid input syntax for type uuid'') | Some t \<Rightarrow> Inr t)"

definition uuid_opt_param :: "env \<Rightarrow> string option \<Rightarrow> exn + string option" where
  "uuid_opt_param e v = (case v of None \<Rightarrow> Inr None | Some s \<Rightarrow> map_result Some (uuid_param e s))"

text \<open>\<open>new Set\<close> keeps the first occurrence of a value; \<open>!!value\<close> drops null and the empty text.\<close>

definition recipients :: "string option list \<Rightarrow> string \<Rightarrow> string list" where
  "recipients vs actorUserId =
     filter (\<lambda>v. v \<noteq> actorUserId)
       (rev (remdups (rev (map the (filter (\<lambda>v. v \<noteq> None \<and> v \<noteq> Some []) vs)))))"

definition recipient_list :: "string option list \<Rightarrow> string \<Rightarrow> jsval" where
  "recipient_list vs actorUserId = Arr (map Str (recipients vs actorUserId))"

section \<open>History and events\<close>

definition insertHistory :: "issue \<Rightarrow> string \<Rightarrow> string \<Rightarrow> jsval \<Rightarrow> jsval \<Rightarrow> unit prog" where
  "insertHistory issue actorUserId action fromValue toValue =
     andThen randomUUID (\<lambda>uid. andThen new_Date (\<lambda>now. client_query (\<lambda>e _ d.
       try_then (uuid_param e uid) (\<lambda>hid.
       try_then (uuid_param e (i_id issue)) (\<lambda>issue_id.
       try_then (uuid_param e actorUserId) (\<lambda>actor.
       insert_history_row \<lparr>hr_id = hid, hr_issue_id = issue_id, hr_actor_user_id = actor,
         hr_action = action, hr_from_value = fromValue, hr_to_value = toValue,
         hr_created_at = now * 1000\<rparr> d))))))"

definition insertEvent :: "issue \<Rightarrow> string \<Rightarrow> string \<Rightarrow> js_object \<Rightarrow> unit prog" where
  "insertEvent issue actorUserId eventType payload =
     andThen (ask e_trace) (\<lambda>traceContext.
     andThen randomUUID (\<lambda>uid. andThen new_Date (\<lambda>occurred. client_query (\<lambda>e now d.
       try_then (uuid_param e uid) (\<lambda>event_id.
       try_then (uuid_param e (i_id issue)) (\<lambda>aggregate_id.
       try_then (uuid_param e (i_projectId issue)) (\<lambda>project_id.
       try_then (uuid_param e actorUserId) (\<lambda>actor.
       insert_outbox_row \<lparr>o_event_id = event_id, o_event_type = eventType,
         o_aggregate_id = aggregate_id, o_aggregate_version = i_version issue,
         o_project_id = project_id, o_actor_user_id = actor, o_payload = Obj payload,
         o_occurred_at = occurred * 1000, o_published_at = None, o_publish_attempts = 0,
         o_last_error = None, o_next_attempt_at = now,
         o_trace_context = (if length traceContext > 0 then Obj traceContext else Null)\<rparr> d))))))))"

section \<open>Creating an issue\<close>

record new_issue_data =
  n_projectId :: string
  n_projectKey :: string
  n_summary :: string
  n_description :: "string option"
  n_type :: issue_type
  n_priority :: issue_priority
  n_reporterUserId :: string
  n_assigneeUserId :: "string option"
  n_epicId :: "string option"
  n_sprintId :: "string option"

text \<open>\<open>INSERT ... ON CONFLICT (project_id) DO UPDATE SET last_number = last_number + 1 RETURNING last_number\<close>.\<close>

definition next_number :: "string \<Rightarrow> int stmt" where
  "next_number projectId e now d =
     try_then (uuid_param e projectId) (\<lambda>p.
     case map_of (t_sequences d) p of
       None \<Rightarrow> Inr (1, d\<lparr>t_sequences := t_sequences d @ [(p, 1)]\<rparr>)
     | Some n \<Rightarrow>
         if n + 1 > int4_max then Inl (DbError ''integer out of range'')
         else Inr (n + 1, d\<lparr>t_sequences := map (\<lambda>(q, m). (q, if q = p then n + 1 else m)) (t_sequences d)\<rparr>))"

definition insert_issue :: "string \<Rightarrow> new_issue_data \<Rightarrow> int \<Rightarrow> string \<Rightarrow> int \<Rightarrow> issue_row stmt" where
  "insert_issue uid data number key created e now d =
     try_then (uuid_param e uid) (\<lambda>iid.
     try_then (uuid_param e (n_projectId data)) (\<lambda>project_id.
     try_then (uuid_param e (n_reporterUserId data)) (\<lambda>reporter.
     try_then (uuid_opt_param e (n_assigneeUserId data)) (\<lambda>assignee.
     try_then (uuid_opt_param e (n_epicId data)) (\<lambda>epic_id.
     try_then (uuid_opt_param e (n_sprintId data)) (\<lambda>sprint_id.
     insert_issue_row
       \<lparr>r_id = iid, r_project_id = project_id, r_issue_number = number, r_issue_key = key,
        r_summary = n_summary data, r_description = n_description data, r_type = n_type data,
        r_priority = n_priority data, r_status = TODO, r_reporter_user_id = reporter,
        r_assignee_user_id = assignee, r_epic_id = epic_id, r_sprint_id = sprint_id,
        r_version = 1, r_created_at = created * 1000, r_updated_at = created * 1000\<rparr> d))))))"

text \<open>\<open>String(number)\<close> in a template.\<close>

definition int_text :: "int \<Rightarrow> string" where
  "int_text n = (if n < 0 then CHR ''-'' # dec_string (nat (- n)) else dec_string (nat n))"

definition createIssue_work :: "new_issue_data \<Rightarrow> issue prog" where
  "createIssue_work data =
     andThen (client_query (next_number (n_projectId data))) (\<lambda>number.
     andThen randomUUID (\<lambda>uid.
     andThen new_Date (\<lambda>now.
     andThen (client_query (insert_issue uid data number
                (n_projectKey data @ CHR ''-'' # int_text number) now)) (\<lambda>row.
     let issue = toIssue row in
     andThen (insertHistory issue (n_reporterUserId data) ''CREATED'' Null
       (Obj [(''key'', Str (i_key issue)), (''summary'', Str (i_summary issue)),
             (''type'', Str (type_name (i_type issue))),
             (''priority'', Str (priority_name (i_priority issue))),
             (''status'', Str (status_name (i_status issue))),
             (''assigneeUserId'', str_or_null (i_assigneeUserId issue))])) (\<lambda>_.
     andThen (insertEvent issue (n_reporterUserId data) ''issue.created''
       [(''issueKey'', Str (i_key issue)), (''summary'', Str (i_summary issue)),
        (''reporterUserId'', Str (i_reporterUserId issue)),
        (''assigneeUserId'', str_or_null (i_assigneeUserId issue)),
        (''recipientUserIds'', recipient_list [i_assigneeUserId issue] (n_reporterUserId data))]) (\<lambda>_.
     returning issue))))))"

definition createIssue :: "new_issue_data \<Rightarrow> issue prog" where
  "createIssue data = transaction (createIssue_work data)"

section \<open>Changing an issue\<close>

text \<open>
  \<open>UPDATE issues SET setters, version = version + 1, updated_at = NOW() WHERE id = $n AND
  version = $m RETURNING *\<close>. The setters are a function on the row, once their parameters
  are read.
\<close>

definition update_stmt ::
    "string \<Rightarrow> int \<Rightarrow> (env \<Rightarrow> exn + (issue_row \<Rightarrow> issue_row)) \<Rightarrow> issue_row list stmt" where
  "update_stmt issueId expectedVersion setters e now d =
     try_then (setters e) (\<lambda>set_row.
     try_then (uuid_param e issueId) (\<lambda>iid.
     if expectedVersion < - int4_max - 1 \<or> int4_max < expectedVersion
     then Inl (DbError ''value out of range for type integer'')
     else
       let hit = (\<lambda>r. r_id r = iid \<and> r_version r = expectedVersion);
           upd = (\<lambda>r. (set_row r)\<lparr>r_version := r_version r + 1, r_updated_at := now\<rparr>);
           rows = map upd (filter hit (t_issues d))
       in if \<not> list_all (issue_row_ok d) rows then Inl (DbError ''issues: check'')
          else Inr (rows, d\<lparr>t_issues := map (\<lambda>r. if hit r then upd r else r) (t_issues d)\<rparr>)))"

definition updateWithVersion ::
    "issue \<Rightarrow> int \<Rightarrow> (env \<Rightarrow> exn + (issue_row \<Rightarrow> issue_row)) \<Rightarrow> issue prog" where
  "updateWithVersion issue expectedVersion setters =
     andThen (client_query (update_stmt (i_id issue) expectedVersion setters)) (\<lambda>rows.
     case rows of
       [] \<Rightarrow> throwing (DomainError 409 ''CONCURRENT_ISSUE_MODIFICATION''
              ''Issue changed since it was last loaded'' [])
     | row # _ \<Rightarrow> returning (toIssue row))"

record update_issue_data =
  u_summary :: string
  u_description :: "string option"
  u_type :: issue_type
  u_priority :: issue_priority

definition core_value :: "issue \<Rightarrow> jsval" where
  "core_value issue =
     Obj [(''summary'', Str (i_summary issue)), (''description'', str_or_null (i_description issue)),
          (''type'', Str (type_name (i_type issue))),
          (''priority'', Str (priority_name (i_priority issue)))]"

definition updateIssue_work :: "issue \<Rightarrow> int \<Rightarrow> update_issue_data \<Rightarrow> string \<Rightarrow> issue prog" where
  "updateIssue_work issue expectedVersion data actorUserId =
     andThen (updateWithVersion issue expectedVersion
       (\<lambda>_. Inr (\<lambda>r. r\<lparr>r_summary := u_summary data, r_description := u_description data,
                       r_type := u_type data, r_priority := u_priority data\<rparr>))) (\<lambda>updated.
     andThen (insertHistory updated actorUserId ''UPDATED'' (core_value issue) (core_value updated)) (\<lambda>_.
     andThen (insertEvent updated actorUserId ''issue.updated''
       [(''issueKey'', Str (i_key updated)),
        (''changes'', Obj [(''from'', core_value issue), (''to'', core_value updated)]),
        (''recipientUserIds'',
          recipient_list [Some (i_reporterUserId updated), i_assigneeUserId updated] actorUserId)]) (\<lambda>_.
     returning updated)))"

definition updateIssue :: "issue \<Rightarrow> int \<Rightarrow> update_issue_data \<Rightarrow> string \<Rightarrow> issue prog" where
  "updateIssue issue expectedVersion data actorUserId =
     transaction (updateIssue_work issue expectedVersion data actorUserId)"

definition assignIssue_work :: "issue \<Rightarrow> int \<Rightarrow> string option \<Rightarrow> string \<Rightarrow> issue prog" where
  "assignIssue_work issue expectedVersion assigneeUserId actorUserId =
     andThen (updateWithVersion issue expectedVersion
       (\<lambda>e. map_result (\<lambda>a r. r\<lparr>r_assignee_user_id := a\<rparr>) (uuid_opt_param e assigneeUserId))) (\<lambda>updated.
     andThen (insertHistory updated actorUserId ''ASSIGNEE_CHANGED''
       (Obj [(''assigneeUserId'', str_or_null (i_assigneeUserId issue))])
       (Obj [(''assigneeUserId'', str_or_null assigneeUserId)])) (\<lambda>_.
     andThen (insertEvent updated actorUserId ''issue.assigned''
       [(''issueKey'', Str (i_key updated)),
        (''previousAssigneeUserId'', str_or_null (i_assigneeUserId issue)),
        (''assigneeUserId'', str_or_null assigneeUserId),
        (''recipientUserIds'',
          recipient_list [Some (i_reporterUserId updated), assigneeUserId] actorUserId)]) (\<lambda>_.
     returning updated)))"

definition assignIssue :: "issue \<Rightarrow> int \<Rightarrow> string option \<Rightarrow> string \<Rightarrow> issue prog" where
  "assignIssue issue expectedVersion assigneeUserId actorUserId =
     transaction (assignIssue_work issue expectedVersion assigneeUserId actorUserId)"

definition transitionIssue_work :: "issue \<Rightarrow> int \<Rightarrow> validated_transition \<Rightarrow> string \<Rightarrow> issue prog" where
  "transitionIssue_work issue expectedVersion transition actorUserId =
     andThen (updateWithVersion issue expectedVersion
       (\<lambda>_. Inr (\<lambda>r. r\<lparr>r_status := vt_to transition\<rparr>))) (\<lambda>updated.
     andThen (insertHistory updated actorUserId ''STATUS_CHANGED''
       (Obj [(''status'', Str (status_name (vt_from transition)))])
       (Obj [(''status'', Str (status_name (vt_to transition)))])) (\<lambda>_.
     andThen (insertEvent updated actorUserId ''issue.transitioned''
       [(''issueKey'', Str (i_key updated)),
        (''fromStatus'', Str (status_name (vt_from transition))),
        (''toStatus'', Str (status_name (vt_to transition))),
        (''recipientUserIds'',
          recipient_list [Some (i_reporterUserId updated), i_assigneeUserId updated] actorUserId)]) (\<lambda>_.
     returning updated)))"

definition transitionIssue :: "issue \<Rightarrow> int \<Rightarrow> validated_transition \<Rightarrow> string \<Rightarrow> issue prog" where
  "transitionIssue issue expectedVersion transition actorUserId =
     transaction (transitionIssue_work issue expectedVersion transition actorUserId)"

definition insert_comment :: "string \<Rightarrow> string \<Rightarrow> string \<Rightarrow> string \<Rightarrow> int \<Rightarrow> comment_row stmt" where
  "insert_comment uid issueId authorUserId body created e now d =
     try_then (uuid_param e uid) (\<lambda>cid.
     try_then (uuid_param e issueId) (\<lambda>issue_id.
     try_then (uuid_param e authorUserId) (\<lambda>author.
     insert_comment_row \<lparr>cr_id = cid, cr_issue_id = issue_id, cr_author_user_id = author,
       cr_body = body, cr_created_at = created * 1000, cr_updated_at = created * 1000\<rparr> d)))"

definition addComment_work :: "issue \<Rightarrow> string \<Rightarrow> string \<Rightarrow> issue_comment prog" where
  "addComment_work issue authorUserId body =
     andThen (updateWithVersion issue (i_version issue) (\<lambda>_. Inr (\<lambda>r. r))) (\<lambda>updatedIssue.
     andThen new_Date (\<lambda>now.
     andThen randomUUID (\<lambda>uid.
     andThen (client_query (insert_comment uid (i_id issue) authorUserId body now)) (\<lambda>row.
     let comment = toComment row in
     andThen (insertHistory updatedIssue authorUserId ''COMMENT_ADDED'' Null
       (Obj [(''commentId'', Str (c_id comment))])) (\<lambda>_.
     andThen (insertEvent updatedIssue authorUserId ''issue.commented''
       [(''issueKey'', Str (i_key issue)), (''commentId'', Str (c_id comment)),
        (''commentPreview'', Str (take 160 body)),
        (''recipientUserIds'',
          recipient_list [Some (i_reporterUserId issue), i_assigneeUserId issue] authorUserId)]) (\<lambda>_.
     returning comment))))))"

definition addComment :: "issue \<Rightarrow> string \<Rightarrow> string \<Rightarrow> issue_comment prog" where
  "addComment issue authorUserId body = transaction (addComment_work issue authorUserId body)"

end
