(* ===== verification/Issue_Store.thy ===== *)
theory Issue_Store
  imports Schema
begin

text \<open>
  The abstract specification of the issue service's database: the steps a committed
  operation may take (\<open>db_step\<close>), the invariant they keep (\<open>db_inv\<close>), and what a client
  may rely on between two reads (\<open>evolves\<close>). The repository theories show that every
  operation of the code takes only such steps.
\<close>

section \<open>Views of the tables\<close>

definition issue_events :: "string \<Rightarrow> db \<Rightarrow> outbox_row list" where
  "issue_events iid d = filter (\<lambda>ev. o_aggregate_id ev = iid) (t_outbox d)"

definition issue_log :: "string \<Rightarrow> db \<Rightarrow> history_row list" where
  "issue_log iid d = filter (\<lambda>h. hr_issue_id h = iid) (t_history d)"

definition project_issues :: "string \<Rightarrow> db \<Rightarrow> issue_row list" where
  "project_issues p d = filter (\<lambda>r. r_project_id r = p) (t_issues d)"

definition last_number :: "string \<Rightarrow> db \<Rightarrow> int" where
  "last_number p d = (case map_of (t_sequences d) p of None \<Rightarrow> 0 | Some n \<Rightarrow> n)"

definition status_value :: "issue_status \<Rightarrow> jsval" where
  "status_value s = Obj [(''status'', Str (status_name s))]"

text \<open>
  The status an audit trail leads to: it starts at TODO with the entry CREATED, and each
  entry STATUS_CHANGED is a transition of the workflow from the status reached so far.
\<close>

definition replay_step :: "issue_status option \<Rightarrow> history_row \<Rightarrow> issue_status option" where
  "replay_step s h =
     (if hr_action h = ''CREATED'' then (if s = None then Some TODO else None)
      else if hr_action h = ''STATUS_CHANGED'' then
        (case s of
           None \<Rightarrow> None
         | Some a \<Rightarrow> find (\<lambda>b. hr_from_value h = status_value a \<and> hr_to_value h = status_value b)
                        (transitions a))
      else s)"

definition replay :: "history_row list \<Rightarrow> issue_status option" where
  "replay hs = foldl replay_step None hs"

section \<open>Steps\<close>

text \<open>What no operation changes of an issue.\<close>

definition same_identity :: "issue_row \<Rightarrow> issue_row \<Rightarrow> bool" where
  "same_identity r r' \<longleftrightarrow>
     r_id r' = r_id r \<and> r_project_id r' = r_project_id r \<and> r_issue_number r' = r_issue_number r \<and>
     r_issue_key r' = r_issue_key r \<and> r_reporter_user_id r' = r_reporter_user_id r \<and>
     r_epic_id r' = r_epic_id r \<and> r_sprint_id r' = r_sprint_id r \<and> r_created_at r' = r_created_at r"

text \<open>The form in which PostgreSQL prints a UUID.\<close>

definition uuid_text :: "string \<Rightarrow> bool" where
  "uuid_text s \<longleftrightarrow>
     match_re (replicate 8 hex_digit @ lit CHR ''-'' # replicate 4 hex_digit @ lit CHR ''-'' #
       replicate 4 hex_digit @ lit CHR ''-'' # replicate 4 hex_digit @ lit CHR ''-'' #
       replicate 12 hex_digit) s \<and> toLowerCase s = s"

text \<open>The event and the history entry of one operation on one version of an issue.\<close>

definition announces :: "issue_row \<Rightarrow> history_row \<Rightarrow> outbox_row \<Rightarrow> db \<Rightarrow> bool" where
  "announces r h ev d \<longleftrightarrow>
     hr_issue_id h = r_id r \<and> o_aggregate_id ev = r_id r \<and> o_aggregate_version ev = r_version r \<and>
     o_published_at ev = None \<and> o_publish_attempts ev = 0 \<and>
     o_event_id ev \<notin> o_event_id ` set (t_outbox d) \<and> uuid_text (o_event_id ev)"

definition status_rule :: "issue_row \<Rightarrow> issue_row \<Rightarrow> history_row \<Rightarrow> bool" where
  "status_rule r r' h \<longleftrightarrow>
     hr_action h \<noteq> ''CREATED'' \<and>
     (if hr_action h = ''STATUS_CHANGED''
      then r_status r' \<in> set (transitions (r_status r)) \<and>
           hr_from_value h = status_value (r_status r) \<and> hr_to_value h = status_value (r_status r')
      else r_status r' = r_status r)"

text \<open>The epic and the sprint of an issue are of its project.\<close>

definition links_ok :: "db \<Rightarrow> issue_row \<Rightarrow> bool" where
  "links_ok d r \<longleftrightarrow>
     opt_ok (\<lambda>i. \<exists>x\<in>set (t_epics d). er_id x = i \<and> er_project_id x = r_project_id r) (r_epic_id r) \<and>
     opt_ok (\<lambda>i. \<exists>x\<in>set (t_sprints d). sr_id x = i \<and> sr_project_id x = r_project_id r) (r_sprint_id r)"

definition set_sequence :: "string \<Rightarrow> int \<Rightarrow> (string \<times> int) list \<Rightarrow> (string \<times> int) list" where
  "set_sequence p n ss =
     (if p \<in> fst ` set ss then map (\<lambda>(q, m). (q, if q = p then n else m)) ss else ss @ [(p, n)])"

text \<open>What the outbox statements leave alone, and that a published event stays published.\<close>

definition keeps_envelope :: "(outbox_row \<Rightarrow> outbox_row) \<Rightarrow> bool" where
  "keeps_envelope f \<longleftrightarrow>
     (\<forall>ev. o_event_id (f ev) = o_event_id ev \<and> o_event_type (f ev) = o_event_type ev \<and>
           o_aggregate_id (f ev) = o_aggregate_id ev \<and>
           o_aggregate_version (f ev) = o_aggregate_version ev \<and>
           o_project_id (f ev) = o_project_id ev \<and> o_actor_user_id (f ev) = o_actor_user_id ev \<and>
           o_payload (f ev) = o_payload ev \<and>
           o_occurred_at (f ev) = o_occurred_at ev \<and>
           (o_published_at ev \<noteq> None \<longrightarrow> o_published_at (f ev) \<noteq> None))"

text \<open>An event's record, and that the topic has it.\<close>

definition message_of :: "outbox_row \<Rightarrow> kafka_message" where
  "message_of ev = \<lparr>k_key = o_aggregate_id ev, k_eventId = o_event_id ev, k_eventType = o_event_type ev,
     k_aggregateId = o_aggregate_id ev, k_aggregateVersion = o_aggregate_version ev,
     k_projectId = o_project_id ev, k_actorUserId = o_actor_user_id ev,
     k_occurredAt = to_iso_string (o_occurred_at ev div 1000), k_payload = o_payload ev,
     k_schemaVersion = 1\<rparr>"

definition delivered :: "string \<Rightarrow> db \<Rightarrow> bool" where
  "delivered i d \<longleftrightarrow> i \<in> k_eventId ` set (t_topic d)"

text \<open>No event of the same issue with a lower version waits to be published.\<close>

definition first_in_line :: "outbox_row \<Rightarrow> db \<Rightarrow> bool" where
  "first_in_line ev d \<longleftrightarrow>
     (\<forall>x\<in>set (t_outbox d). o_aggregate_id x = o_aggregate_id ev \<and>
        o_aggregate_version x < o_aggregate_version ev \<longrightarrow> o_published_at x \<noteq> None)"

inductive db_step :: "db \<Rightarrow> db \<Rightarrow> bool" where
  step_create:
    "\<lbrakk>issue_row_ok d r; links_ok d r; r_id r \<notin> r_id ` set (t_issues d);
      r_issue_number r = last_number (r_project_id r) d + 1; r_version r = 1; r_status r = TODO;
      hr_action h = ''CREATED''; announces r h ev d\<rbrakk> \<Longrightarrow>
     db_step d (d\<lparr>t_sequences := set_sequence (r_project_id r) (r_issue_number r) (t_sequences d),
                  t_issues := t_issues d @ [r], t_history := t_history d @ [h],
                  t_outbox := t_outbox d @ [ev]\<rparr>)"
| step_change:
    "\<lbrakk>r \<in> set (t_issues d); same_identity r r'; r_version r' = r_version r + 1; issue_row_ok d r';
      status_rule r r' h; announces r' h ev d; \<forall>c\<in>set cs. cr_issue_id c = r_id r\<rbrakk> \<Longrightarrow>
     db_step d (d\<lparr>t_issues := map (\<lambda>x. if r_id x = r_id r then r' else x) (t_issues d),
                  t_comments := t_comments d @ cs, t_history := t_history d @ [h],
                  t_outbox := t_outbox d @ [ev]\<rparr>)"
| step_outbox:
    "\<lbrakk>keeps_envelope f;
      \<forall>ev\<in>set (t_outbox d). o_published_at ev = None \<and> o_published_at (f ev) \<noteq> None \<longrightarrow>
        delivered (o_event_id ev) d\<rbrakk> \<Longrightarrow>
     db_step d (d\<lparr>t_outbox := map f (t_outbox d)\<rparr>)"
| step_deliver:
    "\<lbrakk>ev \<in> set (t_outbox d); first_in_line ev d\<rbrakk> \<Longrightarrow>
     db_step d (d\<lparr>t_topic := t_topic d @ [message_of ev]\<rparr>)"
| step_epic:
    "er_id x \<notin> er_id ` set (t_epics d) \<Longrightarrow> db_step d (d\<lparr>t_epics := t_epics d @ [x]\<rparr>)"
| step_edit_epic:
    "\<forall>x. er_id (f x) = er_id x \<and> er_project_id (f x) = er_project_id x \<Longrightarrow>
     db_step d (d\<lparr>t_epics := map f (t_epics d)\<rparr>)"
| step_sprint:
    "\<lbrakk>sr_id x \<notin> sr_id ` set (t_sprints d); sr_status x = ACTIVE;
      \<forall>y\<in>set (t_sprints d). sr_project_id y = sr_project_id x \<longrightarrow> sr_status y \<noteq> ACTIVE\<rbrakk> \<Longrightarrow>
     db_step d (d\<lparr>t_sprints := t_sprints d @ [x]\<rparr>)"
| step_complete_sprint:
    "\<forall>x. sr_id (f x) = sr_id x \<and> sr_project_id (f x) = sr_project_id x \<and>
         (sr_status (f x) = sr_status x \<or> sr_status (f x) = COMPLETED) \<Longrightarrow>
     db_step d (d\<lparr>t_sprints := map f (t_sprints d)\<rparr>)"

section \<open>The invariant\<close>

definition numbering_ok :: "db \<Rightarrow> bool" where
  "numbering_ok d \<longleftrightarrow>
     distinct (map fst (t_sequences d)) \<and>
     (\<forall>p. map r_issue_number (project_issues p d) = [1..last_number p d])"

definition issue_ok :: "db \<Rightarrow> issue_row \<Rightarrow> bool" where
  "issue_ok d r \<longleftrightarrow>
     0 < r_version r \<and>
     map o_aggregate_version (issue_events (r_id r) d) = [1..r_version r] \<and>
     int (length (issue_log (r_id r) d)) = r_version r \<and>
     replay (issue_log (r_id r) d) = Some (r_status r) \<and>
     links_ok d r"

definition planning_ok :: "db \<Rightarrow> bool" where
  "planning_ok d \<longleftrightarrow>
     distinct (map er_id (t_epics d)) \<and> distinct (map sr_id (t_sprints d)) \<and>
     distinct (map sr_project_id (filter (\<lambda>s. sr_status s = ACTIVE) (t_sprints d)))"

text \<open>
  What is published has been delivered; what has been delivered is an event of the outbox;
  and when a record was stored, every event of the same issue with a lower version had
  been stored before.
\<close>

definition topic_ok :: "db \<Rightarrow> bool" where
  "topic_ok d \<longleftrightarrow>
     (\<forall>ev\<in>set (t_outbox d). o_published_at ev \<noteq> None \<longrightarrow> delivered (o_event_id ev) d) \<and>
     set (t_topic d) \<subseteq> message_of ` set (t_outbox d) \<and>
     (\<forall>i<length (t_topic d). \<forall>ev\<in>set (t_outbox d).
        o_aggregate_id ev = k_aggregateId (t_topic d ! i) \<and>
        o_aggregate_version ev < k_aggregateVersion (t_topic d ! i) \<longrightarrow>
        (\<exists>j<i. k_eventId (t_topic d ! j) = o_event_id ev))"

definition db_inv :: "db \<Rightarrow> bool" where
  "db_inv d \<longleftrightarrow>
     distinct (map r_id (t_issues d)) \<and> numbering_ok d \<and>
     (\<forall>r\<in>set (t_issues d). issue_ok d r) \<and>
     distinct (map o_event_id (t_outbox d)) \<and> (\<forall>ev\<in>set (t_outbox d). uuid_text (o_event_id ev)) \<and>
     (\<forall>ev\<in>set (t_outbox d). o_aggregate_id ev \<in> r_id ` set (t_issues d)) \<and>
     (\<forall>h\<in>set (t_history d). hr_issue_id h \<in> r_id ` set (t_issues d)) \<and>
     planning_ok d \<and> topic_ok d"

lemmas view_defs = issue_events_def issue_log_def project_issues_def

lemma db_inv_empty: "db_inv empty_db"
  by (simp add: db_inv_def empty_db_def numbering_ok_def planning_ok_def view_defs last_number_def
      topic_ok_def)

section \<open>Steps keep the invariant\<close>

lemma same_identity_id: "same_identity r r' \<Longrightarrow> r_id r' = r_id r"
  by (simp add: same_identity_def)

lemma links_ok_identity: "same_identity r r' \<Longrightarrow> links_ok d r' = links_ok d r"
  by (simp add: same_identity_def links_ok_def)

lemma map_of_set_value:
  "map_of (map (\<lambda>(q, m). (q, if q = p then n else m)) ss) q =
     (if q = p then map_option (\<lambda>_. n) (map_of ss p) else map_of ss q)"
  by (induction ss) auto

lemma map_of_set_sequence:
  "map_of (set_sequence p n ss) q = (if q = p then Some n else map_of ss q)"
proof (cases "p \<in> fst ` set ss")
  case True
  then have "map_of ss p \<noteq> None" by (simp add: map_of_eq_None_iff)
  then show ?thesis using True by (auto simp: set_sequence_def map_of_set_value)
next
  case False
  then have "map_of ss p = None" by (simp add: map_of_eq_None_iff)
  with False show ?thesis by (auto simp: set_sequence_def map_add_def split: option.splits)
qed

lemma distinct_set_sequence:
  assumes "distinct (map fst ss)"
  shows "distinct (map fst (set_sequence p n ss))"
proof -
  have "map fst (map (\<lambda>(q, m). (q, if q = p then n else m)) ss) = map fst ss" by (induction ss) auto
  then show ?thesis using assms unfolding set_sequence_def
    by (cases "p \<in> fst ` set ss") (simp_all del: map_map)
qed

lemma upto_snoc: "0 \<le> n \<Longrightarrow> [1..n + 1] = [1..n] @ [n + 1]" for n :: int
  using upto_rec2 [of 1 "n + 1"] by (simp only: add_diff_cancel_right')

lemma replay_snoc: "replay (hs @ [h]) = replay_step (replay hs) h"
  by (simp add: replay_def)

lemma status_name_inj: "status_name a = status_name b \<Longrightarrow> a = b"
  by (cases a; cases b) simp_all

lemma status_value_inj [simp]: "status_value a = status_value b \<longleftrightarrow> a = b"
  by (auto simp: status_value_def dest: status_name_inj)

lemma find_transition:
  "b \<in> set (transitions a) \<Longrightarrow> find (\<lambda>c. P \<and> b = c) (transitions a) = (if P then Some b else None)"
  by (cases a) auto

lemma replay_rule:
  assumes "replay hs = Some (r_status r)" and "status_rule r r' h"
  shows "replay (hs @ [h]) = Some (r_status r')"
  using assms find_transition [of "r_status r'" "r_status r" True]
  by (auto simp: replay_snoc replay_step_def status_rule_def split: if_splits)


lemma other_issue_events:
  "o_aggregate_id ev \<noteq> iid \<Longrightarrow> filter (\<lambda>x. o_aggregate_id x = iid) (evs @ [ev]) = filter (\<lambda>x. o_aggregate_id x = iid) evs"
  by simp

lemma no_rows_of_new_issue:
  assumes "db_inv d" and "iid \<notin> r_id ` set (t_issues d)"
  shows "issue_events iid d = []" and "issue_log iid d = []"
  using assms by (auto simp: db_inv_def view_defs filter_empty_conv)

lemma topic_append:
  assumes "topic_ok d" and "t_outbox d' = t_outbox d @ [ev]" and "t_topic d' = t_topic d"
    and "o_published_at ev = None"
    and later: "\<And>x. \<lbrakk>x \<in> set (t_outbox d); o_aggregate_id x = o_aggregate_id ev\<rbrakk> \<Longrightarrow>
      o_aggregate_version x < o_aggregate_version ev"
  shows "topic_ok d'"
proof -
  have old: "\<forall>ev\<in>set (t_outbox d). o_published_at ev \<noteq> None \<longrightarrow> delivered (o_event_id ev) d"
    "set (t_topic d) \<subseteq> message_of ` set (t_outbox d)"
    "\<forall>i<length (t_topic d). \<forall>ev\<in>set (t_outbox d).
        o_aggregate_id ev = k_aggregateId (t_topic d ! i) \<and>
        o_aggregate_version ev < k_aggregateVersion (t_topic d ! i) \<longrightarrow>
        (\<exists>j<i. k_eventId (t_topic d ! j) = o_event_id ev)"
    using assms(1) unfolding topic_ok_def by blast+
  have "\<not> o_aggregate_version ev < k_aggregateVersion m"
    if "m \<in> set (t_topic d)" "o_aggregate_id ev = k_aggregateId m" for m
  proof -
    obtain x where "x \<in> set (t_outbox d)" "m = message_of x" using old(2) \<open>m \<in> _\<close> by auto
    then show ?thesis using later [of x] \<open>o_aggregate_id ev = _\<close> by (simp add: message_of_def)
  qed
  then have "\<forall>i<length (t_topic d). \<forall>x\<in>set (t_outbox d @ [ev]).
        o_aggregate_id x = k_aggregateId (t_topic d ! i) \<and>
        o_aggregate_version x < k_aggregateVersion (t_topic d ! i) \<longrightarrow>
        (\<exists>j<i. k_eventId (t_topic d ! j) = o_event_id x)"
    using old(3) by auto
  then show ?thesis unfolding topic_ok_def assms(2,3) using old(1,2) assms(4)
    by (auto simp: delivered_def assms(3))
qed

lemma later_version:
  assumes "db_inv d" and "r \<in> set (t_issues d)" and "x \<in> set (t_outbox d)" "o_aggregate_id x = r_id r"
  shows "1 \<le> o_aggregate_version x \<and> o_aggregate_version x \<le> r_version r"
proof -
  have "map o_aggregate_version (issue_events (r_id r) d) = [1..r_version r]"
    using assms(1,2) by (auto simp: db_inv_def issue_ok_def)
  moreover have "x \<in> set (issue_events (r_id r) d)" using assms(3,4) by (simp add: issue_events_def)
  ultimately have "o_aggregate_version x \<in> set [1..r_version r]" by (metis image_eqI list.set_map)
  then show ?thesis by simp
qed

lemma inv_create:
  assumes inv: "db_inv d"
    and row: "issue_row_ok d r" "links_ok d r" "r_id r \<notin> r_id ` set (t_issues d)"
      "r_issue_number r = last_number (r_project_id r) d + 1" "r_version r = 1" "r_status r = TODO"
    and said: "hr_action h = ''CREATED''" "announces r h ev d"
  shows "db_inv (d\<lparr>t_sequences := set_sequence (r_project_id r) (r_issue_number r) (t_sequences d),
                  t_issues := t_issues d @ [r], t_history := t_history d @ [h],
                  t_outbox := t_outbox d @ [ev]\<rparr>)" (is "db_inv ?d")
proof -
  have ids: "hr_issue_id h = r_id r" "o_aggregate_id ev = r_id r" "o_aggregate_version ev = 1"
    using said row by (simp_all add: announces_def)
  have last: "last_number q ?d = (if q = r_project_id r then last_number q d + 1 else last_number q d)" for q
    using row(4) by (simp add: last_number_def map_of_set_sequence)
  have pos: "0 \<le> last_number (r_project_id r) d" using row(1,4) by (simp add: issue_row_ok_def)
  have "numbering_ok ?d"
    unfolding numbering_ok_def
  proof (intro conjI allI)
    show "distinct (map fst (t_sequences ?d))"
      using inv by (simp add: db_inv_def numbering_ok_def distinct_set_sequence)
    fix q
    have old: "map r_issue_number (project_issues q d) = [1..last_number q d]"
      using inv by (simp add: db_inv_def numbering_ok_def)
    show "map r_issue_number (project_issues q ?d) = [1..last_number q ?d]"
    proof (cases "q = r_project_id r")
      case True
      then show ?thesis unfolding last using old row(4) upto_snoc [OF pos]
        by (simp add: project_issues_def)
    next
      case False
      then show ?thesis unfolding last using old by (simp add: project_issues_def)
    qed
  qed
  moreover have "issue_ok ?d x" if "x \<in> set (t_issues d)" for x
  proof -
    have "r_id x \<noteq> r_id r" using that row(3) by (metis image_eqI)
    then have "issue_events (r_id x) ?d = issue_events (r_id x) d"
      "issue_log (r_id x) ?d = issue_log (r_id x) d" using ids by (simp_all add: view_defs)
    then show ?thesis using inv that by (simp add: db_inv_def issue_ok_def links_ok_def)
  qed
  moreover have "issue_ok ?d r"
  proof -
    note none = no_rows_of_new_issue [OF inv row(3)]
    have "issue_events (r_id r) ?d = [ev]" "issue_log (r_id r) ?d = [h]"
      using none ids by (simp_all add: view_defs)
    then show ?thesis using row said ids
      by (simp add: issue_ok_def replay_def replay_step_def links_ok_def)
  qed
  moreover have "topic_ok ?d"
  proof (rule topic_append)
    show "topic_ok d" using inv by (simp add: db_inv_def)
    show "o_published_at ev = None" using said(2) by (simp add: announces_def)
    show "\<And>x. \<lbrakk>x \<in> set (t_outbox d); o_aggregate_id x = o_aggregate_id ev\<rbrakk> \<Longrightarrow>
        o_aggregate_version x < o_aggregate_version ev"
      using inv row(3) ids unfolding db_inv_def by metis
  qed simp_all
  ultimately show ?thesis
    using inv row(3) said ids by (auto simp: db_inv_def announces_def planning_ok_def)
qed

lemma inv_change:
  assumes inv: "db_inv d"
    and row: "r \<in> set (t_issues d)" "same_identity r r'" "r_version r' = r_version r + 1"
    and said: "status_rule r r' h" "announces r' h ev d"
  shows "db_inv (d\<lparr>t_issues := map (\<lambda>x. if r_id x = r_id r then r' else x) (t_issues d),
                  t_comments := t_comments d @ cs, t_history := t_history d @ [h],
                  t_outbox := t_outbox d @ [ev]\<rparr>)" (is "db_inv ?d")
proof -
  have id': "r_id r' = r_id r" using row(2) by (rule same_identity_id)
  have ids: "hr_issue_id h = r_id r" "o_aggregate_id ev = r_id r" "o_aggregate_version ev = r_version r + 1"
    using said row id' by (simp_all add: announces_def)
  have uniq: "x = r" if "x \<in> set (t_issues d)" "r_id x = r_id r" for x
    using inv that row(1) by (auto simp: db_inv_def dest: distinct_map_eqD)
  have same: "map r_id (t_issues ?d) = map r_id (t_issues d)"
    using id' by (simp add: map_idI)
  let ?g = "\<lambda>x. if r_id x = r_id r then r' else x"
  have fields: "r_project_id (?g x) = r_project_id x" "r_issue_number (?g x) = r_issue_number x"
    if "x \<in> set (t_issues d)" for x
    using uniq [OF that] row(2) by (auto simp: same_identity_def)
  have "project_issues q ?d = map ?g (project_issues q d)" for q
    unfolding project_issues_def using fields(1) by (simp add: filter_map_cong)
  then have "map r_issue_number (project_issues q ?d) = map r_issue_number (project_issues q d)" for q
    using fields(2) by (simp add: project_issues_def)
  then have "numbering_ok ?d"
    using inv by (simp add: db_inv_def numbering_ok_def last_number_def)
  moreover have "issue_ok ?d x" if x: "x \<in> set (t_issues d)" and "x \<noteq> r" for x
  proof -
    have "r_id x \<noteq> r_id r" using uniq x \<open>x \<noteq> r\<close> by blast
    then have "issue_events (r_id x) ?d = issue_events (r_id x) d"
      "issue_log (r_id x) ?d = issue_log (r_id x) d" using ids by (simp_all add: view_defs)
    then show ?thesis using inv x by (simp add: db_inv_def issue_ok_def links_ok_def)
  qed
  moreover have "issue_ok ?d r'"
  proof -
    have old: "issue_ok d r" using inv row(1) by (simp add: db_inv_def)
    have "issue_events (r_id r') ?d = issue_events (r_id r) d @ [ev]"
      "issue_log (r_id r') ?d = issue_log (r_id r) d @ [h]"
      using ids id' by (simp_all add: view_defs)
    moreover have "[1..r_version r + 1] = [1..r_version r] @ [r_version r + 1]"
      using old by (intro upto_snoc) (simp add: issue_ok_def)
    moreover have "links_ok ?d r' = links_ok d r"
      using links_ok_identity [OF row(2)] by (simp add: links_ok_def)
    ultimately show ?thesis using old row(3) ids replay_rule [OF _ said(1)]
      by (simp add: issue_ok_def)
  qed
  ultimately have ok: "numbering_ok ?d" "\<forall>x\<in>set (t_issues ?d). issue_ok ?d x"
    by simp_all (use uniq in blast)
  have ids_same: "r_id ` set (t_issues ?d) = r_id ` set (t_issues d)"
    using same by (metis list.set_map)
  have "r_id r \<in> r_id ` set (t_issues d)" using row(1) by simp
  then have refs: "\<forall>x\<in>set (t_outbox ?d). o_aggregate_id x \<in> r_id ` set (t_issues ?d)"
    "\<forall>x\<in>set (t_history ?d). hr_issue_id x \<in> r_id ` set (t_issues ?d)"
    unfolding ids_same using inv ids by (auto simp: db_inv_def)
  have "distinct (map o_event_id (t_outbox ?d))" "\<forall>ev\<in>set (t_outbox ?d). uuid_text (o_event_id ev)"
    using inv said(2) by (auto simp: db_inv_def announces_def)
  moreover have "planning_ok ?d" using inv by (simp add: db_inv_def planning_ok_def)
  moreover have "distinct (map r_id (t_issues ?d))" unfolding same using inv by (simp add: db_inv_def)
  moreover have "topic_ok ?d"
  proof (rule topic_append)
    show "topic_ok d" using inv by (simp add: db_inv_def)
    show "o_published_at ev = None" using said(2) by (simp add: announces_def)
    show "\<And>x. \<lbrakk>x \<in> set (t_outbox d); o_aggregate_id x = o_aggregate_id ev\<rbrakk> \<Longrightarrow>
        o_aggregate_version x < o_aggregate_version ev"
      using later_version [OF inv row(1)] ids by fastforce
  qed simp_all
  ultimately show ?thesis unfolding db_inv_def using ok refs by blast
qed

lemma envelope_fields:
  assumes "keeps_envelope f"
  shows "o_event_id (f ev) = o_event_id ev" "o_aggregate_id (f ev) = o_aggregate_id ev"
    "o_aggregate_version (f ev) = o_aggregate_version ev"
  using assms by (auto simp: keeps_envelope_def)

lemma message_of_envelope: "keeps_envelope f \<Longrightarrow> message_of (f ev) = message_of ev"
  by (simp add: keeps_envelope_def message_of_def)

lemma inv_outbox:
  assumes "db_inv d" and f: "keeps_envelope f"
    and pub: "\<forall>ev\<in>set (t_outbox d). o_published_at ev = None \<and> o_published_at (f ev) \<noteq> None \<longrightarrow>
        delivered (o_event_id ev) d"
  shows "db_inv (d\<lparr>t_outbox := map f (t_outbox d)\<rparr>)" (is "db_inv ?d")
proof -
  have "map o_aggregate_version (issue_events i ?d) = map o_aggregate_version (issue_events i d)" for i
    by (simp add: view_defs filter_map_cong envelope_fields [OF f] comp_def)
  then have "issue_ok ?d r = issue_ok d r" for r
    by (simp add: issue_ok_def issue_log_def links_ok_def)
  moreover have "topic_ok ?d"
  proof -
    have "topic_ok d" using assms(1) by (simp add: db_inv_def)
    then show ?thesis
      using pub by (auto simp: topic_ok_def delivered_def envelope_fields [OF f] message_of_envelope [OF f] image_image)
  qed
  ultimately show ?thesis
    using assms(1) by (auto simp: db_inv_def numbering_ok_def project_issues_def last_number_def
        planning_ok_def comp_def envelope_fields [OF f])
qed

lemma inv_deliver:
  assumes "db_inv d" and ev: "ev \<in> set (t_outbox d)" "first_in_line ev d"
  shows "db_inv (d\<lparr>t_topic := t_topic d @ [message_of ev]\<rparr>)" (is "db_inv ?d")
proof -
  have old: "topic_ok d" using assms(1) by (simp add: db_inv_def)
  have earlier: "\<exists>j<length (t_topic d). k_eventId (t_topic d ! j) = o_event_id x"
    if "x \<in> set (t_outbox d)" "o_aggregate_id x = o_aggregate_id ev" "o_aggregate_version x < o_aggregate_version ev" for x
  proof -
    have "delivered (o_event_id x) d" using that ev(2) old by (auto simp: first_in_line_def topic_ok_def)
    then show ?thesis by (auto simp: delivered_def in_set_conv_nth)
  qed
  have "\<forall>i<length (t_topic ?d). \<forall>x\<in>set (t_outbox d).
        o_aggregate_id x = k_aggregateId (t_topic ?d ! i) \<and>
        o_aggregate_version x < k_aggregateVersion (t_topic ?d ! i) \<longrightarrow>
        (\<exists>j<i. k_eventId (t_topic ?d ! j) = o_event_id x)"
  proof (intro allI ballI impI)
    fix i x
    assume i: "i < length (t_topic ?d)" and x: "x \<in> set (t_outbox d)"
      and lt: "o_aggregate_id x = k_aggregateId (t_topic ?d ! i) \<and>
        o_aggregate_version x < k_aggregateVersion (t_topic ?d ! i)"
    show "\<exists>j<i. k_eventId (t_topic ?d ! j) = o_event_id x"
    proof (cases "i < length (t_topic d)")
      case True
      then obtain j where "j < i" "k_eventId (t_topic d ! j) = o_event_id x"
        using old x lt unfolding topic_ok_def by (simp add: nth_append) blast
      then show ?thesis using True by (intro exI [of _ j]) (simp add: nth_append)
    next
      case False
      then have "i = length (t_topic d)" using i by simp
      then obtain j where "j < i" "k_eventId (t_topic d ! j) = o_event_id x"
        using earlier [OF x] lt by (auto simp: nth_append message_of_def)
      then show ?thesis using \<open>i = _\<close> by (intro exI [of _ j]) (simp add: nth_append)
    qed
  qed
  then have "topic_ok ?d" using old ev(1) by (auto simp: topic_ok_def delivered_def)
  moreover have "issue_ok ?d r = issue_ok d r" for r by (simp add: issue_ok_def view_defs links_ok_def)
  ultimately show ?thesis
    using assms(1) by (simp add: db_inv_def numbering_ok_def project_issues_def last_number_def planning_ok_def)
qed

text \<open>Epics and sprints are only added, and keep their project.\<close>

definition planning_grows :: "db \<Rightarrow> db \<Rightarrow> bool" where
  "planning_grows d d' \<longleftrightarrow>
     (\<forall>x\<in>set (t_epics d). \<exists>y\<in>set (t_epics d'). er_id y = er_id x \<and> er_project_id y = er_project_id x) \<and>
     (\<forall>x\<in>set (t_sprints d). \<exists>y\<in>set (t_sprints d').
        sr_id y = sr_id x \<and> sr_project_id y = sr_project_id x \<and>
        (sr_status x = COMPLETED \<longrightarrow> sr_status y = COMPLETED))"

lemma links_ok_grows: "planning_grows d d' \<Longrightarrow> links_ok d r \<Longrightarrow> links_ok d' r"
  by (cases "r_epic_id r"; cases "r_sprint_id r") (fastforce simp: links_ok_def planning_grows_def)+

lemma inv_planning:
  assumes inv: "db_inv d" and grows: "planning_grows d d'" and ok: "planning_ok d'"
    and same: "t_sequences d' = t_sequences d" "t_issues d' = t_issues d" "t_history d' = t_history d"
      "t_outbox d' = t_outbox d" "t_topic d' = t_topic d"
  shows "db_inv d'"
proof -
  have "issue_ok d' r" if "issue_ok d r" for r
    using that same links_ok_grows [OF grows] by (simp add: issue_ok_def view_defs)
  then show ?thesis
    using inv ok same
    by (auto simp: db_inv_def numbering_ok_def project_issues_def last_number_def topic_ok_def delivered_def)
qed

lemma planning_steps_grow:
  "planning_grows d (d\<lparr>t_epics := t_epics d @ [x]\<rparr>)"
  "\<forall>x. er_id (f x) = er_id x \<and> er_project_id (f x) = er_project_id x \<Longrightarrow>
   planning_grows d (d\<lparr>t_epics := map f (t_epics d)\<rparr>)"
  "planning_grows d (d\<lparr>t_sprints := t_sprints d @ [y]\<rparr>)"
  "\<forall>x. sr_id (g x) = sr_id x \<and> sr_project_id (g x) = sr_project_id x \<and>
       (sr_status (g x) = sr_status x \<or> sr_status (g x) = COMPLETED) \<Longrightarrow>
   planning_grows d (d\<lparr>t_sprints := map g (t_sprints d)\<rparr>)"
  by (auto simp: planning_grows_def) metis

lemma distinct_map_filter_stronger:
  "(\<And>x. Q x \<Longrightarrow> P x) \<Longrightarrow> distinct (map f (filter P xs)) \<Longrightarrow> distinct (map f (filter Q xs))"
  by (induction xs) (auto split: if_splits)

lemma completing_keeps_active:
  assumes "\<forall>x. sr_id (g x) = sr_id x \<and> sr_project_id (g x) = sr_project_id x \<and>
       (sr_status (g x) = sr_status x \<or> sr_status (g x) = COMPLETED)"
    and "distinct (map sr_project_id (filter (\<lambda>s. sr_status s = ACTIVE) ss))"
  shows "distinct (map sr_project_id (filter (\<lambda>s. sr_status s = ACTIVE) (map g ss)))"
proof -
  have "map sr_project_id (filter (\<lambda>s. sr_status s = ACTIVE) (map g ss)) =
      map sr_project_id (filter (\<lambda>s. sr_status (g s) = ACTIVE) ss)"
    using assms(1) by (induction ss) auto
  moreover have "sr_status (g s) = ACTIVE \<Longrightarrow> sr_status s = ACTIVE" for s
    using assms(1) by (metis sprint_status.distinct(1))
  ultimately show ?thesis
    using distinct_map_filter_stronger [OF _ assms(2), of "\<lambda>s. sr_status (g s) = ACTIVE"] by simp
qed

lemma db_step_inv:
  assumes "db_step d d'" and inv: "db_inv d"
  shows "db_inv d'"
  using assms(1)
proof cases
  case (step_create r h ev)
  then show ?thesis using inv_create [OF inv] by simp
next
  case (step_change r r' h ev cs)
  then show ?thesis using inv_change [OF inv] by simp
next
  case (step_outbox f)
  then show ?thesis using inv_outbox [OF inv] by simp
next
  case (step_deliver ev)
  then show ?thesis using inv_deliver [OF inv] by simp
next
  case (step_epic x)
  then show ?thesis using inv
    by (intro inv_planning [OF inv]) (auto simp: planning_steps_grow planning_ok_def db_inv_def)
next
  case (step_edit_epic f)
  then show ?thesis using inv
    by (intro inv_planning [OF inv]) (auto simp: planning_steps_grow planning_ok_def db_inv_def comp_def)
next
  case (step_sprint x)
  then show ?thesis using inv
    by (intro inv_planning [OF inv]) (auto simp: planning_steps_grow planning_ok_def db_inv_def)
next
  case (step_complete_sprint g)
  then have "distinct (map sr_project_id (filter (\<lambda>s. sr_status s = ACTIVE) (t_sprints d')))"
    using inv by (simp add: completing_keeps_active planning_ok_def db_inv_def del: filter_map)
  with step_complete_sprint show ?thesis using inv
    by (intro inv_planning [OF inv]) (auto simp: planning_steps_grow planning_ok_def db_inv_def comp_def)
qed

section \<open>What a client may rely on\<close>

text \<open>
  Rows of issues are never removed and keep their identity; a version number determines the
  row; the audit trail and the outbox only grow; a published event stays published.
\<close>

definition row_grows :: "issue_row \<Rightarrow> issue_row \<Rightarrow> bool" where
  "row_grows r r' \<longleftrightarrow>
     same_identity r r' \<and> r_version r \<le> r_version r' \<and> (r_version r' = r_version r \<longrightarrow> r' = r)"

definition evolves :: "db \<Rightarrow> db \<Rightarrow> bool" where
  "evolves d d' \<longleftrightarrow>
     (\<forall>r\<in>set (t_issues d). \<exists>r'\<in>set (t_issues d'). row_grows r r') \<and>
     (\<exists>hs. t_history d' = t_history d @ hs) \<and> (\<exists>cs. t_comments d' = t_comments d @ cs) \<and>
     (\<exists>f evs. keeps_envelope f \<and> t_outbox d' = map f (t_outbox d) @ evs) \<and>
     planning_grows d d' \<and> (\<exists>ms. t_topic d' = t_topic d @ ms)"

lemma same_identity_refl [simp]: "same_identity r r"
  by (simp add: same_identity_def)

lemma row_grows_refl [simp]: "row_grows r r"
  by (simp add: row_grows_def)

lemma row_grows_trans: "row_grows a b \<Longrightarrow> row_grows b c \<Longrightarrow> row_grows a c"
  by (fastforce simp: row_grows_def same_identity_def)

lemma rows_kept: "set xs \<subseteq> set ys \<Longrightarrow> \<forall>r\<in>set xs. \<exists>r'\<in>set ys. row_grows r r'"
  by (meson row_grows_refl subsetD)

lemma same_identity_trans: "same_identity a b \<Longrightarrow> same_identity b c \<Longrightarrow> same_identity a c"
  by (simp add: same_identity_def)

lemma planning_grows_refl [simp]: "planning_grows d d"
  by (auto simp: planning_grows_def)

lemma planning_same: "t_epics d' = t_epics d \<Longrightarrow> t_sprints d' = t_sprints d \<Longrightarrow> planning_grows d d'"
  by (auto simp: planning_grows_def)

lemma planning_grows_trans: "planning_grows a b \<Longrightarrow> planning_grows b c \<Longrightarrow> planning_grows a c"
  unfolding planning_grows_def by (intro conjI ballI) (metis, metis)

lemma keeps_envelope_id [simp]: "keeps_envelope (\<lambda>x. x)"
  by (simp add: keeps_envelope_def)

lemma keeps_envelope_comp: "keeps_envelope f \<Longrightarrow> keeps_envelope g \<Longrightarrow> keeps_envelope (g \<circ> f)"
  by (simp add: keeps_envelope_def)

lemma evolves_refl [simp]: "evolves d d"
proof -
  have "\<exists>f evs. keeps_envelope f \<and> t_outbox d = map f (t_outbox d) @ evs"
    by (intro exI [of _ "\<lambda>x. x"] exI [of _ "[]"]) simp
  then show ?thesis unfolding evolves_def using rows_kept [of "t_issues d" "t_issues d"] by auto
qed

lemma evolves_trans:
  assumes "evolves a b" and "evolves b c"
  shows "evolves a c"
proof -
  have "\<forall>r\<in>set (t_issues a). \<exists>r'\<in>set (t_issues c). row_grows r r'"
    using assms row_grows_trans unfolding evolves_def by meson
  moreover obtain f evs g evs' where "keeps_envelope f" "t_outbox b = map f (t_outbox a) @ evs"
      "keeps_envelope g" "t_outbox c = map g (t_outbox b) @ evs'"
    using assms by (auto simp: evolves_def)
  then have "keeps_envelope (g \<circ> f) \<and> t_outbox c = map (g \<circ> f) (t_outbox a) @ (map g evs @ evs')"
    by (simp add: keeps_envelope_comp)
  moreover have "planning_grows a c" using assms planning_grows_trans by (auto simp: evolves_def)
  ultimately show ?thesis using assms unfolding evolves_def by (metis append_assoc)
qed

lemma evolves_same_rest:
  assumes "t_history d' = t_history d @ hs" and "t_comments d' = t_comments d @ cs"
    and "t_outbox d' = t_outbox d @ evs" and "planning_grows d d'" and "t_topic d' = t_topic d @ ms"
    and "\<forall>r\<in>set (t_issues d). \<exists>r'\<in>set (t_issues d'). row_grows r r'"
  shows "evolves d d'"
proof -
  have "\<exists>f evs. keeps_envelope f \<and> t_outbox d' = map f (t_outbox d) @ evs"
    using assms(3) by (intro exI [of _ "\<lambda>x. x"] exI [of _ evs]) simp
  then show ?thesis using assms unfolding evolves_def by blast
qed

lemma evolves_planning:
  assumes "t_issues d' = t_issues d" "t_history d' = t_history d" "t_comments d' = t_comments d"
    "t_outbox d' = t_outbox d" "planning_grows d d'" "t_topic d' = t_topic d"
  shows "evolves d d'"
  using assms by (intro evolves_same_rest [of _ _ "[]" "[]" "[]" "[]"]) (simp_all, blast intro: row_grows_refl)

lemma db_step_evolves:
  assumes "db_step d d'" and inv: "db_inv d"
  shows "evolves d d'"
  using assms(1)
proof cases
  case (step_create r h ev)
  then show ?thesis
    by (intro evolves_same_rest [of _ _ "[h]" "[]" "[ev]" "[]"]) (simp_all add: planning_same, blast intro: row_grows_refl)
next
  case (step_change r r' h ev cs)
  have "\<exists>y\<in>set (t_issues d'). row_grows x y" if x: "x \<in> set (t_issues d)" for x
  proof (cases "r_id x = r_id r")
    case True
    then have "x = r" using inv x step_change by (auto simp: db_inv_def dest: distinct_map_eqD)
    moreover have "r' \<in> set (t_issues d')" using step_change by (auto intro!: image_eqI [of _ _ r])
    ultimately show ?thesis using step_change by (intro bexI [of _ r']) (simp_all add: row_grows_def)
  next
    case False
    then have "x \<in> set (t_issues d')" using x step_change by (auto intro!: image_eqI [of _ _ x])
    then show ?thesis by (intro bexI [of _ x]) simp_all
  qed
  then show ?thesis
    using step_change by (intro evolves_same_rest [of _ _ "[h]" cs "[ev]" "[]"]) (simp_all add: planning_same)
next
  case (step_outbox f)
  have "\<exists>g evs. keeps_envelope g \<and> t_outbox d' = map g (t_outbox d) @ evs"
    using step_outbox by (intro exI [of _ f] exI [of _ "[]"]) simp
  moreover have "planning_grows d d'" "set (t_issues d) \<subseteq> set (t_issues d')"
    "t_history d' = t_history d" "t_comments d' = t_comments d" "t_topic d' = t_topic d"
    using step_outbox by (simp_all add: planning_same)
  ultimately show ?thesis unfolding evolves_def by (simp add: rows_kept)
next
  case (step_deliver ev)
  then show ?thesis
    by (intro evolves_same_rest [of _ _ "[]" "[]" "[]" "[message_of ev]"])
      (simp_all add: planning_same, blast intro: row_grows_refl)
qed (auto intro!: evolves_planning simp: planning_steps_grow)

text \<open>Any number of steps of any sessions.\<close>

abbreviation db_steps :: "db \<Rightarrow> db \<Rightarrow> bool" where
  "db_steps \<equiv> db_step\<^sup>*\<^sup>*"

lemma db_steps_inv: "db_steps d d' \<Longrightarrow> db_inv d \<Longrightarrow> db_inv d'"
  by (induction rule: rtranclp_induct) (auto dest: db_step_inv)

lemma db_steps_evolves: "db_steps d d' \<Longrightarrow> db_inv d \<Longrightarrow> evolves d d'"
proof (induction rule: rtranclp_induct)
  case (step y z)
  then show ?case using db_steps_inv db_step_evolves evolves_trans by blast
qed simp

end
