(* ===== verification/Protocol.thy ===== *)
theory Protocol
  imports Database
begin

text \<open>
  Reasoning about programs that share the database with other sessions. \<open>runs R E P p Q\<close>:
  in an environment with \<open>E\<close>, from tables with \<open>P\<close>, outside a transaction, the program
  leaves the session outside a transaction, changes the tables only along \<open>R\<close> (its own
  commits and those of the others), and when it returns a value, \<open>Q\<close> holds of it and the
  tables. The locale \<open>protocol\<close> is the contract of a relation \<open>R\<close> that every session keeps.
\<close>

definition runs ::
    "(db \<Rightarrow> db \<Rightarrow> bool) \<Rightarrow> (env \<Rightarrow> bool) \<Rightarrow> (db \<Rightarrow> bool) \<Rightarrow> 'a prog \<Rightarrow> ('a \<Rightarrow> db \<Rightarrow> bool) \<Rightarrow> bool" where
  "runs R E P p Q \<longleftrightarrow>
     (\<forall>e w r w'. E e \<longrightarrow> w_tx w = None \<longrightarrow> P (w_db w) \<longrightarrow> p e w = (r, w') \<longrightarrow>
        w_tx w' = None \<and> R (w_db w) (w_db w') \<and> (\<forall>a. r = Inr a \<longrightarrow> Q a (w_db w')))"

lemma runsI:
  assumes "\<And>e w r w'. \<lbrakk>E e; w_tx w = None; P (w_db w); p e w = (r, w')\<rbrakk> \<Longrightarrow>
    w_tx w' = None \<and> R (w_db w) (w_db w') \<and> (\<forall>a. r = Inr a \<longrightarrow> Q a (w_db w'))"
  shows "runs R E P p Q"
  unfolding runs_def using assms by blast

lemma runsD:
  assumes "runs R E P p Q" and "E e" "w_tx w = None" "P (w_db w)" "p e w = (r, w')"
  shows "w_tx w' = None" and "R (w_db w) (w_db w')" and "r = Inr a \<Longrightarrow> Q a (w_db w')"
  using assms unfolding runs_def by blast+

text \<open>A predicate the other sessions cannot falsify.\<close>

definition stable :: "(db \<Rightarrow> db \<Rightarrow> bool) \<Rightarrow> (db \<Rightarrow> bool) \<Rightarrow> bool" where
  "stable R P \<longleftrightarrow> (\<forall>d d'. P d \<longrightarrow> R d d' \<longrightarrow> P d')"

lemma stableD: "stable R P \<Longrightarrow> P d \<Longrightarrow> R d d' \<Longrightarrow> P d'"
  by (auto simp: stable_def)

text \<open>What the relation cannot falsify holds on.\<close>

lemma runs_frame:
  "\<lbrakk>runs R E P p Q; stable R F\<rbrakk> \<Longrightarrow> runs R E (\<lambda>d. P d \<and> F d) p (\<lambda>a d. Q a d \<and> F d)"
  unfolding runs_def stable_def by blast

lemma andThen_checked: "andThen (checked (Inr a)) f = f a" "andThen (checked (Inl x)) f = throwing x"
  by (rule ext, rule ext, simp add: andThen_def)+

locale protocol =
  fixes R :: "db \<Rightarrow> db \<Rightarrow> bool"
    and E :: "env \<Rightarrow> bool"
  assumes R_refl: "R d d"
    and R_trans: "R a b \<Longrightarrow> R b c \<Longrightarrow> R a c"
    and R_others: "E e \<Longrightarrow> R d (e_others e n d)"
begin

lemma runs_weaken:
  "\<lbrakk>runs R E P p Q; \<And>d. P' d \<Longrightarrow> P d; \<And>a d. Q a d \<Longrightarrow> Q' a d\<rbrakk> \<Longrightarrow> runs R E P' p Q'"
  unfolding runs_def by blast

lemma runs_returning: "(\<And>d. P d \<Longrightarrow> Q x d) \<Longrightarrow> runs R E P (returning x) Q"
  by (rule runsI) (auto simp: R_refl)

lemma runs_throwing: "runs R E P (throwing x) Q"
  by (rule runsI) (auto simp: R_refl)

lemma runs_checked: "(\<And>a d. r = Inr a \<Longrightarrow> P d \<Longrightarrow> Q a d) \<Longrightarrow> runs R E P (checked r) Q"
  by (rule runsI) (auto simp: R_refl)

lemma runs_ask: "(\<And>e d. E e \<Longrightarrow> P d \<Longrightarrow> Q (f e) d) \<Longrightarrow> runs R E P (ask f) Q"
  by (rule runsI) (auto simp: R_refl)

lemma runs_randomUUID: "(\<And>e n d. E e \<Longrightarrow> P d \<Longrightarrow> Q (e_uuid e n) d) \<Longrightarrow> runs R E P randomUUID Q"
  by (rule runsI) (auto simp: R_refl)

lemma runs_new_Date: "(\<And>e n d. E e \<Longrightarrow> P d \<Longrightarrow> Q (e_clock e n div 1000) d) \<Longrightarrow> runs R E P new_Date Q"
  by (rule runsI) (auto simp: R_refl)

lemma runs_current_tick: "(\<And>n d. P d \<Longrightarrow> Q n d) \<Longrightarrow> runs R E P current_tick Q"
  by (rule runsI) (auto simp: R_refl)

lemma runs_andThen:
  assumes p: "runs R E P p M" and f: "\<And>a. runs R E (M a) (f a) Q"
  shows "runs R E P (andThen p f) Q"
proof (rule runsI)
  fix e w r w'
  assume pre: "E e" "w_tx w = None" "P (w_db w)" and run: "andThen p f e w = (r, w')"
  obtain s v where s: "p e w = (s, v)" by (cases "p e w") auto
  note h = runsD [OF p pre s]
  show "w_tx w' = None \<and> R (w_db w) (w_db w') \<and> (\<forall>a. r = Inr a \<longrightarrow> Q a (w_db w'))"
  proof (cases s)
    case (Inl x)
    with run s h show ?thesis by (auto simp: andThen_def)
  next
    case (Inr a)
    then have "f a e v = (r, w')" using run s by (simp add: andThen_def)
    note k = runsD [OF f [of a] pre(1) h(1) h(3) [OF Inr] this]
    then show ?thesis using h(2) R_trans by blast
  qed
qed

lemma runs_catching:
  assumes p: "runs R E P p Q" and P: "stable R P"
    and h: "\<And>x. runs R E P (handler x) Q"
  shows "runs R E P (catching p handler) Q"
proof (rule runsI)
  fix e w r w'
  assume pre: "E e" "w_tx w = None" "P (w_db w)" and run: "catching p handler e w = (r, w')"
  obtain s v where s: "p e w = (s, v)" by (cases "p e w") auto
  note a = runsD [OF p pre s]
  show "w_tx w' = None \<and> R (w_db w) (w_db w') \<and> (\<forall>a. r = Inr a \<longrightarrow> Q a (w_db w'))"
  proof (cases s)
    case (Inl x)
    then have run': "handler x e v = (r, w')" using run s by (simp add: catching_def)
    note b = runsD [OF h pre(1) a(1) stableD [OF P pre(3) a(2)] run']
    then show ?thesis using a(2) R_trans by blast
  next
    case (Inr c)
    then show ?thesis using run s a by (auto simp: catching_def)
  qed
qed

text \<open>A statement of its own: the others may act before it.\<close>

lemma runs_query:
  assumes P: "stable R P"
    and s: "\<And>e now d a d'. \<lbrakk>E e; P d; s e now d = Inr (a, d')\<rbrakk> \<Longrightarrow> R d d' \<and> Q a d'"
  shows "runs R E P (query s) Q"
proof (rule runsI)
  fix e w r w'
  assume pre: "E e" "w_tx w = None" "P (w_db w)" and run: "query s e w = (r, w')"
  let ?v = "others e w"
  have o: "R (w_db w) (w_db ?v)" using R_others [OF pre(1)] by simp
  have Pv: "P (w_db ?v)" using stableD [OF P pre(3) o] .
  have run': "client_query s e ?v = (r, w')" using run by (simp add: query_def)
  have "w_tx w' = None" using client_query_db [OF run'] pre(2) by simp
  moreover have "R (w_db ?v) (w_db w')"
    using client_query_db [OF run'] s [OF pre(1) Pv] R_refl by metis
  moreover have "Q a (w_db w')" if "r = Inr a" for a
    using run' that s [OF pre(1) Pv] by (auto simp: client_query_Inr)
  ultimately show "w_tx w' = None \<and> R (w_db w) (w_db w') \<and> (\<forall>a. r = Inr a \<longrightarrow> Q a (w_db w'))"
    using o R_trans by blast
qed

lemma runs_transaction:
  assumes P: "stable R P"
    and work: "\<And>e w a w'. \<lbrakk>E e; P (w_db w); work e w = (Inr a, w')\<rbrakk> \<Longrightarrow>
      R (w_db w) (w_db w') \<and> Q a (w_db w')"
  shows "runs R E P (transaction work) Q"
proof (rule runsI)
  fix e w r w'
  assume pre: "E e" "w_tx w = None" "P (w_db w)" and run: "transaction work e w = (r, w')"
  have o: "R (w_db w) (e_others e (w_tick w + 1) (w_db w))" by (rule R_others [OF pre(1)])
  show "w_tx w' = None \<and> R (w_db w) (w_db w') \<and> (\<forall>a. r = Inr a \<longrightarrow> Q a (w_db w'))"
  proof (rule transaction_cases [OF run])
    fix x
    assume "r = Inl x"
      and "w_db w' = w_db w \<and> w_tx w' = w_tx w \<or>
        w_db w' = e_others e (w_tick w + 1) (w_db w) \<and> w_tx w' = None"
    then show ?thesis using pre(2) o R_refl by auto
  next
    fix a w2 w3
    assume h: "w_db w2 = e_others e (w_tick w + 1) (w_db w)" "work e w2 = (Inr a, w3)"
      "w_db w' = w_db w3" "w_tx w' = None" "r = Inr a \<or> (\<exists>x. r = Inl x)"
    have "P (w_db w2)" using stableD [OF P pre(3) o] h(1) by simp
    from work [OF pre(1) this h(2)] show ?thesis using h o R_trans by auto
  qed
qed

text \<open>A check, then the rest.\<close>

lemma after_check:
  assumes "\<And>a. r = Inr a \<Longrightarrow> runs R E P (f a) Q"
  shows "runs R E P (andThen (checked r) f) Q"
  using assms by (cases r) (simp_all add: andThen_checked runs_throwing)

lemma after_asking:
  "(\<And>e. runs R E P (f (g e)) Q) \<Longrightarrow> runs R E P (andThen (ask g) f) Q"
  unfolding runs_def andThen_def by simp

lemma runs_same: "(\<And>e w r w'. p e w = (r, w') \<Longrightarrow> w_db w' = w_db w \<and> w_tx w' = w_tx w) \<Longrightarrow> runs R E P p (\<lambda>_. P)"
  by (rule runsI) (metis R_refl)

end

section \<open>The errors of a program\<close>

text \<open>The errors nobody throws on purpose.\<close>

fun unexpected :: "exn \<Rightarrow> bool" where
  "unexpected (DbError m) = True"
| "unexpected (KafkaError m) = True"
| "unexpected TypeError = True"
| "unexpected _ = False"

lemma raises_drawn [simp]: "raises e randomUUID X" "raises e new_Date X" "raises e current_tick X"
  by (auto simp: raises_def)

lemma raises_client_query:
  assumes "\<And>now d x. s e now d = Inl x \<Longrightarrow> X x" and "\<And>x. unexpected x \<Longrightarrow> X x"
  shows "raises e (client_query s) X"
  using assms by (auto simp: raises_def client_query_def split: fault.splits sum.splits prod.splits)

lemma raises_query:
  assumes "\<And>now d x. s e now d = Inl x \<Longrightarrow> X x" and "\<And>x. unexpected x \<Longrightarrow> X x"
  shows "raises e (query s) X"
  using raises_client_query [of s e X, OF assms] by (simp add: raises_def query_def)

lemma raises_control: "(\<And>x. unexpected x \<Longrightarrow> X x) \<Longrightarrow> raises e control X"
  by (auto simp: raises_def control_def split: fault.splits)

lemma rollback_raises:
  "\<lbrakk>rollback x d e w = (Inl y, w'); X x; \<And>z. unexpected z \<Longrightarrow> X z\<rbrakk> \<Longrightarrow> X y"
  by (auto simp: rollback_def control_def split: prod.splits sum.splits fault.splits)

lemma raises_transaction:
  assumes "raises e work X" and u: "\<And>x. unexpected x \<Longrightarrow> X x"
  shows "raises e (transaction work) X"
proof -
  have c: "control e w = (Inl x, w') \<Longrightarrow> X x" for w x w'
    using raises_control [of X] u by (auto simp: raises_def)
  have k: "work e w = (Inl x, w') \<Longrightarrow> X x" for w x w' using assms(1) by (auto simp: raises_def)
  note b = rollback_raises [where X = X, OF _ _ u]
  have db: "rollback (DbError m) d e w = (Inl x, w') \<Longrightarrow> X x" for m and d and w :: world and x and w'
    by (rule b [of "DbError m" d e w]) (simp_all add: u)
  show ?thesis
    unfolding raises_def transaction_def Let_def
    by (auto split: prod.splits sum.splits fault.splits intro: c k u b db)
qed

end
