(* ===== verification/Issue_Refinement.thy ===== *)
theory Issue_Refinement
  imports Issue_Repository Issue_Store Protocol
begin

text \<open>
  The operations of the PostgreSQL issue repository take only the steps of \<open>Issue_Store\<close>:
  each transaction's work, when it succeeds, is one step. With the all-or-nothing
  transactions of \<open>Database\<close> this makes every method safe to run beside other sessions,
  whatever statement fails.
\<close>

section \<open>What is assumed of PostgreSQL's UUID input\<close>

text \<open>
  It reads a UUID in the form in which it prints one as itself, and it reads nothing else
  than UUIDs, which it prints in that form.
\<close>

definition pg_uuid :: "env \<Rightarrow> bool" where
  "pg_uuid e \<longleftrightarrow>
     (\<forall>s. uuid_text s \<longrightarrow> e_uuid_in e s = Some s) \<and> (\<forall>s t. e_uuid_in e s = Some t \<longrightarrow> uuid_text t)"

lemma hex_digit_classes: "uuid_version c \<Longrightarrow> hex_digit c" "uuid_variant c \<Longrightarrow> hex_digit c"
  by (auto simp: uuid_version_def uuid_variant_def hex_digit_def is_digit_def)

lemma match_re_mono:
  "list_all2 (\<lambda>p q. \<forall>c. p c \<longrightarrow> q c) ps qs \<Longrightarrow> match_re ps s \<Longrightarrow> match_re qs s"
  by (induction ps qs arbitrary: s rule: list_all2_induct) (auto simp: match_re_Nil_iff match_re_Cons_iff)

lemma canonical_uuid_text: "canonical_uuid s \<Longrightarrow> uuid_text s"
  unfolding canonical_uuid_def uuid_text_def UUID_RE_def
  by (auto simp: eval_nat_numeral hex_digit_classes elim!: match_re_mono [rotated])

lemma pg_uuid_canonical: "pg_uuid e \<Longrightarrow> canonical_uuid s \<Longrightarrow> e_uuid_in e s = Some s"
  by (simp add: pg_uuid_def canonical_uuid_text)

lemma pg_uuid_text: "pg_uuid e \<Longrightarrow> uuid_text s \<Longrightarrow> e_uuid_in e s = Some s"
  by (simp add: pg_uuid_def)

lemma pg_uuid_stored: "pg_uuid e \<Longrightarrow> e_uuid_in e s = Some t \<Longrightarrow> e_uuid_in e t = Some t"
  by (auto simp: pg_uuid_def)

lemma uuid_param_Inr [simp]: "uuid_param e s = Inr t \<longleftrightarrow> e_uuid_in e s = Some t"
  by (auto simp: uuid_param_def split: option.splits)

lemma uuid_opt_param_Inr [simp]:
  "uuid_opt_param e v = Inr x \<longleftrightarrow>
     (case v of None \<Rightarrow> x = None | Some s \<Rightarrow> \<exists>t. e_uuid_in e s = Some t \<and> x = Some t)"
  by (auto simp: uuid_opt_param_def map_result_Inr_iff split: option.splits)

section \<open>What the parts of a transaction did\<close>

lemma toIssue_fields [simp]:
  "i_id (toIssue r) = r_id r" "i_version (toIssue r) = r_version r" "i_status (toIssue r) = r_status r"
  "i_projectId (toIssue r) = r_project_id r" "i_key (toIssue r) = r_issue_key r"
  "i_number (toIssue r) = r_issue_number r" "i_summary (toIssue r) = r_summary r"
  "i_assigneeUserId (toIssue r) = r_assignee_user_id r" "i_description (toIssue r) = r_description r"
  "i_reporterUserId (toIssue r) = r_reporter_user_id r" "i_type (toIssue r) = r_type r"
  "i_priority (toIssue r) = r_priority r"
  by (simp_all add: toIssue_def)

lemma insertHistory_Inr:
  assumes "insertHistory issue actor action fv tv e w = (Inr x, w')"
  obtains h where "hr_action h = action" "e_uuid_in e (i_id issue) = Some (hr_issue_id h)"
    "hr_from_value h = fv" "hr_to_value h = tv" "e_uuid_in e actor = Some (hr_actor_user_id h)"
    "w_db w' = (w_db w)\<lparr>t_history := t_history (w_db w) @ [h]\<rparr>"
proof -
  from assms obtain hid iid aid now where
    "e_uuid_in e (i_id issue) = Some iid" "e_uuid_in e actor = Some aid"
    "w_db w' = (w_db w)\<lparr>t_history := t_history (w_db w) @ [\<lparr>hr_id = hid, hr_issue_id = iid,
       hr_actor_user_id = aid, hr_action = action, hr_from_value = fv, hr_to_value = tv,
       hr_created_at = now\<rparr>]\<rparr>"
    by (auto simp: insertHistory_def andThen_Inr client_query_Inr try_then_Inr_iff insert_history_row_Inr)
  then show thesis
    using that [of "\<lparr>hr_id = hid, hr_issue_id = iid, hr_actor_user_id = aid, hr_action = action,
      hr_from_value = fv, hr_to_value = tv, hr_created_at = now\<rparr>"] by simp
qed

lemma insertEvent_Inr:
  assumes "insertEvent issue actor eventType payload e w = (Inr x, w')"
  obtains ev where "e_uuid_in e (i_id issue) = Some (o_aggregate_id ev)"
    "o_aggregate_version ev = i_version issue" "o_event_type ev = eventType" "o_payload ev = Obj payload"
    "o_published_at ev = None" "o_publish_attempts ev = 0"
    "o_event_id ev \<notin> o_event_id ` set (t_outbox (w_db w))" "\<exists>s. e_uuid_in e s = Some (o_event_id ev)"
    "w_db w' = (w_db w)\<lparr>t_outbox := t_outbox (w_db w) @ [ev]\<rparr>"
proof -
  from assms obtain eid iid pid aid occ nxt tr s where
    "e_uuid_in e s = Some eid" and
    "e_uuid_in e (i_id issue) = Some iid" "eid \<notin> o_event_id ` set (t_outbox (w_db w))"
    "w_db w' = (w_db w)\<lparr>t_outbox := t_outbox (w_db w) @ [\<lparr>o_event_id = eid, o_event_type = eventType,
       o_aggregate_id = iid, o_aggregate_version = i_version issue, o_project_id = pid,
       o_actor_user_id = aid, o_payload = Obj payload, o_occurred_at = occ, o_published_at = None,
       o_publish_attempts = 0, o_last_error = None, o_next_attempt_at = nxt, o_trace_context = tr\<rparr>]\<rparr>"
    by (auto simp: insertEvent_def andThen_Inr client_query_Inr try_then_Inr_iff insert_outbox_row_Inr)
  then show thesis
    using that [of "\<lparr>o_event_id = eid, o_event_type = eventType,
       o_aggregate_id = iid, o_aggregate_version = i_version issue, o_project_id = pid,
       o_actor_user_id = aid, o_payload = Obj payload, o_occurred_at = occ, o_published_at = None,
       o_publish_attempts = 0, o_last_error = None, o_next_attempt_at = nxt, o_trace_context = tr\<rparr>"]
    by auto
qed

lemma filter_hd_mem: "map f (filter P xs) = y # ys \<Longrightarrow> \<exists>x\<in>set xs. P x \<and> y = f x"
  by (induction xs) (auto split: if_splits)

lemma updateWithVersion_Inr:
  assumes "updateWithVersion issue v setters e w = (Inr upd, w')" and inv: "db_inv (w_db w)"
  obtains r set_row where "setters e = Inr set_row" "r \<in> set (t_issues (w_db w))"
    "e_uuid_in e (i_id issue) = Some (r_id r)" "r_version r = v"
    "upd = toIssue ((set_row r)\<lparr>r_version := r_version r + 1, r_updated_at := now_of e w\<rparr>)"
    "issue_row_ok (w_db w) ((set_row r)\<lparr>r_version := r_version r + 1, r_updated_at := now_of e w\<rparr>)"
    "w_db w' = (w_db w)\<lparr>t_issues := map (\<lambda>x. if r_id x = r_id r
       then (set_row r)\<lparr>r_version := r_version r + 1, r_updated_at := now_of e w\<rparr> else x)
         (t_issues (w_db w))\<rparr>"
    "w_tx w' = w_tx w"
proof -
  let ?d = "w_db w"
  from assms(1) obtain rows u where
    q: "client_query (update_stmt (i_id issue) v setters) e w = (Inr rows, u)"
    and c: "(case rows of [] \<Rightarrow> throwing (DomainError 409 ''CONCURRENT_ISSUE_MODIFICATION''
              ''Issue changed since it was last loaded'' [])
     | row # _ \<Rightarrow> returning (toIssue row)) e u = (Inr upd, w')"
    by (auto simp: updateWithVersion_def andThen_Inr)
  from q obtain d' where s: "update_stmt (i_id issue) v setters e (now_of e w) ?d = Inr (rows, d')"
    and u: "u = (tick w)\<lparr>w_db := d'\<rparr>" by (auto simp: client_query_Inr)
  from s obtain set_row iid where sr: "setters e = Inr set_row" and iid: "e_uuid_in e (i_id issue) = Some iid"
    by (auto simp: update_stmt_def try_then_Inr_iff)
  define upd1 :: "issue_row \<Rightarrow> issue_row" where "upd1 r = (set_row r)\<lparr>r_version := r_version r + 1, r_updated_at := now_of e w\<rparr>" for r
  define hit :: "issue_row \<Rightarrow> bool" where "hit r \<longleftrightarrow> r_id r = iid \<and> r_version r = v" for r
  from s have rows: "rows = map upd1 (filter hit (t_issues ?d))" and ok: "list_all (issue_row_ok ?d) rows"
    and d': "d' = ?d\<lparr>t_issues := map (\<lambda>r. if hit r then upd1 r else r) (t_issues ?d)\<rparr>"
    unfolding upd1_def [abs_def] hit_def [abs_def]
    by (auto simp: update_stmt_def sr iid Let_def uuid_param_def split: if_splits)
  from c obtain row rest where row: "rows = row # rest" and upd: "upd = toIssue row" and w': "w' = u"
    by (cases rows) auto
  obtain r where r: "r \<in> set (t_issues ?d)" "hit r" "row = upd1 r"
    using filter_hd_mem [OF row [unfolded rows]] by blast
  have "hit x \<longleftrightarrow> r_id x = r_id r" if "x \<in> set (t_issues ?d)" for x
    using inv that r by (auto simp: hit_def db_inv_def dest: distinct_map_eqD)
  moreover have "x = r" if "x \<in> set (t_issues ?d)" "r_id x = r_id r" for x
    using inv that r by (auto simp: db_inv_def dest: distinct_map_eqD)
  ultimately have "map (\<lambda>x. if hit x then upd1 x else x) (t_issues ?d) =
      map (\<lambda>x. if r_id x = r_id r then upd1 r else x) (t_issues ?d)"
    by (intro map_cong) auto
  then have "w_db w' = ?d\<lparr>t_issues := map (\<lambda>x. if r_id x = r_id r then upd1 r else x) (t_issues ?d)\<rparr>"
    by (simp add: w' u d')
  moreover have "issue_row_ok ?d (upd1 r)" using ok row r(3) by simp
  ultimately show thesis
    using that [OF sr r(1)] r(2,3) iid upd w' u unfolding hit_def upd1_def by simp
qed

section \<open>One transaction, one step\<close>

text \<open>
  An issue the client has read: it is in the table, and if its version is still the one
  read, so is everything else.
\<close>

definition seen :: "issue \<Rightarrow> db \<Rightarrow> bool" where
  "seen issue d \<longleftrightarrow>
     canonical_uuid (i_id issue) \<and>
     (\<exists>r\<in>set (t_issues d). r_id r = i_id issue \<and> r_project_id r = i_projectId issue \<and>
        i_version issue \<le> r_version r \<and>
        (r_version r = i_version issue \<longrightarrow> toIssue r = issue))"

lemma seen_evolves: "seen issue d \<Longrightarrow> evolves d d' \<Longrightarrow> seen issue d'"
  unfolding seen_def evolves_def row_grows_def same_identity_def by (elim conjE bexE) (metis order_antisym order_trans)

lemma update_facts:
  assumes run: "updateWithVersion issue (i_version issue) setters e w = (Inr upd, w')"
    and pre: "pg_uuid e" "db_inv (w_db w)" "seen issue (w_db w)"
    and setters: "\<And>(set_row :: issue_row \<Rightarrow> issue_row) r. setters e = Inr set_row \<Longrightarrow> same_identity r (set_row r)"
  obtains r set_row r' where "setters e = Inr set_row" "r \<in> set (t_issues (w_db w))" "toIssue r = issue"
    "e_uuid_in e (r_id r) = Some (r_id r)" "upd = toIssue r'"
    "r' = (set_row r)\<lparr>r_version := r_version r + 1, r_updated_at := now_of e w\<rparr>"
    "issue_row_ok (w_db w) r'" "same_identity r r'" "r_version r' = r_version r + 1"
    "w_db w' = (w_db w)\<lparr>t_issues := map (\<lambda>x. if r_id x = r_id r then r' else x) (t_issues (w_db w))\<rparr>"
proof (rule updateWithVersion_Inr [OF run pre(2)])
  fix r and set_row :: "issue_row \<Rightarrow> issue_row"
  let ?r' = "(set_row r)\<lparr>r_version := r_version r + 1, r_updated_at := now_of e w\<rparr>"
  assume h: "setters e = Inr set_row" "r \<in> set (t_issues (w_db w))"
    "e_uuid_in e (i_id issue) = Some (r_id r)" "r_version r = i_version issue"
    "upd = toIssue ?r'" "issue_row_ok (w_db w) ?r'"
    "w_db w' = (w_db w)\<lparr>t_issues := map (\<lambda>x. if r_id x = r_id r then ?r' else x) (t_issues (w_db w))\<rparr>"
  have "canonical_uuid (i_id issue)" using pre(3) by (simp add: seen_def)
  then have id: "r_id r = i_id issue" using pg_uuid_canonical [OF pre(1)] h(3) by simp
  obtain s where s: "s \<in> set (t_issues (w_db w))" "r_id s = i_id issue"
      "r_version s = i_version issue \<longrightarrow> toIssue s = issue"
    using pre(3) by (auto simp: seen_def)
  have "distinct (map r_id (t_issues (w_db w)))" using pre(2) by (simp add: db_inv_def)
  from distinct_map_eqD [OF this s(1) h(2)] have "s = r" using s(2) id by simp
  with s(3) h(4) have "toIssue r = issue" by blast
  moreover have "same_identity r ?r'" using setters [OF h(1), of r] by (simp add: same_identity_def)
  ultimately show thesis using that [of set_row r ?r'] h id by simp
qed

lemma change_is_step:
  assumes "r \<in> set (t_issues d)" "same_identity r r'" "r_version r' = r_version r + 1" "issue_row_ok d r'"
    "status_rule r r' h" "hr_issue_id h = r_id r" "o_aggregate_id ev = r_id r"
    "o_aggregate_version ev = r_version r'" "o_published_at ev = None" "o_publish_attempts ev = 0"
    "o_event_id ev \<notin> o_event_id ` set (t_outbox d)" "uuid_text (o_event_id ev)" "\<forall>c\<in>set cs. cr_issue_id c = r_id r"
    "d' = d\<lparr>t_issues := map (\<lambda>x. if r_id x = r_id r then r' else x) (t_issues d),
            t_comments := t_comments d @ cs, t_history := t_history d @ [h], t_outbox := t_outbox d @ [ev]\<rparr>"
  shows "db_step d d'"
  unfolding assms(14) using assms
  by (intro step_change) (simp_all add: announces_def same_identity_id)

lemma toIssue_in_update:
  "\<lbrakk>r \<in> set rs; r_id r' = r_id r\<rbrakk> \<Longrightarrow> r' \<in> set (map (\<lambda>x. if r_id x = r_id r then r' else x) rs)"
  by (auto intro!: image_eqI [of _ _ r])

text \<open>What a changing method returns: the row it left, one version on.\<close>

definition left_row :: "issue \<Rightarrow> issue \<Rightarrow> db \<Rightarrow> bool" where
  "left_row issue updated d \<longleftrightarrow>
     updated \<in> toIssue ` set (t_issues d) \<and> i_id updated = i_id issue \<and>
     i_projectId updated = i_projectId issue \<and> i_number updated = i_number issue \<and>
     i_key updated = i_key issue \<and> i_version updated = i_version issue + 1"

lemma left_rowI:
  assumes "r \<in> set (t_issues d)" "same_identity r r'" "r_version r' = r_version r + 1"
    "t_issues d' = map (\<lambda>x. if r_id x = r_id r then r' else x) (t_issues d)"
  shows "left_row (toIssue r) (toIssue r') d'"
  using assms toIssue_in_update [of r "t_issues d" r'] by (simp add: left_row_def same_identity_def)

lemma announced:
  assumes h: "insertHistory issue actor action fv tv e w1 = (Inr x, w2)"
    and v: "insertEvent issue actor eventType payload e w2 = (Inr y, w')"
    and known: "e_uuid_in e (i_id issue) = Some (i_id issue)" "pg_uuid e"
  obtains hr ev where "hr_action hr = action" "hr_issue_id hr = i_id issue" "hr_from_value hr = fv"
    "hr_to_value hr = tv" "o_aggregate_id ev = i_id issue" "o_aggregate_version ev = i_version issue"
    "o_event_type ev = eventType" "o_payload ev = Obj payload"
    "o_published_at ev = None" "o_publish_attempts ev = 0"
    "o_event_id ev \<notin> o_event_id ` set (t_outbox (w_db w1))" "uuid_text (o_event_id ev)"
    "w_db w' = (w_db w1)\<lparr>t_history := t_history (w_db w1) @ [hr], t_outbox := t_outbox (w_db w1) @ [ev]\<rparr>"
proof (rule insertHistory_Inr [OF h], rule insertEvent_Inr [OF v])
  fix hr ev
  assume "hr_action hr = action" "e_uuid_in e (i_id issue) = Some (hr_issue_id hr)"
    "hr_from_value hr = fv" "hr_to_value hr = tv"
    "w_db w2 = (w_db w1)\<lparr>t_history := t_history (w_db w1) @ [hr]\<rparr>"
    "e_uuid_in e (i_id issue) = Some (o_aggregate_id ev)"
    "o_aggregate_version ev = i_version issue" "o_event_type ev = eventType" "o_payload ev = Obj payload"
    "o_published_at ev = None" "o_publish_attempts ev = 0"
    "o_event_id ev \<notin> o_event_id ` set (t_outbox (w_db w2))" "\<exists>s. e_uuid_in e s = Some (o_event_id ev)"
    "w_db w' = (w_db w2)\<lparr>t_outbox := t_outbox (w_db w2) @ [ev]\<rparr>"
  then show thesis using known by (intro that [of hr ev]) (auto simp: pg_uuid_def)
qed

text \<open>
  The common course of the four changing methods: the row is updated under its version,
  perhaps comments are added, and the new version is announced.
\<close>

lemma change_course:
  assumes pre: "pg_uuid e" "db_inv (w_db w)" "seen issue (w_db w)"
    and setters: "\<And>(set_row :: issue_row \<Rightarrow> issue_row) r. setters e = Inr set_row \<Longrightarrow> same_identity r (set_row r)"
    and u: "updateWithVersion issue (i_version issue) setters e w = (Inr updated, w1)"
    and c: "w_db w2 = (w_db w1)\<lparr>t_comments := t_comments (w_db w1) @ cs\<rparr>"
      "\<forall>c\<in>set cs. cr_issue_id c = i_id issue"
    and h: "insertHistory updated actor action fv tv e w2 = (Inr x, w3)"
    and v: "insertEvent updated actor eventType payload e w3 = (Inr y, w')"
    and status: "\<And>set_row r hr. \<lbrakk>setters e = Inr set_row; toIssue r = issue; hr_action hr = action;
        hr_from_value hr = fv; hr_to_value hr = tv\<rbrakk> \<Longrightarrow> status_rule r (set_row r) hr"
  obtains r set_row where "db_step (w_db w) (w_db w')" "left_row issue updated (w_db w')"
    "setters e = Inr set_row" "toIssue r = issue"
    "updated = toIssue ((set_row r)\<lparr>r_version := r_version r + 1, r_updated_at := now_of e w\<rparr>)"
proof (rule update_facts [OF u pre])
  show "\<And>(set_row :: issue_row \<Rightarrow> issue_row) r. setters e = Inr set_row \<Longrightarrow> same_identity r (set_row r)"
    by (rule setters)
next
  fix r r' and set_row :: "issue_row \<Rightarrow> issue_row"
  assume f: "setters e = Inr set_row" "r \<in> set (t_issues (w_db w))" "toIssue r = issue"
    "e_uuid_in e (r_id r) = Some (r_id r)" "updated = toIssue r'"
    "r' = (set_row r)\<lparr>r_version := r_version r + 1, r_updated_at := now_of e w\<rparr>"
    "issue_row_ok (w_db w) r'" "same_identity r r'" "r_version r' = r_version r + 1"
    "w_db w1 = (w_db w)\<lparr>t_issues := map (\<lambda>x. if r_id x = r_id r then r' else x) (t_issues (w_db w))\<rparr>"
  note id = same_identity_id [OF f(8)]
  have known: "e_uuid_in e (i_id updated) = Some (i_id updated)" using f(4) id by (simp add: f(5))
  show thesis
  proof (rule announced [OF h v known pre(1)])
    fix hr ev
    assume a: "hr_action hr = action" "hr_issue_id hr = i_id updated" "hr_from_value hr = fv"
      "hr_to_value hr = tv" "o_aggregate_id ev = i_id updated" "o_aggregate_version ev = i_version updated"
      "o_published_at ev = None" "o_publish_attempts ev = 0"
      "o_event_id ev \<notin> o_event_id ` set (t_outbox (w_db w2))" "uuid_text (o_event_id ev)"
      "w_db w' = (w_db w2)\<lparr>t_history := t_history (w_db w2) @ [hr], t_outbox := t_outbox (w_db w2) @ [ev]\<rparr>"
    have "status_rule r (set_row r) hr" using status f(1,3) a(1,3,4) by blast
    then have rule: "status_rule r r' hr" by (simp add: status_rule_def f(6))
    have eid: "o_event_id ev \<notin> o_event_id ` set (t_outbox (w_db w))" using a(9) by (simp add: c f(10))
    have iid: "hr_issue_id hr = r_id r" "o_aggregate_id ev = r_id r" "o_aggregate_version ev = r_version r'"
      using a(2,5,6) id by (simp_all add: f(5))
    have cs: "\<forall>c\<in>set cs. cr_issue_id c = r_id r" using c(2) f(3) by auto
    have db: "w_db w' = (w_db w)\<lparr>t_issues := map (\<lambda>x. if r_id x = r_id r then r' else x) (t_issues (w_db w)),
        t_comments := t_comments (w_db w) @ cs, t_history := t_history (w_db w) @ [hr],
        t_outbox := t_outbox (w_db w) @ [ev]\<rparr>"
      by (simp add: a(11) c f(10))
    have "db_step (w_db w) (w_db w')"
      by (rule change_is_step [OF f(2,8,9,7) rule iid a(7,8) eid a(10) cs db])
    moreover have "left_row issue updated (w_db w')"
      unfolding f(3) [symmetric] f(5) by (rule left_rowI [OF f(2,8,9)]) (simp add: db)
    ultimately show thesis using that [of set_row r] f by simp
  qed
qed

lemma updateIssue_step:
  assumes pre: "pg_uuid e" "db_inv (w_db w)" "seen issue (w_db w)"
    and run: "updateIssue_work issue (i_version issue) data actor e w = (Inr updated, w')"
  shows "db_step (w_db w) (w_db w') \<and> left_row issue updated (w_db w') \<and>
    i_summary updated = u_summary data \<and> i_description updated = u_description data \<and>
    i_type updated = u_type data \<and> i_priority updated = u_priority data \<and>
    i_status updated = i_status issue \<and> i_assigneeUserId updated = i_assigneeUserId issue"
proof -
  from run obtain w1 w2 x y payload where
    u: "updateWithVersion issue (i_version issue)
       (\<lambda>_. Inr (\<lambda>r. r\<lparr>r_summary := u_summary data, r_description := u_description data,
                       r_type := u_type data, r_priority := u_priority data\<rparr>)) e w = (Inr updated, w1)"
    and h: "insertHistory updated actor ''UPDATED'' (core_value issue) (core_value updated) e w1 = (Inr x, w2)"
    and v: "insertEvent updated actor ''issue.updated'' payload e w2 = (Inr y, w')"
    by (auto simp: updateIssue_work_def andThen_Inr)
  show ?thesis
    by (rule change_course [OF pre _ u _ _ h v, of "[]"])
      (auto simp: same_identity_def status_rule_def)
qed

lemma assignIssue_step:
  assumes pre: "pg_uuid e" "db_inv (w_db w)" "seen issue (w_db w)"
    and run: "assignIssue_work issue (i_version issue) assignee actor e w = (Inr updated, w')"
  shows "db_step (w_db w) (w_db w') \<and> left_row issue updated (w_db w') \<and>
    i_status updated = i_status issue \<and> i_summary updated = i_summary issue \<and>
    (case assignee of None \<Rightarrow> i_assigneeUserId updated = None
     | Some a \<Rightarrow> i_assigneeUserId updated = e_uuid_in e a)"
proof -
  from run obtain w1 w2 x y payload where
    u: "updateWithVersion issue (i_version issue)
       (\<lambda>e. map_result (\<lambda>a r. r\<lparr>r_assignee_user_id := a\<rparr>) (uuid_opt_param e assignee)) e w = (Inr updated, w1)"
    and h: "insertHistory updated actor ''ASSIGNEE_CHANGED''
       (Obj [(''assigneeUserId'', str_or_null (i_assigneeUserId issue))])
       (Obj [(''assigneeUserId'', str_or_null assignee)]) e w1 = (Inr x, w2)"
    and v: "insertEvent updated actor ''issue.assigned'' payload e w2 = (Inr y, w')"
    by (auto simp: assignIssue_work_def andThen_Inr)
  show ?thesis
    by (rule change_course [OF pre _ u _ _ h v, of "[]"])
      (auto simp: same_identity_def status_rule_def map_result_Inr_iff split: option.splits)
qed

lemma transitionIssue_step:
  assumes pre: "pg_uuid e" "db_inv (w_db w)" "seen issue (w_db w)"
    and ok: "assertTransition (i_status issue) target = Inr transition"
    and run: "transitionIssue_work issue (i_version issue) transition actor e w = (Inr updated, w')"
  shows "db_step (w_db w) (w_db w') \<and> left_row issue updated (w_db w') \<and>
    i_status updated = target \<and> i_summary updated = i_summary issue \<and>
    i_assigneeUserId updated = i_assigneeUserId issue"
proof -
  from run obtain w1 w2 x y payload where
    u: "updateWithVersion issue (i_version issue)
       (\<lambda>_. Inr (\<lambda>r. r\<lparr>r_status := vt_to transition\<rparr>)) e w = (Inr updated, w1)"
    and h: "insertHistory updated actor ''STATUS_CHANGED'' (status_value (vt_from transition))
       (status_value (vt_to transition)) e w1 = (Inr x, w2)"
    and v: "insertEvent updated actor ''issue.transitioned'' payload e w2 = (Inr y, w')"
    by (auto simp: transitionIssue_work_def andThen_Inr status_value_def)
  show ?thesis
    by (rule change_course [OF pre _ u _ _ h v, of "[]"])
      (use ok in \<open>auto simp: same_identity_def status_rule_def assertTransition_Inr_iff\<close>)
qed

lemma addComment_step:
  assumes pre: "pg_uuid e" "db_inv (w_db w)" "seen issue (w_db w)"
    and run: "addComment_work issue author body e w = (Inr comment, w')"
  shows "db_step (w_db w) (w_db w') \<and> comment \<in> toComment ` set (t_comments (w_db w')) \<and>
    c_issueId comment = i_id issue \<and> c_body comment = body"
proof -
  from run obtain updated w1 uid now1 row w2 w3 x y payload where
    u: "updateWithVersion issue (i_version issue) (\<lambda>_. Inr (\<lambda>r. r)) e w = (Inr updated, w1)"
    and q: "client_query (insert_comment uid (i_id issue) author body now1) e (tick (tick w1)) = (Inr row, w2)"
    and h: "insertHistory updated author ''COMMENT_ADDED'' Null
       (Obj [(''commentId'', Str (c_id (toComment row)))]) e w2 = (Inr x, w3)"
    and v: "insertEvent updated author ''issue.commented'' payload e w3 = (Inr y, w')"
    and comment: "comment = toComment row"
    by (auto simp: addComment_work_def andThen_Inr Let_def simp del: One_nat_def)
  have canon: "canonical_uuid (i_id issue)" using pre(3) by (simp add: seen_def)
  from q have c: "w_db w2 = (w_db w1)\<lparr>t_comments := t_comments (w_db w1) @ [row]\<rparr>"
      "cr_issue_id row = i_id issue" "cr_body row = body"
    using pg_uuid_canonical [OF pre(1) canon]
    by (auto simp: client_query_Inr insert_comment_def try_then_Inr_iff insert_comment_row_Inr)
  obtain hr ev where last: "w_db w' = (w_db w2)\<lparr>t_history := hr, t_outbox := ev\<rparr>"
    by (rule insertHistory_Inr [OF h], rule insertEvent_Inr [OF v]) auto
  have "db_step (w_db w) (w_db w')"
    by (rule change_course [OF pre _ u c(1) _ h v])
      (use c in \<open>auto simp: same_identity_def status_rule_def\<close>)
  moreover have "row \<in> set (t_comments (w_db w'))" by (simp add: last c)
  moreover have "c_issueId comment = i_id issue" "c_body comment = body"
    using c by (simp_all add: comment toComment_def)
  ultimately show ?thesis by (simp add: comment)
qed

text \<open>The epic and the sprint named in a new issue, checked before it is written.\<close>

definition linked :: "new_issue_data \<Rightarrow> db \<Rightarrow> bool" where
  "linked data d \<longleftrightarrow>
     canonical_uuid (n_projectId data) \<and>
     opt_ok (\<lambda>i. canonical_uuid i \<and> (\<exists>x\<in>set (t_epics d). er_id x = i \<and> er_project_id x = n_projectId data))
       (n_epicId data) \<and>
     opt_ok (\<lambda>i. canonical_uuid i \<and> (\<exists>x\<in>set (t_sprints d). sr_id x = i \<and> sr_project_id x = n_projectId data))
       (n_sprintId data)"

lemma linked_evolves: "linked data d \<Longrightarrow> evolves d d' \<Longrightarrow> linked data d'"
  unfolding linked_def evolves_def planning_grows_def
  by (cases "n_epicId data"; cases "n_sprintId data") (simp_all, metis+)

lemma next_number_Inr:
  assumes "next_number p e now d = Inr (n, d')" and "e_uuid_in e p = Some p"
  shows "n = last_number p d + 1 \<and> d' = d\<lparr>t_sequences := set_sequence p n (t_sequences d)\<rparr>"
proof (cases "map_of (t_sequences d) p")
  case None
  then have "p \<notin> fst ` set (t_sequences d)" by (simp add: map_of_eq_None_iff)
  with assms None show ?thesis
    by (simp add: next_number_def uuid_param_def last_number_def set_sequence_def)
next
  case (Some m)
  then have "p \<in> fst ` set (t_sequences d)" by (metis map_of_eq_None_iff option.distinct(1))
  with assms Some show ?thesis
    by (auto simp: next_number_def uuid_param_def last_number_def set_sequence_def split: if_splits)
qed

lemma insert_issue_Inr:
  assumes "insert_issue uid data n key created e now d = Inr (r, d')"
    and pg: "pg_uuid e" and linked: "linked data d"
  shows "d' = d\<lparr>t_issues := t_issues d @ [r]\<rparr> \<and> issue_row_ok d r \<and> links_ok d r \<and>
    r_id r \<notin> r_id ` set (t_issues d) \<and> r_project_id r = n_projectId data \<and> r_issue_number r = n \<and>
    r_issue_key r = key \<and> r_version r = 1 \<and> r_status r = TODO \<and> r_summary r = n_summary data \<and>
    e_uuid_in e (r_id r) = Some (r_id r)"
proof -
  from assms(1) obtain iid pid rep asg eid sid where
    p: "e_uuid_in e (n_projectId data) = Some pid" and i: "e_uuid_in e uid = Some iid"
    and ep: "uuid_opt_param e (n_epicId data) = Inr eid" and sp: "uuid_opt_param e (n_sprintId data) = Inr sid"
    and ins: "insert_issue_row
       \<lparr>r_id = iid, r_project_id = pid, r_issue_number = n, r_issue_key = key,
        r_summary = n_summary data, r_description = n_description data, r_type = n_type data,
        r_priority = n_priority data, r_status = TODO, r_reporter_user_id = rep,
        r_assignee_user_id = asg, r_epic_id = eid, r_sprint_id = sid,
        r_version = 1, r_created_at = created * 1000, r_updated_at = created * 1000\<rparr> d = Inr (r, d')"
    unfolding insert_issue_def try_then_Inr_iff uuid_param_Inr by blast
  from ins have r: "r_project_id r = pid" "r_epic_id r = eid" "r_sprint_id r = sid" "r_issue_number r = n"
      "r_issue_key r = key" "r_version r = 1" "r_status r = TODO" "r_summary r = n_summary data"
      "r_id r = iid"
    and new: "d' = d\<lparr>t_issues := t_issues d @ [r]\<rparr>" "issue_row_ok d r" "r_id r \<notin> r_id ` set (t_issues d)"
    unfolding insert_issue_row_Inr by auto
  have "pid = n_projectId data" "eid = n_epicId data" "sid = n_sprintId data"
    using linked pg p ep sp
    by (auto simp: linked_def pg_uuid_canonical split: option.splits)
  moreover from this have "links_ok d r"
    using linked r by (auto simp: links_ok_def linked_def elim!: opt_ok_mono)
  ultimately show ?thesis using r new pg_uuid_stored [OF pg i] by simp
qed

lemma createIssue_step:
  assumes pg: "pg_uuid e" and inv: "db_inv (w_db w)" and linked: "linked data (w_db w)"
    and run: "createIssue_work data e w = (Inr issue, w')"
  shows "db_step (w_db w) (w_db w') \<and> issue \<in> toIssue ` set (t_issues (w_db w')) \<and>
    i_projectId issue = n_projectId data \<and> i_version issue = 1 \<and> i_status issue = TODO \<and>
    i_number issue = last_number (n_projectId data) (w_db w) + 1 \<and>
    i_key issue = n_projectKey data @ CHR ''-'' # int_text (i_number issue)"
proof -
  let ?d = "w_db w" and ?p = "n_projectId data"
  from run obtain n w1 uid now1 row w2 w3 x y hv payload where
    q1: "client_query (next_number ?p) e w = (Inr n, w1)"
    and q2: "client_query (insert_issue uid data n (n_projectKey data @ CHR ''-'' # int_text n) now1) e
       (tick (tick w1)) = (Inr row, w2)"
    and h: "insertHistory (toIssue row) (n_reporterUserId data) ''CREATED'' Null hv e w2 = (Inr x, w3)"
    and v: "insertEvent (toIssue row) (n_reporterUserId data) ''issue.created'' payload e w3 = (Inr y, w')"
    and issue: "issue = toIssue row"
    by (auto simp: createIssue_work_def andThen_Inr Let_def)
  have "e_uuid_in e ?p = Some ?p" using linked pg by (simp add: linked_def pg_uuid_canonical)
  from q1 next_number_Inr [OF _ this] have n: "n = last_number ?p ?d + 1"
    and d1: "w_db w1 = ?d\<lparr>t_sequences := set_sequence ?p n (t_sequences ?d)\<rparr>"
    by (auto simp: client_query_Inr)
  have "linked data (w_db w1)" using linked by (simp add: linked_def d1)
  note ins = insert_issue_Inr [OF _ pg this]
  obtain d2 where i2: "insert_issue uid data n (n_projectKey data @ CHR ''-'' # int_text n) now1 e
       (now_of e (tick (tick w1))) (w_db w1) = Inr (row, d2)" and d2: "w_db w2 = d2"
    using q2 by (auto simp: client_query_Inr)
  have r: "w_db w2 = (w_db w1)\<lparr>t_issues := t_issues (w_db w1) @ [row]\<rparr>" "issue_row_ok (w_db w1) row"
      "links_ok (w_db w1) row" "r_id row \<notin> r_id ` set (t_issues (w_db w1))" "r_project_id row = ?p"
      "r_issue_number row = n" "r_issue_key row = n_projectKey data @ CHR ''-'' # int_text n"
      "r_version row = 1" "r_status row = TODO" "e_uuid_in e (r_id row) = Some (r_id row)"
    using ins [OF i2] by (simp_all add: d2)
  have known: "e_uuid_in e (i_id (toIssue row)) = Some (i_id (toIssue row))" using r(10) by simp
  obtain hr ev where a: "hr_action hr = ''CREATED''" "hr_issue_id hr = r_id row" "o_aggregate_id ev = r_id row"
      "o_aggregate_version ev = 1" "o_published_at ev = None" "o_publish_attempts ev = 0"
      "o_event_id ev \<notin> o_event_id ` set (t_outbox (w_db w2))"
      "w_db w' = (w_db w2)\<lparr>t_history := t_history (w_db w2) @ [hr], t_outbox := t_outbox (w_db w2) @ [ev]\<rparr>"
      "uuid_text (o_event_id ev)"
    by (rule announced [OF h v known pg]) (use r(8) in simp)
  have db: "w_db w' = ?d\<lparr>t_sequences := set_sequence (r_project_id row) (r_issue_number row) (t_sequences ?d),
      t_issues := t_issues ?d @ [row], t_history := t_history ?d @ [hr], t_outbox := t_outbox ?d @ [ev]\<rparr>"
    by (simp add: a(8) r d1)
  have "db_step ?d (w_db w')"
    unfolding db using r a n d1
    by (intro step_create) (simp_all add: issue_row_ok_def links_ok_def announces_def)
  moreover have "row \<in> set (t_issues (w_db w'))" by (simp add: db)
  ultimately show ?thesis using r n by (simp add: issue)
qed

section \<open>The methods beside other sessions\<close>

text \<open>
  The environment of the service: PostgreSQL reads UUIDs as assumed, and the other sessions
  commit only steps. \<open>issue_protocol\<close> is the interpretation of the contract.
\<close>

definition issue_env :: "env \<Rightarrow> bool" where
  "issue_env e \<longleftrightarrow> pg_uuid e \<and> (\<forall>n d. db_steps d (e_others e n d))"

interpretation issue_protocol: protocol db_steps issue_env
  by unfold_locales (auto simp: issue_env_def)

lemma stable_inv: "stable db_steps db_inv"
  by (simp add: stable_def db_steps_inv)

lemma stable_seen: "stable db_steps (\<lambda>d. db_inv d \<and> seen issue d)"
  by (auto simp: stable_def db_steps_inv intro: seen_evolves db_steps_evolves)

lemma stable_linked: "stable db_steps (\<lambda>d. db_inv d \<and> linked data d)"
  by (auto simp: stable_def db_steps_inv intro: linked_evolves db_steps_evolves)

lemma transaction_runs:
  assumes "stable db_steps (\<lambda>d. db_inv d \<and> P d)"
    and "\<And>e w a w'. \<lbrakk>pg_uuid e; db_inv (w_db w); P (w_db w); work e w = (Inr a, w')\<rbrakk> \<Longrightarrow>
      db_step (w_db w) (w_db w') \<and> Q a (w_db w')"
  shows "runs db_steps issue_env (\<lambda>d. db_inv d \<and> P d) (transaction work) (\<lambda>a d. db_inv d \<and> Q a d)"
proof (rule issue_protocol.runs_transaction [OF assms(1)])
  fix e w a w'
  assume h: "issue_env e" "db_inv (w_db w) \<and> P (w_db w)" "work e w = (Inr a, w')"
  then have "db_step (w_db w) (w_db w') \<and> Q a (w_db w')"
    by (intro assms(2)) (simp_all add: issue_env_def)
  with h(2) have "db_step (w_db w) (w_db w')" "Q a (w_db w')" "db_inv (w_db w)" by simp_all
  then show "db_steps (w_db w) (w_db w') \<and> db_inv (w_db w') \<and> Q a (w_db w')"
    using db_step_inv by blast
qed

lemma createIssue_runs:
  "runs db_steps issue_env (\<lambda>d. db_inv d \<and> linked data d) (createIssue data)
     (\<lambda>issue d. db_inv d \<and> issue \<in> toIssue ` set (t_issues d) \<and> i_projectId issue = n_projectId data \<and>
        i_version issue = 1 \<and> i_status issue = TODO)"
  unfolding createIssue_def
  by (rule transaction_runs [OF stable_linked]) (use createIssue_step in blast)

lemma updateIssue_runs:
  "runs db_steps issue_env (\<lambda>d. db_inv d \<and> seen issue d) (updateIssue issue (i_version issue) data actor)
     (\<lambda>updated d. db_inv d \<and> left_row issue updated d \<and> i_summary updated = u_summary data \<and>
        i_description updated = u_description data \<and> i_type updated = u_type data \<and>
        i_priority updated = u_priority data \<and> i_status updated = i_status issue)"
  unfolding updateIssue_def
  by (rule transaction_runs [OF stable_seen]) (use updateIssue_step in blast)

lemma assignIssue_runs:
  "runs db_steps issue_env (\<lambda>d. db_inv d \<and> seen issue d) (assignIssue issue (i_version issue) assignee actor)
     (\<lambda>updated d. db_inv d \<and> left_row issue updated d \<and> i_status updated = i_status issue \<and>
        (\<forall>a. assignee = Some a \<and> canonical_uuid a \<longrightarrow> i_assigneeUserId updated = Some a) \<and>
        (assignee = None \<longrightarrow> i_assigneeUserId updated = None))"
  unfolding assignIssue_def
  by (rule transaction_runs [OF stable_seen])
    (auto dest!: assignIssue_step [rotated 3] simp: pg_uuid_canonical)

lemma transitionIssue_runs:
  assumes "assertTransition (i_status issue) target = Inr transition"
  shows "runs db_steps issue_env (\<lambda>d. db_inv d \<and> seen issue d)
    (transitionIssue issue (i_version issue) transition actor)
    (\<lambda>updated d. db_inv d \<and> left_row issue updated d \<and> i_status updated = target)"
  unfolding transitionIssue_def
  by (rule transaction_runs [OF stable_seen]) (use transitionIssue_step [OF _ _ _ assms] in blast)

lemma addComment_runs:
  "runs db_steps issue_env (\<lambda>d. db_inv d \<and> seen issue d) (addComment issue author body)
     (\<lambda>comment d. db_inv d \<and> comment \<in> toComment ` set (t_comments d) \<and> c_issueId comment = i_id issue \<and>
        c_body comment = body)"
  unfolding addComment_def
  by (rule transaction_runs [OF stable_seen]) (use addComment_step in blast)

lemmas repository_runs = createIssue_runs updateIssue_runs assignIssue_runs transitionIssue_runs
  addComment_runs

end
