(* ===== verification/Issue_Queries.thy ===== *)
theory Issue_Queries
  imports Issue_Refinement
begin

text \<open>
  The reading methods of \<open>postgres-issue.repository.ts\<close>: \<open>findIssue\<close>, \<open>listIssues\<close> with its
  keyset pages (ADR 0005), \<open>listComments\<close> and \<open>listHistory\<close>; then what a client that
  follows the pages gets while other sessions write.
\<close>

section \<open>The order of the list\<close>

text \<open>The row value \<open>(created_at, id)\<close>; canonical UUID texts order as PostgreSQL orders UUIDs.\<close>

datatype keyset = Keyset (k_time: int) (k_id: string)

instantiation keyset :: linorder
begin

definition less_eq_keyset :: "keyset \<Rightarrow> keyset \<Rightarrow> bool" where
  "less_eq_keyset a b \<longleftrightarrow> k_time a < k_time b \<or> k_time a = k_time b \<and> k_id a \<le> k_id b"

definition less_keyset :: "keyset \<Rightarrow> keyset \<Rightarrow> bool" where
  "less_keyset a b \<longleftrightarrow> k_time a < k_time b \<or> k_time a = k_time b \<and> k_id a < k_id b"

instance
  by standard (auto simp: less_eq_keyset_def less_keyset_def keyset.expand)

end

definition keyset_of :: "issue_row \<Rightarrow> keyset" where
  "keyset_of r = Keyset (r_created_at r) (r_id r)"

section \<open>ILIKE\<close>

text \<open>
  \<open>LIKE\<close> with the escape character backslash; a pattern that ends in it matches nothing here
  (PostgreSQL reports an error if it gets there).
\<close>

fun like_match :: "string \<Rightarrow> string \<Rightarrow> bool" where
  "like_match [] s = (s = [])"
| "like_match (p # ps) s =
     (if p = CHR ''%'' then
        like_match ps s \<or> (case s of [] \<Rightarrow> False | _ # cs \<Rightarrow> like_match (p # ps) cs)
      else if p = CHR ''_'' then (case s of [] \<Rightarrow> False | _ # cs \<Rightarrow> like_match ps cs)
      else if p = CHR 0x5C then
        (case ps of [] \<Rightarrow> False
         | q # qs \<Rightarrow> (case s of [] \<Rightarrow> False | c # cs \<Rightarrow> c = q \<and> like_match qs cs))
      else (case s of [] \<Rightarrow> False | c # cs \<Rightarrow> c = p \<and> like_match ps cs))"

definition ilike :: "(char \<Rightarrow> char) \<Rightarrow> string \<Rightarrow> string \<Rightarrow> bool" where
  "ilike lower pattern s \<longleftrightarrow> like_match (map lower pattern) (map lower s)"

text \<open>\<open>q.replace(/[\\%_]/g, '\\$&')\<close>.\<close>

definition escape_like :: "string \<Rightarrow> string" where
  "escape_like q = concat (map (\<lambda>c. if c \<in> {CHR 0x5C, CHR ''%'', CHR ''_''} then [CHR 0x5C, c] else [c]) q)"

section \<open>Listing\<close>

text \<open>
  \<open>to_char(created_at AT TIME ZONE 'UTC', 'YYYY-MM-DD"T"HH24:MI:SS.US"Z"')\<close>, for the years
  1 to 9999.
\<close>

definition position_text :: "int \<Rightarrow> string" where
  "position_text t = slice 0 23 (to_iso_string (t div 1000)) @ pad3 (nat (t mod 1000)) @ ''Z''"

text \<open>
  The cast \<open>::timestamptz\<close> on a text of that format. PostgreSQL has no year 0, which the
  cursor's check does not know.
\<close>

definition timestamptz_in :: "string \<Rightarrow> exn + int" where
  "timestamptz_in s =
     (if real_timestamp s \<and> dec_value 0 (slice 0 4 s) \<noteq> 0
      then Inr (the (date_parse s) * 1000 + int (dec_value 0 (slice 23 26 s)))
      else Inl (DbError ''date/time field value out of range''))"

text \<open>A condition added only for a truthy value.\<close>

definition truthy :: "string option \<Rightarrow> string option" where
  "truthy v = (if v = Some [] then None else v)"

definition list_where ::
    "(char \<Rightarrow> char) \<Rightarrow> string \<Rightarrow> issue_status option \<Rightarrow> string option \<Rightarrow> string option \<Rightarrow> string option \<Rightarrow>
     issue_row \<Rightarrow> bool" where
  "list_where lower p status assignee sprint q r \<longleftrightarrow>
     r_project_id r = p \<and> opt_ok (\<lambda>s. r_status r = s) status \<and>
     opt_ok (\<lambda>a. r_assignee_user_id r = Some a) assignee \<and>
     opt_ok (\<lambda>s. r_sprint_id r = Some s) sprint \<and>
     opt_ok (\<lambda>t. ilike lower (CHR ''%'' # escape_like t @ ''%'') (r_summary r)) q"

text \<open>\<open>WHERE ... AND (created_at, id) < position ORDER BY created_at DESC, id DESC LIMIT n\<close>.\<close>

definition list_rows :: "(issue_row \<Rightarrow> bool) \<Rightarrow> keyset option \<Rightarrow> nat \<Rightarrow> db \<Rightarrow> issue_row list" where
  "list_rows P after n d =
     take n (rev (sort_key keyset_of
       (filter (\<lambda>r. P r \<and> opt_ok (\<lambda>k. keyset_of r < k) after) (t_issues d))))"

definition list_stmt ::
    "string \<Rightarrow> issue_list_filter \<Rightarrow> issue_list_position option \<Rightarrow> nat \<Rightarrow> issue_row list stmt" where
  "list_stmt projectId flt after n e now d =
     try_then (uuid_param e projectId) (\<lambda>p.
     try_then (uuid_opt_param e (truthy (f_assigneeUserId flt))) (\<lambda>assignee.
     try_then (uuid_opt_param e (truthy (f_sprintId flt))) (\<lambda>sprint.
     if \<not> opt_ok pg_text (truthy (f_q flt)) then Inl (DbError ''invalid byte sequence'')
     else
     try_then (case after of
                 None \<Rightarrow> Inr None
               | Some pos \<Rightarrow>
                   try_then (timestamptz_in (p_createdAt pos)) (\<lambda>t.
                   map_result (\<lambda>i. Some (Keyset t i)) (uuid_param e (p_id pos)))) (\<lambda>key.
     Inr (list_rows (list_where (e_lower e) p (f_status flt) assignee sprint (truthy (f_q flt))) key n d, d)))))"

record issue_list_page =
  pg_items :: "issue list"
  pg_next :: "issue_list_position option"

definition listIssues ::
    "string \<Rightarrow> issue_list_filter \<Rightarrow> issue_list_position option \<Rightarrow> nat \<Rightarrow> issue_list_page prog" where
  "listIssues projectId flt after limit =
     andThen (query (list_stmt projectId flt after (limit + 1))) (\<lambda>all_rows.
     let rows = take limit all_rows in
     if length all_rows > limit then
       (if rows = [] then throwing TypeError
        else returning \<lparr>pg_items = map toIssue rows,
               pg_next = Some \<lparr>p_createdAt = position_text (r_created_at (last rows)),
                               p_id = r_id (last rows)\<rparr>\<rparr>)
     else returning \<lparr>pg_items = map toIssue rows, pg_next = None\<rparr>)"

definition find_stmt :: "string \<Rightarrow> issue_row list stmt" where
  "find_stmt issueId e now d =
     try_then (uuid_param e issueId) (\<lambda>iid. Inr (filter (\<lambda>r. r_id r = iid) (t_issues d), d))"

definition findIssue :: "string \<Rightarrow> issue option prog" where
  "findIssue issueId =
     andThen (query (find_stmt issueId)) (\<lambda>rows.
     returning (case rows of [] \<Rightarrow> None | row # _ \<Rightarrow> Some (toIssue row)))"

definition comments_stmt :: "string \<Rightarrow> comment_row list stmt" where
  "comments_stmt issueId e now d =
     try_then (uuid_param e issueId) (\<lambda>iid.
     Inr (sort_key (\<lambda>c. Keyset (cr_created_at c) (cr_id c))
            (filter (\<lambda>c. cr_issue_id c = iid) (t_comments d)), d))"

definition listComments :: "string \<Rightarrow> issue_comment list prog" where
  "listComments issueId = andThen (query (comments_stmt issueId)) (\<lambda>rows. returning (map toComment rows))"

definition history_stmt :: "string \<Rightarrow> history_row list stmt" where
  "history_stmt issueId e now d =
     try_then (uuid_param e issueId) (\<lambda>iid.
     Inr (sort_key (\<lambda>h. Keyset (hr_created_at h) (hr_id h))
            (filter (\<lambda>h. hr_issue_id h = iid) (t_history d)), d))"

definition toHistory :: "history_row \<Rightarrow> issue_history" where
  "toHistory row = \<lparr>h_id = hr_id row, h_issueId = hr_issue_id row, h_actorUserId = hr_actor_user_id row,
     h_action = hr_action row, h_fromValue = hr_from_value row, h_toValue = hr_to_value row,
     h_createdAt = hr_created_at row div 1000\<rparr>"

definition listHistory :: "string \<Rightarrow> issue_history list prog" where
  "listHistory issueId = andThen (query (history_stmt issueId)) (\<lambda>rows. returning (map toHistory rows))"

section \<open>Reading beside other sessions\<close>

lemma stable_True: "stable R (\<lambda>_. True)"
  by (simp add: stable_def)

lemma findIssue_runs:
  assumes "canonical_uuid issueId"
  shows "runs db_steps issue_env db_inv (findIssue issueId)
    (\<lambda>r d. db_inv d \<and> (\<forall>issue. r = Some issue \<longrightarrow> seen issue d \<and> i_id issue = issueId))"
  unfolding findIssue_def
proof (rule issue_protocol.runs_andThen)
  show "runs db_steps issue_env db_inv (query (find_stmt issueId))
      (\<lambda>rows d. db_inv d \<and> (\<forall>r\<in>set rows. r \<in> set (t_issues d) \<and> r_id r = issueId))"
    using assms by (intro issue_protocol.runs_query stable_inv)
      (auto simp: find_stmt_def try_then_Inr_iff issue_env_def pg_uuid_canonical)
next
  fix rows
  show "runs db_steps issue_env (\<lambda>d. db_inv d \<and> (\<forall>r\<in>set rows. r \<in> set (t_issues d) \<and> r_id r = issueId))
      (returning (case rows of [] \<Rightarrow> None | row # _ \<Rightarrow> Some (toIssue row)))
      (\<lambda>r d. db_inv d \<and> (\<forall>issue. r = Some issue \<longrightarrow> seen issue d \<and> i_id issue = issueId))"
    using assms by (intro issue_protocol.runs_returning) (auto simp: seen_def split: list.splits)
qed

text \<open>A statement that leaves the tables alone needs no more than the invariant.\<close>

lemma runs_read:
  assumes "\<And>e now d a d'. s e now d = Inr (a, d') \<Longrightarrow> d' = d"
  shows "runs db_steps issue_env db_inv (query s) (\<lambda>_. db_inv)"
proof (rule issue_protocol.runs_query [OF stable_inv])
  fix e now d a d'
  assume "db_inv d" "s e now d = Inr (a, d')"
  with assms show "db_steps d d' \<and> db_inv d'" by blast
qed

lemma listIssues_runs: "runs db_steps issue_env db_inv (listIssues p f after n) (\<lambda>_. db_inv)"
  unfolding listIssues_def
  by (rule issue_protocol.runs_andThen [OF runs_read])
    (auto simp: list_stmt_def try_then_Inr_iff Let_def issue_protocol.runs_throwing
      intro!: issue_protocol.runs_returning split: if_splits)

lemma listComments_runs: "runs db_steps issue_env db_inv (listComments i) (\<lambda>_. db_inv)"
  unfolding listComments_def
  by (rule issue_protocol.runs_andThen [OF runs_read])
    (auto simp: comments_stmt_def try_then_Inr_iff intro!: issue_protocol.runs_returning)

lemma listHistory_runs: "runs db_steps issue_env db_inv (listHistory i) (\<lambda>_. db_inv)"
  unfolding listHistory_def
  by (rule issue_protocol.runs_andThen [OF runs_read])
    (auto simp: history_stmt_def try_then_Inr_iff intro!: issue_protocol.runs_returning)

section \<open>The search text matches literally\<close>

lemma like_percent: "like_match (CHR ''%'' # ps) s \<longleftrightarrow> (\<exists>u t. s = u @ t \<and> like_match ps t)"
proof (induction s)
  case Nil
  then show ?case by simp
next
  case (Cons c s)
  have "(\<exists>u t. c # s = u @ t \<and> like_match ps t) \<longleftrightarrow>
      like_match ps (c # s) \<or> (\<exists>u t. s = u @ t \<and> like_match ps t)"
    by (auto simp: Cons_eq_append_conv)
  with Cons.IH show ?case by simp
qed

lemma like_escape: "like_match (escape_like q @ ps) s \<longleftrightarrow> (\<exists>t. s = q @ t \<and> like_match ps t)"
proof (induction q arbitrary: s)
  case Nil
  then show ?case by (simp add: escape_like_def)
next
  case (Cons c q)
  have "escape_like (c # q) = (if c \<in> {CHR 0x5C, CHR ''%'', CHR ''_''} then [CHR 0x5C, c] else [c]) @ escape_like q"
    by (simp add: escape_like_def)
  with Cons.IH show ?case by (cases s) auto
qed

text \<open>Lower-casing that neither makes nor removes a special character.\<close>

definition lower_ok :: "(char \<Rightarrow> char) \<Rightarrow> bool" where
  "lower_ok lower \<longleftrightarrow>
     (\<forall>c. (lower c = CHR ''%'') = (c = CHR ''%'') \<and> (lower c = CHR ''_'') = (c = CHR ''_'') \<and>
          (lower c = CHR 0x5C) = (c = CHR 0x5C))"

lemma map_lower_escape: "lower_ok lower \<Longrightarrow> map lower (escape_like q) = escape_like (map lower q)"
proof -
  assume ok: "lower_ok lower"
  then have "lower CHR 0x5C = CHR 0x5C" by (simp add: lower_ok_def)
  with ok show ?thesis by (induction q) (auto simp: escape_like_def lower_ok_def)
qed

lemma ilike_substring:
  assumes "lower_ok lower"
  shows "ilike lower (CHR ''%'' # escape_like q @ ''%'') s \<longleftrightarrow>
    (\<exists>u v. map lower s = u @ map lower q @ v)"
proof -
  have "lower CHR ''%'' = CHR ''%''" using assms by (simp add: lower_ok_def)
  moreover have "like_match ''%'' t" for t using like_percent [of "[]" t] by auto
  ultimately show ?thesis
    by (auto simp: ilike_def map_lower_escape [OF assms] like_percent like_escape simp del: like_match.simps)
qed

section \<open>The position of a row\<close>

text \<open>The microseconds of the years 1 to 9999.\<close>

definition pg_time_ok :: "int \<Rightarrow> bool" where
  "pg_time_ok t \<longleftrightarrow> -62135596800000000 \<le> t \<and> t < 253402300800000000"

lemma civil_year_range:
  assumes "civil_of_day n = (y, m, d)" and "-719162 \<le> n" and "n < 2932897"
  shows "1 \<le> y \<and> y \<le> 9999"
proof -
  have "y = year_from_day n" using assms(1) by (auto simp: civil_of_day_def Let_def split: prod.splits)
  then have b: "day_from_year y \<le> n" "n < day_from_year (y + 1)" using year_from_day_spec [of n] by auto
  have "\<not> y + 1 \<le> 1"
  proof
    assume "y + 1 \<le> 1"
    then have "day_from_year (y + 1) \<le> day_from_year 1" by (rule day_from_year_mono)
    also have "\<dots> = -719162" by (simp add: day_from_year_def)
    finally show False using b assms(2) by simp
  qed
  moreover have "\<not> 10000 \<le> y"
  proof
    assume "10000 \<le> y"
    then have "day_from_year 10000 \<le> day_from_year y" by (rule day_from_year_mono)
    moreover have "day_from_year 10000 = 2932897" by (simp add: day_from_year_def)
    ultimately show False using b assms(3) by simp
  qed
  ultimately show ?thesis by simp
qed

lemma digits_pads: "digits 2 (pad2 n)" "digits 3 (pad3 n)" "digits 4 (pad4 n)"
  by (simp_all add: digits_def pad2_def pad3_def pad4_def)

lemma clock_split:
  "c < 86400000 \<Longrightarrow>
   clock_ms (c div 3600000) (c div 60000 mod 60) (c div 1000 mod 60) (c mod 1000) = c"
proof -
  have "c div 60000 = c div 1000 div 60" "c div 3600000 = c div 1000 div 60 div 60"
    by (simp_all add: div_mult2_eq [symmetric])
  then show ?thesis
    using div_mult_mod_eq [of "c div 1000 div 60" 60] div_mult_mod_eq [of "c div 1000" 60]
      div_mult_mod_eq [of c 1000] by (simp add: clock_ms_def algebra_simps)
qed

lemma position_text_split:
  assumes "pg_time_ok t"
  obtains y m d h mi sec ms where
    "position_text t = ts_text (pad4 y) (pad2 m) (pad2 d) (pad2 h) (pad2 mi) (pad2 sec)
       (pad3 ms @ pad3 (nat (t mod 1000)) @ ''Z'')"
    "valid_date (int y) m (int d)" "1 \<le> y" "y < 10000" "h < 24" "mi < 60" "sec < 60" "ms < 1000"
    "t div 1000 = make_day (int y) m (int d) * ms_per_day + int (clock_ms h mi sec ms)"
proof -
  define n where "n = t div 1000 div ms_per_day"
  define c where "c = nat (t div 1000 mod ms_per_day)"
  obtain y m d where civ: "civil_of_day n = (y, m, d)" by (cases "civil_of_day n") auto
  note day = make_day_of_civil [OF civ]
  have "n = t div 86400000000" by (simp add: n_def ms_per_day_def div_mult2_eq [symmetric] zdiv_zmult2_eq [symmetric])
  then have "-719162 \<le> n" "n < 2932897"
    using assms zdiv_mono1 [of "-62135596800000000" t 86400000000]
      zdiv_mono1 [of t 253402300799999999 86400000000] by (simp_all add: pg_time_ok_def)
  then have y: "1 \<le> y" "y \<le> 9999" using civil_year_range [OF civ] by auto
  have d: "1 \<le> d" "d \<le> 31" "1 \<le> m" "m \<le> 12"
    using day(1) days_in_month_bounds [of m y] by (auto simp: valid_date_def)
  have c: "c < 86400000" "int c = t div 1000 mod ms_per_day"
    by (simp_all add: c_def ms_per_day_def nat_less_iff)
  have iso: "iso_date n = date_text (pad4 (nat y)) (pad2 m) (pad2 (nat d))"
    using y by (simp add: iso_date_def civ iso_year_def date_text_def)
  have "position_text t = ts_text (pad4 (nat y)) (pad2 m) (pad2 (nat d)) (pad2 (c div 3600000))
      (pad2 (c div 60000 mod 60)) (pad2 (c div 1000 mod 60)) (pad3 (c mod 1000) @ pad3 (nat (t mod 1000)) @ ''Z'')"
    unfolding position_text_def to_iso_string_def Let_def n_def [symmetric] c_def [symmetric] iso
    by (simp add: ts_text_def date_text_def slice_def)
  moreover have "t div 1000 = n * ms_per_day + int c" using c(2) by (simp add: n_def)
  moreover have "c div 3600000 < 24" using c(1) by (simp add: less_mult_imp_div_less)
  ultimately show thesis
    using that [of "nat y" m "nat d" "c div 3600000" "c div 60000 mod 60" "c div 1000 mod 60" "c mod 1000"]
      day y d by (simp add: clock_split [OF c(1)])
qed

lemma position_roundtrip:
  assumes "pg_time_ok t"
  shows "real_timestamp (position_text t) \<and> timestamptz_in (position_text t) = Inr t"
proof (rule position_text_split [OF assms])
  fix y m d h mi sec ms
  let ?u = "nat (t mod 1000)"
  assume p: "position_text t = ts_text (pad4 y) (pad2 m) (pad2 d) (pad2 h) (pad2 mi) (pad2 sec)
       (pad3 ms @ pad3 ?u @ ''Z'')"
    and v: "valid_date (int y) m (int d)" "1 \<le> y" "y < 10000" "h < 24" "mi < 60" "sec < 60" "ms < 1000"
    and t: "t div 1000 = make_day (int y) m (int d) * ms_per_day + int (clock_ms h mi sec ms)"
  have md: "m \<le> 12" "d \<le> 31" "1 \<le> m" "1 \<le> d" using v(1) days_in_month_bounds [of m "int y"] by (auto simp: valid_date_def)
  note dg = digits_pads(3) [of y] digits_pads(1) [of m] digits_pads(1) [of d] digits_pads(1) [of h]
    digits_pads(1) [of mi] digits_pads(1) [of sec]
  note val = dec_value_pad4 [OF v(3)] dec_value_pad2 [of m] dec_value_pad2 [of d] dec_value_pad2 [of h]
    dec_value_pad2 [of mi] dec_value_pad2 [of sec] dec_value_pad3 [OF v(7)]
  have re: "match_re CURSOR_CREATED_AT (position_text t)"
    unfolding CURSOR_CREATED_AT_iff p using dg digits_pads(2) by blast
  have real: "real_timestamp (position_text t)"
    using re unfolding real_timestamp_def Let_def p ts_text_slices [OF dg] using v md val by simp
  have parse: "date_parse (position_text t) = Some (t div 1000)"
    unfolding p date_parse_ts_text [OF dg digits_pads(2)] Let_def using v md val by (simp add: t)
  have "slice 23 26 (position_text t) = pad3 ?u"
    unfolding p by (simp add: slice_def ts_text_def date_text_def)
  moreover have "slice 0 4 (position_text t) = pad4 y" unfolding p by (rule ts_text_slices(1) [OF dg])
  moreover have "?u < 1000" by (simp add: nat_less_iff)
  ultimately show ?thesis
    using real parse v(2) val by (simp add: timestamptz_in_def dec_value_pad3)
qed

end
