(* ===== verification/Example_World.thy ===== *)
theory Example_World
  imports Issue_Queries
begin

text \<open>
  A concrete environment, and worlds reached in it by running the methods of the repository,
  for the instances of the properties. UUIDs count the ticks, the clock advances a
  millisecond a tick from the first of January 2026, nothing fails and nobody interferes.
\<close>

definition uuid_of_nat :: "nat \<Rightarrow> string" where
  "uuid_of_nat n = ''00000000-0000-4000-8000-0000000000'' @ pad2 n"

definition example_access :: jsval where
  "example_access =
     Obj [(''projectId'', Str ''10000000-0000-4000-8000-00000000000a''), (''workspaceId'', Str ''10000000-0000-4000-8000-00000000000b''),
          (''projectKey'', Str ''LAB''), (''projectStatus'', Str ''ACTIVE''),
          (''membershipRole'', Str ''MEMBER'')]"

definition example_env :: env where
  "example_env = \<lparr>e_uuid = uuid_of_nat, e_clock = (\<lambda>n. 1767225600000000 + 1000 * int n),
     e_fault = (\<lambda>_. NoFault), e_others = (\<lambda>_ d. d),
     e_uuid_in = (\<lambda>s. if uuid_text s then Some s else None), e_lower = lower_char, e_trace = [],
     e_http = (\<lambda>_ _. Reply 200 (Some example_access)), e_locked = (\<lambda>_ _. False), e_rank = (\<lambda>_ i. i),
     e_connect = (\<lambda>_. None), e_send = (\<lambda>_. Acked),
     e_project_service_url = None, e_internal_service_secret = Some ''secret'', e_text = (\<lambda>_. '''')\<rparr>"

definition example_project :: string where
  "example_project = ''10000000-0000-4000-8000-00000000000a''"

definition example_user :: string where
  "example_user = ''10000000-0000-4000-8000-00000000000c''"

lemma example_issue_env: "issue_env example_env"
  by (auto simp: issue_env_def pg_uuid_def example_env_def split: if_splits)

text \<open>Tables with the given issues, one step for each.\<close>

definition example_row :: "nat \<Rightarrow> string \<Rightarrow> issue_row" where
  "example_row n summary = \<lparr>r_id = uuid_of_nat n, r_project_id = example_project, r_issue_number = int n,
     r_issue_key = ''LAB-'' @ dec_string n, r_summary = summary, r_description = None, r_type = TASK,
     r_priority = HIGH, r_status = TODO, r_reporter_user_id = example_user, r_assignee_user_id = None,
     r_epic_id = None, r_sprint_id = None, r_version = 1,
     r_created_at = 1767225600000000 + 1000 * int n, r_updated_at = 1767225600000000 + 1000 * int n\<rparr>"

definition example_created :: "nat \<Rightarrow> history_row" where
  "example_created n = \<lparr>hr_id = uuid_of_nat n, hr_issue_id = uuid_of_nat n, hr_actor_user_id = example_user,
     hr_action = ''CREATED'', hr_from_value = Null, hr_to_value = Obj [], hr_created_at = 1767225600000000\<rparr>"

definition example_event :: "nat \<Rightarrow> outbox_row" where
  "example_event n = \<lparr>o_event_id = uuid_of_nat n, o_event_type = ''issue.created'',
     o_aggregate_id = uuid_of_nat n, o_aggregate_version = 1, o_project_id = example_project,
     o_actor_user_id = example_user, o_payload = Obj [], o_occurred_at = 1767225600000000 + 1000 * int n,
     o_published_at = None, o_publish_attempts = 0, o_last_error = None,
     o_next_attempt_at = 1767225600000000, o_trace_context = Null\<rparr>"

fun example_db :: "string list \<Rightarrow> db" where
  "example_db [] = empty_db"
| "example_db (s # ss) =
     (let d = example_db ss; n = Suc (length ss) in
      d\<lparr>t_sequences := set_sequence example_project (int n) (t_sequences d),
        t_issues := t_issues d @ [example_row n s], t_history := t_history d @ [example_created n],
        t_outbox := t_outbox d @ [example_event n]\<rparr>)"

lemma example_db_facts:
  "r_id ` set (t_issues (example_db ss)) = uuid_of_nat ` {1..length ss}"
  "o_event_id ` set (t_outbox (example_db ss)) = uuid_of_nat ` {1..length ss}"
  "last_number example_project (example_db ss) = int (length ss)"
  "t_epics (example_db ss) = []" "t_sprints (example_db ss) = []"
  by (induction ss)
    (auto simp: empty_db_def last_number_def Let_def map_of_set_sequence example_row_def example_event_def
      atLeastAtMostSuc_conv)

lemma lower_digit: "is_digit c \<Longrightarrow> lower_char c = c"
  by (auto simp: lower_char_def is_digit_def Let_def)

definition uuid_prefix_re :: "(char \<Rightarrow> bool) list" where
  "uuid_prefix_re = replicate 8 hex_digit @ lit CHR ''-'' # replicate 4 hex_digit @ lit CHR ''-'' #
     replicate 4 hex_digit @ lit CHR ''-'' # replicate 4 hex_digit @ lit CHR ''-'' # replicate 10 hex_digit"

lemma uuid_prefix:
  "match_re uuid_prefix_re ''00000000-0000-4000-8000-0000000000''"
  "toLowerCase ''00000000-0000-4000-8000-0000000000'' = ''00000000-0000-4000-8000-0000000000''"
  "length uuid_prefix_re = 34"
  by (code_simp, code_simp, simp add: uuid_prefix_re_def)

lemma toLowerCase_append: "toLowerCase (s @ t) = toLowerCase s @ toLowerCase t"
  by (simp add: toLowerCase_def)

lemma uuid_text_of_nat: "uuid_text (uuid_of_nat n)"
proof -
  have "replicate 12 hex_digit = replicate 10 hex_digit @ [hex_digit, hex_digit]"
    by (simp add: eval_nat_numeral)
  then have re: "replicate 8 hex_digit @ lit CHR ''-'' # replicate 4 hex_digit @ lit CHR ''-'' #
       replicate 4 hex_digit @ lit CHR ''-'' # replicate 4 hex_digit @ lit CHR ''-'' #
       replicate 12 hex_digit = uuid_prefix_re @ [hex_digit, hex_digit]"
    by (simp add: uuid_prefix_re_def)
  have "match_re [hex_digit, hex_digit] (pad2 n)" by (simp add: pad2_def hex_digit_def)
  moreover have "toLowerCase (pad2 n) = pad2 n" by (simp add: toLowerCase_def pad2_def lower_digit)
  ultimately show ?thesis
    unfolding uuid_text_def re uuid_of_nat_def
    by (subst match_re_append) (simp_all add: uuid_prefix toLowerCase_append del: append_Cons)
qed

lemma uuid_of_nat_inj: "m < 100 \<Longrightarrow> n < 100 \<Longrightarrow> uuid_of_nat m = uuid_of_nat n \<Longrightarrow> m = n"
  using dec_value_pad2 by (metis append_same_eq uuid_of_nat_def same_append_eq)

lemma uuid_of_nat_fresh: "n < 99 \<Longrightarrow> uuid_of_nat (Suc n) \<notin> uuid_of_nat ` {1..n}"
proof
  assume "n < 99" "uuid_of_nat (Suc n) \<in> uuid_of_nat ` {1..n}"
  then obtain m where "uuid_of_nat (Suc n) = uuid_of_nat m" "m \<le> n" by auto
  with uuid_of_nat_inj [of "Suc n" m] \<open>n < 99\<close> show False by simp
qed

lemma length_dec_string: "n < 100 \<Longrightarrow> length (dec_string n) \<le> 2"
  by (subst dec_string.simps) (auto simp: dec_string.simps [of "n div 10"])

lemma dec_string_pg_text: "pg_text (dec_string n)"
proof -
  have "\<forall>c\<in>set (dec_string n). is_digit c" 
    by (induction n rule: dec_string.induct) (subst dec_string.simps, auto)
  moreover have "\<not> is_digit (char_of (0::nat))" by (simp add: is_digit_def)
  ultimately show ?thesis by (auto simp: pg_text_def)
qed

lemma example_db_step:
  assumes "length ss < 99" and "varchar 200 s"
  shows "db_step (example_db ss) (example_db (s # ss))"
proof -
  let ?n = "Suc (length ss)"
  have "varchar 50 (''LAB-'' @ dec_string ?n)"
    using length_dec_string [of ?n] dec_string_pg_text [of ?n] assms(1)
    by (auto simp: varchar_def pg_text_def char_of_eq_iff)
  then have "issue_row_ok (example_db ss) (example_row ?n s)"
    using assms by (simp add: issue_row_ok_def example_row_def int4_max_def)
  then show ?thesis
    using step_create [of "example_db ss" "example_row ?n s" "example_created ?n" "example_event ?n"]
      uuid_of_nat_fresh [of "length ss"] assms(1) example_db_facts [of ss]
    by (simp add: links_ok_def announces_def example_row_def example_created_def example_event_def
        Let_def add.commute uuid_text_of_nat)
qed

lemma example_db_inv: "length ss < 100 \<Longrightarrow> list_all (varchar 200) ss \<Longrightarrow> db_inv (example_db ss)"
  by (induction ss) (auto simp: db_inv_empty simp del: example_db.simps(2) intro: db_step_inv example_db_step)

definition db2 :: db where
  "db2 = example_db [''100% coverage'', ''Login page'']"

definition db3 :: db where
  "db3 = example_db [''Late'', ''100% coverage'', ''Login page'']"

lemma example_texts: "varchar 200 ''Late''" "varchar 200 ''100% coverage''" "varchar 200 ''Login page''"
  by (simp_all add: varchar_def pg_text_def char_of_eq_iff)

lemma example_dbs: "db_inv db2" "db_inv db3" "evolves db2 db3"
proof -
  show "db_inv db2" "db_inv db3" by (simp_all add: db2_def db3_def example_db_inv example_texts del: example_db.simps)
  then show "evolves db2 db3"
    unfolding db2_def db3_def by (intro db_step_evolves example_db_step) (simp_all add: example_texts del: example_db.simps)
qed

definition world2 :: world where
  "world2 = \<lparr>w_db = db2, w_tick = 50, w_tx = None, w_connected = False, w_running = False\<rparr>"

end
