(* ===== verification/Issue_Paging.thy ===== *)
theory Issue_Paging
  imports Example_World
begin

text \<open>
  What a client gets that follows \<open>nextCursor\<close> to the last page while other sessions write
  (the guarantee of ADR 0005). \<open>follow\<close> is such a traversal: calls of \<open>listIssues\<close>, each with
  the position of the answer before. \<open>walk\<close> is what it comes to on the tables as each page query
  finds them; the lemmas are about \<open>walk\<close>, and \<open>follow_walk\<close> carries them over to \<open>listIssues\<close>.
\<close>

fun walk :: "(issue_row \<Rightarrow> bool) \<Rightarrow> nat \<Rightarrow> db list \<Rightarrow> keyset option \<Rightarrow> issue_row list \<times> bool" where
  "walk P limit [] after = ([], False)"
| "walk P limit (d # ds) after =
     (let all_rows = list_rows P after (limit + 1) d; page = take limit all_rows in
      if length all_rows > limit
      then (page @ fst (walk P limit ds (Some (keyset_of (last page)))),
            snd (walk P limit ds (Some (keyset_of (last page)))))
      else (page, True))"

section \<open>One page\<close>

definition before :: "keyset option \<Rightarrow> keyset \<Rightarrow> bool" where
  "before after k \<longleftrightarrow> opt_ok (\<lambda>p. k < p) after"

definition matching :: "(issue_row \<Rightarrow> bool) \<Rightarrow> keyset option \<Rightarrow> db \<Rightarrow> issue_row list" where
  "matching P after d = rev (sort_key keyset_of (filter (\<lambda>r. P r \<and> before after (keyset_of r)) (t_issues d)))"

lemma list_rows_matching: "list_rows P after n d = take n (matching P after d)"
  by (simp add: list_rows_def matching_def before_def)

lemma set_matching:
  "set (matching P after d) = {r \<in> set (t_issues d). P r \<and> before after (keyset_of r)}"
  by (auto simp: matching_def)

lemma sorted_wrt_less_keys:
  "sorted (map f xs) \<Longrightarrow> distinct (map f xs) \<Longrightarrow> sorted_wrt (\<lambda>a b. f b < f a) (rev xs)" for f :: "'a \<Rightarrow> 'b::linorder"
proof -
  assume "sorted (map f xs)" "distinct (map f xs)"
  then have "sorted_wrt (<) (map f xs)" by (simp add: strict_sorted_iff)
  then show ?thesis by (simp add: sorted_wrt_map sorted_wrt_rev)
qed

lemma matching_sorted:
  assumes "distinct (map r_id (t_issues d))"
  shows "sorted_wrt (\<lambda>a b. keyset_of b < keyset_of a) (matching P after d)"
proof -
  let ?S = "filter (\<lambda>r. P r \<and> before after (keyset_of r)) (t_issues d)"
  have "distinct (map r_id ?S)" using assms by (simp add: distinct_map_filter)
  then have "distinct (map keyset_of ?S)"
    by (auto simp: distinct_map keyset_of_def inj_on_def)
  then have "distinct (map keyset_of (sort_key keyset_of ?S))"
    by (simp add: distinct_map)
  then show ?thesis unfolding matching_def by (intro sorted_wrt_less_keys) simp_all
qed

text \<open>A full page leaves behind exactly the matching rows below its last key.\<close>

lemma full_page:
  assumes "distinct (map r_id (t_issues d))" and "0 < limit" and "limit < length (matching P after d)"
    and "r \<in> set (matching P after d)"
  shows "r \<in> set (take limit (matching P after d)) \<longleftrightarrow>
    keyset_of (last (take limit (matching P after d))) \<le> keyset_of r"
proof -
  let ?L = "matching P after d"
  have sorted: "sorted_wrt (\<lambda>a b. keyset_of b < keyset_of a) (take limit ?L @ drop limit ?L)"
    using matching_sorted [OF assms(1)] by simp
  have ne: "take limit ?L \<noteq> []" using assms(2,3) by auto
  then obtain ys y where y: "take limit ?L = ys @ [y]" by (metis append_butlast_last_id)
  have "r \<in> set (take limit ?L) \<or> r \<in> set (drop limit ?L)"
    using assms(4) by (metis Un_iff append_take_drop_id set_append)
  moreover have "\<forall>a\<in>set ys. keyset_of y < keyset_of a" "\<forall>a\<in>set (drop limit ?L). keyset_of a < keyset_of y"
    using sorted unfolding y by (auto simp: sorted_wrt_append)
  ultimately show ?thesis unfolding y by (auto simp: less_le_not_le)
qed

section \<open>The whole traversal\<close>

definition descending :: "issue_row list \<Rightarrow> bool" where
  "descending rs \<longleftrightarrow> sorted_wrt (\<lambda>a b. keyset_of b < keyset_of a) rs"

lemma before_Some [simp]: "before (Some p) k \<longleftrightarrow> k < p"
  by (simp add: before_def)

lemma filter_below:
  "(\<And>k'. k' < K \<Longrightarrow> B k') \<Longrightarrow>
   filter (\<lambda>r. P r \<and> f r < K) xs = filter (\<lambda>r. f r < K) (filter (\<lambda>r. P r \<and> B (f r)) xs)"
  by (induction xs) auto

lemma filter_matching:
  "filter Q (matching P after d) = rev (sort_key keyset_of
     (filter Q (filter (\<lambda>r. P r \<and> before after (keyset_of r)) (t_issues d))))"
  by (simp add: matching_def rev_filter [symmetric] filter_sort)

lemma before_trans: "before after k \<Longrightarrow> k' < k \<Longrightarrow> before after k'"
  by (cases after) (auto simp: before_def)

lemma walk_rows:
  assumes "\<forall>d\<in>set ds. distinct (map r_id (t_issues d))" and "0 < limit"
  shows "descending (fst (walk P limit ds after)) \<and>
    (\<forall>r\<in>set (fst (walk P limit ds after)). before after (keyset_of r) \<and> P r \<and> (\<exists>d\<in>set ds. r \<in> set (t_issues d)))"
  using assms
proof (induction ds arbitrary: after)
  case Nil
  then show ?case by (simp add: descending_def)
next
  case (Cons d ds)
  let ?L = "matching P after d" and ?page = "take limit (matching P after d)"
  let ?k = "Some (keyset_of (last ?page))"
  have d: "distinct (map r_id (t_issues d))" using Cons.prems by simp
  have page: "descending ?page" "\<forall>r\<in>set ?page. before after (keyset_of r) \<and> P r \<and> r \<in> set (t_issues d)"
    using matching_sorted [OF d, of P after]
    by (auto simp: descending_def sorted_wrt_take set_matching dest!: in_set_takeD)
  have pg: "take limit (list_rows P after (limit + 1) d) = ?page" by (simp add: list_rows_matching min_def)
  have len: "length (list_rows P after (limit + 1) d) > limit \<longleftrightarrow> limit < length ?L"
    by (auto simp: list_rows_matching)
  show ?case
  proof (cases "limit < length ?L")
    case False
    then have "walk P limit (d # ds) after = (?page, True)"
      unfolding walk.simps Let_def pg len by simp
    then show ?thesis using page by auto
  next
    case True
    have w: "fst (walk P limit (d # ds) after) = ?page @ fst (walk P limit ds ?k)"
      unfolding walk.simps Let_def pg len using True by simp
    have ih: "descending (fst (walk P limit ds ?k))"
      "\<forall>r\<in>set (fst (walk P limit ds ?k)). keyset_of r < keyset_of (last ?page) \<and> P r \<and> (\<exists>d\<in>set ds. r \<in> set (t_issues d))"
      using Cons.IH [of ?k] Cons.prems by (auto simp: before_def)
    have ne: "?page \<noteq> []" using True Cons.prems(2) by auto
    have below: "keyset_of b < keyset_of a" if "a \<in> set ?page" "b \<in> set (fst (walk P limit ds ?k))" for a b
    proof -
      have "a \<in> set ?L" using that(1) by (rule in_set_takeD)
      then have "keyset_of (last ?page) \<le> keyset_of a"
        using full_page [OF d Cons.prems(2) True] that(1) by blast
      then show ?thesis using ih(2) that(2) by fastforce
    qed
    have "last ?page \<in> set ?page" using ne by simp
    then have "before after (keyset_of (last ?page))" using page(2) by blast
    then have "\<forall>r\<in>set (fst (walk P limit ds ?k)). before after (keyset_of r)"
      using ih(2) before_trans by blast
    then show ?thesis unfolding w using page ih below by (auto simp: descending_def sorted_wrt_append)
  qed
qed

lemma walk_complete:
  assumes "\<forall>d\<in>set ds. distinct (map r_id (t_issues d))" and "0 < limit"
    and "snd (walk P limit ds after)"
    and "\<forall>d\<in>set ds. \<exists>r\<in>set (t_issues d). P r \<and> keyset_of r = k" and "before after k"
  shows "k \<in> keyset_of ` set (fst (walk P limit ds after))"
  using assms
proof (induction ds arbitrary: after)
  case Nil
  then show ?case by simp
next
  case (Cons d ds)
  let ?L = "matching P after d" and ?page = "take limit (matching P after d)"
  let ?k = "Some (keyset_of (last ?page))"
  have d: "distinct (map r_id (t_issues d))" using Cons.prems by simp
  obtain r where r: "r \<in> set ?L" "keyset_of r = k" using Cons.prems by (auto simp: set_matching)
  have pg: "take limit (list_rows P after (limit + 1) d) = ?page" by (simp add: list_rows_matching min_def)
  have len: "length (list_rows P after (limit + 1) d) > limit \<longleftrightarrow> limit < length ?L"
    by (auto simp: list_rows_matching)
  show ?case
  proof (cases "limit < length ?L")
    case False
    then have "?page = ?L" by simp
    moreover have "fst (walk P limit (d # ds) after) = ?page"
      unfolding walk.simps Let_def pg len using False by simp
    ultimately show ?thesis using r by auto
  next
    case True
    have w: "fst (walk P limit (d # ds) after) = ?page @ fst (walk P limit ds ?k)"
      "snd (walk P limit (d # ds) after) = snd (walk P limit ds ?k)"
      unfolding walk.simps Let_def pg len using True by simp_all
    show ?thesis
    proof (cases "r \<in> set ?page")
      case True
      then show ?thesis unfolding w using r by auto
    next
      case False
      then have "k < keyset_of (last ?page)"
        using full_page [OF d Cons.prems(2) True r(1)] r(2) by simp
      then have "k \<in> keyset_of ` set (fst (walk P limit ds ?k))"
        using Cons.IH [of ?k] Cons.prems w(2) by (simp add: before_def)
      then show ?thesis unfolding w by auto
    qed
  qed
qed

lemma inv_distinct_ids: "db_inv d \<Longrightarrow> distinct (map r_id (t_issues d))"
  by (simp add: db_inv_def)

text \<open>An issue has the same key in every snapshot.\<close>

lemma same_key:
  assumes "evolves d d'" and "db_inv d'" and "r \<in> set (t_issues d)" "r' \<in> set (t_issues d')" "r_id r = r_id r'"
  shows "keyset_of r = keyset_of r'"
proof -
  obtain s where s: "s \<in> set (t_issues d')" "same_identity r s"
    using assms(1,3) by (auto simp: evolves_def row_grows_def)
  then have "s = r'" using assms(2,4,5) same_identity_id [OF s(2)]
    by (auto intro: distinct_map_eqD [OF inv_distinct_ids])
  then show ?thesis using s(2) by (simp add: keyset_of_def same_identity_def)
qed

lemma same_key_in_snapshots:
  assumes "sorted_wrt evolves ds" and "\<forall>d\<in>set ds. db_inv d" and "d \<in> set ds" "d' \<in> set ds"
    and "r \<in> set (t_issues d)" "r' \<in> set (t_issues d')" "r_id r = r_id r'"
  shows "keyset_of r = keyset_of r'"
proof -
  obtain i j where "i < length ds" "j < length ds" "d = ds ! i" "d' = ds ! j"
    using assms(3,4) by (auto simp: in_set_conv_nth)
  then have "evolves d d' \<or> evolves d' d"
    using assms(1) evolves_refl by (metis linorder_neqE_nat sorted_wrt_nth_less)
  then show ?thesis using same_key assms by metis
qed

lemma descending_distinct_ids:
  assumes "descending rs" and "\<And>r r'. \<lbrakk>r \<in> set rs; r' \<in> set rs; r_id r = r_id r'\<rbrakk> \<Longrightarrow> keyset_of r = keyset_of r'"
  shows "distinct (map r_id rs)"
  using assms unfolding descending_def
proof (induction rs)
  case (Cons r rs)
  have "r_id r \<noteq> r_id x" if "x \<in> set rs" for x
  proof
    assume "r_id r = r_id x"
    with Cons.prems(2) [of r x] that have "keyset_of r = keyset_of x" by simp
    with Cons.prems(1) that show False by auto
  qed
  moreover have "distinct (map r_id rs)" using Cons by simp
  ultimately show ?case by auto
qed simp

text \<open>Without writes, the traversal ends and returns exactly the matching rows in order.\<close>

lemma walk_static:
  assumes "distinct (map r_id (t_issues d))" and "0 < limit" and "length (matching P after d) \<le> n * limit" and "0 < n"
  shows "walk P limit (replicate n d) after = (matching P after d, True)"
  using assms
proof (induction n arbitrary: after)
  case 0
  then show ?case by simp
next
  case (Suc n)
  let ?L = "matching P after d" and ?page = "take limit (matching P after d)"
  let ?k = "Some (keyset_of (last ?page))"
  have pg: "take limit (list_rows P after (limit + 1) d) = ?page" by (simp add: list_rows_matching min_def)
  have len: "length (list_rows P after (limit + 1) d) > limit \<longleftrightarrow> limit < length ?L"
    by (auto simp: list_rows_matching)
  show ?case
  proof (cases "limit < length ?L")
    case False
    then show ?thesis unfolding replicate_Suc walk.simps Let_def pg len by simp
  next
    case True
    have rest: "matching P ?k d = drop limit ?L"
    proof -
      let ?after = "\<lambda>r. keyset_of r < keyset_of (last ?page)"
      have bf: "before after (keyset_of (last ?page))"
      proof -
        have "?page \<noteq> []" using True Suc.prems(2) by auto
        then have "last ?page \<in> set ?L" using in_set_takeD [OF last_in_set] by blast
        then show ?thesis by (simp add: set_matching)
      qed
      have "filter (\<lambda>r. P r \<and> before ?k (keyset_of r)) (t_issues d) =
          filter ?after (filter (\<lambda>r. P r \<and> before after (keyset_of r)) (t_issues d))"
        unfolding before_Some 
        by (rule filter_below [where B = "before after" and P = P and f = keyset_of]) (rule before_trans [OF bf])
      then have "matching P ?k d = filter ?after ?L"
        unfolding filter_matching by (simp only: matching_def)
      also have "\<dots> = filter ?after ?page @ filter ?after (drop limit ?L)"
        by (metis append_take_drop_id filter_append)
      also have "filter ?after ?page = []"
        using full_page [OF Suc.prems(1,2) True] in_set_takeD [of _ limit ?L]
        by (auto simp: filter_empty_conv not_less)
      also have "filter ?after (drop limit ?L) = drop limit ?L"
      proof (rule filter_True, rule ballI)
        fix r
        assume r: "r \<in> set (drop limit ?L)"
        have "distinct ?L" using matching_sorted [OF Suc.prems(1), of P after]
          by (auto simp: distinct_conv_nth sorted_wrt_iff_nth_less neq_iff) (metis less_irrefl)+
        then have "r \<notin> set ?page" using r by (metis disjoint_iff distinct_append append_take_drop_id)
        then show "keyset_of r < keyset_of (last ?page)"
          using full_page [OF Suc.prems(1,2) True in_set_dropD [OF r]] by (simp add: not_le)
      qed
      finally show ?thesis by simp
    qed
    have "length (drop limit ?L) \<le> n * limit" using Suc.prems(3) by simp
    moreover have "0 < n" using True Suc.prems(3) by (cases n) auto
    ultimately have "walk P limit (replicate n d) ?k = (drop limit ?L, True)"
      using Suc.IH [of ?k] Suc.prems(1,2) unfolding rest by simp
    then show ?thesis unfolding replicate_Suc walk.simps Let_def pg len using True by simp
  qed
qed

lemma traversal_facts:
  assumes "\<forall>d\<in>set ds. db_inv d" and "sorted_wrt evolves ds" and "0 < limit"
    and "walk P limit ds None = (rows, finished)"
  shows "descending rows \<and> distinct (map r_id rows) \<and> (\<forall>r\<in>set rows. P r) \<and>
    (finished \<longrightarrow> (\<forall>i. (\<forall>d\<in>set ds. \<exists>r\<in>set (t_issues d). P r \<and> r_id r = i) \<longrightarrow> i \<in> r_id ` set rows))"
proof -
  have dist: "\<forall>d\<in>set ds. distinct (map r_id (t_issues d))" using assms(1) inv_distinct_ids by blast
  note w = walk_rows [OF dist assms(3), of P None, unfolded assms(4) fst_conv]
  have "distinct (map r_id rows)"
    by (rule descending_distinct_ids [OF conjunct1 [OF w]])
      (use w same_key_in_snapshots [OF assms(2,1)] in blast)
  moreover have "i \<in> r_id ` set rows"
    if "finished" and i: "\<forall>d\<in>set ds. \<exists>r\<in>set (t_issues d). P r \<and> r_id r = i" for i
  proof -
    have "ds \<noteq> []" using that(1) assms(4) by (cases ds) auto
    then obtain d0 r0 where "d0 \<in> set ds" "r0 \<in> set (t_issues d0)" "r_id r0 = i"
      using i by (cases ds) auto
    then have "\<forall>d\<in>set ds. \<exists>r\<in>set (t_issues d). P r \<and> keyset_of r = keyset_of r0"
      using i same_key_in_snapshots [OF assms(2,1)] by metis
    then have "keyset_of r0 \<in> keyset_of ` set rows"
      using walk_complete [OF dist assms(3), of P None] that(1) assms(4) by (simp add: before_def)
    then show ?thesis using \<open>r_id r0 = i\<close> by (auto simp: keyset_of_def)
  qed
  ultimately show ?thesis using w by blast
qed

section \<open>The pages of \<open>listIssues\<close>\<close>

text \<open>
  Following the positions: a page that has one is followed by the call with it, a failed call
  is repeated, and the traversal ends with the page that has none. Each call has an
  environment and a world of its own.
\<close>

fun follow ::
    "string \<Rightarrow> issue_list_filter \<Rightarrow> nat \<Rightarrow> (env \<times> world) list \<Rightarrow> issue_list_position option \<Rightarrow> issue list \<times> bool" where
  "follow p flt limit [] after = ([], False)"
| "follow p flt limit ((e, w) # calls) after =
     (case fst (listIssues p flt after limit e w) of
        Inl x \<Rightarrow> follow p flt limit calls after
      | Inr page \<Rightarrow>
          (case pg_next page of
             None \<Rightarrow> (pg_items page, True)
           | Some position \<Rightarrow>
               (pg_items page @ fst (follow p flt limit calls (Some position)),
                snd (follow p flt limit calls (Some position)))))"

text \<open>The tables a call finds, and the rows it asks for.\<close>

definition found_tables :: "env \<times> world \<Rightarrow> db" where
  "found_tables c = e_others (fst c) (w_tick (snd c)) (w_db (snd c))"

definition wanted :: "(char \<Rightarrow> char) \<Rightarrow> string \<Rightarrow> issue_list_filter \<Rightarrow> issue_row \<Rightarrow> bool" where
  "wanted lower p flt = list_where lower p (f_status flt) (f_assigneeUserId flt) (f_sprintId flt) (truthy (f_q flt))"

text \<open>Rows whose position a cursor can carry, and that position.\<close>

definition listable :: "issue_row \<Rightarrow> bool" where
  "listable r \<longleftrightarrow> pg_time_ok (r_created_at r) \<and> canonical_uuid (r_id r)"

definition position_of :: "issue_row \<Rightarrow> issue_list_position" where
  "position_of r = \<lparr>p_createdAt = position_text (r_created_at r), p_id = r_id r\<rparr>"

text \<open>A filter as \<open>parseIssueListQuery\<close> makes it, and an environment that can run the query.\<close>

definition plain_filter :: "issue_list_filter \<Rightarrow> bool" where
  "plain_filter flt \<longleftrightarrow> opt_ok canonical_uuid (f_assigneeUserId flt) \<and> opt_ok canonical_uuid (f_sprintId flt)"

definition reads_with :: "(char \<Rightarrow> char) \<Rightarrow> env \<Rightarrow> bool" where
  "reads_with lower e \<longleftrightarrow> pg_uuid e \<and> e_lower e = lower"

lemma uuid_opt_canonical:
  "pg_uuid e \<Longrightarrow> opt_ok canonical_uuid v \<Longrightarrow> uuid_opt_param e (truthy v) = Inr v"
  by (cases v) (auto simp: truthy_def uuid_opt_param_def uuid_param_def pg_uuid_canonical dest: canonical_uuid_length)

lemma list_stmt_wanted:
  assumes "reads_with lower e" and "canonical_uuid p" and "plain_filter flt" and "opt_ok listable after"
  shows "list_stmt p flt (map_option position_of after) n e now d =
    (if \<not> opt_ok pg_text (truthy (f_q flt)) then Inl (DbError ''invalid byte sequence'')
     else Inr (list_rows (wanted lower p flt) (map_option keyset_of after) n d, d))"
proof -
  have pg: "pg_uuid e" "e_lower e = lower" using assms(1) by (simp_all add: reads_with_def)
  have ids: "uuid_opt_param e (truthy (f_assigneeUserId flt)) = Inr (f_assigneeUserId flt)"
    "uuid_opt_param e (truthy (f_sprintId flt)) = Inr (f_sprintId flt)"
    using assms(3) uuid_opt_canonical [OF pg(1)] by (simp_all add: plain_filter_def)
  have p: "e_uuid_in e p = Some p" by (rule pg_uuid_canonical [OF pg(1) assms(2)])
  show ?thesis
  proof (cases after)
    case None
    then show ?thesis by (simp add: list_stmt_def uuid_param_def p ids wanted_def pg)
  next
    case (Some r)
    then have "e_uuid_in e (r_id r) = Some (r_id r)" "timestamptz_in (position_text (r_created_at r)) = Inr (r_created_at r)"
      using assms(4) pg_uuid_canonical [OF pg(1)] position_roundtrip by (simp_all add: listable_def)
    then show ?thesis using Some by (simp add: list_stmt_def uuid_param_def p ids wanted_def pg keyset_of_def position_of_def)
  qed
qed

text \<open>A call either fails or is one page of the walk.\<close>

lemma listIssues_page:
  assumes "reads_with lower e" and "canonical_uuid p" and "plain_filter flt" and "opt_ok listable after" and "0 < limit"
    and all_rows: "all_rows = list_rows (wanted lower p flt) (map_option keyset_of after) (limit + 1) (found_tables (e, w))"
  shows "(\<exists>x. fst (listIssues p flt (map_option position_of after) limit e w) = Inl x) \<and>
      (e_fault e (w_tick w) \<noteq> NoFault \<or> \<not> opt_ok pg_text (truthy (f_q flt))) \<or>
    fst (listIssues p flt (map_option position_of after) limit e w) =
      Inr \<lparr>pg_items = map toIssue (take limit all_rows),
           pg_next = (if limit < length all_rows then Some (position_of (last (take limit all_rows))) else None)\<rparr>"
proof -
  note stmt = list_stmt_wanted [OF assms(1-4)]
  have "take limit all_rows \<noteq> []" if "limit < length all_rows" using that assms(5) by auto
  then show ?thesis
    unfolding listIssues_def query_def client_query_def andThen_def stmt
    by (cases "e_fault e (w_tick w)")
      (auto simp: Let_def all_rows [unfolded found_tables_def, simplified, symmetric] position_of_def)
qed

lemma follow_walk:
  assumes "\<forall>c\<in>set calls. reads_with lower (fst c)" and "canonical_uuid p" and "plain_filter flt"
    and "\<forall>c\<in>set calls. \<forall>r\<in>set (t_issues (found_tables c)). listable r" and "0 < limit"
    and "sorted_wrt evolves (map found_tables calls)" and "opt_ok listable after"
  shows "\<exists>ds rows. set ds \<subseteq> set (map found_tables calls) \<and> sorted_wrt evolves ds \<and>
    walk (wanted lower p flt) limit ds (map_option keyset_of after) =
      (rows, snd (follow p flt limit calls (map_option position_of after))) \<and>
    fst (follow p flt limit calls (map_option position_of after)) = map toIssue rows \<and>
    (opt_ok pg_text (truthy (f_q flt)) \<and> (\<forall>c\<in>set calls. e_fault (fst c) (w_tick (snd c)) = NoFault) \<longrightarrow>
       ds = map found_tables calls)"
  using assms(1,4,6,7)
proof (induction calls arbitrary: after)
  case Nil
  then show ?case by auto
next
  case (Cons c calls)
  obtain e w where c: "c = (e, w)" by (cases c)
  let ?d = "found_tables (e, w)" and ?P = "wanted lower p flt" and ?a = "map_option keyset_of after"
  let ?all = "list_rows ?P ?a (limit + 1) ?d"
  let ?row = "last (take limit ?all)"
  have page: "(\<exists>x. fst (listIssues p flt (map_option position_of after) limit e w) = Inl x) \<and>
      (e_fault e (w_tick w) \<noteq> NoFault \<or> \<not> opt_ok pg_text (truthy (f_q flt))) \<or>
    fst (listIssues p flt (map_option position_of after) limit e w) =
      Inr \<lparr>pg_items = map toIssue (take limit ?all),
           pg_next = (if limit < length ?all then Some (position_of ?row) else None)\<rparr>"
    using Cons.prems(1,4) by (intro listIssues_page [OF _ assms(2,3) _ assms(5) refl]) (simp_all add: c)
  show ?case
  proof (rule disjE [OF page])
    assume failed: "(\<exists>x. fst (listIssues p flt (map_option position_of after) limit e w) = Inl x) \<and>
      (e_fault e (w_tick w) \<noteq> NoFault \<or> \<not> opt_ok pg_text (truthy (f_q flt)))"
    then have f: "follow p flt limit (c # calls) (map_option position_of after) = follow p flt limit calls (map_option position_of after)"
      by (auto simp: c)
    obtain ds rows where i: "set ds \<subseteq> set (map found_tables calls)" "sorted_wrt evolves ds"
        "walk ?P limit ds ?a = (rows, snd (follow p flt limit calls (map_option position_of after)))"
        "fst (follow p flt limit calls (map_option position_of after)) = map toIssue rows"
      using Cons.IH [of after] Cons.prems by auto
    have "\<not> (opt_ok pg_text (truthy (f_q flt)) \<and> (\<forall>c\<in>set (c # calls). e_fault (fst c) (w_tick (snd c)) = NoFault))"
      using failed by (auto simp: c)
    then show ?thesis using i unfolding f by (intro exI [of _ ds] exI [of _ rows]) auto
  next
    assume read: "fst (listIssues p flt (map_option position_of after) limit e w) =
      Inr \<lparr>pg_items = map toIssue (take limit ?all),
           pg_next = (if limit < length ?all then Some (position_of ?row) else None)\<rparr>"
    show ?thesis
    proof (cases "limit < length ?all")
      case False
      then have "follow p flt limit (c # calls) (map_option position_of after) = (map toIssue (take limit ?all), True)"
        by (simp add: c read)
      moreover have "walk ?P limit (?d # ds) ?a = (take limit ?all, True)" for ds
        using False by (simp add: Let_def)
      ultimately show ?thesis using Cons.prems(3)
        by (intro exI [of _ "map found_tables (c # calls)"] exI [of _ "take limit ?all"])
          (simp add: c)
    next
      case True
      have "?row \<in> set ?all" using True assms(5) by (intro in_set_takeD [OF last_in_set]) auto
      then have "?row \<in> set (t_issues ?d)" unfolding list_rows_def by (auto dest!: in_set_takeD)
      then have l: "listable ?row" using Cons.prems(2) by (simp add: c)
      have f: "follow p flt limit (c # calls) (map_option position_of after) =
          (map toIssue (take limit ?all) @ fst (follow p flt limit calls (Some (position_of ?row))),
           snd (follow p flt limit calls (Some (position_of ?row))))"
        using True by (simp add: c read)
      obtain ds rows where i: "set ds \<subseteq> set (map found_tables calls)" "sorted_wrt evolves ds"
          "walk ?P limit ds (Some (keyset_of ?row)) = (rows, snd (follow p flt limit calls (Some (position_of ?row))))"
          "fst (follow p flt limit calls (Some (position_of ?row))) = map toIssue rows"
          "opt_ok pg_text (truthy (f_q flt)) \<and> (\<forall>c\<in>set calls. e_fault (fst c) (w_tick (snd c)) = NoFault) \<longrightarrow>
             ds = map found_tables calls"
        using Cons.IH [of "Some ?row"] Cons.prems l by auto
      have "walk ?P limit (?d # ds) ?a = (take limit ?all @ rows, snd (follow p flt limit calls (Some (position_of ?row))))"
        using True i(3) by (simp add: Let_def)
      moreover have "sorted_wrt evolves (?d # ds)" using i(1,2) Cons.prems(3) by (auto simp: c)
      ultimately show ?thesis using i(1,4,5) unfolding f fst_conv snd_conv
        by (intro exI [of _ "?d # ds"] exI [of _ "take limit ?all @ rows"])
          (auto simp: c simp del: walk.simps follow.simps)
    qed
  qed
qed

section \<open>An example\<close>

definition any_issue :: issue_list_filter where
  "any_issue = \<lparr>f_status = None, f_assigneeUserId = None, f_sprintId = None, f_q = None\<rparr>"

definition example_calls :: "(env \<times> world) list" where
  "example_calls = [(example_env, world2), (example_env, world2\<lparr>w_db := db3\<rparr>)]"

lemma example_found: "map found_tables example_calls = [db2, db3]"
  by (simp add: example_calls_def found_tables_def example_env_def world2_def)

lemma example_reading: "reads_with lower_char example_env" "canonical_uuid example_project" "plain_filter any_issue"
proof -
  show "reads_with lower_char example_env"
    using example_issue_env by (simp add: reads_with_def issue_env_def) (simp add: example_env_def)
  show "canonical_uuid example_project" by code_simp
qed (simp add: plain_filter_def any_issue_def)

lemma example_listable: "\<forall>r\<in>set (t_issues db2). listable r" "\<forall>r\<in>set (t_issues db3). listable r"
proof -
  have "canonical_uuid (uuid_of_nat 1)" "canonical_uuid (uuid_of_nat 2)" "canonical_uuid (uuid_of_nat 3)" by code_simp+
  then have "listable (example_row 1 s)" "listable (example_row 2 s)" "listable (example_row 3 s)" for s
    by (simp_all add: listable_def pg_time_ok_def example_row_def)
  moreover have "t_issues db2 = [example_row 1 ''Login page'', example_row 2 ''100% coverage'']"
    "t_issues db3 = [example_row 1 ''Login page'', example_row 2 ''100% coverage'', example_row 3 ''Late'']"
    by (simp_all add: db2_def db3_def Let_def empty_db_def numeral_2_eq_2 numeral_3_eq_3)
  ultimately show "\<forall>r\<in>set (t_issues db2). listable r" "\<forall>r\<in>set (t_issues db3). listable r" by simp_all
qed

lemma example_facts:
  "\<forall>c\<in>set example_calls. reads_with lower_char (fst c)"
  "\<forall>c\<in>set example_calls. db_inv (found_tables c) \<and> (\<forall>r\<in>set (t_issues (found_tables c)). listable r)"
  "sorted_wrt evolves (map found_tables example_calls)"
proof -
  have "map found_tables example_calls = [db2, db3]" by (rule example_found)
  then have "\<forall>c\<in>set example_calls. found_tables c = db2 \<or> found_tables c = db3" "\<forall>c\<in>set example_calls. fst c = example_env"
    by (simp_all add: example_calls_def)
  then show "\<forall>c\<in>set example_calls. reads_with lower_char (fst c)"
    "\<forall>c\<in>set example_calls. db_inv (found_tables c) \<and> (\<forall>r\<in>set (t_issues (found_tables c)). listable r)"
    "sorted_wrt evolves (map found_tables example_calls)"
    using example_reading(1) example_listable example_dbs by (auto simp: example_found)
qed

lemma example_follow:
  "map i_summary (fst (follow example_project any_issue 1 example_calls None)) = [''100% coverage'', ''Login page'']"
  "snd (follow example_project any_issue 1 example_calls None)"
proof -
  obtain ds rows where ds: "walk (wanted lower_char example_project any_issue) 1 ds None =
        (rows, snd (follow example_project any_issue 1 example_calls None))"
      "fst (follow example_project any_issue 1 example_calls None) = map toIssue rows"
      "opt_ok pg_text (truthy (f_q any_issue)) \<and> (\<forall>c\<in>set example_calls. e_fault (fst c) (w_tick (snd c)) = NoFault) \<longrightarrow>
         ds = map found_tables example_calls"
    using follow_walk [OF example_facts(1) example_reading(2,3) _ _ example_facts(3), of 1 None] example_facts(2) by auto
  have "\<forall>c\<in>set example_calls. e_fault (fst c) (w_tick (snd c)) = NoFault"
    by (simp add: example_calls_def) (simp add: example_env_def)
  moreover have "opt_ok pg_text (truthy (f_q any_issue))" by (simp add: any_issue_def truthy_def)
  ultimately have w: "walk (wanted lower_char example_project any_issue) 1 [db2, db3] None =
      (rows, snd (follow example_project any_issue 1 example_calls None))"
    using ds(1,3) by (simp only: example_found)
  have "map r_summary (fst (walk (wanted lower_char example_project any_issue) 1 [db2, db3] None)) = [''100% coverage'', ''Login page'']"
    "snd (walk (wanted lower_char example_project any_issue) 1 [db2, db3] None)"
    by code_simp+
  then have "map r_summary rows = [''100% coverage'', ''Login page'']" "snd (follow example_project any_issue 1 example_calls None)"
    unfolding w by simp_all
  then show "map i_summary (fst (follow example_project any_issue 1 example_calls None)) = [''100% coverage'', ''Login page'']"
    "snd (follow example_project any_issue 1 example_calls None)"
    using ds(2) by (simp_all add: comp_def)
qed

section \<open>Properties\<close>

text \<open>
  C5: The pagination guarantee (ADR 0005): a client that calls \<open>listIssues\<close>, follows the
  positions it returns and repeats calls that fail, while other sessions write between the
  calls, gets its issues newest first and none twice, only issues that match and exist when
  they are read, and, when it reaches the last page, every issue that exists and matches in
  the tables that each of its calls found.
\<close>

theorem issue_list_traversal:
  assumes "\<forall>c\<in>set calls. reads_with lower (fst c)" and "canonical_uuid p" and "plain_filter flt" and "0 < limit"
    and "\<forall>c\<in>set calls. db_inv (found_tables c) \<and> (\<forall>r\<in>set (t_issues (found_tables c)). listable r)"
    and "sorted_wrt evolves (map found_tables calls)"
    and "follow p flt limit calls None = (items, finished)"
  shows "\<exists>rows. items = map toIssue rows \<and>
    sorted_wrt (\<lambda>a b. r_created_at b < r_created_at a \<or> r_created_at b = r_created_at a \<and> r_id b < r_id a) rows \<and>
    distinct (map r_id rows) \<and>
    (\<forall>r\<in>set rows. wanted lower p flt r \<and> (\<exists>c\<in>set calls. r \<in> set (t_issues (found_tables c)))) \<and>
    (finished \<longrightarrow>
       (\<forall>i. (\<forall>c\<in>set calls. \<exists>r\<in>set (t_issues (found_tables c)). wanted lower p flt r \<and> r_id r = i) \<longrightarrow>
          i \<in> r_id ` set rows))"
proof -
  obtain ds rows where w: "set ds \<subseteq> set (map found_tables calls)" "sorted_wrt evolves ds"
      "walk (wanted lower p flt) limit ds None = (rows, finished)" "items = map toIssue rows"
    using follow_walk [OF assms(1,2,3) _ assms(4,6), of None] assms(5,7) by auto
  have inv: "\<forall>d\<in>set ds. db_inv d" using w(1) assms(5) by auto
  then have dist: "\<forall>d\<in>set ds. distinct (map r_id (t_issues d))" using inv_distinct_ids by blast
  have rows: "descending rows" "distinct (map r_id rows)" "\<forall>r\<in>set rows. wanted lower p flt r"
    "finished \<longrightarrow> (\<forall>i. (\<forall>d\<in>set ds. \<exists>r\<in>set (t_issues d). wanted lower p flt r \<and> r_id r = i) \<longrightarrow> i \<in> r_id ` set rows)"
    using traversal_facts [OF inv w(2) assms(4) w(3)] by blast+
  have "\<forall>r\<in>set rows. \<exists>c\<in>set calls. r \<in> set (t_issues (found_tables c))"
    using walk_rows [OF dist assms(4), of "wanted lower p flt" None] w(1,3) by fastforce
  moreover have "\<forall>i. (\<forall>c\<in>set calls. \<exists>r\<in>set (t_issues (found_tables c)). wanted lower p flt r \<and> r_id r = i) \<longrightarrow>
      (\<forall>d\<in>set ds. \<exists>r\<in>set (t_issues d). wanted lower p flt r \<and> r_id r = i)"
    using w(1) by auto
  ultimately show ?thesis
    using w(4) rows by (intro exI [of _ rows]) (auto simp: descending_def less_keyset_def keyset_of_def)
qed

theorem issue_list_traversal_witness:
  "map i_summary (fst (follow example_project any_issue 1 example_calls None)) = [''100% coverage'', ''Login page''] \<and>
   snd (follow example_project any_issue 1 example_calls None) \<and>
   (\<exists>rows. fst (follow example_project any_issue 1 example_calls None) = map toIssue rows \<and> distinct (map r_id rows))"
  using issue_list_traversal [OF example_facts(1) example_reading(2,3) _ example_facts(2,3) surjective_pairing, of 1]
    example_follow by auto

text \<open>
  C34: Without concurrent writes or failures the traversal returns exactly the matching issues,
  newest first, and one call per full page is enough.
\<close>

theorem issue_list_exact:
  assumes "\<forall>c\<in>set calls. reads_with lower (fst c) \<and> e_fault (fst c) (w_tick (snd c)) = NoFault \<and> found_tables c = d"
    and "canonical_uuid p" and "plain_filter flt" and "opt_ok pg_text (truthy (f_q flt))"
    and "db_inv d" and "\<forall>r\<in>set (t_issues d). listable r"
    and "0 < limit" and "calls \<noteq> []"
    and "length (filter (wanted lower p flt) (t_issues d)) \<le> length calls * limit"
  shows "follow p flt limit calls None =
    (map toIssue (rev (sort_key (\<lambda>r. Keyset (r_created_at r) (r_id r)) (filter (wanted lower p flt) (t_issues d)))), True)"
proof -
  let ?P = "wanted lower p flt"
  have tables: "map found_tables calls = replicate (length calls) d"
    using assms(1) by (intro replicate_eqI) auto
  have calls: "\<forall>c\<in>set calls. reads_with lower (fst c)"
    "\<forall>c\<in>set calls. \<forall>r\<in>set (t_issues (found_tables c)). listable r"
    "sorted_wrt evolves (map found_tables calls)"
    using assms(1,6) by (auto simp: tables sorted_wrt_iff_nth_less)
  obtain rows where w: "walk ?P limit (map found_tables calls) None = (rows, snd (follow p flt limit calls None))"
      "fst (follow p flt limit calls None) = map toIssue rows"
    using follow_walk [OF calls(1) assms(2,3) calls(2) assms(7) calls(3), of None] assms(1,4) by auto
  have m: "matching ?P None d = rev (sort_key (\<lambda>r. Keyset (r_created_at r) (r_id r)) (filter ?P (t_issues d)))"
    by (simp add: matching_def before_def keyset_of_def [abs_def])
  then have "length (matching ?P None d) \<le> length calls * limit" using assms(9) by simp
  from walk_static [OF inv_distinct_ids [OF assms(5)] assms(7) this] assms(8)
  have "walk ?P limit (map found_tables calls) None = (matching ?P None d, True)" by (simp add: tables)
  then show ?thesis using w m by (simp add: prod_eq_iff)
qed

theorem issue_list_exact_witness:
  "follow example_project any_issue 2 [(example_env, world2)] None =
   (map toIssue (rev (sort_key (\<lambda>r. Keyset (r_created_at r) (r_id r))
      (filter (wanted lower_char example_project any_issue) (t_issues db2)))), True)"
proof (rule issue_list_exact)
  show "\<forall>c\<in>set [(example_env, world2)]. reads_with lower_char (fst c) \<and> e_fault (fst c) (w_tick (snd c)) = NoFault \<and> found_tables c = db2"
    using example_reading(1) by (simp add: found_tables_def world2_def) (simp add: example_env_def)
  show "opt_ok pg_text (truthy (f_q any_issue))" by (simp add: any_issue_def truthy_def)
  have "length (t_issues db2) = 2" by (simp add: db2_def Let_def empty_db_def)
  then show "length (filter (wanted lower_char example_project any_issue) (t_issues db2)) \<le> length [(example_env, world2)] * 2"
    using length_filter_le [of "wanted lower_char example_project any_issue" "t_issues db2"] by simp
qed (simp_all add: example_reading example_listable example_dbs)

text \<open>
  C37: The search text is matched literally: the ILIKE pattern built from it by escaping
  matches a summary exactly if the text occurs in it, ignoring case; percent signs,
  underscores and backslashes in it have no special meaning.
\<close>

theorem issue_search_is_literal:
  assumes "lower_ok lower"
  shows "list_where lower p None None None (Some q) r \<longleftrightarrow>
    r_project_id r = p \<and> (\<exists>u v. map lower (r_summary r) = u @ map lower q @ v)"
  by (simp add: list_where_def ilike_substring [OF assms])

lemma code_lower_char:
  "code (lower_char c) =
     (if 65 \<le> code c \<and> code c \<le> 90 \<or> 192 \<le> code c \<and> code c \<le> 222 \<and> code c \<noteq> 215
      then code c + 32 else code c)"
  by (auto simp: lower_char_def Let_def)

theorem issue_search_is_literal_witness:
  "list_where lower_char example_project None None None (Some ''100%'') (example_row 2 ''100% Coverage'') \<longleftrightarrow>
     r_project_id (example_row 2 ''100% Coverage'') = example_project \<and>
     (\<exists>u v. map lower_char (r_summary (example_row 2 ''100% Coverage'')) = u @ map lower_char ''100%'' @ v)"
proof -
  have "lower_ok lower_char"
    unfolding lower_ok_def code_eq_iff [symmetric] code_lower_char by (auto simp: code_def)
  then show ?thesis by (rule issue_search_is_literal)
qed

text \<open>
  C35: The cursor of a listed row leads back to its exact position: encoding the row's
  microsecond timestamp and id, decoding the cursor and casting the timestamp in the next
  page's query gives the row's own key again, for every time of the years 1 to 9999.
\<close>

theorem cursor_keeps_position:
  assumes "pg_time_ok (r_created_at r)" and "canonical_uuid (r_id r)"
  shows "\<exists>pos. decodeIssueCursor (encodeIssueCursor
        \<lparr>p_createdAt = position_text (r_created_at r), p_id = r_id r\<rparr>) = Inr pos \<and>
      map_result (\<lambda>t. Keyset t (p_id pos)) (timestamptz_in (p_createdAt pos)) = Inr (keyset_of r)"
  using position_roundtrip [OF assms(1)] assms(2)
  by (intro exI [of _ "\<lparr>p_createdAt = position_text (r_created_at r), p_id = r_id r\<rparr>"])
    (simp add: decode_encode keyset_of_def)

theorem cursor_keeps_position_witness:
  "\<exists>pos. decodeIssueCursor (encodeIssueCursor
        \<lparr>p_createdAt = position_text (r_created_at (example_row 2 ''x'')), p_id = r_id (example_row 2 ''x'')\<rparr>) = Inr pos \<and>
      map_result (\<lambda>t. Keyset t (p_id pos)) (timestamptz_in (p_createdAt pos)) = Inr (keyset_of (example_row 2 ''x''))"
proof (rule cursor_keeps_position)
  show "pg_time_ok (r_created_at (example_row 2 ''x''))" by (simp add: pg_time_ok_def example_row_def)
  show "canonical_uuid (r_id (example_row 2 ''x''))" by code_simp
qed

end
