(* ===== verification/Outbox.thy ===== *)
theory Outbox
  imports Example_World
begin

text \<open>
  The transactional outbox (ADR 0001, ADR 0004): the outbox methods of
  \<open>postgres-issue.repository.ts\<close> and the publisher of \<open>outbox.publisher.ts\<close>. Logging is left
  out; the trace context, which becomes a header of the Kafka record, stays with the event.
\<close>

section \<open>The repository's statements\<close>

definition OUTBOX_MAX_PUBLISH_ATTEMPTS :: nat where
  "OUTBOX_MAX_PUBLISH_ATTEMPTS = 20"

definition OUTBOX_CLAIM_LEASE_SECONDS :: int where
  "OUTBOX_CLAIM_LEASE_SECONDS = 30"

definition seconds :: "int \<Rightarrow> int" where
  "seconds n = n * 1000000"

record claimed_event =
  ce_eventId :: string
  ce_eventType :: string
  ce_aggregateId :: string
  ce_aggregateVersion :: int
  ce_projectId :: string
  ce_actorUserId :: string
  ce_occurredAt :: string
  ce_payload :: jsval
  ce_traceContext :: jsval

definition claimed_of :: "outbox_row \<Rightarrow> claimed_event" where
  "claimed_of row = \<lparr>ce_eventId = o_event_id row, ce_eventType = o_event_type row,
     ce_aggregateId = o_aggregate_id row, ce_aggregateVersion = o_aggregate_version row,
     ce_projectId = o_project_id row, ce_actorUserId = o_actor_user_id row,
     ce_occurredAt = to_iso_string (o_occurred_at row div 1000), ce_payload = o_payload row,
     ce_traceContext = o_trace_context row\<rparr>"

text \<open>The WHERE clause of the claim.\<close>

definition claimable :: "int \<Rightarrow> db \<Rightarrow> outbox_row \<Rightarrow> bool" where
  "claimable now d candidate \<longleftrightarrow>
     o_published_at candidate = None \<and> o_publish_attempts candidate < OUTBOX_MAX_PUBLISH_ATTEMPTS \<and>
     o_next_attempt_at candidate \<le> now \<and>
     \<not> (\<exists>earlier\<in>set (t_outbox d). o_aggregate_id earlier = o_aggregate_id candidate \<and>
          o_published_at earlier = None \<and> o_aggregate_version earlier < o_aggregate_version candidate)"

text \<open>
  \<open>FOR UPDATE SKIP LOCKED\<close> passes over the rows that other sessions have locked; rows with
  the same \<open>occurred_at\<close> come in an order the statement does not determine.
\<close>

definition claim_stmt :: "(string \<Rightarrow> bool) \<Rightarrow> (string \<Rightarrow> string) \<Rightarrow> nat \<Rightarrow> outbox_row list stmt" where
  "claim_stmt locked rank limit e now d =
     (let chosen = take limit (sort_key (\<lambda>row. Keyset (o_occurred_at row) (rank (o_event_id row)))
            (filter (\<lambda>row. claimable now d row \<and> \<not> locked (o_event_id row)) (t_outbox d)));
          hit = (\<lambda>row. o_event_id row \<in> o_event_id ` set chosen);
          upd = (\<lambda>row. row\<lparr>o_next_attempt_at := now + seconds OUTBOX_CLAIM_LEASE_SECONDS\<rparr>)
      in Inr (map upd (filter hit (t_outbox d)),
              d\<lparr>t_outbox := map (\<lambda>row. if hit row then upd row else row) (t_outbox d)\<rparr>))"

definition claimPendingEvents :: "nat \<Rightarrow> claimed_event list prog" where
  "claimPendingEvents limit =
     andThen current_tick (\<lambda>n. andThen (ask (\<lambda>e. (e_locked e n, e_rank e n))) (\<lambda>choice.
     andThen (query (claim_stmt (fst choice) (snd choice) limit)) (\<lambda>rows.
     returning (map claimed_of
       (sort_key (\<lambda>row. Keyset (o_occurred_at row div 1000) (o_event_id row)) rows)))))"

fun uuid_params :: "env \<Rightarrow> string list \<Rightarrow> exn + string list" where
  "uuid_params e [] = Inr []"
| "uuid_params e (s # ss) =
     try_then (uuid_param e s) (\<lambda>t. map_result ((#) t) (uuid_params e ss))"

definition mark_stmt :: "string list \<Rightarrow> unit stmt" where
  "mark_stmt eventIds e now d =
     try_then (uuid_params e eventIds) (\<lambda>ids.
     Inr ((), d\<lparr>t_outbox := map (\<lambda>row. if o_event_id row \<in> set ids
       then row\<lparr>o_published_at := Some now\<rparr> else row) (t_outbox d)\<rparr>))"

definition markEventsPublished :: "string list \<Rightarrow> unit prog" where
  "markEventsPublished eventIds = query (mark_stmt eventIds)"

text \<open>\<open>LEAST(POWER(2, LEAST(publish_attempts, 20)) * 1 second, 5 minutes)\<close>.\<close>

definition backoff :: "nat \<Rightarrow> int" where
  "backoff attempts = min (seconds (2 ^ min attempts 20)) (seconds 300)"

definition failure_stmt :: "string \<Rightarrow> string \<Rightarrow> nat list stmt" where
  "failure_stmt eventId error e now d =
     try_then (uuid_param e eventId) (\<lambda>i.
     if \<not> pg_text error then Inl (DbError ''invalid byte sequence'')
     else
       let hit = (\<lambda>row. o_event_id row = i);
           upd = (\<lambda>row. row\<lparr>o_publish_attempts := o_publish_attempts row + 1,
             o_last_error := Some (take 1000 error),
             o_next_attempt_at := now + backoff (o_publish_attempts row)\<rparr>)
       in Inr (map (o_publish_attempts \<circ> upd) (filter hit (t_outbox d)),
               d\<lparr>t_outbox := map (\<lambda>row. if hit row then upd row else row) (t_outbox d)\<rparr>))"

record failure_result =
  fr_attempts :: nat
  fr_abandoned :: bool

definition recordPublishFailure :: "string \<Rightarrow> string \<Rightarrow> failure_result prog" where
  "recordPublishFailure eventId error =
     andThen (query (failure_stmt eventId error)) (\<lambda>rows.
     let attempts = (case rows of [] \<Rightarrow> 0 | n # _ \<Rightarrow> n) in
     returning \<lparr>fr_attempts = attempts, fr_abandoned = attempts \<ge> OUTBOX_MAX_PUBLISH_ATTEMPTS\<rparr>)"

record outbox_status =
  os_pending :: nat
  os_abandoned :: nat
  os_oldestPendingSeconds :: "int option"

definition status_stmt :: "outbox_status stmt" where
  "status_stmt e now d =
     (let waiting = filter (\<lambda>row. o_published_at row = None) (t_outbox d);
          due = filter (\<lambda>row. o_publish_attempts row < OUTBOX_MAX_PUBLISH_ATTEMPTS) waiting
      in Inr (\<lparr>os_pending = length due,
               os_abandoned = length (filter (\<lambda>row. o_publish_attempts row \<ge> OUTBOX_MAX_PUBLISH_ATTEMPTS) waiting),
               os_oldestPendingSeconds = (if due = [] then None
                 else Some ((now - Min (o_occurred_at ` set due)) div 1000000))\<rparr>, d))"

definition outboxStatus :: "outbox_status prog" where
  "outboxStatus = query status_stmt"

section \<open>The publisher\<close>

definition record_of :: "claimed_event \<Rightarrow> kafka_message" where
  "record_of event = \<lparr>k_key = ce_aggregateId event, k_eventId = ce_eventId event,
     k_eventType = ce_eventType event, k_aggregateId = ce_aggregateId event,
     k_aggregateVersion = ce_aggregateVersion event, k_projectId = ce_projectId event,
     k_actorUserId = ce_actorUserId event, k_occurredAt = ce_occurredAt event,
     k_payload = ce_payload event, k_schemaVersion = 1\<rparr>"

text \<open>\<open>producer.send\<close>; the other sessions may act before the record is stored.\<close>

definition store :: "kafka_message \<Rightarrow> world \<Rightarrow> world" where
  "store m w = w\<lparr>w_db := (w_db w)\<lparr>t_topic := t_topic (w_db w) @ [m]\<rparr>\<rparr>"

definition send :: "claimed_event \<Rightarrow> unit prog" where
  "send event e w =
     (case e_send e (w_tick w) of
        Acked \<Rightarrow> (Inr (), tick (store (record_of event) (others e w)))
      | Unacked m \<Rightarrow> (Inl (KafkaError m), tick (store (record_of event) (others e w)))
      | NotSent m \<Rightarrow> (Inl (KafkaError m), tick (others e w)))"

text \<open>\<open>Promise.allSettled(events.map(send))\<close>, and the first rejection in the order of the events.\<close>

fun sends :: "claimed_event list \<Rightarrow> (exn option) list prog" where
  "sends [] = returning []"
| "sends (event # events) =
     (\<lambda>e w. case send event e w of
        (r, w') \<Rightarrow> andThen (sends events)
          (\<lambda>rs. returning ((case r of Inl x \<Rightarrow> Some x | Inr _ \<Rightarrow> None) # rs)) e w')"

definition first_failure :: "exn option list \<Rightarrow> exn option" where
  "first_failure rs = (case filter (\<lambda>r. r \<noteq> None) rs of [] \<Rightarrow> None | r # _ \<Rightarrow> r)"

text \<open>\<open>error.message\<close>; the message of a \<open>TypeError\<close> is left abstract.\<close>

fun describe :: "exn \<Rightarrow> string" where
  "describe (DomainError st c msg details) = msg"
| "describe (DbError m) = m"
| "describe (KafkaError m) = m"
| "describe (HttpException st m) = m"
| "describe TypeError = ''TypeError''"

definition recordFailure :: "string \<Rightarrow> exn \<Rightarrow> unit prog" where
  "recordFailure eventId error =
     andThen (recordPublishFailure eventId (describe error)) (\<lambda>_. returning ())"

fun record_failures :: "string list \<Rightarrow> exn \<Rightarrow> unit prog" where
  "record_failures [] error = returning ()"
| "record_failures (i # rest) error = andThen (recordFailure i error) (\<lambda>_. record_failures rest error)"

definition connect :: "unit prog" where
  "connect e w =
     (if w_connected w then (Inr (), w)
      else case e_connect e (w_tick w) of
             Some m \<Rightarrow> (Inl (KafkaError m), tick w)
           | None \<Rightarrow> (Inr (), (tick w)\<lparr>w_connected := True\<rparr>))"

definition publish_events :: "claimed_event list \<Rightarrow> unit prog" where
  "publish_events events =
     andThen (sends events) (\<lambda>rs.
     case first_failure rs of
       Some reason \<Rightarrow>
         andThen (record_failures (map ce_eventId events) reason) (\<lambda>_. throwing reason)
     | None \<Rightarrow>
         catching (markEventsPublished (map ce_eventId events))
           (\<lambda>error. record_failures (map ce_eventId events) error))"

definition publish_body :: "unit prog" where
  "publish_body =
     andThen connect (\<lambda>_.
     andThen (claimPendingEvents 50) (\<lambda>events.
     if length events = 0 then returning () else publish_events events))"

definition publishBatch :: "unit prog" where
  "publishBatch e w =
     (if w_running w then (Inr (), w)
      else case publish_body e (w\<lparr>w_running := True\<rparr>) of
             (Inl _, w') \<Rightarrow> (Inr (), w'\<lparr>w_connected := False, w_running := False\<rparr>)
           | (Inr _, w') \<Rightarrow> (Inr (), w'\<lparr>w_running := False\<rparr>))"

end
