(* ===== verification/Outbox_Order.thy ===== *)
theory Outbox_Order
  imports Outbox
begin

text \<open>
  The publisher takes only the steps of \<open>Issue_Store\<close>, whatever statement or send fails and
  whatever other replicas and requests do meanwhile. Because the invariant of the steps
  orders the topic, the events of one issue are published in the order of its versions.
\<close>

section \<open>A claimed event stays first in line\<close>

lemma new_events_later:
  assumes inv: "db_inv d" "db_inv d'" and out: "t_outbox d' = map f (t_outbox d) @ evs" "keeps_envelope f"
    and x: "x \<in> set (t_outbox d)" and y: "y \<in> set evs" "o_aggregate_id y = o_aggregate_id x"
  shows "o_aggregate_version x < o_aggregate_version y"
proof -
  let ?a = "o_aggregate_id x" and ?sel = "\<lambda>ev. o_aggregate_id ev = o_aggregate_id x"
  have "f x \<in> set (t_outbox d')" using x out(1) by simp
  moreover have "o_aggregate_id (f x) = ?a" using out(2) by (simp add: envelope_fields)
  ultimately obtain r where r: "r \<in> set (t_issues d')" "r_id r = ?a"
    using inv(2) by (auto simp: db_inv_def)
  then have "map o_aggregate_version (issue_events ?a d') = [1..r_version r]"
    using inv(2) by (auto simp: db_inv_def issue_ok_def)
  moreover have "issue_events ?a d' = filter ?sel (map f (t_outbox d)) @ filter ?sel evs"
    by (simp add: issue_events_def out(1))
  ultimately have "sorted_wrt (<) (map o_aggregate_version (filter ?sel (map f (t_outbox d)))
      @ map o_aggregate_version (filter ?sel evs))"
    by (metis map_append sorted_wrt_upto)
  moreover have "f x \<in> set (filter ?sel (map f (t_outbox d)))"
    using x out(2) by (simp add: envelope_fields)
  moreover have "y \<in> set (filter ?sel evs)" using y by simp
  ultimately have "o_aggregate_version (f x) < o_aggregate_version y"
    by (auto simp: sorted_wrt_append simp del: filter_map)
  then show ?thesis using out(2) by (simp add: envelope_fields)
qed

text \<open>The event is in the outbox, and nothing of its issue waits before it.\<close>

definition in_line :: "claimed_event \<Rightarrow> db \<Rightarrow> bool" where
  "in_line event d \<longleftrightarrow>
     (\<exists>row\<in>set (t_outbox d). record_of event = message_of row \<and> first_in_line row d)"

lemma record_of_claimed: "record_of (claimed_of row) = message_of row"
  by (simp add: record_of_def claimed_of_def message_of_def)

lemma in_line_evolves:
  assumes "in_line event d" and ev: "evolves d d'" and inv: "db_inv d" "db_inv d'"
  shows "in_line event d'"
proof -
  obtain row where row: "row \<in> set (t_outbox d)" "record_of event = message_of row" "first_in_line row d"
    using assms(1) by (auto simp: in_line_def)
  obtain f evs where f: "keeps_envelope f" "t_outbox d' = map f (t_outbox d) @ evs"
    using ev by (auto simp: evolves_def)
  have "first_in_line (f row) d'"
    unfolding first_in_line_def
  proof (intro ballI impI)
    fix y
    assume y: "y \<in> set (t_outbox d')"
      "o_aggregate_id y = o_aggregate_id (f row) \<and> o_aggregate_version y < o_aggregate_version (f row)"
    from y(1) f(2) consider x where "x \<in> set (t_outbox d)" "y = f x" | "y \<in> set evs" by auto
    then show "o_published_at y \<noteq> None"
    proof cases
      case 1
      then have "o_published_at x \<noteq> None"
        using row(3) y(2) by (auto simp: first_in_line_def envelope_fields [OF f(1)])
      then show ?thesis using f(1) 1(2) by (auto simp: keeps_envelope_def)
    next
      case 2
      then have "o_aggregate_version row < o_aggregate_version y"
        using new_events_later [OF inv f(2,1) row(1)] y(2) by (simp add: envelope_fields [OF f(1)])
      then show ?thesis using y(2) by (simp add: envelope_fields [OF f(1)])
    qed
  qed
  moreover have "f row \<in> set (t_outbox d')" using row(1) f(2) by simp
  ultimately show ?thesis
    unfolding in_line_def using row(2)
    by (intro bexI [of _ "f row"]) (simp_all add: message_of_envelope [OF f(1)])
qed

lemma delivered_evolves: "delivered i d \<Longrightarrow> evolves d d' \<Longrightarrow> delivered i d'"
  by (auto simp: delivered_def evolves_def)

text \<open>What a batch knows of its events: the identifiers are UUIDs, and no two are of one issue.\<close>

definition batch_ok :: "claimed_event list \<Rightarrow> db \<Rightarrow> bool" where
  "batch_ok events d \<longleftrightarrow>
     (\<forall>event\<in>set events. in_line event d \<and> uuid_text (ce_eventId event))"

lemma stable_batch: "stable db_steps (\<lambda>d. db_inv d \<and> batch_ok events d)"
  unfolding stable_def batch_ok_def
  using db_steps_inv db_steps_evolves in_line_evolves by blast

lemma stable_delivered:
  "stable db_steps (\<lambda>d. db_inv d \<and> batch_ok events d \<and> (\<forall>i\<in>A. delivered i d))"
  using stable_batch [of events] db_steps_evolves delivered_evolves unfolding stable_def by blast

section \<open>The statements are steps\<close>

lemma claim_keeps_envelope:
  "keeps_envelope (\<lambda>row. if hit row then row\<lparr>o_next_attempt_at := t row\<rparr> else row)"
  by (simp add: keeps_envelope_def)

lemma claim_is_step:
  assumes "claim_stmt locked rank limit e now d = Inr (rows, d')"
  shows "db_step d d'"
  using assms
  by (auto simp: claim_stmt_def Let_def intro!: step_outbox claim_keeps_envelope split: if_splits)

lemma claim_rows:
  assumes "claim_stmt locked rank limit e now d = Inr (rows, d')" and inv: "db_inv d"
    and "row \<in> set rows"
  shows "\<exists>old\<in>set (t_outbox d). claimable now d old \<and> \<not> locked (o_event_id old) \<and>
    row = old\<lparr>o_next_attempt_at := now + seconds OUTBOX_CLAIM_LEASE_SECONDS\<rparr> \<and> row \<in> set (t_outbox d')"
proof -
  define chosen where "chosen = take limit (sort_key (\<lambda>row. Keyset (o_occurred_at row) (rank (o_event_id row)))
            (filter (\<lambda>row. claimable now d row \<and> \<not> locked (o_event_id row)) (t_outbox d)))"
  let ?upd = "\<lambda>row. row\<lparr>o_next_attempt_at := now + seconds OUTBOX_CLAIM_LEASE_SECONDS\<rparr>"
  have rows: "rows = map ?upd (filter (\<lambda>row. o_event_id row \<in> o_event_id ` set chosen) (t_outbox d))"
    and d': "d' = d\<lparr>t_outbox := map (\<lambda>row. if o_event_id row \<in> o_event_id ` set chosen then ?upd row else row) (t_outbox d)\<rparr>"
    using assms(1) by (simp_all add: claim_stmt_def chosen_def Let_def)
  obtain old where old: "old \<in> set (t_outbox d)" "o_event_id old \<in> o_event_id ` set chosen" "row = ?upd old"
    using assms(3) unfolding rows by auto
  have sub: "set chosen \<subseteq> {x \<in> set (t_outbox d). claimable now d x \<and> \<not> locked (o_event_id x)}"
    unfolding chosen_def by (auto dest: in_set_takeD)
  obtain x where x: "x \<in> set chosen" "o_event_id x = o_event_id old" using old(2) by auto
  have "distinct (map o_event_id (t_outbox d))" using inv by (simp add: db_inv_def)
  from distinct_map_eqD [OF this _ old(1) x(2)] x(1) sub have "x = old" by blast
  then have "claimable now d old \<and> \<not> locked (o_event_id old)" using x(1) sub by blast
  moreover have "row \<in> set (t_outbox d')" unfolding d' using old by (auto intro!: image_eqI [of _ _ old])
  ultimately show ?thesis using old by blast
qed

lemma claimable_first: "claimable now d row \<Longrightarrow> first_in_line row d"
  by (auto simp: claimable_def first_in_line_def)

lemma claim_batch:
  assumes run: "claim_stmt locked rank limit e now d = Inr (rows, d')" and inv: "db_inv d"
  shows "db_steps d d' \<and> db_inv d' \<and> batch_ok (map claimed_of rows) d'"
proof -
  have step: "db_step d d'" by (rule claim_is_step [OF run])
  then have inv': "db_inv d'" using inv by (rule db_step_inv)
  have "in_line (claimed_of row) d' \<and> uuid_text (o_event_id row)" if mem: "row \<in> set rows" for row
  proof -
    obtain old where old: "old \<in> set (t_outbox d)" "claimable now d old"
        "row = old\<lparr>o_next_attempt_at := now + seconds OUTBOX_CLAIM_LEASE_SECONDS\<rparr>" "row \<in> set (t_outbox d')"
      using claim_rows [OF run inv mem] by blast
    have "in_line (claimed_of old) d"
      using old(1) claimable_first [OF old(2)] by (auto simp: in_line_def record_of_claimed)
    then have "in_line (claimed_of old) d'"
      using in_line_evolves db_step_evolves [OF step inv] inv inv' by blast
    moreover have "record_of (claimed_of row) = record_of (claimed_of old)"
      by (simp add: record_of_def claimed_of_def old(3))
    moreover have "uuid_text (o_event_id row)" using inv' old(4) by (simp add: db_inv_def)
    ultimately show ?thesis by (simp add: in_line_def)
  qed
  then have "batch_ok (map claimed_of rows) d'" by (auto simp: batch_ok_def claimed_of_def)
  then show ?thesis using step inv' by auto
qed

lemma mark_keeps_envelope:
  "keeps_envelope (\<lambda>row. if P row then row\<lparr>o_published_at := Some t\<rparr> else row)"
  by (simp add: keeps_envelope_def)

lemma uuid_params_known:
  "pg_uuid e \<Longrightarrow> \<forall>i\<in>set ids. uuid_text i \<Longrightarrow> uuid_params e ids = Inr ids"
  by (induction ids) (simp_all add: uuid_param_def pg_uuid_text)

lemma mark_is_step:
  assumes run: "mark_stmt ids e now d = Inr (u, d')" and pg: "pg_uuid e"
    and ids: "\<forall>i\<in>set ids. uuid_text i" and sent: "\<forall>i\<in>set ids. delivered i d"
  shows "db_step d d'"
proof -
  have d': "d' = d\<lparr>t_outbox := map (\<lambda>row. if o_event_id row \<in> set ids
       then row\<lparr>o_published_at := Some now\<rparr> else row) (t_outbox d)\<rparr>"
    using run by (simp add: mark_stmt_def uuid_params_known [OF pg ids])
  show ?thesis unfolding d'
    by (rule step_outbox [OF mark_keeps_envelope]) (use sent in \<open>auto split: if_splits\<close>)
qed

lemma failure_is_step: "failure_stmt i error e now d = Inr (rows, d') \<Longrightarrow> db_step d d'"
  by (auto simp: failure_stmt_def try_then_Inr_iff Let_def keeps_envelope_def
      intro!: step_outbox split: if_splits)

section \<open>The publisher's programs\<close>

definition sending :: "claimed_event list \<Rightarrow> string set \<Rightarrow> db \<Rightarrow> bool" where
  "sending events A d \<longleftrightarrow> db_inv d \<and> batch_ok events d \<and> (\<forall>i\<in>A. delivered i d)"

lemma stable_sending: "stable db_steps (sending events A)"
  unfolding sending_def [abs_def] by (rule stable_delivered)

lemma others_steps: "issue_env e \<Longrightarrow> db_steps (w_db w) (w_db (others e w))"
  by (simp add: issue_env_def)

lemma store_simps [simp]:
  "w_db (store m w) = (w_db w)\<lparr>t_topic := t_topic (w_db w) @ [m]\<rparr>" "w_tx (store m w) = w_tx w"
  by (simp_all add: store_def)

lemma store_is_step:
  assumes "sending events A (w_db w)" and "event \<in> set events"
  shows "db_step (w_db w) (w_db (store (record_of event) w))"
    and "sending events (insert (ce_eventId event) A) (w_db (store (record_of event) w))"
proof -
  obtain row where row: "row \<in> set (t_outbox (w_db w))" "record_of event = message_of row"
      "first_in_line row (w_db w)"
    using assms by (auto simp: sending_def batch_ok_def in_line_def)
  show step: "db_step (w_db w) (w_db (store (record_of event) w))"
    using step_deliver [OF row(1,3)] row(2) by simp
  have "delivered (ce_eventId event) (w_db (store (record_of event) w))"
    by (simp add: delivered_def record_of_def)
  moreover have "sending events A (w_db (store (record_of event) w))"
    using stableD [OF stable_sending assms(1)] step by blast
  ultimately show "sending events (insert (ce_eventId event) A) (w_db (store (record_of event) w))"
    by (simp add: sending_def)
qed

lemma send_effect:
  assumes "issue_env e" "sending events A (w_db w)" "event \<in> set events" and run: "send event e w = (r, w')"
  shows "w_tx w' = w_tx w \<and> db_steps (w_db w) (w_db w') \<and>
    sending events (if r = Inr () then insert (ce_eventId event) A else A) (w_db w')"
proof -
  let ?v = "others e w"
  have o: "db_steps (w_db w) (w_db ?v)" by (rule others_steps [OF assms(1)])
  have s: "sending events A (w_db ?v)" by (rule stableD [OF stable_sending assms(2) o])
  note st = store_is_step [OF s assms(3)]
  have all: "db_steps (w_db w) (w_db (store (record_of event) ?v))" using o st(1) by simp
  show ?thesis
  proof (cases "e_send e (w_tick w)")
    case Acked
    then show ?thesis using run st(2) all by (auto simp: send_def)
  next
    case (Unacked m)
    then show ?thesis using run st(2) all by (auto simp: send_def sending_def)
  next
    case (NotSent m)
    then show ?thesis using run s o by (auto simp: send_def)
  qed
qed

lemma first_failure_Cons [simp]:
  "first_failure (None # rs) = first_failure rs" "first_failure (Some x # rs) = Some x"
  by (simp_all add: first_failure_def)

lemma first_failure_Nil [simp]: "first_failure [] = None"
  by (simp add: first_failure_def)

lemma sends_effect:
  assumes "issue_env e" "set todo \<subseteq> set events" "sending events A (w_db w)" "sends todo e w = (r, w')"
  shows "w_tx w' = w_tx w \<and> db_steps (w_db w) (w_db w') \<and> sending events A (w_db w') \<and>
    (\<exists>rs. r = Inr rs \<and> (first_failure rs = None \<longrightarrow> sending events (A \<union> ce_eventId ` set todo) (w_db w')))"
  using assms(2-)
proof (induction todo arbitrary: A w r w')
  case Nil
  then show ?case by auto
next
  case (Cons event todo)
  obtain s v where s: "send event e w = (s, v)" by (cases "send event e w") auto
  let ?A = "if s = Inr () then insert (ce_eventId event) A else A"
  have h: "w_tx v = w_tx w" "db_steps (w_db w) (w_db v)" "sending events ?A (w_db v)"
    using send_effect [OF assms(1) Cons.prems(2) _ s] Cons.prems(1) by auto
  obtain q u where q: "sends todo e v = (q, u)" by (cases "sends todo e v") auto
  have "set todo \<subseteq> set events" using Cons.prems(1) by simp
  from Cons.IH [OF this h(3) q] obtain rs where k: "w_tx u = w_tx v" "db_steps (w_db v) (w_db u)"
      "sending events ?A (w_db u)" "q = Inr rs"
      "first_failure rs = None \<longrightarrow> sending events (?A \<union> ce_eventId ` set todo) (w_db u)" by auto
  have run: "r = Inr ((case s of Inl x \<Rightarrow> Some x | Inr _ \<Rightarrow> None) # rs)" "w' = u"
    using Cons.prems(3) s q k(4) by (auto simp: andThen_def)
  have "sending events A (w_db u)" using k(3) by (auto simp: sending_def split: if_splits)
  moreover have "sending events (A \<union> ce_eventId ` set (event # todo)) (w_db u)"
    if "first_failure ((case s of Inl x \<Rightarrow> Some x | Inr _ \<Rightarrow> None) # rs) = None"
    using that k(5) by (cases s) auto
  ultimately show ?case using h k run rtranclp_trans by auto
qed

lemma recordPublishFailure_runs:
  "runs db_steps issue_env db_inv (recordPublishFailure i msg) (\<lambda>_. db_inv)"
  unfolding recordPublishFailure_def Let_def
  by (intro issue_protocol.runs_andThen [where M = "\<lambda>_. db_inv"] issue_protocol.runs_query stable_inv
      issue_protocol.runs_returning)
    (auto dest!: failure_is_step intro: db_step_inv)

lemma record_failures_runs: "runs db_steps issue_env db_inv (record_failures ids x) (\<lambda>_. db_inv)"
proof (induction ids)
  case Nil
  show ?case unfolding record_failures.simps by (rule issue_protocol.runs_returning)
next
  case (Cons i ids)
  have "runs db_steps issue_env db_inv (recordFailure i x) (\<lambda>_. db_inv)"
    unfolding recordFailure_def
    by (rule issue_protocol.runs_andThen [OF recordPublishFailure_runs]) (auto intro: issue_protocol.runs_returning)
  then show ?case unfolding record_failures.simps using Cons.IH by (rule issue_protocol.runs_andThen)
qed

lemma sending_inv: "sending events A d \<Longrightarrow> db_inv d"
  by (simp add: sending_def)

lemma mark_runs:
  "runs db_steps issue_env (sending events (ce_eventId ` set events))
     (markEventsPublished (map ce_eventId events)) (\<lambda>_. db_inv)"
  unfolding markEventsPublished_def
proof (rule issue_protocol.runs_query [OF stable_sending])
  fix e now d a d'
  assume h: "issue_env e" "sending events (ce_eventId ` set events) d"
    "mark_stmt (map ce_eventId events) e now d = Inr (a, d')"
  have "db_step d d'"
    by (rule mark_is_step [OF h(3)]) (use h(1,2) in \<open>auto simp: issue_env_def sending_def batch_ok_def\<close>)
  then show "db_steps d d' \<and> db_inv d'" using h(2) by (auto intro: db_step_inv sending_inv)
qed

lemma publish_events_runs:
  "runs db_steps issue_env (sending events {}) (publish_events events) (\<lambda>_. db_inv)"
  unfolding publish_events_def
proof (rule issue_protocol.runs_andThen)
  show "runs db_steps issue_env (sending events {}) (sends events)
      (\<lambda>rs. if first_failure rs = None then sending events (ce_eventId ` set events) else db_inv)"
  proof (rule runsI)
    fix e w r w'
    assume h: "issue_env e" "w_tx w = None" "sending events {} (w_db w)" "sends events e w = (r, w')"
    from sends_effect [OF h(1) subset_refl h(3,4)] h(2)
    show "w_tx w' = None \<and> db_steps (w_db w) (w_db w') \<and>
        (\<forall>a. r = Inr a \<longrightarrow> (if first_failure a = None then sending events (ce_eventId ` set events) else db_inv) (w_db w'))"
      by (auto dest: sending_inv)
  qed
next
  fix rs
  show "runs db_steps issue_env
      (if first_failure rs = None then sending events (ce_eventId ` set events) else db_inv)
      (case first_failure rs of
         Some reason \<Rightarrow> andThen (record_failures (map ce_eventId events) reason) (\<lambda>_. throwing reason)
       | None \<Rightarrow> catching (markEventsPublished (map ce_eventId events))
           (\<lambda>error. record_failures (map ce_eventId events) error)) (\<lambda>_. db_inv)"
  proof (cases "first_failure rs")
    case None
    have "runs db_steps issue_env (sending events (ce_eventId ` set events))
        (record_failures (map ce_eventId events) x) (\<lambda>_. db_inv)" for x
      by (rule issue_protocol.runs_weaken [OF record_failures_runs]) (auto dest: sending_inv)
    then show ?thesis using None mark_runs by (auto intro: issue_protocol.runs_catching stable_sending)
  next
    case (Some x)
    then show ?thesis
      by (auto intro: issue_protocol.runs_andThen [OF record_failures_runs] issue_protocol.runs_throwing)
  qed
qed

lemma claim_runs:
  "runs db_steps issue_env db_inv (claimPendingEvents limit) (\<lambda>events. sending events {})"
  unfolding claimPendingEvents_def
proof (rule issue_protocol.runs_andThen)
  show "runs db_steps issue_env db_inv current_tick (\<lambda>_. db_inv)"
    by (rule issue_protocol.runs_current_tick) simp
next
  fix n
  show "runs db_steps issue_env db_inv
      (andThen (ask (\<lambda>e. (e_locked e n, e_rank e n))) (\<lambda>choice.
       andThen (query (claim_stmt (fst choice) (snd choice) limit)) (\<lambda>rows.
       returning (map claimed_of (sort_key (\<lambda>row. Keyset (o_occurred_at row div 1000) (o_event_id row)) rows)))))
      (\<lambda>events. sending events {})"
    by (intro issue_protocol.runs_andThen [where M = "\<lambda>_. db_inv"]
        issue_protocol.runs_andThen [where M = "\<lambda>rows d. db_inv d \<and> batch_ok (map claimed_of rows) d"]
        issue_protocol.runs_ask issue_protocol.runs_query stable_inv issue_protocol.runs_returning)
      (auto dest: claim_batch simp: sending_def batch_ok_def)
qed

lemma publish_body_runs: "runs db_steps issue_env db_inv publish_body (\<lambda>_. db_inv)"
  unfolding publish_body_def
proof (rule issue_protocol.runs_andThen)
  show "runs db_steps issue_env db_inv connect (\<lambda>_. db_inv)"
    by (rule runsI) (auto simp: connect_def split: if_splits option.splits)
next
  fix u :: unit
  show "runs db_steps issue_env db_inv (andThen (claimPendingEvents 50)
      (\<lambda>events. if length events = 0 then returning () else publish_events events)) (\<lambda>_. db_inv)"
    using publish_events_runs
    by (intro issue_protocol.runs_andThen [OF claim_runs])
      (auto intro: issue_protocol.runs_returning sending_inv)
qed

lemma publishBatch_runs: "runs db_steps issue_env db_inv publishBatch (\<lambda>_. db_inv)"
proof (rule runsI)
  fix e w r w'
  assume h: "issue_env e" "w_tx w = None" "db_inv (w_db w)" "publishBatch e w = (r, w')"
  let ?w = "w\<lparr>w_running := True\<rparr>"
  obtain s v where s: "publish_body e ?w = (s, v)" by (cases "publish_body e ?w") auto
  have pre: "w_tx ?w = None" "db_inv (w_db ?w)" using h by simp_all
  note k = runsD [OF publish_body_runs h(1) pre s]
  have "w_db w' = w_db w \<and> w_tx w' = None \<or> w_db w' = w_db v \<and> w_tx w' = None"
    using h(2,4) s k(1) by (cases s) (auto simp: publishBatch_def split: if_splits)
  then have "w_tx w' = None" "db_steps (w_db w) (w_db w')" using k(2) by auto
  then show "w_tx w' = None \<and> db_steps (w_db w) (w_db w') \<and> (\<forall>a. r = Inr a \<longrightarrow> db_inv (w_db w'))"
    using db_steps_inv h(3) by blast
qed

end
