(* ===== verification/Outbox_Properties.thy ===== *)
theory Outbox_Properties
  imports Outbox_Order
begin

text \<open>
  The promises of the outbox (ADR 0004): per-issue order, leases, retry budget, blocking of
  an issue behind an abandoned event, and progress when nothing fails.
\<close>

section \<open>The rows of a claim\<close>

lemma claim_ids:
  assumes run: "claim_stmt locked rank limit e now d = Inr (rows, d')" and inv: "db_inv d"
  shows "distinct (map o_event_id rows) \<and> length rows \<le> limit"
proof -
  define chosen where "chosen = take limit (sort_key (\<lambda>row. Keyset (o_occurred_at row) (rank (o_event_id row)))
            (filter (\<lambda>row. claimable now d row \<and> \<not> locked (o_event_id row)) (t_outbox d)))"
  have ids: "map o_event_id rows = map o_event_id (filter (\<lambda>row. o_event_id row \<in> o_event_id ` set chosen) (t_outbox d))"
    using run by (auto simp: claim_stmt_def chosen_def Let_def)
  have dist: "distinct (map o_event_id rows)" unfolding ids using inv by (simp add: db_inv_def distinct_map_filter)
  have "length rows = card (set (map o_event_id rows))"
    using distinct_card [OF dist] by simp
  also have "\<dots> \<le> card (o_event_id ` set chosen)"
    unfolding ids by (rule card_mono) auto
  also have "\<dots> \<le> length chosen" by (rule le_trans [OF card_image_le [OF finite_set] card_length])
  also have "\<dots> \<le> limit" by (simp add: chosen_def)
  finally show ?thesis using dist by simp
qed

lemma claim_complete:
  assumes run: "claim_stmt locked rank limit e now d = Inr (rows, d')"
    and "length rows < limit" and inv: "db_inv d"
    and row: "row \<in> set (t_outbox d)" "claimable now d row" "\<not> locked (o_event_id row)"
  shows "o_event_id row \<in> o_event_id ` set rows"
proof -
  let ?cands = "filter (\<lambda>row. claimable now d row \<and> \<not> locked (o_event_id row)) (t_outbox d)"
  let ?sorted = "sort_key (\<lambda>row. Keyset (o_occurred_at row) (rank (o_event_id row))) ?cands"
  have ids: "map o_event_id rows = map o_event_id (filter (\<lambda>row. o_event_id row \<in> o_event_id ` set (take limit ?sorted)) (t_outbox d))"
    using run by (auto simp: claim_stmt_def Let_def)
  have sub: "set (take limit ?sorted) \<subseteq> set (t_outbox d)" by (auto dest: in_set_takeD)
  have "o_event_id ` set rows = o_event_id ` set (filter (\<lambda>row. o_event_id row \<in> o_event_id ` set (take limit ?sorted)) (t_outbox d))"
    using ids by (metis list.set_map)
  then have set: "o_event_id ` set rows = o_event_id ` set (take limit ?sorted)" using sub by auto
  have "distinct (map o_event_id (take limit ?sorted))"
  proof -
    have "distinct (map o_event_id ?cands)" using inv by (simp add: db_inv_def distinct_map_filter)
    then have "distinct (map o_event_id ?sorted)" by (simp add: distinct_map)
    then show ?thesis unfolding take_map [symmetric] by (rule distinct_take)
  qed
  then have "length (take limit ?sorted) = card (o_event_id ` set rows)"
    unfolding set using distinct_card [of "map o_event_id (take limit ?sorted)"] by simp
  also have "\<dots> \<le> length rows" by (rule le_trans [OF card_image_le [OF finite_set] card_length])
  finally have "length ?sorted < limit" using assms(2) by simp
  then have "take limit ?sorted = ?sorted" by simp
  then show ?thesis unfolding set using row by simp
qed

lemma claimable_unique:
  assumes "db_inv d" and "x \<in> set (t_outbox d)" "y \<in> set (t_outbox d)" "claimable now d x" "claimable now d y"
    and "o_aggregate_id x = o_aggregate_id y"
  shows "x = y"
proof -
  have "\<not> o_aggregate_version x < o_aggregate_version y" "\<not> o_aggregate_version y < o_aggregate_version x"
    using assms(2-) by (auto simp: claimable_def)
  then have v: "o_aggregate_version x = o_aggregate_version y" by simp
  obtain r where "r \<in> set (t_issues d)" "r_id r = o_aggregate_id x"
    using assms(1,2) by (auto simp: db_inv_def)
  then have "map o_aggregate_version (issue_events (o_aggregate_id x) d) = [1..r_version r]"
    using assms(1) by (auto simp: db_inv_def issue_ok_def)
  then have "distinct (map o_aggregate_version (issue_events (o_aggregate_id x) d))" by simp
  then show ?thesis
    by (rule distinct_map_eqD) (use assms v in \<open>simp_all add: issue_events_def\<close>)
qed

lemma seconds_simps [simp]: "seconds n \<le> seconds m \<longleftrightarrow> n \<le> m" "seconds n < seconds m \<longleftrightarrow> n < m"
  by (simp_all add: seconds_def)

section \<open>Properties\<close>

text \<open>
  C4: Events of one issue reach the topic in the order of its versions. Whatever statements
  and sends fail during a poll of the publisher, and whatever requests and other publishers
  commit meanwhile, afterwards every record in the topic is preceded by a record of each
  event of the same issue with a lower version, and an event is marked published only if
  the topic has it.
\<close>

theorem publisher_keeps_issue_order:
  assumes "issue_env e" and "w_tx w = None" and "db_inv (w_db w)" and "publishBatch e w = (r, w')"
  shows "(\<forall>i<length (t_topic (w_db w')). \<forall>ev\<in>set (t_outbox (w_db w')).
        o_aggregate_id ev = k_aggregateId (t_topic (w_db w') ! i) \<and>
        o_aggregate_version ev < k_aggregateVersion (t_topic (w_db w') ! i) \<longrightarrow>
        (\<exists>j<i. k_eventId (t_topic (w_db w') ! j) = o_event_id ev)) \<and>
    (\<forall>ev\<in>set (t_outbox (w_db w')). o_published_at ev \<noteq> None \<longrightarrow>
        o_event_id ev \<in> k_eventId ` set (t_topic (w_db w')))"
proof -
  have "db_inv (w_db w')"
    using runsD(2) [OF publishBatch_runs assms] assms(3) by (rule db_steps_inv)
  then show ?thesis by (simp add: db_inv_def topic_ok_def delivered_def)
qed

theorem publisher_keeps_issue_order_witness:
  "o_event_id ` set (filter (\<lambda>ev. o_published_at ev \<noteq> None) (t_outbox (w_db (snd (publishBatch example_env world2)))))
     \<subseteq> k_eventId ` set (t_topic (w_db (snd (publishBatch example_env world2))))"
proof -
  have "w_tx world2 = None" "db_inv (w_db world2)" by (simp_all add: world2_def example_dbs)
  from publisher_keeps_issue_order [OF example_issue_env this surjective_pairing]
  show ?thesis by (auto simp del: not_None_eq)
qed

text \<open>
  A claim takes at most the given number of events, at most one per issue, each the
  earliest unpublished event of its issue with attempts left, and all of them if the number
  is not reached. It leases them for 30 seconds: no claim before the lease ends takes one of
  them again.
\<close>

theorem claim_leases_heads:
  assumes run: "claim_stmt locked rank limit e now d = Inr (rows, d')" and inv: "db_inv d"
  shows "length rows \<le> limit \<and> distinct (map o_aggregate_id rows) \<and>
    (\<forall>row\<in>set rows. o_published_at row = None \<and> o_publish_attempts row < 20 \<and> first_in_line row d \<and>
       o_next_attempt_at row = now + seconds 30) \<and>
    (length rows < limit \<longrightarrow> (\<forall>row\<in>set (t_outbox d). claimable now d row \<and> \<not> locked (o_event_id row) \<longrightarrow>
       o_event_id row \<in> o_event_id ` set rows)) \<and>
    (\<forall>now2 locked2 rank2 limit2 rows2 d2. now2 < now + seconds 30 \<longrightarrow>
       claim_stmt locked2 rank2 limit2 e now2 d' = Inr (rows2, d2) \<longrightarrow>
       o_event_id ` set rows \<inter> o_event_id ` set rows2 = {})"
proof -
  have inv': "db_inv d'" using claim_batch [OF run inv] by simp
  have each: "\<exists>old\<in>set (t_outbox d). claimable now d old \<and>
      row = old\<lparr>o_next_attempt_at := now + seconds 30\<rparr> \<and> row \<in> set (t_outbox d')"
    if "row \<in> set rows" for row
    using claim_rows [OF run inv that] by (auto simp: OUTBOX_CLAIM_LEASE_SECONDS_def)
  have "distinct (map o_aggregate_id rows)"
  proof -
    have "x = y" if xy: "x \<in> set rows" "y \<in> set rows" "o_aggregate_id x = o_aggregate_id y" for x y
    proof -
      obtain a b where "a \<in> set (t_outbox d)" "claimable now d a" "x = a\<lparr>o_next_attempt_at := now + seconds 30\<rparr>"
        "b \<in> set (t_outbox d)" "claimable now d b" "y = b\<lparr>o_next_attempt_at := now + seconds 30\<rparr>"
        using each [OF xy(1)] each [OF xy(2)] by blast
      with claimable_unique [OF inv, of a b now] xy(3) show ?thesis by simp
    qed
    moreover have "distinct rows" using claim_ids [OF run inv] by (simp add: distinct_map)
    ultimately show ?thesis by (auto simp: distinct_map inj_on_def)
  qed
  moreover have "o_published_at row = None \<and> o_publish_attempts row < 20 \<and> first_in_line row d \<and>
       o_next_attempt_at row = now + seconds 30" if "row \<in> set rows" for row
    using each [OF that]
    by (auto simp: claimable_def first_in_line_def OUTBOX_MAX_PUBLISH_ATTEMPTS_def)
  moreover have "o_event_id ` set rows \<inter> o_event_id ` set rows2 = {}"
    if "now2 < now + seconds 30" and run2: "claim_stmt locked2 rank2 limit2 e now2 d' = Inr (rows2, d2)"
    for now2 locked2 rank2 limit2 rows2 d2
  proof (rule ccontr)
    assume "o_event_id ` set rows \<inter> o_event_id ` set rows2 \<noteq> {}"
    then obtain x y where xy: "x \<in> set rows" "y \<in> set rows2" "o_event_id x = o_event_id y" by auto
    obtain old where old: "old \<in> set (t_outbox d')" "claimable now2 d' old" "o_event_id old = o_event_id y"
      using claim_rows [OF run2 inv' xy(2)] by auto
    obtain "x \<in> set (t_outbox d')" "o_next_attempt_at x = now + seconds 30" using each [OF xy(1)] by auto
    moreover have "distinct (map o_event_id (t_outbox d'))" using inv' by (simp add: db_inv_def)
    ultimately have "old = x" using old(1,3) xy(3) by (auto dest: distinct_map_eqD)
    then show False using old(2) \<open>o_next_attempt_at x = _\<close> that(1) by (simp add: claimable_def)
  qed
  ultimately show ?thesis using claim_ids [OF run inv] claim_complete [OF run _ inv] by blast
qed

theorem claim_leases_heads_witness:
  "length (fst (projr (claim_stmt (\<lambda>_. False) (\<lambda>i. i) 1 example_env 1767225610000000 db2))) = 1 \<and>
   length (fst (projr (claim_stmt (\<lambda>_. False) (\<lambda>i. i) 1 example_env 1767225610000000 db2))) \<le> 1"
proof -
  obtain rows d' where run: "claim_stmt (\<lambda>_. False) (\<lambda>i. i) 1 example_env 1767225610000000 db2 = Inr (rows, d')"
    by (simp add: claim_stmt_def Let_def)
  have "length (fst (projr (claim_stmt (\<lambda>_. False) (\<lambda>i. i) 1 example_env 1767225610000000 db2))) = 1"
    by code_simp
  then show ?thesis using claim_leases_heads [OF run example_dbs(1)] by (simp add: run)
qed

text \<open>
  The retry backoff doubles from one second and never exceeds five minutes, so the 20
  attempts of an event span 3,811 seconds of broker unavailability, about an hour.
\<close>

theorem backoff_budget:
  "(\<forall>n. seconds 1 \<le> backoff n \<and> backoff n \<le> seconds 300 \<and> backoff n \<le> backoff (n + 1)) \<and>
   map backoff [0..<9] = map (\<lambda>n. seconds (2 ^ n)) [0..<9] \<and>
   sum_list (map backoff [0..<OUTBOX_MAX_PUBLISH_ATTEMPTS]) = seconds 3811"
proof (intro conjI allI impI)
  fix n :: nat
  have "(1::int) \<le> 2 ^ min n 20" by simp
  then show "seconds 1 \<le> backoff n" by (simp add: backoff_def)
  show "backoff n \<le> seconds 300" by (simp add: backoff_def)
  have "(2::int) ^ min n 20 \<le> 2 ^ min (n + 1) 20" by (rule power_increasing) simp_all
  then have "seconds (2 ^ min n 20) \<le> seconds (2 ^ min (n + 1) 20)" by simp
  then show "backoff n \<le> backoff (n + 1)" unfolding backoff_def by linarith
next
  show "map backoff [0..<9] = map (\<lambda>n. seconds (2 ^ n)) [0..<9]" by code_simp
next
  show "sum_list (map backoff [0..<OUTBOX_MAX_PUBLISH_ATTEMPTS]) = seconds 3811" by code_simp
qed

text \<open>
  C38: An event that has used up its 20 attempts is not claimed again, and neither is any
  later event of the same issue, until an operator changes the row. Events of other issues are
  not held back by it: a claim that does not fill its limit takes every event of another issue
  that is unpublished, has attempts left, is due, is not locked by another session and has no
  unpublished predecessor in its own issue.
\<close>

theorem abandoned_event_blocks_issue:
  assumes run: "claim_stmt locked rank limit e now d = Inr (rows, d')" and inv: "db_inv d"
    and ev: "ev \<in> set (t_outbox d)" "o_published_at ev = None" "o_publish_attempts ev \<ge> 20"
  shows "(\<forall>row\<in>set rows. \<not> (o_aggregate_id row = o_aggregate_id ev \<and>
      o_aggregate_version ev \<le> o_aggregate_version row)) \<and>
    (length rows < limit \<longrightarrow>
      (\<forall>row\<in>set (t_outbox d). o_aggregate_id row \<noteq> o_aggregate_id ev \<and> o_published_at row = None \<and>
         o_publish_attempts row < 20 \<and> o_next_attempt_at row \<le> now \<and> \<not> locked (o_event_id row) \<and>
         (\<forall>x\<in>set (t_outbox d). o_aggregate_id x = o_aggregate_id row \<and>
            o_aggregate_version x < o_aggregate_version row \<longrightarrow> o_published_at x \<noteq> None) \<longrightarrow>
         o_event_id row \<in> o_event_id ` set rows))"
proof (intro conjI ballI notI impI)
  fix row
  assume "row \<in> set rows" and same: "o_aggregate_id row = o_aggregate_id ev \<and> o_aggregate_version ev \<le> o_aggregate_version row"
  then obtain old where old: "old \<in> set (t_outbox d)" "claimable now d old"
      "o_aggregate_id old = o_aggregate_id ev" "o_aggregate_version ev \<le> o_aggregate_version old"
    using claim_rows [OF run inv] by fastforce
  then have v: "o_aggregate_version ev = o_aggregate_version old" using ev by (auto simp: claimable_def)
  obtain r where "r \<in> set (t_issues d)" "r_id r = o_aggregate_id ev"
    using inv ev(1) by (auto simp: db_inv_def)
  then have "map o_aggregate_version (issue_events (o_aggregate_id ev) d) = [1..r_version r]"
    using inv by (auto simp: db_inv_def issue_ok_def)
  then have "distinct (map o_aggregate_version (issue_events (o_aggregate_id ev) d))" by simp
  then have "old = ev" by (rule distinct_map_eqD) (use old ev v in \<open>simp_all add: issue_events_def\<close>)
  then show False using old(2) ev(3) by (simp add: claimable_def OUTBOX_MAX_PUBLISH_ATTEMPTS_def)
next
  fix row
  assume h: "length rows < limit" "row \<in> set (t_outbox d)" "o_aggregate_id row \<noteq> o_aggregate_id ev \<and>
      o_published_at row = None \<and> o_publish_attempts row < 20 \<and> o_next_attempt_at row \<le> now \<and>
      \<not> locked (o_event_id row) \<and> (\<forall>x\<in>set (t_outbox d). o_aggregate_id x = o_aggregate_id row \<and>
            o_aggregate_version x < o_aggregate_version row \<longrightarrow> o_published_at x \<noteq> None)"
  then have "claimable now d row" by (auto simp: claimable_def OUTBOX_MAX_PUBLISH_ATTEMPTS_def)
  then show "o_event_id row \<in> o_event_id ` set rows" using claim_complete [OF run h(1) inv h(2)] h(3) by blast
qed

definition db_stuck :: db where
  "db_stuck = db2\<lparr>t_outbox := map (\<lambda>ev. if o_event_id ev = uuid_of_nat 1
     then ev\<lparr>o_publish_attempts := 20\<rparr> else ev) (t_outbox db2)\<rparr>"

lemma db_stuck_outbox: "t_outbox db_stuck = [(example_event 1)\<lparr>o_publish_attempts := 20\<rparr>, example_event 2]"
proof -
  have "uuid_of_nat 2 \<noteq> uuid_of_nat 1" using uuid_of_nat_inj [of 2 1] by auto
  then show ?thesis by (simp add: db_stuck_def db2_def Let_def example_event_def empty_db_def numeral_2_eq_2)
qed

theorem abandoned_event_blocks_issue_witness:
  "filter (\<lambda>row. o_aggregate_id row = uuid_of_nat 1 \<and> 1 \<le> o_aggregate_version row)
     (fst (projr (claim_stmt (\<lambda>_. False) (\<lambda>i. i) 50 example_env 1767225610000000 db_stuck))) = [] \<and>
   uuid_of_nat 2 \<in> o_event_id ` set (fst (projr (claim_stmt (\<lambda>_. False) (\<lambda>i. i) 50 example_env 1767225610000000 db_stuck)))"
proof -
  let ?d = "db_stuck"
  obtain rows d' where run: "claim_stmt (\<lambda>_. False) (\<lambda>i. i) 50 example_env 1767225610000000 ?d = Inr (rows, d')"
    by (simp add: claim_stmt_def Let_def)
  have "db_step db2 ?d" unfolding db_stuck_def by (rule step_outbox) (auto simp: keeps_envelope_def)
  then have inv: "db_inv ?d" using example_dbs(1) by (rule db_step_inv)
  have ev: "(example_event 1)\<lparr>o_publish_attempts := 20\<rparr> \<in> set (t_outbox ?d)" by (simp add: db_stuck_outbox)
  have apart: "uuid_of_nat 2 \<noteq> uuid_of_nat 1" using uuid_of_nat_inj [of 2 1] by auto
  have "length (fst (projr (claim_stmt (\<lambda>_. False) (\<lambda>i. i) 50 example_env 1767225610000000 db_stuck))) = 1" by code_simp
  then have "length rows < 50" by (simp add: run)
  with abandoned_event_blocks_issue [OF run inv ev] show ?thesis
    using apart by (simp add: run example_event_def filter_empty_conv db_stuck_outbox image_iff)
qed

end
