(* ===== verification/Url.thy ===== *)
theory Url
  imports Codec
begin

text \<open>
  \<open>encodeURIComponent\<close> and \<open>decodeURIComponent\<close>, which the HTTP clients and the refresh
  cookie use, on the texts of this development (UTF-16 units below 256).
\<close>

definition url_unreserved :: "char \<Rightarrow> bool" where
  "url_unreserved c \<longleftrightarrow>
     is_digit c \<or> 65 \<le> code c \<and> code c \<le> 90 \<or> 97 \<le> code c \<and> code c \<le> 122 \<or>
     code c \<in> {45, 95, 46, 33, 126, 42, 39, 40, 41}"

definition hex_upper :: "nat \<Rightarrow> char" where
  "hex_upper n = (if n < 10 then char_of (48 + n) else char_of (55 + n))"

definition percent_byte :: "nat \<Rightarrow> string" where
  "percent_byte b = [CHR ''%'', hex_upper (b div 16), hex_upper (b mod 16)]"

definition encodeURIComponent :: "string \<Rightarrow> string" where
  "encodeURIComponent s =
     concat (map (\<lambda>c. if url_unreserved c then [c] else concat (map percent_byte (utf8_char c))) s)"

definition hex_val :: "char \<Rightarrow> nat option" where
  "hex_val c =
     (if is_digit c then Some (digit_val c) else if 65 \<le> code c \<and> code c \<le> 70 then Some (code c - 55)
      else if 97 \<le> code c \<and> code c \<le> 102 then Some (code c - 87) else None)"

text \<open>
  \<open>None\<close> is a thrown \<open>URIError\<close>, or a result with a code point above 255; unescaped
  characters stand for themselves.
\<close>

fun decodeURIComponent :: "string \<Rightarrow> string option" where
  "decodeURIComponent [] = Some []"
| "decodeURIComponent (c # cs) =
     (if c \<noteq> CHR ''%'' then map_option ((#) c) (decodeURIComponent cs)
      else (case cs of
              h # l # rest \<Rightarrow>
                (case (hex_val h, hex_val l) of
                   (Some a, Some b) \<Rightarrow>
                     (if 16 * a + b < 128 then map_option ((#) (char_of (16 * a + b))) (decodeURIComponent rest)
                      else if 16 * a + b = 194 \<or> 16 * a + b = 195 then
                        (case rest of
                           p # h2 # l2 # rest2 \<Rightarrow>
                             (case (hex_val h2, hex_val l2) of
                                (Some a2, Some b2) \<Rightarrow>
                                  if p = CHR ''%'' \<and> 128 \<le> 16 * a2 + b2 \<and> 16 * a2 + b2 < 192
                                  then map_option ((#) (char_of ((16 * a + b - 192) * 64 + (16 * a2 + b2 - 128))))
                                         (decodeURIComponent rest2)
                                  else None
                              | _ \<Rightarrow> None)
                         | _ \<Rightarrow> None)
                      else None)
                 | _ \<Rightarrow> None)
            | _ \<Rightarrow> None))"

lemma hex_val_upper: "n < 16 \<Longrightarrow> hex_val (hex_upper n) = Some n"
  by (auto simp: hex_val_def hex_upper_def is_digit_def digit_val_def)

lemma unreserved_not_percent: "url_unreserved c \<Longrightarrow> c \<noteq> CHR ''%''"
  by (auto simp: url_unreserved_def is_digit_def code_def)

lemma decode_encoded_char:
  "decodeURIComponent ((if url_unreserved c then [c] else concat (map percent_byte (utf8_char c))) @ cs) =
     map_option ((#) c) (decodeURIComponent cs)"
proof (cases "url_unreserved c")
  case True
  then show ?thesis using unreserved_not_percent [OF True] by simp
next
  case False
  show ?thesis
  proof (cases "code c < 128")
    case True
    then have "code c div 16 < 16" "code c mod 16 < 16" by simp_all
    moreover have "16 * (code c div 16) + code c mod 16 = code c" by simp
    ultimately show ?thesis using False True by (simp add: utf8_char_def percent_byte_def hex_val_upper)
  next
    case hi: False
    let ?a = "192 + code c div 64" and ?b = "128 + code c mod 64"
    have c: "code c < 256" by simp
    then have q: "code c div 64 = 2 \<or> code c div 64 = 3" using hi by linarith
    then have a: "?a = 194 \<or> ?a = 195" "?a div 16 < 16" by auto
    have m: "code c mod 64 < 64" by simp
    then have b: "?b div 16 < 16" "?b < 192" "128 \<le> ?b" by (simp_all add: less_mult_imp_div_less)
    have sa: "16 * (?a div 16) + ?a mod 16 = ?a" and sb: "16 * (?b div 16) + ?b mod 16 = ?b"
      by (simp_all only: mult_div_mod_eq)
    have bk: "(?a - 192) * 64 + (?b - 128) = code c" by simp
    have enc: "concat (map percent_byte (utf8_char c)) @ cs =
        CHR ''%'' # hex_upper (?a div 16) # hex_upper (?a mod 16) #
        CHR ''%'' # hex_upper (?b div 16) # hex_upper (?b mod 16) # cs"
      using hi by (simp add: utf8_char_def percent_byte_def)
    have "hex_val (hex_upper (?a div 16)) = Some (?a div 16)" "hex_val (hex_upper (?a mod 16)) = Some (?a mod 16)"
      "hex_val (hex_upper (?b div 16)) = Some (?b div 16)" "hex_val (hex_upper (?b mod 16)) = Some (?b mod 16)"
      using a(2) b(1) by (simp_all only: hex_val_upper mod_less_divisor zero_less_numeral)
    then have "decodeURIComponent (CHR ''%'' # hex_upper (?a div 16) # hex_upper (?a mod 16) #
        CHR ''%'' # hex_upper (?b div 16) # hex_upper (?b mod 16) # cs) =
        map_option ((#) (char_of ((?a - 192) * 64 + (?b - 128)))) (decodeURIComponent cs)"
      using a(1) b(2,3) by (simp only: decodeURIComponent.simps list.case prod.case option.case sa sb)
        (auto simp del: decodeURIComponent.simps)
    then show ?thesis using False by (simp only: enc bk if_False char_of_code)
  qed
qed

lemma decode_encodeURIComponent: "decodeURIComponent (encodeURIComponent s) = Some s"
proof (induction s)
  case (Cons c s)
  have "encodeURIComponent (c # s) =
      (if url_unreserved c then [c] else concat (map percent_byte (utf8_char c))) @ encodeURIComponent s"
    by (simp add: encodeURIComponent_def)
  then show ?case by (simp only: decode_encoded_char Cons.IH) simp
qed (simp add: encodeURIComponent_def)

interpretation url_codec: partial_codec encodeURIComponent decodeURIComponent "\<lambda>_. True"
  by unfold_locales (rule decode_encodeURIComponent)

text \<open>An encoded text has no separator of a path, a query or a cookie.\<close>

lemma encodeURIComponent_chars:
  "c \<in> set (encodeURIComponent s) \<Longrightarrow> url_unreserved c \<or> c = CHR ''%''"
proof -
  have "url_unreserved (hex_upper n)" if "n < 16" for n
    using that by (auto simp: url_unreserved_def hex_upper_def is_digit_def)
  moreover have "b div 16 < 16" if "b < 256" for b :: nat using that by (simp add: less_mult_imp_div_less)
  moreover have "b < 256" if "b \<in> set (utf8_char x)" for b x
    using utf8_encode_bytes [of b "[x]"] that by (simp add: utf8_encode_def)
  ultimately show "c \<in> set (encodeURIComponent s) \<Longrightarrow> url_unreserved c \<or> c = CHR ''%''"
    by (auto simp: encodeURIComponent_def percent_byte_def split: if_splits)
qed

end
