(* ===== verification/Project_Access.thy ===== *)
theory Project_Access
  imports Issue_Refinement Url
begin

text \<open>
  \<open>apps/issue-service-nest/src/infrastructure/project-access.client.ts\<close>: asking the project
  service whether a user may see a project. What comes back is parsed JSON that the code
  casts to \<open>ProjectAccessContext\<close> without looking at it, so the model keeps it a \<open>jsval\<close>
  and every later property access may fail.
\<close>

text \<open>
  \<open>v.name\<close> for a name that the prototypes of primitives and arrays do not have.
\<close>

definition property_of :: "jsval \<Rightarrow> string \<Rightarrow> exn + jsval" where
  "property_of v name =
     (case v of
        Undefined \<Rightarrow> Inl TypeError
      | Null \<Rightarrow> Inl TypeError
      | Obj ps \<Rightarrow> Inr (js_get ps name)
      | _ \<Rightarrow> Inr Undefined)"

definition text_or :: "jsval \<Rightarrow> string \<Rightarrow> string" where
  "text_or v otherwise = (case v of Str s \<Rightarrow> s | _ \<Rightarrow> otherwise)"

definition project_service_base :: "env \<Rightarrow> string" where
  "project_service_base e =
     rev (dropWhile (\<lambda>c. c = CHR ''/'')
       (rev (case e_project_service_url e of None \<Rightarrow> ''http://localhost:8082'' | Some u \<Rightarrow> u)))"

definition access_request :: "string \<Rightarrow> string \<Rightarrow> string \<Rightarrow> env \<Rightarrow> http_request" where
  "access_request projectId userId correlationId e =
     \<lparr>q_url = project_service_base e @ ''/internal/projects/'' @ encodeURIComponent projectId @ ''/access-context'',
      q_user = userId, q_correlation = correlationId,
      q_secret = (case e_internal_service_secret e of None \<Rightarrow> [] | Some s \<Rightarrow> s)\<rparr>"

text \<open>What follows the answer; the \<open>catch\<close> turns every other exception into the 503.\<close>

definition access_result :: "http_reply \<Rightarrow> exn + jsval" where
  "access_result reply =
     (case reply of
        Rejected \<Rightarrow> Inl (DomainError 503 ''PROJECT_SERVICE_UNAVAILABLE'' ''Project service is unavailable'' [])
      | Reply status json \<Rightarrow>
          let body = (case json of None \<Rightarrow> Obj [] | Some v \<Rightarrow> v) in
          if 200 \<le> status \<and> status < 300 then Inr body
          else
            (case (property_of body ''code'', property_of body ''message'') of
               (Inr c, Inr m) \<Rightarrow> Inl (DomainError status (text_or c ''PROJECT_ACCESS_FAILED'')
                                   (text_or m ''Project access check failed'') [])
             | _ \<Rightarrow> Inl (DomainError 503 ''PROJECT_SERVICE_UNAVAILABLE'' ''Project service is unavailable'' [])))"

text \<open>The request takes a tick; the answer is the environment's.\<close>

definition getAccess :: "string \<Rightarrow> string \<Rightarrow> string \<Rightarrow> jsval prog" where
  "getAccess projectId userId correlationId =
     andThen current_tick (\<lambda>n. \<lambda>e.
       checked (access_result (e_http e n (access_request projectId userId correlationId e))) e)"

section \<open>Facts\<close>

text \<open>Every failure is a \<open>DomainError\<close>; asking changes nothing but the tick.\<close>

lemma access_result_Inl:
  "access_result reply = Inl x \<Longrightarrow> \<exists>st c m. x = DomainError st c m [] \<and> \<not> (200 \<le> st \<and> st < 300)"
  by (auto simp: access_result_def Let_def split: http_reply.splits if_splits sum.splits prod.splits)

lemma getAccess_eval:
  "getAccess p u c e w = (access_result (e_http e (w_tick w) (access_request p u c e)), tick w)"
  by (simp add: getAccess_def andThen_def)

context protocol begin

lemma getAccess_runs: "runs R E P (getAccess p u c) (\<lambda>_. P)"
  by (rule runs_same) (auto simp: getAccess_eval)

lemma after_access:
  "(\<And>a. runs R E P (f a) Q) \<Longrightarrow> runs R E P (andThen (getAccess p u c) f) Q"
  by (rule runs_andThen [OF getAccess_runs])

lemma after_optional_access:
  "(\<And>a. runs R E P (f a) Q) \<Longrightarrow>
   runs R E P (andThen (case v of None \<Rightarrow> returning Undefined | Some u \<Rightarrow> getAccess p u c) f) Q"
  by (cases v) (simp_all add: runs_andThen [OF getAccess_runs] runs_andThen [OF runs_returning [where Q = "\<lambda>_. P"]])

end

text \<open>
  The errors of the check: what the project service of this environment answered to a question
  of the client, with a status that is not 2xx, or 503.
\<close>

definition refusal :: "env \<Rightarrow> exn \<Rightarrow> bool" where
  "refusal e x \<longleftrightarrow> (\<exists>n p u c. access_result (e_http e n (access_request p u c e)) = Inl x)"

lemma refusal_status: "refusal e x \<Longrightarrow> \<exists>st c m. x = DomainError st c m [] \<and> \<not> (200 \<le> st \<and> st < 300)"
  unfolding refusal_def by (elim exE) (rule access_result_Inl)

lemma access_refusal: "access_result (e_http e n (access_request p u c e)) = Inl x \<Longrightarrow> refusal e x"
  by (auto simp: refusal_def)

lemma getAccess_raises: "(\<And>x. refusal e x \<Longrightarrow> X x) \<Longrightarrow> raises e (getAccess p u c) X"
  by (auto simp: raises_def getAccess_eval dest: access_refusal)

end
