(* ===== verification/Planning_Repository.thy ===== *)
theory Planning_Repository
  imports Issue_Queries "HOL-Library.Product_Lexorder"
begin

text \<open>
  \<open>apps/issue-service-nest/src/infrastructure/postgres-planning.repository.ts\<close>: epics and
  sprints. A \<open>DATE\<close> column holds a day number. The driver gives a column of that type back
  as a \<open>Date\<close> at midnight of the process's time zone and sends such a date as its local
  text, so a date read from a row is written back as the same day; the model's process runs
  in UTC.
\<close>

section \<open>Dates\<close>

definition date_out :: "int option \<Rightarrow> date_value option" where
  "date_out day = map_option (\<lambda>n. DateObject (n * ms_per_day)) day"

text \<open>
  The input of a \<open>DATE\<close> column, for the texts that \<open>optionalDate\<close> accepts; PostgreSQL has no
  year 0.
\<close>

fun date_in :: "date_value \<Rightarrow> exn + int" where
  "date_in (DateString s) =
     (if real_date s \<and> dec_value 0 (slice 0 4 s) \<noteq> 0 then Inr (day_of_text s)
      else Inl (DbError ''date/time field value out of range''))"
| "date_in (DateObject t) = Inr (t div ms_per_day)"

definition date_opt_in :: "date_value option \<Rightarrow> exn + int option" where
  "date_opt_in v = (case v of None \<Rightarrow> Inr None | Some x \<Rightarrow> map_result Some (date_in x))"

lemma date_roundtrip [simp]: "date_opt_in (date_out day) = Inr day"
  by (cases day) (simp_all add: date_opt_in_def date_out_def ms_per_day_def)

section \<open>Rows\<close>

definition toEpic :: "epic_row \<Rightarrow> epic" where
  "toEpic row = \<lparr>e_id = er_id row, e_projectId = er_project_id row, e_name = er_name row,
     e_color = er_color row, e_startDate = date_out (er_start_date row),
     e_targetDate = date_out (er_target_date row), e_createdAt = er_created_at row div 1000,
     e_updatedAt = er_updated_at row div 1000\<rparr>"

definition toSprint :: "sprint_row \<Rightarrow> sprint" where
  "toSprint row = \<lparr>s_id = sr_id row, s_projectId = sr_project_id row, s_name = sr_name row,
     s_goal = sr_goal row, s_startDate = date_out (sr_start_date row), s_endDate = date_out (sr_end_date row),
     s_status = sr_status row, s_createdAt = sr_created_at row div 1000,
     s_completedAt = map_option (\<lambda>t. t div 1000) (sr_completed_at row)\<rparr>"

text \<open>\<open>convert(result.rows[0])\<close>: reading a field of \<open>undefined\<close> throws.\<close>

definition first_row :: "('a \<Rightarrow> 'b) \<Rightarrow> 'a list \<Rightarrow> 'b prog" where
  "first_row convert rows = (case rows of [] \<Rightarrow> throwing TypeError | row # _ \<Rightarrow> returning (convert row))"

definition epic_row_ok :: "epic_row \<Rightarrow> bool" where
  "epic_row_ok x \<longleftrightarrow> varchar 120 (er_name x) \<and> dates_ordered (er_start_date x) (er_target_date x)"

definition sprint_row_ok :: "sprint_row \<Rightarrow> bool" where
  "sprint_row_ok x \<longleftrightarrow> varchar 120 (sr_name x) \<and> opt_ok (varchar 500) (sr_goal x) \<and>
     dates_ordered (sr_start_date x) (sr_end_date x)"

section \<open>Epics\<close>

record new_epic_data =
  ne_projectId :: string
  ne_name :: string
  ne_color :: epic_color
  ne_startDate :: "date_value option"
  ne_targetDate :: "date_value option"

definition insert_epic :: "string \<Rightarrow> new_epic_data \<Rightarrow> int \<Rightarrow> epic_row list stmt" where
  "insert_epic uid data created e now d =
     try_then (uuid_param e uid) (\<lambda>eid.
     try_then (uuid_param e (ne_projectId data)) (\<lambda>project_id.
     try_then (date_opt_in (ne_startDate data)) (\<lambda>start.
     try_then (date_opt_in (ne_targetDate data)) (\<lambda>target.
     let row = \<lparr>er_id = eid, er_project_id = project_id, er_name = ne_name data, er_color = ne_color data,
                er_start_date = start, er_target_date = target, er_created_at = created * 1000,
                er_updated_at = created * 1000\<rparr> in
     if \<not> epic_row_ok row then Inl (DbError ''epics: check'')
     else if eid \<in> er_id ` set (t_epics d) then Inl (DbError ''epics_pkey'')
     else Inr ([row], d\<lparr>t_epics := t_epics d @ [row]\<rparr>)))))"

definition createEpic :: "new_epic_data \<Rightarrow> epic prog" where
  "createEpic data =
     andThen new_Date (\<lambda>now.
     andThen randomUUID (\<lambda>uid.
     andThen (query (insert_epic uid data now)) (first_row toEpic)))"

text \<open>
  \<open>ORDER BY start_date NULLS LAST, created_at\<close>; the environment ranks the rows it leaves equal.
\<close>

definition epics_stmt :: "(string \<Rightarrow> string) \<Rightarrow> string \<Rightarrow> epic_row list stmt" where
  "epics_stmt rank projectId e now d =
     try_then (uuid_param e projectId) (\<lambda>p.
     Inr (sort_key (\<lambda>x. (er_start_date x = None, (case er_start_date x of None \<Rightarrow> 0 | Some n \<Rightarrow> n), er_created_at x, rank (er_id x)))
            (filter (\<lambda>x. er_project_id x = p) (t_epics d)), d))"

definition listEpics :: "string \<Rightarrow> epic list prog" where
  "listEpics projectId =
     andThen current_tick (\<lambda>n. andThen (ask (\<lambda>e. e_rank e n)) (\<lambda>rank.
     andThen (query (epics_stmt rank projectId)) (\<lambda>rows. returning (map toEpic rows))))"

definition find_epic_stmt :: "string \<Rightarrow> epic_row list stmt" where
  "find_epic_stmt epicId e now d =
     try_then (uuid_param e epicId) (\<lambda>i. Inr (filter (\<lambda>x. er_id x = i) (t_epics d), d))"

definition findEpic :: "string \<Rightarrow> epic option prog" where
  "findEpic epicId =
     andThen (query (find_epic_stmt epicId)) (\<lambda>rows.
     returning (case rows of [] \<Rightarrow> None | row # _ \<Rightarrow> Some (toEpic row)))"

definition update_epic_stmt :: "string \<Rightarrow> new_epic_data \<Rightarrow> epic_row list stmt" where
  "update_epic_stmt epicId data e now d =
     try_then (date_opt_in (ne_startDate data)) (\<lambda>start.
     try_then (date_opt_in (ne_targetDate data)) (\<lambda>target.
     try_then (uuid_param e epicId) (\<lambda>i.
     let hit = (\<lambda>x. er_id x = i);
         upd = (\<lambda>x. x\<lparr>er_name := ne_name data, er_color := ne_color data, er_start_date := start,
                       er_target_date := target, er_updated_at := now\<rparr>);
         rows = map upd (filter hit (t_epics d)) in
     if \<not> list_all epic_row_ok rows then Inl (DbError ''epics: check'')
     else Inr (rows, d\<lparr>t_epics := map (\<lambda>x. if hit x then upd x else x) (t_epics d)\<rparr>))))"

definition updateEpic :: "epic \<Rightarrow> new_epic_data \<Rightarrow> epic prog" where
  "updateEpic epic data = andThen (query (update_epic_stmt (e_id epic) data)) (first_row toEpic)"

section \<open>Sprints\<close>

record new_sprint_data =
  ns_projectId :: string
  ns_name :: string
  ns_goal :: "string option"
  ns_startDate :: "date_value option"
  ns_endDate :: "date_value option"

definition insert_sprint :: "string \<Rightarrow> new_sprint_data \<Rightarrow> int \<Rightarrow> sprint_row list stmt" where
  "insert_sprint uid data created e now d =
     try_then (uuid_param e uid) (\<lambda>sid.
     try_then (uuid_param e (ns_projectId data)) (\<lambda>project_id.
     try_then (date_opt_in (ns_startDate data)) (\<lambda>start.
     try_then (date_opt_in (ns_endDate data)) (\<lambda>end_date.
     let row = \<lparr>sr_id = sid, sr_project_id = project_id, sr_name = ns_name data, sr_goal = ns_goal data,
                sr_start_date = start, sr_end_date = end_date, sr_status = ACTIVE,
                sr_created_at = created * 1000, sr_completed_at = None\<rparr> in
     if \<not> sprint_row_ok row then Inl (DbError ''sprints: check'')
     else if sid \<in> sr_id ` set (t_sprints d) then Inl (DbError ''sprints_pkey'')
     else if \<exists>x\<in>set (t_sprints d). sr_project_id x = project_id \<and> sr_status x = ACTIVE
     then Inl (DbError ''ux_sprints_one_active_project'')
     else Inr ([row], d\<lparr>t_sprints := t_sprints d @ [row]\<rparr>)))))"

definition createSprint :: "new_sprint_data \<Rightarrow> sprint prog" where
  "createSprint data =
     andThen new_Date (\<lambda>now.
     andThen randomUUID (\<lambda>uid.
     andThen (query (insert_sprint uid data now)) (first_row toSprint)))"

text \<open>\<open>ORDER BY CASE WHEN status = 'ACTIVE' THEN 0 ELSE 1 END, created_at DESC\<close>.\<close>

definition sprints_stmt :: "(string \<Rightarrow> string) \<Rightarrow> string \<Rightarrow> sprint_row list stmt" where
  "sprints_stmt rank projectId e now d =
     try_then (uuid_param e projectId) (\<lambda>p.
     Inr (sort_key (\<lambda>x. (if sr_status x = ACTIVE then 0::nat else 1, - sr_created_at x, rank (sr_id x)))
            (filter (\<lambda>x. sr_project_id x = p) (t_sprints d)), d))"

definition listSprints :: "string \<Rightarrow> sprint list prog" where
  "listSprints projectId =
     andThen current_tick (\<lambda>n. andThen (ask (\<lambda>e. e_rank e n)) (\<lambda>rank.
     andThen (query (sprints_stmt rank projectId)) (\<lambda>rows. returning (map toSprint rows))))"

definition find_sprint_stmt :: "string \<Rightarrow> sprint_row list stmt" where
  "find_sprint_stmt sprintId e now d =
     try_then (uuid_param e sprintId) (\<lambda>i. Inr (filter (\<lambda>x. sr_id x = i) (t_sprints d), d))"

definition findSprint :: "string \<Rightarrow> sprint option prog" where
  "findSprint sprintId =
     andThen (query (find_sprint_stmt sprintId)) (\<lambda>rows.
     returning (case rows of [] \<Rightarrow> None | row # _ \<Rightarrow> Some (toSprint row)))"

definition complete_stmt :: "string \<Rightarrow> sprint_row list stmt" where
  "complete_stmt sprintId e now d =
     try_then (uuid_param e sprintId) (\<lambda>i.
     let hit = (\<lambda>x. sr_id x = i \<and> sr_status x = ACTIVE);
         upd = (\<lambda>x. x\<lparr>sr_status := COMPLETED, sr_completed_at := Some now\<rparr>)
     in Inr (map upd (filter hit (t_sprints d)),
             d\<lparr>t_sprints := map (\<lambda>x. if hit x then upd x else x) (t_sprints d)\<rparr>))"

definition completeSprint :: "sprint \<Rightarrow> sprint prog" where
  "completeSprint sprint = andThen (query (complete_stmt (s_id sprint))) (first_row toSprint)"

section \<open>The methods beside other sessions\<close>

text \<open>An epic or a sprint the client has read. Ids and projects do not change, and a completed sprint stays so.\<close>

definition epic_seen :: "epic \<Rightarrow> db \<Rightarrow> bool" where
  "epic_seen epic d \<longleftrightarrow> (\<exists>x\<in>set (t_epics d). er_id x = e_id epic \<and> er_project_id x = e_projectId epic)"

definition sprint_seen :: "sprint \<Rightarrow> db \<Rightarrow> bool" where
  "sprint_seen sprint d \<longleftrightarrow> (\<exists>x\<in>set (t_sprints d). sr_id x = s_id sprint \<and> sr_project_id x = s_projectId sprint \<and>
     (s_status sprint = COMPLETED \<longrightarrow> sr_status x = COMPLETED))"

lemma toEpic_fields [simp]:
  "e_id (toEpic x) = er_id x" "e_projectId (toEpic x) = er_project_id x" "e_name (toEpic x) = er_name x"
  "e_startDate (toEpic x) = date_out (er_start_date x)" "e_targetDate (toEpic x) = date_out (er_target_date x)"
  "e_color (toEpic x) = er_color x"
  by (simp_all add: toEpic_def)

lemma toSprint_fields [simp]:
  "s_id (toSprint x) = sr_id x" "s_projectId (toSprint x) = sr_project_id x" "s_status (toSprint x) = sr_status x"
  "s_name (toSprint x) = sr_name x"
  by (simp_all add: toSprint_def)

lemma planning_evolves: "db_steps d d' \<Longrightarrow> db_inv d \<Longrightarrow> planning_grows d d'"
  using db_steps_evolves by (simp add: evolves_def)

lemma stable_epic_seen: "stable db_steps (\<lambda>d. db_inv d \<and> epic_seen epic d)"
  unfolding stable_def
proof (intro allI impI conjI)
  fix d d' assume h: "db_inv d \<and> epic_seen epic d" "db_steps d d'"
  show "db_inv d'" using h db_steps_inv by blast
  have "planning_grows d d'" using h planning_evolves by blast
  then show "epic_seen epic d'" using h(1) unfolding epic_seen_def planning_grows_def by metis
qed

lemma stable_sprint_seen: "stable db_steps (\<lambda>d. db_inv d \<and> sprint_seen sprint d)"
  unfolding stable_def
proof (intro allI impI conjI)
  fix d d' assume h: "db_inv d \<and> sprint_seen sprint d" "db_steps d d'"
  show "db_inv d'" using h db_steps_inv by blast
  have "planning_grows d d'" using h planning_evolves by blast
  then show "sprint_seen sprint d'" using h(1) unfolding sprint_seen_def planning_grows_def by metis
qed

lemma first_row_runs:
  assumes "\<And>row rest d. \<lbrakk>rows = row # rest; P d\<rbrakk> \<Longrightarrow> Q (convert row) d"
  shows "runs db_steps issue_env P (first_row convert rows) Q"
  using assms unfolding first_row_def
  by (cases rows) (auto intro: issue_protocol.runs_throwing issue_protocol.runs_returning)

lemma planning_query:
  assumes "stable db_steps (\<lambda>d. db_inv d \<and> P d)"
    and "\<And>e now d rows d'. \<lbrakk>pg_uuid e; db_inv d; P d; s e now d = Inr (rows, d')\<rbrakk> \<Longrightarrow>
      db_step d d' \<and> (\<forall>row\<in>set rows. Q (convert row) d')"
  shows "runs db_steps issue_env (\<lambda>d. db_inv d \<and> P d) (andThen (query s) (first_row convert))
    (\<lambda>a d. db_inv d \<and> Q a d)"
proof (rule issue_protocol.runs_andThen)
  show "runs db_steps issue_env (\<lambda>d. db_inv d \<and> P d) (query s)
      (\<lambda>rows d. db_inv d \<and> (\<forall>row\<in>set rows. Q (convert row) d))"
  proof (rule issue_protocol.runs_query [OF assms(1)])
    fix e now d rows d'
    assume h: "issue_env e" "db_inv d \<and> P d" "s e now d = Inr (rows, d')"
    then have st: "db_step d d'" "\<forall>row\<in>set rows. Q (convert row) d'"
      using assms(2) [of e d now rows d'] by (simp_all add: issue_env_def)
    with h(2) show "db_steps d d' \<and> db_inv d' \<and> (\<forall>row\<in>set rows. Q (convert row) d')"
      using db_step_inv by blast
  qed
qed (rule first_row_runs, simp)

lemma inserted_runs:
  assumes "\<And>uid now. runs db_steps issue_env db_inv (f now uid) Q"
  shows "runs db_steps issue_env db_inv (andThen new_Date (\<lambda>now. andThen randomUUID (f now))) Q"
  by (rule issue_protocol.runs_andThen [OF issue_protocol.runs_new_Date [where Q = "\<lambda>_. db_inv"]], simp,
      rule issue_protocol.runs_andThen [OF issue_protocol.runs_randomUUID [where Q = "\<lambda>_. db_inv"]], simp, rule assms)

lemma createEpic_runs:
  assumes "canonical_uuid (ne_projectId data)"
  shows "runs db_steps issue_env db_inv (createEpic data)
    (\<lambda>epic d. db_inv d \<and> epic \<in> toEpic ` set (t_epics d) \<and> e_projectId epic = ne_projectId data \<and>
       e_name epic = ne_name data \<and> e_color epic = ne_color data)"
  unfolding createEpic_def
  by (rule inserted_runs, rule planning_query [where P = "\<lambda>_. True", simplified, OF stable_inv])
    (use assms in \<open>auto simp: insert_epic_def try_then_Inr_iff Let_def pg_uuid_canonical split: if_splits
        intro!: step_epic\<close>)

lemma createSprint_runs:
  assumes "canonical_uuid (ns_projectId data)"
  shows "runs db_steps issue_env db_inv (createSprint data)
    (\<lambda>sprint d. db_inv d \<and> sprint \<in> toSprint ` set (t_sprints d) \<and> s_projectId sprint = ns_projectId data \<and>
       s_name sprint = ns_name data \<and> s_status sprint = ACTIVE)"
  unfolding createSprint_def
  by (rule inserted_runs, rule planning_query [where P = "\<lambda>_. True", simplified, OF stable_inv])
    (use assms in \<open>auto simp: insert_sprint_def try_then_Inr_iff Let_def pg_uuid_canonical split: if_splits
        intro!: step_sprint\<close>)

lemma updateEpic_runs:
  "runs db_steps issue_env db_inv (updateEpic epic data)
    (\<lambda>updated d. db_inv d \<and> updated \<in> toEpic ` set (t_epics d) \<and> e_name updated = ne_name data \<and>
       e_color updated = ne_color data)"
  unfolding updateEpic_def
  by (rule planning_query [where P = "\<lambda>_. True", simplified, OF stable_inv])
    (auto simp: update_epic_stmt_def try_then_Inr_iff Let_def image_iff split: if_splits
        intro!: step_edit_epic bexI)

lemma completeSprint_runs:
  "runs db_steps issue_env db_inv (completeSprint sprint)
    (\<lambda>updated d. db_inv d \<and> updated \<in> toSprint ` set (t_sprints d) \<and> s_status updated = COMPLETED)"
  unfolding completeSprint_def
  by (rule planning_query [where P = "\<lambda>_. True", simplified, OF stable_inv])
    (auto simp: complete_stmt_def try_then_Inr_iff Let_def image_iff intro!: step_complete_sprint bexI)

lemma find_runs:
  assumes "\<And>e now d rows d'. \<lbrakk>pg_uuid e; s e now d = Inr (rows, d')\<rbrakk> \<Longrightarrow> d' = d \<and> (\<forall>row\<in>set rows. Q (convert row) d)"
  shows "runs db_steps issue_env db_inv
    (andThen (query s) (\<lambda>rows. returning (case rows of [] \<Rightarrow> None | row # _ \<Rightarrow> Some (convert row))))
    (\<lambda>r d. db_inv d \<and> opt_ok (\<lambda>x. Q x d) r)"
proof (rule issue_protocol.runs_andThen)
  show "runs db_steps issue_env db_inv (query s) (\<lambda>rows d. db_inv d \<and> (\<forall>row\<in>set rows. Q (convert row) d))"
  proof (rule issue_protocol.runs_query [OF stable_inv])
    fix e now d rows d'
    assume "issue_env e" "db_inv d" "s e now d = Inr (rows, d')"
    with assms [of e now d rows d'] show "db_steps d d' \<and> db_inv d' \<and> (\<forall>row\<in>set rows. Q (convert row) d')"
      by (simp add: issue_env_def)
  qed
next
  fix rows
  show "runs db_steps issue_env (\<lambda>d. db_inv d \<and> (\<forall>row\<in>set rows. Q (convert row) d))
      (returning (case rows of [] \<Rightarrow> None | row # _ \<Rightarrow> Some (convert row))) (\<lambda>r d. db_inv d \<and> opt_ok (\<lambda>x. Q x d) r)"
    by (rule issue_protocol.runs_returning) (auto split: list.splits)
qed

lemma findEpic_runs:
  assumes "canonical_uuid epicId"
  shows "runs db_steps issue_env db_inv (findEpic epicId)
    (\<lambda>r d. db_inv d \<and> opt_ok (\<lambda>epic. epic_seen epic d \<and> e_id epic = epicId) r)"
  unfolding findEpic_def
  by (rule find_runs [where Q = "\<lambda>epic d. epic_seen epic d \<and> e_id epic = epicId"])
    (use assms in \<open>auto simp: find_epic_stmt_def try_then_Inr_iff epic_seen_def pg_uuid_canonical\<close>)

lemma findSprint_runs:
  assumes "canonical_uuid sprintId"
  shows "runs db_steps issue_env db_inv (findSprint sprintId)
    (\<lambda>r d. db_inv d \<and> opt_ok (\<lambda>sprint. sprint_seen sprint d \<and> s_id sprint = sprintId) r)"
  unfolding findSprint_def
  by (rule find_runs [where Q = "\<lambda>sprint d. sprint_seen sprint d \<and> s_id sprint = sprintId"])
    (use assms in \<open>auto simp: find_sprint_stmt_def try_then_Inr_iff sprint_seen_def pg_uuid_canonical\<close>)

lemma ranked_runs:
  assumes "\<And>rank. runs db_steps issue_env db_inv (f rank) Q"
  shows "runs db_steps issue_env db_inv (andThen current_tick (\<lambda>n. andThen (ask (\<lambda>e. e_rank e n)) f)) Q"
  by (rule issue_protocol.runs_andThen [OF issue_protocol.runs_current_tick [where Q = "\<lambda>_. db_inv"]], simp,
      rule issue_protocol.runs_andThen [OF issue_protocol.runs_ask [where Q = "\<lambda>_. db_inv"]], simp, rule assms)

lemma listEpics_runs: "runs db_steps issue_env db_inv (listEpics p) (\<lambda>_. db_inv)"
  unfolding listEpics_def
  by (rule ranked_runs, rule issue_protocol.runs_andThen [OF runs_read])
    (auto simp: epics_stmt_def try_then_Inr_iff intro!: issue_protocol.runs_returning)

lemma listSprints_runs: "runs db_steps issue_env db_inv (listSprints p) (\<lambda>_. db_inv)"
  unfolding listSprints_def
  by (rule ranked_runs, rule issue_protocol.runs_andThen [OF runs_read])
    (auto simp: sprints_stmt_def try_then_Inr_iff intro!: issue_protocol.runs_returning)

lemmas planning_runs = createEpic_runs updateEpic_runs createSprint_runs completeSprint_runs

end
