(* ===== verification/Issue_Service.thy ===== *)
theory Issue_Service
  imports Project_Access Planning_Repository
begin

text \<open>
  \<open>apps/issue-service-nest/src/application/issue-application.service.ts\<close>: the use cases on
  issues. Each is a program; the order of its steps is the order of the code, since it
  decides which error a request with several faults gets and what is read before what.
\<close>

record request_context =
  rc_userId :: string
  rc_correlationId :: string

section \<open>Checks\<close>

definition body_of :: "jsval \<Rightarrow> exn + js_object" where
  "body_of value =
     (case value of Obj ps \<Rightarrow> Inr ps | _ \<Rightarrow> Inl (validationError ''body'' ''Request body is required''))"

definition expectedVersion :: "js_object \<Rightarrow> exn + int" where
  "expectedVersion input =
     (case js_get input ''expectedVersion'' of
        Num n \<Rightarrow>
          (case safe_integer n of
             Some v \<Rightarrow>
               if v \<le> 0
               then Inl (validationError ''expectedVersion'' ''expectedVersion must be a positive integer'')
               else Inr v
           | None \<Rightarrow> Inl (validationError ''expectedVersion'' ''expectedVersion must be a positive integer''))
      | _ \<Rightarrow> Inl (validationError ''expectedVersion'' ''expectedVersion must be a positive integer''))"

definition assertExpectedVersion :: "issue \<Rightarrow> int \<Rightarrow> exn + unit" where
  "assertExpectedVersion issue expected =
     (if i_version issue \<noteq> expected then Inl concurrentIssueModification else Inr ())"

definition core_fields_refused :: "string list" where
  "core_fields_refused =
     [''status'', ''key'', ''number'', ''reporterUserId'', ''projectId'', ''issueKey'', ''issueNumber'']"

definition assertCorePatchFields :: "js_object \<Rightarrow> exn + unit" where
  "assertCorePatchFields input =
     (case find (has_own input) core_fields_refused of
        Some field \<Rightarrow> Inl (validationError field (field @ '' cannot be updated''))
      | None \<Rightarrow> Inr ())"

definition hasCorePatchMutation :: "js_object \<Rightarrow> bool" where
  "hasCorePatchMutation input \<longleftrightarrow>
     list_ex (has_own input) [''summary'', ''description'', ''type'', ''priority'']"

definition assertWritable :: "jsval \<Rightarrow> exn + unit" where
  "assertWritable access =
     try_then (property_of access ''projectStatus'') (\<lambda>projectStatus.
     if projectStatus = Str ''ARCHIVED''
     then Inl (DomainError 409 ''PROJECT_ARCHIVED'' ''Archived projects reject issue writes'' [])
     else Inr ())"

definition requireWritableProject :: "string \<Rightarrow> request_context \<Rightarrow> jsval prog" where
  "requireWritableProject projectId ctx =
     andThen (getAccess projectId (rc_userId ctx) (rc_correlationId ctx)) (\<lambda>access.
     andThen (checked (assertWritable access)) (\<lambda>_. returning access))"

text \<open>
  A project the user may not see answers 404, and the issue then looks missing.
\<close>

definition requireVisibleIssue :: "string \<Rightarrow> request_context \<Rightarrow> bool \<Rightarrow> issue prog" where
  "requireVisibleIssue issueIdValue ctx writable =
     andThen (checked (uuid (Str issueIdValue) ''issueId'')) (\<lambda>issueId.
     andThen (findIssue issueId) (\<lambda>found.
     case found of
       None \<Rightarrow> throwing notFound
     | Some issue \<Rightarrow>
         andThen
           (catching
             (andThen (getAccess (i_projectId issue) (rc_userId ctx) (rc_correlationId ctx)) (\<lambda>access.
                if writable then checked (assertWritable access) else returning ()))
             (\<lambda>error. if is_domain_404 error then throwing notFound else throwing error))
           (\<lambda>_. returning issue)))"

definition assertPlanningLinks :: "string \<Rightarrow> string option \<Rightarrow> string option \<Rightarrow> unit prog" where
  "assertPlanningLinks projectId epicId sprintId =
     andThen
       (case epicId of
          None \<Rightarrow> returning ()
        | Some i \<Rightarrow>
            andThen (findEpic i) (\<lambda>epic.
            checked (if opt_ok (\<lambda>x. e_projectId x \<noteq> projectId) epic
                     then Inl (validationError ''epicId'' ''epicId must belong to this project'')
                     else Inr ())))
       (\<lambda>_. case sprintId of
          None \<Rightarrow> returning ()
        | Some i \<Rightarrow>
            andThen (findSprint i) (\<lambda>sprint.
            checked (if opt_ok (\<lambda>x. s_projectId x \<noteq> projectId \<or> s_status x \<noteq> ACTIVE) sprint
                     then Inl (validationError ''sprintId'' ''sprintId must be an active sprint in this project'')
                     else Inr ())))"

section \<open>Use cases\<close>

text \<open>\<open>String(access.projectKey)\<close> in the template of the issue key.\<close>

definition template_text :: "env \<Rightarrow> jsval \<Rightarrow> string" where
  "template_text e v = (case v of Str s \<Rightarrow> s | _ \<Rightarrow> e_text e v)"

text \<open>The literal with its validators, evaluated field by field.\<close>

definition new_issue_input ::
    "env \<Rightarrow> string \<Rightarrow> jsval \<Rightarrow> js_object \<Rightarrow> string \<Rightarrow> string option \<Rightarrow> string option \<Rightarrow> string option \<Rightarrow>
     exn + new_issue_data" where
  "new_issue_input e projectId access input userId assigneeUserId epicId sprintId =
     try_then (property_of access ''projectKey'') (\<lambda>projectKey.
     try_then (requiredText (js_get input ''summary'') ''summary'' 200) (\<lambda>summary.
     try_then (optionalText (js_get input ''description'') ''description'' 5000) (\<lambda>description.
     try_then (enumValue (js_get input ''type'') ''type'' ISSUE_TYPES) (\<lambda>type.
     try_then (enumValue (js_get input ''priority'') ''priority'' ISSUE_PRIORITIES) (\<lambda>priority.
     Inr \<lparr>n_projectId = projectId, n_projectKey = template_text e projectKey, n_summary = summary,
          n_description = description, n_type = type, n_priority = priority, n_reporterUserId = userId,
          n_assigneeUserId = assigneeUserId, n_epicId = epicId, n_sprintId = sprintId\<rparr>)))))"

definition service_createIssue :: "string \<Rightarrow> jsval \<Rightarrow> request_context \<Rightarrow> issue prog" where
  "service_createIssue projectIdValue body ctx =
     andThen (checked (uuid (Str projectIdValue) ''projectId'')) (\<lambda>projectId.
     andThen (checked (body_of body)) (\<lambda>input.
     andThen (requireWritableProject projectId ctx) (\<lambda>access.
     andThen (checked (optionalUuid (js_get input ''assigneeUserId'') ''assigneeUserId'')) (\<lambda>assigneeUserId.
     andThen (checked (optionalUuid (js_get input ''epicId'') ''epicId'')) (\<lambda>epicId.
     andThen (checked (optionalUuid (js_get input ''sprintId'') ''sprintId'')) (\<lambda>sprintId.
     andThen (case assigneeUserId of
                None \<Rightarrow> returning Undefined
              | Some a \<Rightarrow> getAccess projectId a (rc_correlationId ctx)) (\<lambda>_.
     andThen (assertPlanningLinks projectId epicId sprintId) (\<lambda>_.
     andThen (ask (\<lambda>e. new_issue_input e projectId access input (rc_userId ctx) assigneeUserId epicId sprintId)) (\<lambda>data.
     andThen (checked data) createIssue)))))))))"

record issue_list =
  il_items :: "issue list"
  il_nextCursor :: "string option"

definition service_listIssues :: "string \<Rightarrow> jsval \<Rightarrow> request_context \<Rightarrow> issue_list prog" where
  "service_listIssues projectIdValue queryString ctx =
     andThen (checked (uuid (Str projectIdValue) ''projectId'')) (\<lambda>projectId.
     andThen (checked (parseIssueListQuery queryString)) (\<lambda>q.
     andThen (getAccess projectId (rc_userId ctx) (rc_correlationId ctx)) (\<lambda>_.
     andThen (listIssues projectId (lq_filter q) (lq_after q) (lq_limit q)) (\<lambda>page.
     returning \<lparr>il_items = pg_items page, il_nextCursor = map_option encodeIssueCursor (pg_next page)\<rparr>))))"

definition service_getIssue :: "string \<Rightarrow> request_context \<Rightarrow> issue prog" where
  "service_getIssue issueIdValue ctx = requireVisibleIssue issueIdValue ctx False"

definition patched ::
    "js_object \<Rightarrow> string \<Rightarrow> 'a \<Rightarrow> (jsval \<Rightarrow> exn + 'a) \<Rightarrow> exn + 'a" where
  "patched input field current validate =
     (if js_get input field = Undefined then Inr current else validate (js_get input field))"

definition update_input :: "js_object \<Rightarrow> issue \<Rightarrow> exn + update_issue_data" where
  "update_input input issue =
     try_then (patched input ''summary'' (i_summary issue) (\<lambda>v. requiredText v ''summary'' 200)) (\<lambda>summary.
     try_then (patched input ''description'' (i_description issue) (\<lambda>v. optionalText v ''description'' 5000)) (\<lambda>description.
     try_then (patched input ''type'' (i_type issue) (\<lambda>v. enumValue v ''type'' ISSUE_TYPES)) (\<lambda>type.
     try_then (patched input ''priority'' (i_priority issue) (\<lambda>v. enumValue v ''priority'' ISSUE_PRIORITIES)) (\<lambda>priority.
     Inr \<lparr>u_summary = summary, u_description = description, u_type = type, u_priority = priority\<rparr>))))"

definition service_updateIssue :: "string \<Rightarrow> jsval \<Rightarrow> request_context \<Rightarrow> issue prog" where
  "service_updateIssue issueIdValue body ctx =
     andThen (checked (body_of body)) (\<lambda>input.
     andThen (checked (assertCorePatchFields input)) (\<lambda>_.
     if \<not> hasCorePatchMutation input then
       andThen (checked (if has_own input ''expectedVersion'' then map_result (\<lambda>_. ()) (expectedVersion input)
                         else Inr ())) (\<lambda>_.
       requireVisibleIssue issueIdValue ctx False)
     else
       andThen (checked (expectedVersion input)) (\<lambda>expected.
       andThen (requireVisibleIssue issueIdValue ctx True) (\<lambda>issue.
       andThen (checked (assertExpectedVersion issue expected)) (\<lambda>_.
       andThen (checked (update_input input issue)) (\<lambda>data.
       updateIssue issue expected data (rc_userId ctx)))))))"

definition service_assignIssue :: "string \<Rightarrow> jsval \<Rightarrow> request_context \<Rightarrow> issue prog" where
  "service_assignIssue issueIdValue body ctx =
     andThen (checked (body_of body)) (\<lambda>input.
     andThen (checked (expectedVersion input)) (\<lambda>expected.
     andThen (requireVisibleIssue issueIdValue ctx True) (\<lambda>issue.
     andThen (checked (assertExpectedVersion issue expected)) (\<lambda>_.
     andThen (checked (optionalUuid (js_get input ''assigneeUserId'') ''assigneeUserId'')) (\<lambda>assigneeUserId.
     andThen (case assigneeUserId of
                None \<Rightarrow> returning Undefined
              | Some a \<Rightarrow> getAccess (i_projectId issue) a (rc_correlationId ctx)) (\<lambda>_.
     assignIssue issue expected assigneeUserId (rc_userId ctx)))))))"

definition service_transitionIssue :: "string \<Rightarrow> jsval \<Rightarrow> request_context \<Rightarrow> issue prog" where
  "service_transitionIssue issueIdValue body ctx =
     andThen (checked (body_of body)) (\<lambda>input.
     andThen (checked (enumValue (js_get input ''status'') ''status'' ISSUE_STATUSES)) (\<lambda>status.
     andThen (requireVisibleIssue issueIdValue ctx True) (\<lambda>issue.
     andThen (checked (expectedVersion input)) (\<lambda>expected.
     andThen (checked (assertExpectedVersion issue expected)) (\<lambda>_.
     andThen (checked (assertTransition (i_status issue) status)) (\<lambda>transition.
     transitionIssue issue expected transition (rc_userId ctx)))))))"

definition service_addComment :: "string \<Rightarrow> jsval \<Rightarrow> request_context \<Rightarrow> issue_comment prog" where
  "service_addComment issueIdValue body ctx =
     andThen (requireVisibleIssue issueIdValue ctx True) (\<lambda>issue.
     andThen (checked (try_then (body_of body) (\<lambda>input. requiredText (js_get input ''body'') ''body'' 5000))) (\<lambda>commentBody.
     addComment issue (rc_userId ctx) commentBody))"

definition service_listComments :: "string \<Rightarrow> request_context \<Rightarrow> issue_comment list prog" where
  "service_listComments issueIdValue ctx =
     andThen (requireVisibleIssue issueIdValue ctx False) (\<lambda>issue. listComments (i_id issue))"

definition service_listHistory :: "string \<Rightarrow> request_context \<Rightarrow> issue_history list prog" where
  "service_listHistory issueIdValue ctx =
     andThen (requireVisibleIssue issueIdValue ctx False) (\<lambda>issue. listHistory (i_id issue))"

section \<open>The use cases beside other sessions\<close>

lemma requireWritableProject_runs: "runs db_steps issue_env P (requireWritableProject p ctx) (\<lambda>_. P)"
  unfolding requireWritableProject_def
  by (intro issue_protocol.after_access issue_protocol.after_check issue_protocol.runs_returning)

lemma visible_check_runs:
  "runs db_steps issue_env (\<lambda>d. db_inv d \<and> seen issue d)
    (catching
       (andThen (getAccess p u c) (\<lambda>access. if writable then checked (assertWritable access) else returning ()))
       (\<lambda>error. if is_domain_404 error then throwing notFound else throwing error))
    (\<lambda>_ d. db_inv d \<and> seen issue d)" (is "runs _ _ ?P _ _")
proof (rule issue_protocol.runs_catching [OF _ stable_seen])
  show "runs db_steps issue_env ?P
      (andThen (getAccess p u c) (\<lambda>access. if writable then checked (assertWritable access) else returning ())) (\<lambda>_. ?P)"
    by (rule issue_protocol.after_access) (simp add: issue_protocol.runs_checked issue_protocol.runs_returning)
  show "runs db_steps issue_env ?P (if is_domain_404 x then throwing notFound else throwing x) (\<lambda>_. ?P)" for x
    by (simp add: issue_protocol.runs_throwing)
qed

lemma pure_pre: "(B \<Longrightarrow> runs R E P p Q) \<Longrightarrow> runs R E (\<lambda>d. P d \<and> B) p Q"
  unfolding runs_def by blast

lemma requireVisibleIssue_runs:
  "runs db_steps issue_env db_inv (requireVisibleIssue i ctx writable)
     (\<lambda>issue d. (db_inv d \<and> seen issue d) \<and> uuid (Str i) ''issueId'' = Inr (i_id issue))"
  unfolding requireVisibleIssue_def
proof (rule issue_protocol.after_check)
  fix issueId assume u: "uuid (Str i) ''issueId'' = Inr issueId"
  then have "canonical_uuid issueId" by (rule uuid_canonical)
  note found = findIssue_runs [OF this]
  show "runs db_steps issue_env db_inv
     (andThen (findIssue issueId) (\<lambda>found.
       case found of None \<Rightarrow> throwing notFound
       | Some issue \<Rightarrow>
         andThen
           (catching
             (andThen (getAccess (i_projectId issue) (rc_userId ctx) (rc_correlationId ctx)) (\<lambda>access.
                if writable then checked (assertWritable access) else returning ()))
             (\<lambda>error. if is_domain_404 error then throwing notFound else throwing error))
           (\<lambda>_. returning issue)))
     (\<lambda>issue d. (db_inv d \<and> seen issue d) \<and> uuid (Str i) ''issueId'' = Inr (i_id issue))"
  proof (rule issue_protocol.runs_andThen [OF found], goal_cases)
    case (1 r)
    show ?case
    proof (cases r)
      case None
      then show ?thesis by (simp add: issue_protocol.runs_throwing)
    next
      case (Some issue)
      show ?thesis
      proof (rule issue_protocol.runs_weaken [OF pure_pre [where B = "i_id issue = issueId"]])
        assume "i_id issue = issueId"
        then show "runs db_steps issue_env (\<lambda>d. db_inv d \<and> seen issue d)
          (case r of None \<Rightarrow> throwing notFound
           | Some issue \<Rightarrow>
             andThen
               (catching
                 (andThen (getAccess (i_projectId issue) (rc_userId ctx) (rc_correlationId ctx)) (\<lambda>access.
                    if writable then checked (assertWritable access) else returning ()))
                 (\<lambda>error. if is_domain_404 error then throwing notFound else throwing error))
               (\<lambda>_. returning issue))
          (\<lambda>issue d. (db_inv d \<and> seen issue d) \<and> uuid (Str i) ''issueId'' = Inr (i_id issue))"
          unfolding Some option.case
          by (intro issue_protocol.runs_andThen [OF visible_check_runs [of issue]] issue_protocol.runs_returning)
            (simp add: u)
      qed (simp_all add: Some)
    qed
  qed
qed

text \<open>
  A step after the issue has been read. The expected version is the one read, or the request
  has been refused.
\<close>

lemma after_issue:
  "(\<And>issue. uuid (Str i) ''issueId'' = Inr (i_id issue) \<Longrightarrow>
      runs db_steps issue_env (\<lambda>d. db_inv d \<and> seen issue d) (f issue) Q) \<Longrightarrow>
   runs db_steps issue_env db_inv (andThen (requireVisibleIssue i ctx writable) f) Q"
  by (rule issue_protocol.runs_andThen [OF requireVisibleIssue_runs]) (rule pure_pre)

lemma assertExpectedVersion_Inr [simp]: "assertExpectedVersion issue v = Inr u \<longleftrightarrow> i_version issue = v"
  by (auto simp: assertExpectedVersion_def)

definition epic_of :: "string \<Rightarrow> string \<Rightarrow> db \<Rightarrow> bool" where
  "epic_of p i d \<longleftrightarrow> (\<exists>x\<in>set (t_epics d). er_id x = i \<and> er_project_id x = p)"

definition sprint_of :: "string \<Rightarrow> string \<Rightarrow> db \<Rightarrow> bool" where
  "sprint_of p i d \<longleftrightarrow> (\<exists>x\<in>set (t_sprints d). sr_id x = i \<and> sr_project_id x = p)"

lemma epic_check:
  assumes "canonical_uuid i"
  shows "runs db_steps issue_env db_inv
    (andThen (findEpic i) (\<lambda>epic. checked (if opt_ok (\<lambda>x. e_projectId x \<noteq> p) epic then Inl err else Inr ())))
    (\<lambda>_ d. db_inv d \<and> epic_of p i d)"
proof (rule issue_protocol.runs_andThen [OF findEpic_runs [OF assms]], rule issue_protocol.runs_checked)
  fix found a d
  assume "(if opt_ok (\<lambda>x. e_projectId x \<noteq> p) found then Inl err else Inr ()) = Inr a"
    and "db_inv d \<and> opt_ok (\<lambda>epic. epic_seen epic d \<and> e_id epic = i) found"
  then show "db_inv d \<and> epic_of p i d"
    by (cases found) (auto simp: epic_of_def epic_seen_def split: if_splits)
qed

lemma sprint_check:
  assumes "canonical_uuid i"
  shows "runs db_steps issue_env db_inv
    (andThen (findSprint i) (\<lambda>sprint. checked (if opt_ok (\<lambda>x. s_projectId x \<noteq> p \<or> s_status x \<noteq> ACTIVE) sprint
       then Inl err else Inr ())))
    (\<lambda>_ d. db_inv d \<and> sprint_of p i d)"
proof (rule issue_protocol.runs_andThen [OF findSprint_runs [OF assms]], rule issue_protocol.runs_checked)
  fix found a d
  assume "(if opt_ok (\<lambda>x. s_projectId x \<noteq> p \<or> s_status x \<noteq> ACTIVE) found then Inl err else Inr ()) = Inr a"
    and "db_inv d \<and> opt_ok (\<lambda>sprint. sprint_seen sprint d \<and> s_id sprint = i) found"
  then show "db_inv d \<and> sprint_of p i d"
    by (cases found) (auto simp: sprint_of_def sprint_seen_def split: if_splits)
qed

lemma stable_epic_of: "stable db_steps (\<lambda>d. db_inv d \<and> opt_ok (\<lambda>i. epic_of p i d) epicId)"
  unfolding stable_def
proof (intro allI impI conjI)
  fix d d' assume h: "db_inv d \<and> opt_ok (\<lambda>i. epic_of p i d) epicId" "db_steps d d'"
  show "db_inv d'" using h db_steps_inv by blast
  have "planning_grows d d'" using h planning_evolves by blast
  then have "epic_of p i d \<Longrightarrow> epic_of p i d'" for i unfolding epic_of_def planning_grows_def by metis
  then show "opt_ok (\<lambda>i. epic_of p i d') epicId" using h(1) by (cases epicId) simp_all
qed

lemma assertPlanningLinks_runs:
  assumes "opt_ok canonical_uuid epicId" "opt_ok canonical_uuid sprintId"
  shows "runs db_steps issue_env db_inv (assertPlanningLinks p epicId sprintId)
    (\<lambda>_ d. db_inv d \<and> opt_ok (\<lambda>i. epic_of p i d) epicId \<and> opt_ok (\<lambda>i. sprint_of p i d) sprintId)"
  unfolding assertPlanningLinks_def
proof (rule issue_protocol.runs_andThen)
  show "runs db_steps issue_env db_inv
      (case epicId of
          None \<Rightarrow> returning ()
        | Some i \<Rightarrow>
            andThen (findEpic i) (\<lambda>epic.
            checked (if opt_ok (\<lambda>x. e_projectId x \<noteq> p) epic
                     then Inl (validationError ''epicId'' ''epicId must belong to this project'')
                     else Inr ()))) (\<lambda>_ d. db_inv d \<and> opt_ok (\<lambda>i. epic_of p i d) epicId)"
    using assms(1) epic_check [of _ p]
    by (cases epicId) (simp_all only: option.case opt_ok_simps, simp add: issue_protocol.runs_returning)
  fix u
  have "runs db_steps issue_env db_inv
      (case sprintId of
          None \<Rightarrow> returning ()
        | Some i \<Rightarrow>
            andThen (findSprint i) (\<lambda>sprint.
            checked (if opt_ok (\<lambda>x. s_projectId x \<noteq> p \<or> s_status x \<noteq> ACTIVE) sprint
                     then Inl (validationError ''sprintId'' ''sprintId must be an active sprint in this project'')
                     else Inr ()))) (\<lambda>_ d. db_inv d \<and> opt_ok (\<lambda>i. sprint_of p i d) sprintId)"
    (is "runs _ _ _ ?second _")
    using assms(2) sprint_check [of _ p]
    by (cases sprintId) (simp_all only: option.case opt_ok_simps, simp add: issue_protocol.runs_returning)
  from runs_frame [OF this stable_epic_of [of p epicId]]
  show "runs db_steps issue_env (\<lambda>d. db_inv d \<and> opt_ok (\<lambda>i. epic_of p i d) epicId) ?second
     (\<lambda>_ d. db_inv d \<and> opt_ok (\<lambda>i. epic_of p i d) epicId \<and> opt_ok (\<lambda>i. sprint_of p i d) sprintId)"
    by (rule issue_protocol.runs_weaken) simp_all
qed

text \<open>What each use case leaves: the invariant, and the change its answer reports.\<close>

lemma optionalUuid_canonical: "optionalUuid v f = Inr a \<Longrightarrow> opt_ok canonical_uuid a"
  by (auto simp: optionalUuid_def map_result_Inr_iff uuid_canonical split: if_splits)

lemma service_createIssue_runs:
  "runs db_steps issue_env db_inv (service_createIssue p body ctx)
    (\<lambda>issue d. db_inv d \<and> issue \<in> toIssue ` set (t_issues d) \<and> i_version issue = 1 \<and> i_status issue = TODO)"
  unfolding service_createIssue_def
proof (intro issue_protocol.after_check issue_protocol.runs_andThen [OF requireWritableProject_runs] issue_protocol.after_optional_access)
  fix projectId input access assignee epicId sprintId x
  assume h: "uuid (Str p) ''projectId'' = Inr projectId"
    "optionalUuid (js_get input ''epicId'') ''epicId'' = Inr epicId"
    "optionalUuid (js_get input ''sprintId'') ''sprintId'' = Inr sprintId"
  note links = assertPlanningLinks_runs [OF optionalUuid_canonical [OF h(2)] optionalUuid_canonical [OF h(3)], of projectId]
  show "runs db_steps issue_env db_inv
     (andThen (assertPlanningLinks projectId epicId sprintId) (\<lambda>_.
      andThen (ask (\<lambda>e. new_issue_input e projectId access input (rc_userId ctx) assignee epicId sprintId)) (\<lambda>data.
      andThen (checked data) createIssue)))
     (\<lambda>issue d. db_inv d \<and> issue \<in> toIssue ` set (t_issues d) \<and> i_version issue = 1 \<and> i_status issue = TODO)"
  proof (rule issue_protocol.runs_andThen [OF links], intro issue_protocol.after_asking issue_protocol.after_check)
    fix e data
    assume "new_issue_input e projectId access input (rc_userId ctx) assignee epicId sprintId = Inr data"
    then have d: "n_projectId data = projectId" "n_epicId data = epicId" "n_sprintId data = sprintId"
      by (auto simp: new_issue_input_def)
    have "linked data d" if "opt_ok (\<lambda>i. epic_of projectId i d) epicId" "opt_ok (\<lambda>i. sprint_of projectId i d) sprintId" for d
      using that d uuid_canonical [OF h(1)] optionalUuid_canonical [OF h(2)] optionalUuid_canonical [OF h(3)]
      by (auto simp: linked_def epic_of_def sprint_of_def opt_ok_def split: option.splits)
    then show "runs db_steps issue_env
        (\<lambda>d. db_inv d \<and> opt_ok (\<lambda>i. epic_of projectId i d) epicId \<and> opt_ok (\<lambda>i. sprint_of projectId i d) sprintId)
        (createIssue data)
        (\<lambda>issue d. db_inv d \<and> issue \<in> toIssue ` set (t_issues d) \<and> i_version issue = 1 \<and> i_status issue = TODO)"
      by (intro issue_protocol.runs_weaken [OF createIssue_runs]) auto
  qed
qed

lemma service_updateIssue_runs:
  "runs db_steps issue_env db_inv (service_updateIssue i body ctx) (\<lambda>_. db_inv)"
  unfolding service_updateIssue_def
proof (intro issue_protocol.after_check)
  fix input u
  show "runs db_steps issue_env db_inv
     (if \<not> hasCorePatchMutation input then
       andThen (checked (if has_own input ''expectedVersion'' then map_result (\<lambda>_. ()) (expectedVersion input)
                         else Inr ())) (\<lambda>_.
       requireVisibleIssue i ctx False)
     else
       andThen (checked (expectedVersion input)) (\<lambda>expected.
       andThen (requireVisibleIssue i ctx True) (\<lambda>issue.
       andThen (checked (assertExpectedVersion issue expected)) (\<lambda>_.
       andThen (checked (update_input input issue)) (\<lambda>data.
       updateIssue issue expected data (rc_userId ctx)))))) (\<lambda>_. db_inv)"
    by (cases "hasCorePatchMutation input")
      (auto intro!: issue_protocol.after_check after_issue issue_protocol.runs_weaken [OF requireVisibleIssue_runs]
        issue_protocol.runs_weaken [OF updateIssue_runs])
qed

lemma service_assignIssue_runs:
  "runs db_steps issue_env db_inv (service_assignIssue i body ctx) (\<lambda>_. db_inv)"
  unfolding service_assignIssue_def
  by (intro issue_protocol.after_check after_issue issue_protocol.after_optional_access)
    (auto intro!: issue_protocol.runs_weaken [OF assignIssue_runs])

lemma service_transitionIssue_runs:
  "runs db_steps issue_env db_inv (service_transitionIssue i body ctx) (\<lambda>_. db_inv)"
  unfolding service_transitionIssue_def
  by (intro issue_protocol.after_check after_issue)
    (auto intro!: issue_protocol.runs_weaken [OF transitionIssue_runs])

lemma service_addComment_runs:
  "runs db_steps issue_env db_inv (service_addComment i body ctx) (\<lambda>_. db_inv)"
  unfolding service_addComment_def
  by (intro issue_protocol.after_check after_issue)
    (auto intro!: issue_protocol.runs_weaken [OF addComment_runs])

lemma service_reads_run:
  "runs db_steps issue_env db_inv (service_listIssues p q ctx) (\<lambda>_. db_inv)"
  "runs db_steps issue_env db_inv (service_getIssue i ctx) (\<lambda>_. db_inv)"
  "runs db_steps issue_env db_inv (service_listComments i ctx) (\<lambda>_. db_inv)"
  "runs db_steps issue_env db_inv (service_listHistory i ctx) (\<lambda>_. db_inv)"
proof -
  show "runs db_steps issue_env db_inv (service_listIssues p q ctx) (\<lambda>_. db_inv)"
    unfolding service_listIssues_def
    by (intro issue_protocol.after_check issue_protocol.after_access issue_protocol.runs_andThen [OF listIssues_runs])
      (simp add: issue_protocol.runs_returning)
  show "runs db_steps issue_env db_inv (service_getIssue i ctx) (\<lambda>_. db_inv)"
    unfolding service_getIssue_def by (rule issue_protocol.runs_weaken [OF requireVisibleIssue_runs]) simp_all
  show "runs db_steps issue_env db_inv (service_listComments i ctx) (\<lambda>_. db_inv)"
    unfolding service_listComments_def
    by (rule after_issue, rule issue_protocol.runs_weaken [OF listComments_runs]) simp_all
  show "runs db_steps issue_env db_inv (service_listHistory i ctx) (\<lambda>_. db_inv)"
    unfolding service_listHistory_def
    by (rule after_issue, rule issue_protocol.runs_weaken [OF listHistory_runs]) simp_all
qed

lemmas issue_service_runs = service_updateIssue_runs service_assignIssue_runs service_transitionIssue_runs
  service_addComment_runs service_reads_run

end
