(* ===== verification/Planning_Service.thy ===== *)
theory Planning_Service
  imports Issue_Service
begin

text \<open>
  \<open>apps/issue-service-nest/src/application/planning-application.service.ts\<close>: the use cases on
  epics and sprints. A date of the request is a string, a date kept from a row is what the
  driver made of the column.
\<close>

section \<open>Checks\<close>

definition request_date :: "jsval \<Rightarrow> string \<Rightarrow> exn + date_value option" where
  "request_date value field = map_result (map_option DateString) (optionalDate value field)"

definition planning_writable :: "string \<Rightarrow> request_context \<Rightarrow> unit prog" where
  "planning_writable projectId ctx =
     andThen (getAccess projectId (rc_userId ctx) (rc_correlationId ctx)) (\<lambda>access.
     checked (try_then (property_of access ''projectStatus'') (\<lambda>projectStatus.
       if projectStatus = Str ''ARCHIVED''
       then Inl (DomainError 409 ''PROJECT_ARCHIVED'' ''Archived projects reject planning writes'' [])
       else Inr ())))"

definition requireVisibleEpic :: "string \<Rightarrow> request_context \<Rightarrow> bool \<Rightarrow> epic prog" where
  "requireVisibleEpic epicIdValue ctx writable =
     andThen (checked (uuid (Str epicIdValue) ''epicId'')) (\<lambda>epicId.
     andThen (findEpic epicId) (\<lambda>found.
     case found of
       None \<Rightarrow> throwing (DomainError 404 ''EPIC_NOT_FOUND'' ''Epic was not found'' [])
     | Some epic \<Rightarrow>
         andThen
           (if writable then planning_writable (e_projectId epic) ctx
            else andThen (getAccess (e_projectId epic) (rc_userId ctx) (rc_correlationId ctx)) (\<lambda>_. returning ()))
           (\<lambda>_. returning epic)))"

section \<open>Epics\<close>

definition service_listEpics :: "string \<Rightarrow> request_context \<Rightarrow> epic list prog" where
  "service_listEpics projectIdValue ctx =
     andThen (checked (uuid (Str projectIdValue) ''projectId'')) (\<lambda>projectId.
     andThen (getAccess projectId (rc_userId ctx) (rc_correlationId ctx)) (\<lambda>_.
     listEpics projectId))"

text \<open>\<open>value ?? fallback\<close>.\<close>

definition nullish_or :: "jsval \<Rightarrow> jsval \<Rightarrow> jsval" where
  "nullish_or value fallback = (if value = Undefined \<or> value = Null then fallback else value)"

definition new_epic_input :: "js_object \<Rightarrow> string \<Rightarrow> exn + new_epic_data" where
  "new_epic_input input projectId =
     try_then (request_date (js_get input ''startDate'') ''startDate'') (\<lambda>startDate.
     try_then (request_date (js_get input ''targetDate'') ''targetDate'') (\<lambda>targetDate.
     try_then (planDates startDate targetDate) (\<lambda>_.
     try_then (epicName (js_get input ''name'')) (\<lambda>name.
     try_then (enumValue (nullish_or (js_get input ''color'') (Str ''BLUE'')) ''color'' EPIC_COLORS) (\<lambda>color.
     Inr \<lparr>ne_projectId = projectId, ne_name = name, ne_color = color, ne_startDate = startDate,
          ne_targetDate = targetDate\<rparr>)))))"

definition service_createEpic :: "string \<Rightarrow> jsval \<Rightarrow> request_context \<Rightarrow> epic prog" where
  "service_createEpic projectIdValue body ctx =
     andThen (checked (uuid (Str projectIdValue) ''projectId'')) (\<lambda>projectId.
     andThen (planning_writable projectId ctx) (\<lambda>_.
     andThen (checked (body_of body)) (\<lambda>input.
     andThen (checked (new_epic_input input projectId)) createEpic)))"

definition update_epic_input :: "js_object \<Rightarrow> epic \<Rightarrow> exn + new_epic_data" where
  "update_epic_input input epic =
     try_then (patched input ''startDate'' (e_startDate epic) (\<lambda>v. request_date v ''startDate'')) (\<lambda>startDate.
     try_then (patched input ''targetDate'' (e_targetDate epic) (\<lambda>v. request_date v ''targetDate'')) (\<lambda>targetDate.
     try_then (planDates startDate targetDate) (\<lambda>_.
     try_then (patched input ''name'' (e_name epic) epicName) (\<lambda>name.
     try_then (patched input ''color'' (e_color epic) (\<lambda>v. enumValue v ''color'' EPIC_COLORS)) (\<lambda>color.
     Inr \<lparr>ne_projectId = e_projectId epic, ne_name = name, ne_color = color, ne_startDate = startDate,
          ne_targetDate = targetDate\<rparr>)))))"

definition service_updateEpic :: "string \<Rightarrow> jsval \<Rightarrow> request_context \<Rightarrow> epic prog" where
  "service_updateEpic epicIdValue body ctx =
     andThen (requireVisibleEpic epicIdValue ctx True) (\<lambda>epic.
     andThen (checked (body_of body)) (\<lambda>input.
     andThen (checked (update_epic_input input epic)) (updateEpic epic)))"

section \<open>Sprints\<close>

definition service_listSprints :: "string \<Rightarrow> request_context \<Rightarrow> sprint list prog" where
  "service_listSprints projectIdValue ctx =
     andThen (checked (uuid (Str projectIdValue) ''projectId'')) (\<lambda>projectId.
     andThen (getAccess projectId (rc_userId ctx) (rc_correlationId ctx)) (\<lambda>_.
     listSprints projectId))"

definition new_sprint_input :: "js_object \<Rightarrow> string \<Rightarrow> exn + new_sprint_data" where
  "new_sprint_input input projectId =
     try_then (request_date (js_get input ''startDate'') ''startDate'') (\<lambda>startDate.
     try_then (request_date (js_get input ''endDate'') ''endDate'') (\<lambda>endDate.
     try_then (planDates startDate endDate) (\<lambda>_.
     try_then (epicName (js_get input ''name'')) (\<lambda>name.
     try_then (optionalText (js_get input ''goal'') ''goal'' 500) (\<lambda>goal.
     Inr \<lparr>ns_projectId = projectId, ns_name = name, ns_goal = goal, ns_startDate = startDate,
          ns_endDate = endDate\<rparr>)))))"

definition service_createSprint :: "string \<Rightarrow> jsval \<Rightarrow> request_context \<Rightarrow> sprint prog" where
  "service_createSprint projectIdValue body ctx =
     andThen (checked (uuid (Str projectIdValue) ''projectId'')) (\<lambda>projectId.
     andThen (planning_writable projectId ctx) (\<lambda>_.
     andThen (checked (body_of body)) (\<lambda>input.
     andThen (checked (new_sprint_input input projectId)) createSprint)))"

definition service_completeSprint :: "string \<Rightarrow> request_context \<Rightarrow> sprint prog" where
  "service_completeSprint sprintIdValue ctx =
     andThen (checked (uuid (Str sprintIdValue) ''sprintId'')) (\<lambda>sprintId.
     andThen (findSprint sprintId) (\<lambda>found.
     case found of
       None \<Rightarrow> throwing (DomainError 404 ''SPRINT_NOT_FOUND'' ''Sprint was not found'' [])
     | Some sprint \<Rightarrow>
         andThen (planning_writable (s_projectId sprint) ctx) (\<lambda>_.
         if s_status sprint \<noteq> ACTIVE
         then throwing (DomainError 409 ''SPRINT_ALREADY_COMPLETED'' ''Sprint has already been completed'' [])
         else completeSprint sprint)))"

section \<open>The use cases beside other sessions\<close>

lemma planning_writable_runs: "runs db_steps issue_env P (planning_writable p ctx) (\<lambda>_. P)"
  unfolding planning_writable_def by (intro issue_protocol.after_access issue_protocol.runs_checked)

lemma found_weaken:
  "runs db_steps issue_env db_inv p (\<lambda>r d. db_inv d \<and> opt_ok (\<lambda>x. Q x d) r) \<Longrightarrow>
   runs db_steps issue_env db_inv p (\<lambda>_. db_inv)"
  unfolding runs_def by blast

lemma requireVisibleEpic_runs:
  "runs db_steps issue_env db_inv (requireVisibleEpic i ctx writable) (\<lambda>_. db_inv)"
  unfolding requireVisibleEpic_def
proof (rule issue_protocol.after_check)
  fix epicId assume "uuid (Str i) ''epicId'' = Inr epicId"
  then have "canonical_uuid epicId" by (rule uuid_canonical)
  note found = found_weaken [OF findEpic_runs [OF this]]
  show "runs db_steps issue_env db_inv
     (andThen (findEpic epicId) (\<lambda>found.
     case found of
       None \<Rightarrow> throwing (DomainError 404 ''EPIC_NOT_FOUND'' ''Epic was not found'' [])
     | Some epic \<Rightarrow>
         andThen
           (if writable then planning_writable (e_projectId epic) ctx
            else andThen (getAccess (e_projectId epic) (rc_userId ctx) (rc_correlationId ctx)) (\<lambda>_. returning ()))
           (\<lambda>_. returning epic))) (\<lambda>_. db_inv)"
  proof (rule issue_protocol.runs_andThen [OF found], goal_cases)
    case (1 r)
    show ?case
    proof (cases r)
      case (Some epic)
      have "runs db_steps issue_env db_inv
          (if writable then planning_writable (e_projectId epic) ctx
           else andThen (getAccess (e_projectId epic) (rc_userId ctx) (rc_correlationId ctx)) (\<lambda>_. returning ())) (\<lambda>_. db_inv)"
        by (simp add: planning_writable_runs issue_protocol.after_access issue_protocol.runs_returning)
      then show ?thesis unfolding Some option.case
        by (rule issue_protocol.runs_andThen) (rule issue_protocol.runs_returning)
    qed (simp add: issue_protocol.runs_throwing)
  qed
qed

lemma service_createEpic_runs:
  "runs db_steps issue_env db_inv (service_createEpic p body ctx) (\<lambda>_. db_inv)"
  unfolding service_createEpic_def
proof (intro issue_protocol.after_check issue_protocol.runs_andThen [OF planning_writable_runs])
  fix projectId input data
  assume "uuid (Str p) ''projectId'' = Inr projectId" "new_epic_input input projectId = Inr data"
  then have "canonical_uuid (ne_projectId data)" by (auto simp: new_epic_input_def uuid_canonical)
  from createEpic_runs [OF this] show "runs db_steps issue_env db_inv (createEpic data) (\<lambda>_. db_inv)"
    by (rule issue_protocol.runs_weaken) simp_all
qed

lemma service_createSprint_runs:
  "runs db_steps issue_env db_inv (service_createSprint p body ctx) (\<lambda>_. db_inv)"
  unfolding service_createSprint_def
proof (intro issue_protocol.after_check issue_protocol.runs_andThen [OF planning_writable_runs])
  fix projectId input data
  assume "uuid (Str p) ''projectId'' = Inr projectId" "new_sprint_input input projectId = Inr data"
  then have "canonical_uuid (ns_projectId data)" by (auto simp: new_sprint_input_def uuid_canonical)
  from createSprint_runs [OF this] show "runs db_steps issue_env db_inv (createSprint data) (\<lambda>_. db_inv)"
    by (rule issue_protocol.runs_weaken) simp_all
qed

lemma service_updateEpic_runs:
  "runs db_steps issue_env db_inv (service_updateEpic i body ctx) (\<lambda>_. db_inv)"
  unfolding service_updateEpic_def
  by (intro issue_protocol.after_check issue_protocol.runs_andThen [OF requireVisibleEpic_runs])
    (rule issue_protocol.runs_weaken [OF updateEpic_runs], simp_all)

lemma service_completeSprint_runs:
  "runs db_steps issue_env db_inv (service_completeSprint i ctx) (\<lambda>_. db_inv)"
  unfolding service_completeSprint_def
proof (rule issue_protocol.after_check)
  fix sprintId assume "uuid (Str i) ''sprintId'' = Inr sprintId"
  then have "canonical_uuid sprintId" by (rule uuid_canonical)
  note found = found_weaken [OF findSprint_runs [OF this]]
  have complete: "runs db_steps issue_env db_inv (completeSprint sprint) (\<lambda>_. db_inv)" for sprint
    by (rule issue_protocol.runs_weaken [OF completeSprint_runs]) simp_all
  show "runs db_steps issue_env db_inv
     (andThen (findSprint sprintId) (\<lambda>found.
     case found of
       None \<Rightarrow> throwing (DomainError 404 ''SPRINT_NOT_FOUND'' ''Sprint was not found'' [])
     | Some sprint \<Rightarrow>
         andThen (planning_writable (s_projectId sprint) ctx) (\<lambda>_.
         if s_status sprint \<noteq> ACTIVE
         then throwing (DomainError 409 ''SPRINT_ALREADY_COMPLETED'' ''Sprint has already been completed'' [])
         else completeSprint sprint))) (\<lambda>_. db_inv)"
  proof (rule issue_protocol.runs_andThen [OF found], goal_cases)
    case (1 r)
    show ?case
    proof (cases r)
      case (Some sprint)
      show ?thesis unfolding Some option.case
        by (rule issue_protocol.runs_andThen [OF planning_writable_runs])
          (simp add: issue_protocol.runs_throwing complete)
    qed (simp add: issue_protocol.runs_throwing)
  qed
qed

lemma planning_reads_run:
  "runs db_steps issue_env db_inv (service_listEpics p ctx) (\<lambda>_. db_inv)"
  "runs db_steps issue_env db_inv (service_listSprints p ctx) (\<lambda>_. db_inv)"
  unfolding service_listEpics_def service_listSprints_def
  by (intro issue_protocol.after_check issue_protocol.after_access listEpics_runs listSprints_runs)+

lemmas planning_service_runs = service_createEpic_runs service_updateEpic_runs service_createSprint_runs
  service_completeSprint_runs planning_reads_run

end
