(* ===== verification/Issue_Server.thy ===== *)
theory Issue_Server
  imports Planning_Service Outbox
begin

text \<open>
  The HTTP face of the issue service: \<open>main.ts\<close> with its hooks, the controllers, the
  exception filter of \<open>presentation\<close>, and \<open>health/health.controller.ts\<close>. Routing, parsing
  and JSON rendering are the framework's: a request carries the handler its method and path
  matched with the decoded path parameters, and its query and body as parsed values.
\<close>

section \<open>Requests and responses\<close>

datatype issue_route =
    CreateIssue string | ListIssues string | GetIssue string | UpdateIssue string | AssignIssue string
  | TransitionIssue string | AddComment string | ListComments string | ListHistory string

datatype planning_route =
    ListEpics string | CreateEpic string | UpdateEpic string
  | ListSprints string | CreateSprint string | CompleteSprint string

datatype route = Issues issue_route | Planning planning_route | Health | NoRoute string

record server_request =
  rq_url :: string
  rq_route :: route
  rq_headers :: js_object
  rq_query :: jsval
  rq_body :: jsval
  rq_id :: string

record http_response =
  rs_status :: nat
  rs_body :: jsval
  rs_correlation :: "string option"

section \<open>JSON\<close>

text \<open>\<open>JSON.stringify\<close> renders a \<open>Date\<close> as its ISO string.\<close>

definition date_json :: "int \<Rightarrow> jsval" where
  "date_json t = Str (to_iso_string t)"

fun date_value_json :: "date_value \<Rightarrow> jsval" where
  "date_value_json (DateString s) = Str s"
| "date_value_json (DateObject t) = date_json t"

definition or_null :: "('a \<Rightarrow> jsval) \<Rightarrow> 'a option \<Rightarrow> jsval" where
  "or_null f v = (case v of None \<Rightarrow> Null | Some x \<Rightarrow> f x)"

definition int_json :: "int \<Rightarrow> jsval" where
  "int_json n = Num (Fin (of_int n))"

definition issue_json :: "issue \<Rightarrow> jsval" where
  "issue_json i = Obj
     [(''id'', Str (i_id i)), (''projectId'', Str (i_projectId i)), (''number'', int_json (i_number i)),
      (''key'', Str (i_key i)), (''summary'', Str (i_summary i)),
      (''description'', str_or_null (i_description i)), (''type'', Str (type_name (i_type i))),
      (''priority'', Str (priority_name (i_priority i))), (''status'', Str (status_name (i_status i))),
      (''reporterUserId'', Str (i_reporterUserId i)), (''assigneeUserId'', str_or_null (i_assigneeUserId i)),
      (''epicId'', str_or_null (i_epicId i)), (''sprintId'', str_or_null (i_sprintId i)),
      (''version'', int_json (i_version i)), (''createdAt'', date_json (i_createdAt i)),
      (''updatedAt'', date_json (i_updatedAt i))]"

definition comment_json :: "issue_comment \<Rightarrow> jsval" where
  "comment_json c = Obj
     [(''id'', Str (c_id c)), (''issueId'', Str (c_issueId c)), (''authorUserId'', Str (c_authorUserId c)),
      (''body'', Str (c_body c)), (''createdAt'', date_json (c_createdAt c)),
      (''updatedAt'', date_json (c_updatedAt c))]"

definition history_json :: "issue_history \<Rightarrow> jsval" where
  "history_json h = Obj
     [(''id'', Str (h_id h)), (''issueId'', Str (h_issueId h)), (''actorUserId'', Str (h_actorUserId h)),
      (''action'', Str (h_action h)), (''fromValue'', h_fromValue h), (''toValue'', h_toValue h),
      (''createdAt'', date_json (h_createdAt h))]"

fun color_name :: "epic_color \<Rightarrow> string" where
  "color_name PURPLE = ''PURPLE''"
| "color_name BLUE = ''BLUE''"
| "color_name GREEN = ''GREEN''"
| "color_name YELLOW = ''YELLOW''"
| "color_name ORANGE = ''ORANGE''"

fun sprint_status_name :: "sprint_status \<Rightarrow> string" where
  "sprint_status_name ACTIVE = ''ACTIVE''"
| "sprint_status_name COMPLETED = ''COMPLETED''"

definition epic_json :: "epic \<Rightarrow> jsval" where
  "epic_json x = Obj
     [(''id'', Str (e_id x)), (''projectId'', Str (e_projectId x)), (''name'', Str (e_name x)),
      (''color'', Str (color_name (e_color x))), (''startDate'', or_null date_value_json (e_startDate x)),
      (''targetDate'', or_null date_value_json (e_targetDate x)), (''createdAt'', date_json (e_createdAt x)),
      (''updatedAt'', date_json (e_updatedAt x))]"

definition sprint_json :: "sprint \<Rightarrow> jsval" where
  "sprint_json x = Obj
     [(''id'', Str (s_id x)), (''projectId'', Str (s_projectId x)), (''name'', Str (s_name x)),
      (''goal'', str_or_null (s_goal x)), (''startDate'', or_null date_value_json (s_startDate x)),
      (''endDate'', or_null date_value_json (s_endDate x)), (''status'', Str (sprint_status_name (s_status x))),
      (''createdAt'', date_json (s_createdAt x)), (''completedAt'', or_null date_json (s_completedAt x))]"

definition items_json :: "('a \<Rightarrow> jsval) \<Rightarrow> 'a list \<Rightarrow> jsval" where
  "items_json f xs = Obj [(''items'', Arr (map f xs))]"

definition issue_list_json :: "issue_list \<Rightarrow> jsval" where
  "issue_list_json l = Obj [(''items'', Arr (map issue_json (il_items l))),
     (''nextCursor'', str_or_null (il_nextCursor l))]"

section \<open>Health\<close>

definition STALE_PENDING_SECONDS :: int where
  "STALE_PENDING_SECONDS = 300"

definition outbox_json :: "outbox_status \<Rightarrow> jsval" where
  "outbox_json s = Obj [(''pending'', int_json (int (os_pending s))), (''abandoned'', int_json (int (os_abandoned s))),
     (''oldestPendingSeconds'', or_null int_json (os_oldestPendingSeconds s))]"

definition health_ok :: "outbox_status option \<Rightarrow> bool \<Rightarrow> bool" where
  "health_ok outbox kafka_up \<longleftrightarrow>
     (case outbox of
        None \<Rightarrow> False
      | Some s \<Rightarrow> os_abandoned s = 0 \<and>
          (case os_oldestPendingSeconds s of None \<Rightarrow> 0 | Some n \<Rightarrow> n) < STALE_PENDING_SECONDS) \<and> kafka_up"

definition health_json :: "outbox_status option \<Rightarrow> bool \<Rightarrow> int \<Rightarrow> jsval" where
  "health_json outbox kafka_up now = Obj
     [(''status'', Str (if health_ok outbox kafka_up then ''ok'' else ''degraded'')),
      (''service'', Str ''issue-service''), (''version'', Str ''0.1.0''), (''timestamp'', date_json now),
      (''dependencies'', Obj
        [(''database'', Str (if outbox = None then ''down'' else ''ok'')),
         (''redis'', Str ''not_applicable''), (''kafka'', Str (if kafka_up then ''ok'' else ''down''))]),
      (''outbox'', or_null outbox_json outbox)]"

text \<open>\<open>publisher.isConnected\<close>.\<close>

definition is_connected :: "bool prog" where
  "is_connected e w = (Inr (w_connected w), w)"

definition getHealth :: "jsval prog" where
  "getHealth =
     andThen (catching (andThen outboxStatus (\<lambda>s. returning (Some s))) (\<lambda>_. returning None)) (\<lambda>outbox.
     andThen is_connected (\<lambda>kafka_up.
     andThen new_Date (\<lambda>now.
     returning (health_json outbox kafka_up now))))"

section \<open>Controllers\<close>

definition header :: "js_object \<Rightarrow> string \<Rightarrow> string option" where
  "header headers name = (case js_get headers name of Str s \<Rightarrow> Some s | _ \<Rightarrow> None)"

definition set_header :: "string \<Rightarrow> string \<Rightarrow> js_object \<Rightarrow> js_object" where
  "set_header name v headers = (name, Str v) # filter (\<lambda>(n, _). n \<noteq> name) headers"

definition requestContext :: "js_object \<Rightarrow> request_context prog" where
  "requestContext headers =
     (case header headers ''x-authenticated-user-id'' of
        Some userId \<Rightarrow>
          if length userId = 0
          then throwing (DomainError 401 ''AUTH_CONTEXT_REQUIRED'' ''Authenticated user context is required'' [])
          else
            (case header headers ''x-correlation-id'' of
               Some c \<Rightarrow>
                 if length c > 0 then returning \<lparr>rc_userId = userId, rc_correlationId = c\<rparr>
                 else andThen randomUUID (\<lambda>c. returning \<lparr>rc_userId = userId, rc_correlationId = c\<rparr>)
             | None \<Rightarrow> andThen randomUUID (\<lambda>c. returning \<lparr>rc_userId = userId, rc_correlationId = c\<rparr>))
      | None \<Rightarrow> throwing (DomainError 401 ''AUTH_CONTEXT_REQUIRED'' ''Authenticated user context is required'' []))"

definition with_context ::
    "js_object \<Rightarrow> nat \<Rightarrow> ('a \<Rightarrow> jsval) \<Rightarrow> (request_context \<Rightarrow> 'a prog) \<Rightarrow> (nat \<times> jsval) prog" where
  "with_context headers status render use_case =
     andThen (requestContext headers) (\<lambda>ctx.
     andThen (use_case ctx) (\<lambda>a. returning (status, render a)))"

definition field_json :: "string \<Rightarrow> ('a \<Rightarrow> jsval) \<Rightarrow> 'a \<Rightarrow> jsval" where
  "field_json name f a = Obj [(name, f a)]"

text \<open>The framework answers a POST with 201 and the others with 200.\<close>

fun issues_controller :: "issue_route \<Rightarrow> js_object \<Rightarrow> jsval \<Rightarrow> jsval \<Rightarrow> (nat \<times> jsval) prog" where
  "issues_controller (CreateIssue p) h q b =
     with_context h 201 (field_json ''issue'' issue_json) (service_createIssue p b)"
| "issues_controller (ListIssues p) h q b = with_context h 200 issue_list_json (service_listIssues p q)"
| "issues_controller (GetIssue i) h q b = with_context h 200 (field_json ''issue'' issue_json) (service_getIssue i)"
| "issues_controller (UpdateIssue i) h q b =
     with_context h 200 (field_json ''issue'' issue_json) (service_updateIssue i b)"
| "issues_controller (AssignIssue i) h q b =
     with_context h 200 (field_json ''issue'' issue_json) (service_assignIssue i b)"
| "issues_controller (TransitionIssue i) h q b =
     with_context h 201 (field_json ''issue'' issue_json) (service_transitionIssue i b)"
| "issues_controller (AddComment i) h q b =
     with_context h 201 (field_json ''comment'' comment_json) (service_addComment i b)"
| "issues_controller (ListComments i) h q b = with_context h 200 (items_json comment_json) (service_listComments i)"
| "issues_controller (ListHistory i) h q b = with_context h 200 (items_json history_json) (service_listHistory i)"

fun planning_controller :: "planning_route \<Rightarrow> js_object \<Rightarrow> jsval \<Rightarrow> (nat \<times> jsval) prog" where
  "planning_controller (ListEpics p) h b = with_context h 200 (items_json epic_json) (service_listEpics p)"
| "planning_controller (CreateEpic p) h b =
     with_context h 201 (field_json ''epic'' epic_json) (service_createEpic p b)"
| "planning_controller (UpdateEpic i) h b =
     with_context h 200 (field_json ''epic'' epic_json) (service_updateEpic i b)"
| "planning_controller (ListSprints p) h b = with_context h 200 (items_json sprint_json) (service_listSprints p)"
| "planning_controller (CreateSprint p) h b =
     with_context h 201 (field_json ''sprint'' sprint_json) (service_createSprint p b)"
| "planning_controller (CompleteSprint i) h b =
     with_context h 201 (field_json ''sprint'' sprint_json) (service_completeSprint i)"

fun dispatch :: "route \<Rightarrow> js_object \<Rightarrow> jsval \<Rightarrow> jsval \<Rightarrow> (nat \<times> jsval) prog" where
  "dispatch (Issues rt) h q b = issues_controller rt h q b"
| "dispatch (Planning rt) h q b = planning_controller rt h b"
| "dispatch Health h q b = andThen getHealth (\<lambda>j. returning (200, j))"
| "dispatch (NoRoute m) h q b = throwing (HttpException 404 m)"

section \<open>The exception filter and the hooks\<close>

definition error_body :: "string \<Rightarrow> string \<Rightarrow> js_object \<Rightarrow> string \<Rightarrow> jsval" where
  "error_body err message details correlationId =
     Obj [(''code'', Str err), (''message'', Str message), (''details'', Obj details),
          (''correlationId'', Str correlationId)]"

definition DomainExceptionFilter :: "exn \<Rightarrow> js_object \<Rightarrow> string \<Rightarrow> nat \<times> jsval" where
  "DomainExceptionFilter error headers request_id =
     (let correlationId = (case header headers ''x-correlation-id'' of Some c \<Rightarrow> c | None \<Rightarrow> request_id) in
      case error of
        DomainError status err message details \<Rightarrow> (status, error_body err message details correlationId)
      | HttpException status message \<Rightarrow> (status, error_body ''HTTP_ERROR'' message [] correlationId)
      | _ \<Rightarrow> (500, error_body ''INTERNAL_ERROR'' ''An unexpected error occurred'' [] correlationId))"

definition starts_with :: "string \<Rightarrow> string \<Rightarrow> bool" where
  "starts_with p s \<longleftrightarrow> take (length p) s = p"

text \<open>The two byte buffers are compared by length and content.\<close>

definition secret_accepted :: "string \<Rightarrow> js_object \<Rightarrow> bool" where
  "secret_accepted internalServiceSecret headers \<longleftrightarrow>
     (let supplied = (case header headers ''x-internal-service-secret'' of Some s \<Rightarrow> s | None \<Rightarrow> []);
          suppliedBuffer = utf8_encode supplied; expectedBuffer = utf8_encode internalServiceSecret
      in \<not> (length suppliedBuffer \<noteq> length expectedBuffer \<or> suppliedBuffer \<noteq> expectedBuffer))"

definition correlation_hook :: "js_object \<Rightarrow> string prog" where
  "correlation_hook headers =
     (case header headers ''x-correlation-id'' of
        Some supplied \<Rightarrow> if length supplied > 0 then returning supplied else randomUUID
      | None \<Rightarrow> randomUUID)"

definition serve :: "string \<Rightarrow> server_request \<Rightarrow> http_response prog" where
  "serve internalServiceSecret rq =
     (if \<not> starts_with ''/health'' (rq_url rq) \<and> \<not> secret_accepted internalServiceSecret (rq_headers rq)
      then returning \<lparr>rs_status = 401,
             rs_body = Obj [(''code'', Str ''INTERNAL_SERVICE_AUTH_REQUIRED''),
                            (''message'', Str ''Valid internal service credentials are required''),
                            (''details'', Obj [])],
             rs_correlation = None\<rparr>
      else
        andThen (correlation_hook (rq_headers rq)) (\<lambda>correlationId.
        let headers = set_header ''x-correlation-id'' correlationId (rq_headers rq) in
        andThen
          (catching (dispatch (rq_route rq) headers (rq_query rq) (rq_body rq))
             (\<lambda>error. returning (DomainExceptionFilter error headers (rq_id rq))))
          (\<lambda>answer. returning \<lparr>rs_status = fst answer, rs_body = snd answer, rs_correlation = Some correlationId\<rparr>)))"

text \<open>\<open>bootstrap\<close> refuses to start without a secret.\<close>

definition bootstrap_secret :: "env \<Rightarrow> string option" where
  "bootstrap_secret e = (case e_internal_service_secret e of None \<Rightarrow> None | Some s \<Rightarrow> if s = [] then None else Some s)"

end
