(* ===== verification/Issue_System.thy ===== *)
theory Issue_System
  imports Issue_Server Outbox_Order
begin

text \<open>
  The whole issue service: any sequence of requests and publisher polls of one process,
  while the requests and polls of the other processes commit in between.
\<close>

section \<open>Every request keeps the contract\<close>

lemma requestContext_runs: "runs db_steps issue_env P (requestContext headers) (\<lambda>_. P)"
proof -
  have fresh: "runs db_steps issue_env P (andThen randomUUID (\<lambda>c. returning (f c))) (\<lambda>_. P)" for f :: "string \<Rightarrow> request_context"
    by (rule issue_protocol.runs_andThen [OF issue_protocol.runs_randomUUID [where Q = "\<lambda>_. P"]])
      (simp_all add: issue_protocol.runs_returning)
  then show ?thesis
    by (simp add: requestContext_def issue_protocol.runs_throwing issue_protocol.runs_returning split: option.split)
qed

lemma with_context_runs:
  assumes "\<And>ctx. runs db_steps issue_env db_inv (use_case ctx) (\<lambda>_. db_inv)"
  shows "runs db_steps issue_env db_inv (with_context h st render use_case) (\<lambda>_. db_inv)"
  unfolding with_context_def
  by (intro issue_protocol.runs_andThen [OF requestContext_runs] issue_protocol.runs_andThen [OF assms]
      issue_protocol.runs_returning)

lemma outboxStatus_runs: "runs db_steps issue_env db_inv outboxStatus (\<lambda>_. db_inv)"
  unfolding outboxStatus_def by (rule runs_read) (auto simp: status_stmt_def Let_def)

lemma getHealth_runs: "runs db_steps issue_env db_inv getHealth (\<lambda>_. db_inv)"
proof -
  have "runs db_steps issue_env db_inv
      (catching (andThen outboxStatus (\<lambda>s. returning (Some s))) (\<lambda>_. returning None)) (\<lambda>_. db_inv)"
    by (intro issue_protocol.runs_catching stable_inv issue_protocol.runs_andThen [OF outboxStatus_runs]
        issue_protocol.runs_returning)
  moreover have "runs db_steps issue_env db_inv is_connected (\<lambda>_. db_inv)"
    by (rule runsI) (auto simp: is_connected_def)
  moreover have "runs db_steps issue_env db_inv new_Date (\<lambda>_. db_inv)"
    by (rule issue_protocol.runs_new_Date)
  ultimately show ?thesis
    unfolding getHealth_def by (intro issue_protocol.runs_andThen issue_protocol.runs_returning)
qed

lemma created_weaken: "runs db_steps issue_env db_inv (service_createIssue p b ctx) (\<lambda>_. db_inv)"
  using service_createIssue_runs unfolding runs_def by blast

lemma controllers_run:
  "runs db_steps issue_env db_inv (issues_controller irt h q b) (\<lambda>_. db_inv)"
  "runs db_steps issue_env db_inv (planning_controller prt h b) (\<lambda>_. db_inv)"
  by (cases irt; simp add: with_context_runs issue_service_runs created_weaken)
    (cases prt; simp add: with_context_runs planning_service_runs)

lemma dispatch_runs: "runs db_steps issue_env db_inv (dispatch rt h q b) (\<lambda>_. db_inv)"
proof (cases rt)
  case Health
  have "runs db_steps issue_env db_inv (andThen getHealth (\<lambda>j. returning (200 :: nat, j))) (\<lambda>_. db_inv)"
    by (rule issue_protocol.runs_andThen [OF getHealth_runs]) (rule issue_protocol.runs_returning)
  then show ?thesis by (simp add: Health)
qed (simp_all add: controllers_run issue_protocol.runs_throwing)

lemma serve_runs: "runs db_steps issue_env db_inv (serve secret rq) (\<lambda>_. db_inv)"
proof -
  have hook: "runs db_steps issue_env db_inv (correlation_hook h) (\<lambda>_. db_inv)" for h
    by (simp add: correlation_hook_def issue_protocol.runs_returning issue_protocol.runs_randomUUID split: option.split)
  have "runs db_steps issue_env db_inv
      (andThen (catching (dispatch rt h q b) (\<lambda>error. returning (F error)))
         (\<lambda>answer. returning (G answer))) (\<lambda>_. db_inv)" for rt h q b F G
    by (rule issue_protocol.runs_andThen [OF issue_protocol.runs_catching [OF dispatch_runs stable_inv]])
      (simp_all add: issue_protocol.runs_returning)
  then show ?thesis
    unfolding serve_def Let_def
    by (auto simp: issue_protocol.runs_returning intro!: issue_protocol.runs_andThen [OF hook])
qed

section \<open>Every request gets an answer\<close>

lemma catching_returning: "\<exists>a w'. catching p (\<lambda>x. returning (f x)) e w = (Inr a, w')"
  by (cases "p e w") (auto simp: catching_def split: sum.splits)

lemma serve_responds: "\<exists>resp w'. serve secret rq e w = (Inr resp, w')"
proof (cases "\<not> starts_with ''/health'' (rq_url rq) \<and> \<not> secret_accepted secret (rq_headers rq)")
  case False
  have "\<exists>cid v. correlation_hook (rq_headers rq) e w = (Inr cid, v)"
    by (auto simp: correlation_hook_def split: option.split)
  then obtain cid v where hook: "correlation_hook (rq_headers rq) e w = (Inr cid, v)" by blast
  let ?h = "set_header ''x-correlation-id'' cid (rq_headers rq)"
  obtain answer v' where "catching (dispatch (rq_route rq) ?h (rq_query rq) (rq_body rq))
      (\<lambda>error. returning (DomainExceptionFilter error ?h (rq_id rq))) e v = (Inr answer, v')"
    using catching_returning [of "dispatch (rq_route rq) ?h (rq_query rq) (rq_body rq)"
        "\<lambda>error. DomainExceptionFilter error ?h (rq_id rq)" e v] by blast
  with False hook show ?thesis by (auto simp: serve_def andThen_def Let_def)
qed (simp add: serve_def)

section \<open>Sequences of actions\<close>

datatype action = Serve server_request | Poll

text \<open>The responses in the order of the requests, and the world they leave.\<close>

fun perform :: "string \<Rightarrow> action list \<Rightarrow> env \<Rightarrow> world \<Rightarrow> http_response list \<times> world" where
  "perform secret [] e w = ([], w)"
| "perform secret (Serve rq # rest) e w =
     (case serve secret rq e w of
        (r, w') \<Rightarrow> (case perform secret rest e w' of
                      (rs, w'') \<Rightarrow> ((case r of Inl _ \<Rightarrow> rs | Inr resp \<Rightarrow> resp # rs), w'')))"
| "perform secret (Poll # rest) e w = perform secret rest e (snd (publishBatch e w))"

lemma perform_steps:
  "\<lbrakk>issue_env e; w_tx w = None; db_inv (w_db w); perform secret acts e w = (rs, w')\<rbrakk> \<Longrightarrow>
    w_tx w' = None \<and> db_steps (w_db w) (w_db w') \<and> db_inv (w_db w')"
proof (induction acts arbitrary: w rs)
  case (Cons act acts)
  obtain v rs' where step: "w_tx v = None" "db_steps (w_db w) (w_db v)" "perform secret acts e v = (rs', w')"
  proof (cases act)
    case (Serve rq)
    obtain r v where v: "serve secret rq e w = (r, v)" by (cases "serve secret rq e w") auto
    obtain rs' where "perform secret acts e v = (rs', w')"
      using Cons.prems(4) Serve v by (auto split: prod.splits)
    then show thesis using that runsD [OF serve_runs Cons.prems(1-3) v] by blast
  next
    case Poll
    obtain r v where v: "publishBatch e w = (r, v)" by (cases "publishBatch e w") auto
    then have "perform secret acts e v = (rs, w')" using Cons.prems(4) Poll by simp
    then show thesis using that runsD [OF publishBatch_runs Cons.prems(1-3) v] by blast
  qed
  then have "db_inv (w_db v)" using Cons.prems(3) db_steps_inv by blast
  from Cons.IH [OF Cons.prems(1) step(1) this step(3)] show ?case
    using step(2) by (meson rtranclp_trans)
qed simp

end
