(* ===== verification/Service_Errors.thy ===== *)
theory Service_Errors
  imports Issue_System
begin

text \<open>
  Which errors the issue service raises: its own, with the status and code of each; what the
  project service answered; and the unexpected ones, which become a 500 that says nothing.
\<close>

section \<open>The table\<close>

definition service_error_table :: "(nat \<times> string) list" where
  "service_error_table =
     [(400, ''VALIDATION_ERROR''), (401, ''AUTH_CONTEXT_REQUIRED''),
      (404, ''ISSUE_NOT_FOUND''), (404, ''EPIC_NOT_FOUND''), (404, ''SPRINT_NOT_FOUND''),
      (409, ''CONCURRENT_ISSUE_MODIFICATION''), (409, ''INVALID_ISSUE_TRANSITION''),
      (409, ''PROJECT_ARCHIVED''), (409, ''SPRINT_ALREADY_COMPLETED'')]"

definition own_fault :: "exn \<Rightarrow> bool" where
  "own_fault x \<longleftrightarrow>
     (\<exists>st c m d. x = DomainError st c m d \<and> (st, c) \<in> set service_error_table) \<or> unexpected x"

definition known_error :: "env \<Rightarrow> exn \<Rightarrow> bool" where
  "known_error e x \<longleftrightarrow> own_fault x \<or> refusal e x"

named_theorems input_errors "a refused input is a known error"

lemma known_validation: "own_fault (DomainError 400 ''VALIDATION_ERROR'' m d)"
  by (simp add: own_fault_def service_error_table_def)

lemma known_validationError [input_errors]: "own_fault (validationError f m)"
  by (simp add: validationError_def known_validation)

lemma known_simps [input_errors]:
  "own_fault notFound" "own_fault concurrentIssueModification"
  "own_fault (DomainError 401 ''AUTH_CONTEXT_REQUIRED'' m d)" "own_fault (DomainError 404 ''EPIC_NOT_FOUND'' m d)"
  "own_fault (DomainError 404 ''SPRINT_NOT_FOUND'' m d)" "own_fault (DomainError 409 ''PROJECT_ARCHIVED'' m d)"
  "own_fault (DomainError 409 ''SPRINT_ALREADY_COMPLETED'' m d)"
  "own_fault (DomainError 409 ''INVALID_ISSUE_TRANSITION'' m d)" "own_fault TypeError" "own_fault (DbError s)"
  by (simp_all add: own_fault_def service_error_table_def notFound_def concurrentIssueModification_def)

lemma known_unexpected: "unexpected x \<Longrightarrow> known_error e x"
  by (simp add: known_error_def own_fault_def)

lemma known_own [input_errors]: "own_fault x \<Longrightarrow> known_error e x"
  by (simp add: known_error_def)

lemma known_refusal: "refusal e x \<Longrightarrow> known_error e x"
  by (simp add: known_error_def)

section \<open>Inputs\<close>

text \<open>\<open>refuses r\<close>: if the check fails, then with an error of the service's own.\<close>

definition refuses :: "exn + 'a \<Rightarrow> bool" where
  "refuses r \<longleftrightarrow> (\<forall>x. r = Inl x \<longrightarrow> own_fault x)"

lemma refuses_basic [simp]: "refuses (Inr a)" "refuses (Inl x) \<longleftrightarrow> own_fault x"
  by (auto simp: refuses_def)

lemma refuses_try [intro]: "refuses r \<Longrightarrow> (\<And>a. refuses (f a)) \<Longrightarrow> refuses (try_then r f)"
  by (cases r) auto

lemma refuses_map [intro]: "refuses r \<Longrightarrow> refuses (map_result f r)"
  by (cases r) auto

lemma refuses_if [intro]: "(b \<Longrightarrow> refuses r) \<Longrightarrow> (\<not> b \<Longrightarrow> refuses s) \<Longrightarrow> refuses (if b then r else s)"
  by simp

lemma raises_checked [simp]: "refuses r \<Longrightarrow> raises e (checked r) (known_error e)"
  by (simp add: raises_checked_iff refuses_def known_own)

lemma refuses_requiredText [intro]: "refuses (requiredText v f n)"
  by (cases v) (simp_all add: requiredText_def input_errors)

lemma refuses_optionalText [intro]: "refuses (optionalText v f n)"
  by (cases v) (auto simp: optionalText_def)

lemma refuses_enumValue [intro]: "refuses (enumValue v f al)"
  by (cases v) (auto simp: enumValue_def input_errors split: option.split)

lemma refuses_uuid [intro]: "refuses (uuid v f)"
  by (cases v) (simp_all add: uuid_def input_errors)

lemma refuses_optionalUuid [intro]: "refuses (optionalUuid v f)"
  by (auto simp: optionalUuid_def)

lemma refuses_optionalDate [intro]: "refuses (optionalDate v f)"
  by (cases v) (auto simp: optionalDate_def input_errors split: option.split)

lemma refuses_planDates [intro]: "refuses (planDates a b)"
  by (auto simp: planDates_def known_validation split: option.split)

lemma refuses_body [intro]: "refuses (body_of v)"
  by (cases v) (simp_all add: body_of_def input_errors)

lemma refuses_expectedVersion [intro]: "refuses (expectedVersion input)"
  by (auto simp: expectedVersion_def input_errors split: jsval.split option.split)

lemma refuses_assertVersion [intro]: "refuses (assertExpectedVersion issue v)"
  by (simp add: assertExpectedVersion_def input_errors)

lemma refuses_coreFields [intro]: "refuses (assertCorePatchFields input)"
  by (simp add: assertCorePatchFields_def input_errors split: option.split)

lemma refuses_transition [intro]: "refuses (assertTransition a b)"
  by (simp add: assertTransition_def input_errors)

lemma refuses_property [intro]: "refuses (property_of v n)"
  by (cases v) (simp_all add: property_of_def input_errors)

lemma refuses_writable [intro]: "refuses (assertWritable a)"
  by (auto simp: assertWritable_def input_errors)

lemma refuses_decode: "refuses (decodeIssueCursor s)"
  unfolding refuses_def using decode_Inl invalidCursor_def known_validationError by metis

lemma refuses_parseLimit: "refuses (parseLimit s)"
  by (simp add: parseLimit_def input_errors)

lemma refuses_list_params: "refuses (list_params es)"
  by (induction es rule: list_params.induct) (auto simp: input_errors split: jsval.split)

lemma refuses_if_given: "(\<And>s. refuses (f s)) \<Longrightarrow> refuses (if_given v f a)"
  by (simp add: if_given_def split: option.split)

lemma refuses_patched: "(\<And>v. refuses (g v)) \<Longrightarrow> refuses (patched input f cur g)"
  by (simp add: patched_def)

lemma refuses_request_date: "refuses (request_date v f)"
  unfolding request_date_def by (rule refuses_map) (rule refuses_optionalDate)

lemma refuses_epicName: "refuses (epicName v)"
  unfolding epicName_def by (rule refuses_requiredText)

lemmas refuses_rules = refuses_try refuses_map refuses_if_given refuses_patched refuses_list_params refuses_decode
  refuses_parseLimit refuses_requiredText refuses_optionalText refuses_enumValue refuses_uuid refuses_optionalUuid
  refuses_request_date refuses_epicName refuses_planDates refuses_property refuses_body

lemma refuses_parse: "refuses (parseIssueListQuery q)"
  unfolding parseIssueListQuery_def Let_def by (intro refuses_rules) simp

lemma refuses_inputs:
  "refuses (update_input input issue)" "refuses (new_epic_input input p)" "refuses (update_epic_input input epic)"
  "refuses (new_sprint_input input p)" "refuses (new_issue_input e p access input u a ei si)"
  unfolding update_input_def new_epic_input_def update_epic_input_def new_sprint_input_def new_issue_input_def
  by (intro refuses_rules, simp)+

section \<open>Programs\<close>

lemma raises_read:
  assumes "\<And>e now d. refuses (s e now d)"
  shows "raises e (query s) (known_error e)"
  by (rule raises_query) (use assms in \<open>auto simp: refuses_def known_unexpected known_own\<close>)

lemma raises_write:
  assumes "\<And>e now d. refuses (s e now d)"
  shows "raises e (client_query s) (known_error e)"
  by (rule raises_client_query) (use assms in \<open>auto simp: refuses_def known_unexpected known_own\<close>)

lemma raises_tx: "raises e work (known_error e) \<Longrightarrow> raises e (transaction work) (known_error e)"
  by (rule raises_transaction) (simp_all add: known_unexpected)

lemma raises_access: "raises e (getAccess p u c) (known_error e)"
  by (rule getAccess_raises) (rule known_refusal)

lemma raises_first_row: "raises e (first_row f rows) (known_error e)"
  by (cases rows) (simp_all add: first_row_def input_errors)

lemma refuses_params [simp]: "refuses (uuid_param e s)" "refuses (uuid_opt_param e v)"
  by (auto simp: uuid_param_def uuid_opt_param_def input_errors split: option.split)

lemma refuses_dates [simp]: "refuses (date_opt_in v)"
proof -
  have "refuses (date_in x)" for x by (cases x) (simp_all add: input_errors)
  then show ?thesis by (auto simp: date_opt_in_def split: option.split)
qed

lemmas stmt_rules = refuses_try refuses_map refuses_if refuses_basic(1)

lemma refuses_rows [simp]:
  "refuses (insert_issue_row r d)" "refuses (insert_comment_row c d)" "refuses (insert_history_row h d)"
  "refuses (insert_outbox_row ev d)"
  by (simp_all add: insert_defs input_errors)

lemma refuses_statements [simp]:
  "refuses (next_number p e now d)" "refuses (insert_issue u data n k t e now d)"
  "refuses (insert_comment u i a b t e now d)" "refuses (find_stmt i e now d)" "refuses (comments_stmt i e now d)"
  "refuses (history_stmt i e now d)" "refuses (status_stmt e now d)"
  "refuses (insert_epic u ed t e now d)" "refuses (epics_stmt rk p e now d)" "refuses (find_epic_stmt i e now d)"
  "refuses (update_epic_stmt i ed e now d)" "refuses (insert_sprint u sd t e now d)"
  "refuses (sprints_stmt rk p e now d)" "refuses (find_sprint_stmt i e now d)" "refuses (complete_stmt i e now d)"
  unfolding next_number_def insert_issue_def insert_comment_def find_stmt_def comments_stmt_def history_stmt_def
    status_stmt_def insert_epic_def epics_stmt_def find_epic_stmt_def update_epic_stmt_def insert_sprint_def
    sprints_stmt_def find_sprint_stmt_def complete_stmt_def Let_def
  by (intro stmt_rules refuses_params refuses_dates refuses_rows; simp add: input_errors split: option.split)+

lemma refuses_list_stmt [simp]: "refuses (list_stmt p f after n e now d)"
proof -
  have "refuses (timestamptz_in s)" for s by (simp add: timestamptz_in_def input_errors)
  then have "refuses (case after of None \<Rightarrow> Inr None
      | Some pos \<Rightarrow> try_then (timestamptz_in (p_createdAt pos)) (\<lambda>t.
          map_result (\<lambda>i. Some (Keyset t i)) (uuid_param e (p_id pos))))"
    by (cases after) (simp_all add: refuses_try refuses_map)
  then show ?thesis
    unfolding list_stmt_def
    by (intro stmt_rules refuses_params) (simp_all add: input_errors)
qed

lemma refuses_update_stmt: "refuses (setters e) \<Longrightarrow> refuses (update_stmt i v setters e now d)"
  unfolding update_stmt_def Let_def
  by (intro stmt_rules refuses_params; simp add: input_errors)

lemma raises_updateWithVersion:
  "(\<And>e. refuses (setters e)) \<Longrightarrow> raises e (updateWithVersion issue v setters) (known_error e)"
  unfolding updateWithVersion_def
  by (intro raises_andThen raises_write refuses_update_stmt)
    (auto simp: known_error_def own_fault_def service_error_table_def split: list.split)

lemma raises_history: "raises e (insertHistory issue a act f t) (known_error e)"
  unfolding insertHistory_def
  by (intro raises_andThen raises_write raises_basic raises_drawn refuses_try refuses_params refuses_rows)

lemma raises_event: "raises e (insertEvent issue a ty p) (known_error e)"
  unfolding insertEvent_def
  by (intro raises_andThen raises_write raises_basic raises_drawn refuses_try refuses_params refuses_rows)

lemma raises_repository:
  "raises e (createIssue data) (known_error e)" "raises e (updateIssue issue v ud a) (known_error e)"
  "raises e (assignIssue issue v asg a) (known_error e)" "raises e (transitionIssue issue v tr a) (known_error e)"
  "raises e (addComment issue a b) (known_error e)" "raises e (listIssues p f after n) (known_error e)"
  "raises e (findIssue i) (known_error e)" "raises e (listComments i) (known_error e)" "raises e (listHistory i) (known_error e)"
  "raises e outboxStatus (known_error e)"
  unfolding createIssue_def createIssue_work_def updateIssue_def updateIssue_work_def assignIssue_def
    assignIssue_work_def transitionIssue_def transitionIssue_work_def addComment_def addComment_work_def
    listIssues_def findIssue_def listComments_def listHistory_def outboxStatus_def Let_def
  by (intro raises_tx raises_andThen raises_write raises_read raises_history raises_event
      raises_updateWithVersion raises_basic raises_drawn refuses_map refuses_params; simp add: input_errors)+

lemma raises_planning:
  "raises e (createEpic ed) (known_error e)" "raises e (updateEpic epic ed) (known_error e)" "raises e (listEpics p) (known_error e)"
  "raises e (findEpic i) (known_error e)" "raises e (createSprint sd) (known_error e)" "raises e (listSprints p) (known_error e)"
  "raises e (findSprint i) (known_error e)" "raises e (completeSprint sprint) (known_error e)"
  unfolding createEpic_def updateEpic_def listEpics_def findEpic_def createSprint_def listSprints_def
    findSprint_def completeSprint_def
  by (intro raises_andThen raises_read raises_first_row raises_basic raises_drawn; simp)+

section \<open>Use cases\<close>

lemma raises_optional_access:
  "raises e (case v of None \<Rightarrow> returning Undefined | Some u \<Rightarrow> getAccess p u c) (known_error e)"
  by (cases v) (simp_all add: raises_access)

lemma raises_visible: "raises e (requireVisibleIssue i ctx wr) (known_error e)"
proof -
  have "raises e (if wr then checked (assertWritable a) else returning () :: unit prog) (known_error e)" for a
    by (simp add: refuses_writable)
  then have "raises e (catching
      (andThen (getAccess p u c) (\<lambda>a. if wr then checked (assertWritable a) else returning ()))
      (\<lambda>x. if is_domain_404 x then throwing notFound else throwing x)) (known_error e)" for p u c
    by (intro raises_catching_some [where X = "known_error e"] raises_andThen raises_access)
      (simp_all add: input_errors)
  then show ?thesis
    unfolding requireVisibleIssue_def
    by (intro raises_andThen raises_repository)
      (auto simp: refuses_uuid input_errors split: option.split intro!: raises_andThen)
qed

lemma raises_writable_project: "raises e (requireWritableProject p ctx) (known_error e)"
  unfolding requireWritableProject_def by (intro raises_andThen raises_access) (simp_all add: refuses_writable)

lemma raises_links: "raises e (assertPlanningLinks p ei si) (known_error e)"
  unfolding assertPlanningLinks_def
  by (cases ei; cases si; simp; intro raises_andThen raises_planning; simp add: input_errors)

lemma raises_check: "refuses r \<Longrightarrow> (\<And>a. raises e (f a) (known_error e)) \<Longrightarrow> raises e (andThen (checked r) f) (known_error e)"
  by (rule raises_andThen) simp_all

lemmas use_case_rules = raises_asking raises_check raises_andThen raises_visible raises_writable_project
  raises_links raises_access raises_optional_access raises_repository raises_planning
  refuses_rules refuses_parse refuses_inputs refuses_expectedVersion refuses_assertVersion refuses_coreFields
  refuses_transition

lemma raises_issue_service:
  "raises e (service_createIssue p b ctx) (known_error e)" "raises e (service_listIssues p q ctx) (known_error e)"
  "raises e (service_getIssue i ctx) (known_error e)" "raises e (service_assignIssue i b ctx) (known_error e)"
  "raises e (service_transitionIssue i b ctx) (known_error e)" "raises e (service_addComment i b ctx) (known_error e)"
  "raises e (service_listComments i ctx) (known_error e)" "raises e (service_listHistory i ctx) (known_error e)"
  unfolding service_createIssue_def service_listIssues_def service_getIssue_def service_assignIssue_def
    service_transitionIssue_def service_addComment_def service_listComments_def service_listHistory_def
  by (intro use_case_rules raises_basic raises_drawn)+

lemma raises_if: "(b \<Longrightarrow> raises e p X) \<Longrightarrow> (\<not> b \<Longrightarrow> raises e q X) \<Longrightarrow> raises e (if b then p else q) X"
  by simp

lemma raises_updateIssue: "raises e (service_updateIssue i b ctx) (known_error e)"
  unfolding service_updateIssue_def
  by (intro use_case_rules raises_if refuses_if refuses_basic(1))

lemma raises_planning_writable: "raises e (planning_writable p ctx) (known_error e)"
  unfolding planning_writable_def
  by (intro raises_andThen raises_access) (simp add: refuses_try refuses_property input_errors)

lemma raises_epic: "raises e (requireVisibleEpic i ctx wr) (known_error e)"
  unfolding requireVisibleEpic_def
  by (intro use_case_rules)
    (auto simp: input_errors raises_planning_writable raises_access split: option.split intro!: raises_andThen)

lemma raises_planning_service:
  "raises e (service_listEpics p ctx) (known_error e)" "raises e (service_createEpic p b ctx) (known_error e)"
  "raises e (service_updateEpic i b ctx) (known_error e)" "raises e (service_listSprints p ctx) (known_error e)"
  "raises e (service_createSprint p b ctx) (known_error e)"
  unfolding service_listEpics_def service_createEpic_def service_updateEpic_def service_listSprints_def
    service_createSprint_def
  by (intro use_case_rules raises_planning_writable raises_epic)+

lemma raises_completeSprint: "raises e (service_completeSprint i ctx) (known_error e)"
  unfolding service_completeSprint_def
  by (intro use_case_rules)
    (auto simp: input_errors raises_planning raises_planning_writable split: option.split intro!: raises_andThen)

section \<open>Requests\<close>

definition served_error :: "env \<Rightarrow> exn \<Rightarrow> bool" where
  "served_error e x \<longleftrightarrow> known_error e x \<or> (\<exists>m. x = HttpException 404 m)"

lemma raises_context: "raises e (requestContext h) (known_error e)"
  by (auto simp: requestContext_def input_errors split: option.split intro!: raises_andThen)

lemma raises_with_context:
  "(\<And>ctx. raises e (use_case ctx) (known_error e)) \<Longrightarrow> raises e (with_context h st render use_case) (known_error e)"
  unfolding with_context_def by (intro raises_andThen raises_context raises_basic raises_drawn)

lemma raises_health: "raises e getHealth (known_error e)"
  unfolding getHealth_def
  by (intro raises_andThen raises_catching raises_basic raises_drawn) (simp add: raises_def is_connected_def)

lemma raises_controllers:
  "raises e (issues_controller irt h q b) (known_error e)" "raises e (planning_controller prt h b) (known_error e)"
  by (cases irt; simp add: raises_with_context raises_issue_service raises_updateIssue)
    (cases prt; simp add: raises_with_context raises_planning_service raises_completeSprint)

lemma raises_dispatch: "raises e (dispatch rt h q b) (served_error e)"
proof (cases "\<exists>m. rt = NoRoute m")
  case True
  then show ?thesis by (auto simp: served_error_def)
next
  case False
  then have "raises e (dispatch rt h q b) (known_error e)"
    by (cases rt) (simp_all add: raises_controllers raises_andThen raises_health)
  then show ?thesis by (rule raises_mono) (simp add: served_error_def)
qed

end
