(* ===== verification/Issue_Guarantees.thy ===== *)
theory Issue_Guarantees
  imports Service_Errors
begin

text \<open>
  What the issue service promises its clients: answers, authorization, archived projects,
  concealment, optimistic concurrency, and the invariants of its data.
\<close>

section \<open>A session alone\<close>

text \<open>
  To see what one request does by itself, no other session commits anything. \<open>denying K\<close>: the
  project service refuses every question in \<open>K\<close>. \<open>archiving\<close>: it calls every project archived.
\<close>

definition quiet_env :: "env \<Rightarrow> bool" where
  "quiet_env e \<longleftrightarrow> (\<forall>n d. e_others e n d = d)"

definition denying :: "(http_request \<Rightarrow> bool) \<Rightarrow> env \<Rightarrow> bool" where
  "denying K e \<longleftrightarrow> quiet_env e \<and> (\<forall>n q. K q \<longrightarrow> (\<exists>x. access_result (e_http e n q) = Inl x))"

definition archiving :: "env \<Rightarrow> bool" where
  "archiving e \<longleftrightarrow> quiet_env e \<and>
     (\<forall>n q a. access_result (e_http e n q) = Inr a \<longrightarrow> property_of a ''projectStatus'' = Inr (Str ''ARCHIVED''))"

interpretation quiet: protocol "(=)" quiet_env
  by unfold_locales (simp_all add: quiet_env_def)

interpretation denied: protocol "(=)" "denying K" for K
  by unfold_locales (simp_all add: quiet_env_def denying_def)

interpretation archived: protocol "(=)" archiving
  by unfold_locales (simp_all add: quiet_env_def archiving_def)

text \<open>A program that only reads, and one that never returns a value; neither changes a table.\<close>

abbreviation reads :: "(env \<Rightarrow> bool) \<Rightarrow> 'a prog \<Rightarrow> bool" where
  "reads E p \<equiv> runs (=) E (\<lambda>_. True) p (\<lambda>_ _. True)"

abbreviation fails :: "(env \<Rightarrow> bool) \<Rightarrow> 'a prog \<Rightarrow> bool" where
  "fails E p \<equiv> runs (=) E (\<lambda>_. True) p (\<lambda>_ _. False)"

lemma stable_eq: "stable (=) P"
  by (simp add: stable_def)

lemma andThen_run:
  assumes "andThen p f e w = (r, w')"
  obtains (stopped) x where "p e w = (Inl x, w')" "r = Inl x" | (went_on) a v where "p e w = (Inr a, v)" "f a e v = (r, w')"
  using assms by (auto simp: andThen_def split: prod.splits sum.splits)

lemma catching_run:
  assumes "catching p h e w = (r, w')"
  obtains (caught) x v where "p e w = (Inl x, v)" "h x e v = (r, w')" | (fine) a where "p e w = (Inr a, w')" "r = Inr a"
  using assms by (auto simp: catching_def split: prod.splits sum.splits)

lemma failsD: "fails E p \<Longrightarrow> E e \<Longrightarrow> w_tx w = None \<Longrightarrow> p e w = (r, w') \<Longrightarrow> w_tx w' = None \<and> w_db w' = w_db w \<and> (\<forall>a. r \<noteq> Inr a)"
  using runsD [of "(=)" E "\<lambda>_. True" p "\<lambda>_ _. False" e w r w'] by (intro conjI) auto

lemma failsI:
  "(\<And>e w r w'. E e \<Longrightarrow> w_tx w = None \<Longrightarrow> p e w = (r, w') \<Longrightarrow> w_tx w' = None \<and> w_db w' = w_db w \<and> (\<forall>a. r \<noteq> Inr a)) \<Longrightarrow> fails E p"
  unfolding runs_def by metis

lemma readsD: "reads E p \<Longrightarrow> E e \<Longrightarrow> w_tx w = None \<Longrightarrow> p e w = (r, w') \<Longrightarrow> w_tx w' = None \<and> w_db w' = w_db w"
  using runsD [of "(=)" E "\<lambda>_. True" p "\<lambda>_ _. True" e w r w'] by (intro conjI) auto

lemma readsI:
  "(\<And>e w r w'. E e \<Longrightarrow> w_tx w = None \<Longrightarrow> p e w = (r, w') \<Longrightarrow> w_tx w' = None \<and> w_db w' = w_db w) \<Longrightarrow> reads E p"
  unfolding runs_def by metis

lemma fails_first: "fails E p \<Longrightarrow> fails E (andThen p f)"
proof (rule failsI, erule andThen_run)
  fix e w r w' x assume "fails E p" "E e" "w_tx w = None" "p e w = (Inl x, w')" "r = Inl x"
  then show "w_tx w' = None \<and> w_db w' = w_db w \<and> (\<forall>a. r \<noteq> Inr a)" using failsD by blast
next
  fix e w r w' a v assume "fails E p" "E e" "w_tx w = None" "p e w = (Inr a, v)"
  then show "w_tx w' = None \<and> w_db w' = w_db w \<and> (\<forall>a. r \<noteq> Inr a)" using failsD by blast
qed

lemma fails_later:
  assumes "reads E p" and "\<And>a. fails E (f a)"
  shows "fails E (andThen p f)"
proof (rule failsI, erule andThen_run)
  fix e w r w' x assume "E e" "w_tx w = None" "p e w = (Inl x, w')" "r = Inl x"
  then show "w_tx w' = None \<and> w_db w' = w_db w \<and> (\<forall>a. r \<noteq> Inr a)" using readsD [OF assms(1)] by blast
next
  fix e w r w' a v assume h: "E e" "w_tx w = None" "p e w = (Inr a, v)" "f a e v = (r, w')"
  then show "w_tx w' = None \<and> w_db w' = w_db w \<and> (\<forall>a. r \<noteq> Inr a)"
    using readsD [OF assms(1) h(1-3)] failsD [OF assms(2) h(1) _ h(4)] by metis
qed

lemma reads_andThen:
  assumes "reads E p" and "\<And>a. reads E (f a)"
  shows "reads E (andThen p f)"
proof (rule readsI, erule andThen_run)
  fix e w r w' x assume "E e" "w_tx w = None" "p e w = (Inl x, w')" "r = Inl x"
  then show "w_tx w' = None \<and> w_db w' = w_db w" using readsD [OF assms(1)] by blast
next
  fix e w r w' a v assume h: "E e" "w_tx w = None" "p e w = (Inr a, v)" "f a e v = (r, w')"
  then show "w_tx w' = None \<and> w_db w' = w_db w"
    using readsD [OF assms(1) h(1-3)] readsD [OF assms(2) h(1) _ h(4)] by metis
qed

lemma fails_throw: "fails E (throwing x)"
  by (rule failsI) auto

lemma fails_check: "(\<And>a. r = Inr a \<Longrightarrow> fails E (f a)) \<Longrightarrow> fails E (andThen (checked r) f)"
  by (cases r) (simp_all add: andThen_checked fails_throw)

lemma fails_catching:
  assumes "fails E p" and "\<And>x. fails E (handler x)"
  shows "fails E (catching p handler)"
proof (rule failsI, erule catching_run)
  fix e w r w' x v assume h: "E e" "w_tx w = None" "p e w = (Inl x, v)" "handler x e v = (r, w')"
  then show "w_tx w' = None \<and> w_db w' = w_db w \<and> (\<forall>a. r \<noteq> Inr a)"
    using failsD [OF assms(1) h(1-3)] failsD [OF assms(2) h(1) _ h(4)] by metis
next
  fix e w r w' a assume "E e" "w_tx w = None" "p e w = (Inr a, w')"
  then show "w_tx w' = None \<and> w_db w' = w_db w \<and> (\<forall>a. r \<noteq> Inr a)" using failsD [OF assms(1)] by blast
qed

lemma reads_query:
  assumes "\<And>e now d a d'. s e now d = Inr (a, d') \<Longrightarrow> d' = d" and "\<And>e. E e \<Longrightarrow> quiet_env e"
  shows "reads E (query s)"
proof -
  have "reads quiet_env (query s)" by (rule quiet.runs_query [OF stable_eq]) (use assms(1) in blast)
  then show ?thesis using assms(2) by (blast intro!: readsI dest: readsD)
qed

lemma reads_returning: "reads E (returning a)"
  by (rule readsI) simp

lemma quiet_env_of: "denying K e \<Longrightarrow> quiet_env e" "archiving e \<Longrightarrow> quiet_env e"
  by (simp_all add: denying_def archiving_def)

lemma reads_find:
  "(\<And>e. E e \<Longrightarrow> quiet_env e) \<Longrightarrow> reads E (findIssue i)"
  "(\<And>e. E e \<Longrightarrow> quiet_env e) \<Longrightarrow> reads E (findEpic i)"
  "(\<And>e. E e \<Longrightarrow> quiet_env e) \<Longrightarrow> reads E (findSprint i)"
  unfolding findIssue_def findEpic_def findSprint_def
  by (intro reads_andThen reads_query reads_returning;
      auto simp: find_stmt_def find_epic_stmt_def find_sprint_stmt_def try_then_Inr_iff)+

lemma reads_throwing: "reads E (throwing x)"
  by (rule readsI) auto

lemma reads_access: "reads E (getAccess p u c)"
  by (rule readsI) (auto simp: getAccess_eval)

lemma reads_check: "reads E (checked r)"
  by (rule readsI) auto

lemma reads_catching: "reads E p \<Longrightarrow> (\<And>x. reads E (handler x)) \<Longrightarrow> reads E (catching p handler)"
proof (rule readsI, erule catching_run)
  fix e w r w' x v assume h: "reads E p" "\<And>x. reads E (handler x)" "E e" "w_tx w = None"
    "p e w = (Inl x, v)" "handler x e v = (r, w')"
  then show "w_tx w' = None \<and> w_db w' = w_db w" using readsD [OF h(1,3-5)] readsD [OF h(2,3) _ h(6)] by metis
next
  fix e w r w' a assume "reads E p" "E e" "w_tx w = None" "p e w = (Inr a, w')"
  then show "w_tx w' = None \<and> w_db w' = w_db w" using readsD by blast
qed

section \<open>Authorization\<close>

text \<open>The questions about a user.\<close>

definition about :: "string \<Rightarrow> http_request \<Rightarrow> bool" where
  "about u q \<longleftrightarrow> q_user q = u"

lemma denied_access: "fails (denying (about u)) (getAccess p u c)"
proof (rule failsI)
  fix e w r w' assume h: "denying (about u) e" "w_tx w = None" "getAccess p u c e w = (r, w')"
  have "\<exists>x. access_result (e_http e (w_tick w) (access_request p u c e)) = Inl x"
    using h(1) by (simp add: denying_def about_def access_request_def)
  then show "w_tx w' = None \<and> w_db w' = w_db w \<and> (\<forall>a. r \<noteq> Inr a)" using h(2,3) by (auto simp: getAccess_eval)
qed

lemma denied_project: "rc_userId ctx = u \<Longrightarrow> fails (denying (about u)) (requireWritableProject p ctx)"
  unfolding requireWritableProject_def by (rule fails_first) (simp add: denied_access)

lemma denied_planning: "rc_userId ctx = u \<Longrightarrow> fails (denying (about u)) (planning_writable p ctx)"
  unfolding planning_writable_def by (rule fails_first) (simp add: denied_access)

lemma denied_visible: "rc_userId ctx = u \<Longrightarrow> fails (denying (about u)) (requireVisibleIssue i ctx wr)"
  unfolding requireVisibleIssue_def
  by (intro fails_check fails_later reads_find)
    (auto simp: quiet_env_of fails_throw denied_access split: option.split intro!: fails_first fails_catching)

lemma denied_epic: "rc_userId ctx = u \<Longrightarrow> fails (denying (about u)) (requireVisibleEpic i ctx wr)"
  unfolding requireVisibleEpic_def
  by (intro fails_check fails_later reads_find)
    (auto simp: quiet_env_of fails_throw denied_access denied_planning split: option.split intro!: fails_first)

lemma denied_use_cases:
  assumes "rc_userId ctx = u"
  shows "fails (denying (about u)) (service_createIssue p b ctx)" "fails (denying (about u)) (service_listIssues p q ctx)"
    "fails (denying (about u)) (service_getIssue i ctx)" "fails (denying (about u)) (service_updateIssue i b ctx)"
    "fails (denying (about u)) (service_assignIssue i b ctx)" "fails (denying (about u)) (service_transitionIssue i b ctx)"
    "fails (denying (about u)) (service_addComment i b ctx)" "fails (denying (about u)) (service_listComments i ctx)"
    "fails (denying (about u)) (service_listHistory i ctx)" "fails (denying (about u)) (service_listEpics p ctx)"
    "fails (denying (about u)) (service_createEpic p b ctx)" "fails (denying (about u)) (service_updateEpic i b ctx)"
    "fails (denying (about u)) (service_listSprints p ctx)" "fails (denying (about u)) (service_createSprint p b ctx)"
proof -
  note stop = fails_first [OF denied_project [OF assms]] fails_first [OF denied_visible [OF assms]]
    fails_first [OF denied_planning [OF assms]] fails_first [OF denied_epic [OF assms]]
    fails_first [OF denied_access] denied_visible [OF assms]
  show "fails (denying (about u)) (service_createIssue p b ctx)" "fails (denying (about u)) (service_listIssues p q ctx)"
    "fails (denying (about u)) (service_getIssue i ctx)"
    "fails (denying (about u)) (service_assignIssue i b ctx)" "fails (denying (about u)) (service_transitionIssue i b ctx)"
    "fails (denying (about u)) (service_addComment i b ctx)" "fails (denying (about u)) (service_listComments i ctx)"
    "fails (denying (about u)) (service_listHistory i ctx)" "fails (denying (about u)) (service_listEpics p ctx)"
    "fails (denying (about u)) (service_createEpic p b ctx)" "fails (denying (about u)) (service_updateEpic i b ctx)"
    "fails (denying (about u)) (service_listSprints p ctx)" "fails (denying (about u)) (service_createSprint p b ctx)"
    unfolding service_createIssue_def service_listIssues_def service_getIssue_def service_assignIssue_def
      service_transitionIssue_def service_addComment_def service_listComments_def service_listHistory_def
      service_listEpics_def service_createEpic_def service_updateEpic_def service_listSprints_def
      service_createSprint_def assms
    by (intro fails_check stop)+
  show "fails (denying (about u)) (service_updateIssue i b ctx)"
    unfolding service_updateIssue_def
    by (intro fails_check) (auto intro!: fails_check stop)
qed

lemma denied_complete: "rc_userId ctx = u \<Longrightarrow> fails (denying (about u)) (service_completeSprint i ctx)"
  unfolding service_completeSprint_def
  by (intro fails_check fails_later reads_find)
    (auto simp: quiet_env_of fails_throw denied_planning split: option.split intro!: fails_first)

section \<open>Requests that fail\<close>

lemma header_set: "header (set_header n v h) m = (if m = n then Some v else header h m)"
proof -
  have "map_of (filter (\<lambda>(k, _). k \<noteq> n) h) m = (if m = n then None else map_of h m)"
    by (induction h) auto
  then show ?thesis by (simp add: header_def set_header_def js_get_def)
qed

lemma served_status:
  assumes "served_error e x" and "header h ''x-correlation-id'' = Some c"
  shows "\<exists>st err m d. DomainExceptionFilter x h i = (st, error_body err m d c) \<and> \<not> (200 \<le> st \<and> st < 300) \<and>
    ((st, err) \<in> set service_error_table \<or> (st, err) = (404, ''HTTP_ERROR'') \<or>
     (st, err, m, d) = (500, ''INTERNAL_ERROR'', ''An unexpected error occurred'', []) \<or>
     refusal e (DomainError st err m d))"
proof (cases x)
  case (DomainError st err m d)
  then have k: "(st, err) \<in> set service_error_table \<or> refusal e x"
    using assms(1) by (auto simp: served_error_def known_error_def own_fault_def)
  then have "\<not> (200 \<le> st \<and> st < 300)"
    using refusal_status [of e x] DomainError by (auto simp: service_error_table_def)
  then show ?thesis using DomainError k assms(2) by (auto simp: DomainExceptionFilter_def)
next
  case (HttpException st m)
  then have "st = 404"
    using assms(1) refusal_status [of e x] by (auto simp: served_error_def known_error_def own_fault_def)
  with HttpException assms(2)
  have "DomainExceptionFilter x h i = (404, error_body ''HTTP_ERROR'' m [] c)" by (simp add: DomainExceptionFilter_def)
  then show ?thesis by (intro exI [of _ 404] exI [of _ "''HTTP_ERROR''"] exI [of _ m] exI [of _ "[]"]) simp
qed (use assms(2) in \<open>auto simp: DomainExceptionFilter_def\<close>)

lemma correlation_hook_Inr:
  "\<exists>c w'. correlation_hook h e w = (Inr c, w') \<and> w_db w' = w_db w \<and> w_tx w' = w_tx w"
  by (auto simp: correlation_hook_def split: option.split)

text \<open>A request gets past the hooks, and its handler's result becomes the response.\<close>

lemma serve_cases:
  assumes "serve secret rq e w = (Inr resp, w')"
  obtains (rejected) "\<not> starts_with ''/health'' (rq_url rq)" "\<not> secret_accepted secret (rq_headers rq)"
      "rs_status resp = 401" "rs_correlation resp = None" "w' = w"
  | (answered) c v st body where "w_db v = w_db w" "w_tx v = w_tx w"
      "dispatch (rq_route rq) (set_header ''x-correlation-id'' c (rq_headers rq)) (rq_query rq) (rq_body rq) e v = (Inr (st, body), w')"
      "resp = \<lparr>rs_status = st, rs_body = body, rs_correlation = Some c\<rparr>"
  | (failed) c v x where "w_db v = w_db w" "w_tx v = w_tx w"
      "dispatch (rq_route rq) (set_header ''x-correlation-id'' c (rq_headers rq)) (rq_query rq) (rq_body rq) e v = (Inl x, w')"
      "(rs_status resp, rs_body resp) =
         DomainExceptionFilter x (set_header ''x-correlation-id'' c (rq_headers rq)) (rq_id rq)"
      "rs_correlation resp = Some c"
proof (cases "\<not> starts_with ''/health'' (rq_url rq) \<and> \<not> secret_accepted secret (rq_headers rq)")
  case True
  then show thesis using assms rejected by (auto simp: serve_def)
next
  case False
  obtain c v where hook: "correlation_hook (rq_headers rq) e w = (Inr c, v)" "w_db v = w_db w" "w_tx v = w_tx w"
    using correlation_hook_Inr by blast
  let ?h = "set_header ''x-correlation-id'' c (rq_headers rq)"
  obtain r v' where d: "dispatch (rq_route rq) ?h (rq_query rq) (rq_body rq) e v = (r, v')"
    by (cases "dispatch (rq_route rq) ?h (rq_query rq) (rq_body rq) e v") auto
  show thesis
  proof (cases r)
    case (Inl x)
    then show thesis using failed [OF hook(2,3)] assms False hook(1) d
      by (auto simp: serve_def andThen_def catching_def Let_def)
  next
    case (Inr a)
    obtain st body where "a = (st, body)" by (cases a)
    then show thesis using answered [OF hook(2,3)] assms False hook(1) d Inr
      by (auto simp: serve_def andThen_def catching_def Let_def)
  qed
qed

lemma with_context_status: "with_context h st render u e w = (Inr a, w') \<Longrightarrow> fst a = st"
  by (auto simp: with_context_def andThen_Inr)

lemma dispatch_status: "dispatch rt h q b e w = (Inr (st, body), w') \<Longrightarrow> st \<in> {200, 201}"
proof (cases rt)
  case (Issues irt)
  then show "dispatch rt h q b e w = (Inr (st, body), w') \<Longrightarrow> st \<in> {200, 201}"
    by (cases irt) (auto dest: with_context_status)
next
  case (Planning prt)
  then show "dispatch rt h q b e w = (Inr (st, body), w') \<Longrightarrow> st \<in> {200, 201}"
    by (cases prt) (auto dest: with_context_status)
qed (auto simp: andThen_Inr)

text \<open>A handler that never succeeds, and changes nothing.\<close>

lemma failing_request:
  assumes run: "serve secret rq e w = (Inr resp, w')" and pre: "E e" "w_tx w = None"
    and "\<And>h. header h ''x-authenticated-user-id'' = header (rq_headers rq) ''x-authenticated-user-id'' \<Longrightarrow>
      fails E (dispatch (rq_route rq) h (rq_query rq) (rq_body rq))"
  shows "w_db w' = w_db w \<and> \<not> (200 \<le> rs_status resp \<and> rs_status resp < 300)"
  using run
proof (cases rule: serve_cases)
  case (answered c v st body)
  have "fails E (dispatch (rq_route rq) (set_header ''x-correlation-id'' c (rq_headers rq)) (rq_query rq) (rq_body rq))"
    by (rule assms(4)) (simp add: header_set)
  from failsD [OF this pre(1) _ answered(3)] show ?thesis using answered pre(2) by simp
next
  case (failed c v x)
  have "fails E (dispatch (rq_route rq) (set_header ''x-correlation-id'' c (rq_headers rq)) (rq_query rq) (rq_body rq))"
    by (rule assms(4)) (simp add: header_set)
  from failsD [OF this pre(1) _ failed(3)] have "w_db w' = w_db w" using failed pre(2) by simp
  moreover have "served_error e x"
    using raises_dispatch failed(3) unfolding raises_def by blast
  then have "\<not> (200 \<le> rs_status resp \<and> rs_status resp < 300)"
    using served_status [of e x "set_header ''x-correlation-id'' c (rq_headers rq)" c "rq_id rq"] failed(4)
    by (auto simp: header_set)
  ultimately show ?thesis by blast
qed simp

text \<open>The user the request names reaches the use case.\<close>

lemma fails_with_context:
  assumes "\<And>ctx. rc_userId ctx = u \<Longrightarrow> fails E (use_case ctx)"
    and "header h ''x-authenticated-user-id'' = Some u"
  shows "fails E (with_context h st render use_case)"
proof (rule failsI)
  fix e w r w' assume e: "E e" "w_tx w = None" and run: "with_context h st render use_case e w = (r, w')"
  show "w_tx w' = None \<and> w_db w' = w_db w \<and> (\<forall>a. r \<noteq> Inr a)"
  proof (cases "requestContext h e w")
    case (Pair s v)
    have v: "w_tx v = None" "w_db v = w_db w"
      using Pair e by (auto simp: requestContext_def andThen_def split: option.splits if_splits)
    show ?thesis
    proof (cases s)
      case (Inl x)
      then show ?thesis using run Pair v by (auto simp: with_context_def andThen_def)
    next
      case (Inr ctx)
      then have u: "rc_userId ctx = u"
        using Pair assms(2) by (auto simp: requestContext_def andThen_def split: option.splits if_splits)
      have "andThen (use_case ctx) (\<lambda>a. returning (st, render a)) e v = (r, w')"
        using run Pair Inr by (simp add: with_context_def andThen_def)
      from failsD [OF fails_first [OF assms(1) [OF u]] e(1) v(1) this] show ?thesis using v(2) by simp
    qed
  qed
qed

lemma denied_dispatch:
  assumes "header h ''x-authenticated-user-id'' = Some u" and "rt \<noteq> Health"
  shows "fails (denying (about u)) (dispatch rt h q b)"
proof (cases rt)
  case (Issues irt)
  then show ?thesis by (cases irt) (simp_all add: fails_with_context [OF _ assms(1)] denied_use_cases)
next
  case (Planning prt)
  then show ?thesis
    by (cases prt) (simp_all add: fails_with_context [OF _ assms(1)] denied_use_cases denied_complete)
qed (use assms(2) in \<open>simp_all add: fails_throw\<close>)

section \<open>Archived projects\<close>

text \<open>The routes that write; an update only if it names one of the four fields it can change.\<close>

fun writes :: "route \<Rightarrow> jsval \<Rightarrow> bool" where
  "writes (Issues (CreateIssue p)) b = True"
| "writes (Issues (UpdateIssue i)) (Obj ps) = hasCorePatchMutation ps"
| "writes (Issues (AssignIssue i)) b = True"
| "writes (Issues (TransitionIssue i)) b = True"
| "writes (Issues (AddComment i)) b = True"
| "writes (Planning (CreateEpic p)) b = True"
| "writes (Planning (UpdateEpic i)) b = True"
| "writes (Planning (CreateSprint p)) b = True"
| "writes (Planning (CompleteSprint i)) b = True"
| "writes _ _ = False"

lemma archived_status:
  assumes "archiving e" and "access_result (e_http e n q) = Inr a"
  shows "property_of a ''projectStatus'' = Inr (Str ''ARCHIVED'')"
  using assms unfolding archiving_def by blast

lemma archived_check:
  assumes "\<And>a. property_of a ''projectStatus'' = Inr (Str ''ARCHIVED'') \<Longrightarrow> \<exists>x. check a = Inl x"
  shows "fails archiving (andThen (getAccess p u c) (\<lambda>a. checked (check a)))"
proof (rule failsI)
  fix e w r w' assume h: "archiving e" "w_tx w = None" "andThen (getAccess p u c) (\<lambda>a. checked (check a)) e w = (r, w')"
  show "w_tx w' = None \<and> w_db w' = w_db w \<and> (\<forall>a. r \<noteq> Inr a)"
  proof (cases "access_result (e_http e (w_tick w) (access_request p u c e))")
    case (Inl x)
    then show ?thesis using h(2,3) by (auto simp: andThen_def getAccess_eval)
  next
    case (Inr a)
    then obtain x where "check a = Inl x" using assms [OF archived_status [OF h(1) Inr]] by blast
    then show ?thesis using h(2,3) Inr by (auto simp: andThen_def getAccess_eval)
  qed
qed

lemma archived_project: "fails archiving (requireWritableProject p ctx)"
proof -
  have "requireWritableProject p ctx = andThen (andThen (getAccess p (rc_userId ctx) (rc_correlationId ctx))
      (\<lambda>a. checked (map_result (\<lambda>_. a) (assertWritable a)))) returning"
    unfolding requireWritableProject_def
    by (rule ext, rule ext) (auto simp: andThen_def map_result_def split: prod.split sum.split)
  moreover have "fails archiving (andThen (andThen (getAccess p (rc_userId ctx) (rc_correlationId ctx))
      (\<lambda>a. checked (map_result (\<lambda>_. a) (assertWritable a)))) returning)"
    by (rule fails_first, rule archived_check) (simp add: assertWritable_def)
  ultimately show ?thesis by simp
qed

lemma archived_visible: "fails archiving (requireVisibleIssue i ctx True)"
proof -
  have "fails archiving (andThen (getAccess p u c) (\<lambda>a. if True then checked (assertWritable a) else returning ()))" for p u c
    unfolding if_True by (rule archived_check) (simp add: assertWritable_def)
  then have "fails archiving (andThen (catching
      (andThen (getAccess p u c) (\<lambda>a. if True then checked (assertWritable a) else returning ()))
      (\<lambda>error. if is_domain_404 error then throwing notFound else throwing error)) f)" for p u c f
    by (rule fails_first [OF fails_catching]) (simp add: fails_throw)
  then show ?thesis
    unfolding requireVisibleIssue_def
    by (intro fails_check fails_later reads_find) (auto simp: quiet_env_of fails_throw split: option.split)
qed

lemma archived_planning: "fails archiving (planning_writable p ctx)"
  unfolding planning_writable_def by (rule archived_check) simp

lemma archived_epic: "fails archiving (requireVisibleEpic i ctx True)"
  unfolding requireVisibleEpic_def
  by (intro fails_check fails_later reads_find)
    (auto simp: quiet_env_of fails_throw archived_planning split: option.split intro!: fails_first)

lemma archived_use_cases:
  "fails archiving (service_createIssue p b ctx)" "fails archiving (service_assignIssue i b ctx)"
  "fails archiving (service_transitionIssue i b ctx)" "fails archiving (service_addComment i b ctx)"
  "fails archiving (service_createEpic p b ctx)" "fails archiving (service_updateEpic i b ctx)"
  "fails archiving (service_createSprint p b ctx)"
  unfolding service_createIssue_def service_assignIssue_def service_transitionIssue_def service_addComment_def
    service_createEpic_def service_updateEpic_def service_createSprint_def
  by (intro fails_check fails_first [OF archived_project] fails_first [OF archived_visible]
      fails_first [OF archived_planning] fails_first [OF archived_epic])+

lemma archived_complete: "fails archiving (service_completeSprint i ctx)"
  unfolding service_completeSprint_def
  by (intro fails_check fails_later reads_find)
    (auto simp: quiet_env_of fails_throw archived_planning split: option.split intro!: fails_first)

lemma archived_update:
  "hasCorePatchMutation ps \<Longrightarrow> fails archiving (service_updateIssue i (Obj ps) ctx)"
  unfolding service_updateIssue_def
  by (intro fails_check) (auto simp: body_of_def intro!: fails_check fails_first [OF archived_visible])

lemma fails_any_context:
  assumes "\<And>ctx. fails E (use_case ctx)"
  shows "fails E (with_context h st render use_case)"
proof -
  have "reads E (requestContext h)"
    by (rule readsI) (auto simp: requestContext_def andThen_def split: option.splits if_splits)
  then show ?thesis unfolding with_context_def by (rule fails_later) (rule fails_first [OF assms])
qed

lemma archived_dispatch: "writes rt b \<Longrightarrow> fails archiving (dispatch rt h q b)"
  by (cases "(rt, b)" rule: writes.cases)
    (auto intro!: fails_any_context archived_use_cases archived_complete archived_update)

section \<open>Assignees\<close>

lemma denied_assignee_create:
  assumes "optionalUuid (js_get ps ''assigneeUserId'') ''assigneeUserId'' = Inr (Some a)"
  shows "fails (denying (about a)) (service_createIssue p (Obj ps) ctx)"
proof -
  have "reads (denying (about a)) (requireWritableProject p ctx)" for p
    unfolding requireWritableProject_def by (intro reads_andThen reads_access reads_check reads_returning)
  then show ?thesis
    unfolding service_createIssue_def
    by (intro fails_check fails_later [of _ "requireWritableProject _ _"] )
      (auto simp: body_of_def assms intro!: fails_check fails_first denied_access)
qed

lemma reads_visible: "(\<And>e. E e \<Longrightarrow> quiet_env e) \<Longrightarrow> reads E (requireVisibleIssue i ctx wr)"
proof -
  assume q: "\<And>e. E e \<Longrightarrow> quiet_env e"
  have "reads E (andThen (getAccess p u c) (\<lambda>a. if wr then checked (assertWritable a) else returning ()))" for p u c
    by (intro reads_andThen reads_access) (simp add: reads_check reads_returning)
  then have "reads E (andThen (catching
      (andThen (getAccess p u c) (\<lambda>a. if wr then checked (assertWritable a) else returning ()))
      (\<lambda>error. if is_domain_404 error then throwing notFound else throwing error)) (\<lambda>_. returning x))" for p u c and x :: issue
    by (rule reads_andThen [OF reads_catching]) (simp_all add: reads_throwing reads_returning)
  then show ?thesis
    unfolding requireVisibleIssue_def
    by (intro reads_andThen reads_check reads_find q) (auto simp: reads_throwing split: option.split)
qed

lemma denied_assignee_assign:
  assumes "optionalUuid (js_get ps ''assigneeUserId'') ''assigneeUserId'' = Inr (Some a)"
  shows "fails (denying (about a)) (service_assignIssue i (Obj ps) ctx)"
  unfolding service_assignIssue_def
  by (intro fails_check fails_later [OF reads_visible])
    (auto simp: body_of_def assms quiet_env_of intro!: fails_check fails_first denied_access)

end
