(* ===== verification/Issue_Concurrency.thy ===== *)
theory Issue_Concurrency
  imports Issue_Guarantees
begin

text \<open>
  Optimistic concurrency: a versioned request succeeds only on the version it names, and
  leaves a later one, so no second request can succeed on the same version.
\<close>

text \<open>The issue \<open>i\<close> is past the version \<open>v\<close>.\<close>

definition past :: "string \<Rightarrow> int \<Rightarrow> db \<Rightarrow> bool" where
  "past i v d \<longleftrightarrow> (\<exists>r\<in>set (t_issues d). uuid (Str i) ''issueId'' = Inr (r_id r) \<and> v < r_version r)"

lemma stable_past: "stable db_steps (\<lambda>d. db_inv d \<and> past i v d)"
  unfolding stable_def
proof (intro allI impI conjI)
  fix d d' assume h: "db_inv d \<and> past i v d" "db_steps d d'"
  show "db_inv d'" using h db_steps_inv by blast
  have "evolves d d'" using h db_steps_evolves by blast
  then show "past i v d'" using h(1) unfolding past_def evolves_def row_grows_def same_identity_def
    by (metis order_less_le_trans)
qed

lemma past_left_row: "left_row issue updated d \<Longrightarrow> uuid (Str i) ''issueId'' = Inr (i_id issue) \<Longrightarrow> past i (i_version issue) d"
  unfolding left_row_def past_def by (elim conjE imageE) (simp, metis less_add_one)

section \<open>Success moves the version\<close>

lemma update_moves:
  assumes "expectedVersion ps = Inr v" and "hasCorePatchMutation ps"
  shows "runs db_steps issue_env db_inv (service_updateIssue i (Obj ps) ctx) (\<lambda>_ d. db_inv d \<and> past i v d)"
  unfolding service_updateIssue_def
proof (intro issue_protocol.after_check)
  fix input u
  assume "body_of (Obj ps) = Inr input"
  then have "input = ps" by (simp add: body_of_def)
  then show "runs db_steps issue_env db_inv
     (if \<not> hasCorePatchMutation input then
       andThen (checked (if has_own input ''expectedVersion'' then map_result (\<lambda>_. ()) (expectedVersion input)
                         else Inr ())) (\<lambda>_.
       requireVisibleIssue i ctx False)
     else
       andThen (checked (expectedVersion input)) (\<lambda>expected.
       andThen (requireVisibleIssue i ctx True) (\<lambda>issue.
       andThen (checked (assertExpectedVersion issue expected)) (\<lambda>_.
       andThen (checked (update_input input issue)) (\<lambda>data.
       updateIssue issue expected data (rc_userId ctx)))))) (\<lambda>_ d. db_inv d \<and> past i v d)"
    using assms
    by (auto intro!: issue_protocol.after_check after_issue issue_protocol.runs_weaken [OF updateIssue_runs]
        dest: past_left_row)
qed

lemma assign_moves:
  assumes "expectedVersion ps = Inr v"
  shows "runs db_steps issue_env db_inv (service_assignIssue i (Obj ps) ctx) (\<lambda>_ d. db_inv d \<and> past i v d)"
  unfolding service_assignIssue_def
  using assms
  by (intro issue_protocol.after_check after_issue issue_protocol.after_optional_access)
    (auto simp: body_of_def intro!: issue_protocol.runs_weaken [OF assignIssue_runs] dest: past_left_row)

lemma transition_moves:
  assumes "expectedVersion ps = Inr v"
  shows "runs db_steps issue_env db_inv (service_transitionIssue i (Obj ps) ctx) (\<lambda>_ d. db_inv d \<and> past i v d)"
  unfolding service_transitionIssue_def
  using assms
  by (intro issue_protocol.after_check after_issue)
    (auto simp: body_of_def intro!: issue_protocol.runs_weaken [OF transitionIssue_runs] dest: past_left_row)

section \<open>A stale version is refused\<close>

lemma find_past:
  assumes u: "uuid (Str i) ''issueId'' = Inr issueId"
  shows "runs db_steps issue_env (\<lambda>d. db_inv d \<and> past i v d) (findIssue issueId)
    (\<lambda>r d. (db_inv d \<and> past i v d) \<and> (\<forall>issue. r = Some issue \<longrightarrow> v < i_version issue))"
  unfolding findIssue_def
proof (rule issue_protocol.runs_andThen)
  show "runs db_steps issue_env (\<lambda>d. db_inv d \<and> past i v d) (query (find_stmt issueId))
      (\<lambda>rows d. (db_inv d \<and> past i v d) \<and> (\<forall>r\<in>set rows. v < r_version r))"
  proof (rule issue_protocol.runs_query [OF stable_past])
    fix e now d rows d'
    assume h: "issue_env e" "db_inv d \<and> past i v d" "find_stmt issueId e now d = Inr (rows, d')"
    have "e_uuid_in e issueId = Some issueId"
      using h(1) uuid_canonical [OF u] by (simp add: issue_env_def pg_uuid_canonical)
    then have rows: "rows = filter (\<lambda>r. r_id r = issueId) (t_issues d)" "d' = d"
      using h(3) by (auto simp: find_stmt_def uuid_param_def)
    have dist: "distinct (map r_id (t_issues d))" using h(2) by (simp add: db_inv_def)
    obtain r where r: "r \<in> set (t_issues d)" "r_id r = issueId" "v < r_version r"
      using h(2) u by (auto simp: past_def)
    have "r' = r" if "r' \<in> set rows" for r'
    proof (rule distinct_map_eqD [OF dist _ r(1)])
      show "r' \<in> set (t_issues d)" "r_id r' = r_id r" using that r(2) unfolding rows(1) by simp_all
    qed
    then have "\<forall>x\<in>set rows. v < r_version x" using r(3) by blast
    with h(2) show "db_steps d d' \<and> (db_inv d' \<and> past i v d') \<and> (\<forall>r\<in>set rows. v < r_version r)"
      unfolding rows(2) by blast
  qed
next
  fix rows
  show "runs db_steps issue_env (\<lambda>d. (db_inv d \<and> past i v d) \<and> (\<forall>r\<in>set rows. v < r_version r))
      (returning (case rows of [] \<Rightarrow> None | row # _ \<Rightarrow> Some (toIssue row)))
      (\<lambda>r d. (db_inv d \<and> past i v d) \<and> (\<forall>issue. r = Some issue \<longrightarrow> v < i_version issue))"
    by (rule issue_protocol.runs_returning) (auto split: list.splits)
qed

lemma visible_past:
  "runs db_steps issue_env (\<lambda>d. db_inv d \<and> past i v d) (requireVisibleIssue i ctx wr)
    (\<lambda>issue d. (db_inv d \<and> past i v d) \<and> v < i_version issue)"
  unfolding requireVisibleIssue_def
proof (rule issue_protocol.after_check)
  fix issueId assume u: "uuid (Str i) ''issueId'' = Inr issueId"
  let ?P = "\<lambda>d. db_inv d \<and> past i v d"
  have check: "runs db_steps issue_env ?P
      (catching (andThen (getAccess p us c) (\<lambda>access. if wr then checked (assertWritable access) else returning ()))
         (\<lambda>error. if is_domain_404 error then throwing notFound else throwing error)) (\<lambda>_. ?P)" for p us c
    by (rule issue_protocol.runs_catching [OF _ stable_past], rule issue_protocol.after_access)
      (simp_all add: issue_protocol.runs_checked issue_protocol.runs_returning issue_protocol.runs_throwing)
  show "runs db_steps issue_env ?P
     (andThen (findIssue issueId) (\<lambda>found.
       case found of None \<Rightarrow> throwing notFound
       | Some issue \<Rightarrow>
         andThen
           (catching
             (andThen (getAccess (i_projectId issue) (rc_userId ctx) (rc_correlationId ctx)) (\<lambda>access.
                if wr then checked (assertWritable access) else returning ()))
             (\<lambda>error. if is_domain_404 error then throwing notFound else throwing error))
           (\<lambda>_. returning issue))) (\<lambda>issue d. ?P d \<and> v < i_version issue)"
  proof (rule issue_protocol.runs_andThen [OF find_past [OF u]], rule pure_pre, goal_cases)
    case (1 r)
    show ?case
    proof (cases r)
      case None
      then show ?thesis by (simp add: issue_protocol.runs_throwing)
    next
      case (Some issue)
      then show ?thesis using 1
        by (auto intro!: issue_protocol.runs_andThen [OF check] issue_protocol.runs_returning)
    qed
  qed
qed

lemma after_stale_issue:
  assumes "\<And>issue. v < i_version issue \<Longrightarrow> runs db_steps issue_env (\<lambda>d. db_inv d \<and> past i v d) (f issue) Q"
  shows "runs db_steps issue_env (\<lambda>d. db_inv d \<and> past i v d) (andThen (requireVisibleIssue i ctx wr) f) Q"
  by (rule issue_protocol.runs_andThen [OF visible_past], rule pure_pre) (rule assms)

lemma update_stale:
  assumes "expectedVersion ps = Inr v" and "hasCorePatchMutation ps"
  shows "runs db_steps issue_env (\<lambda>d. db_inv d \<and> past i v d) (service_updateIssue i (Obj ps) ctx) (\<lambda>_ _. False)"
  unfolding service_updateIssue_def
proof (intro issue_protocol.after_check)
  fix input u
  assume "body_of (Obj ps) = Inr input"
  then have "input = ps" by (simp add: body_of_def)
  then show "runs db_steps issue_env (\<lambda>d. db_inv d \<and> past i v d)
     (if \<not> hasCorePatchMutation input then
       andThen (checked (if has_own input ''expectedVersion'' then map_result (\<lambda>_. ()) (expectedVersion input)
                         else Inr ())) (\<lambda>_.
       requireVisibleIssue i ctx False)
     else
       andThen (checked (expectedVersion input)) (\<lambda>expected.
       andThen (requireVisibleIssue i ctx True) (\<lambda>issue.
       andThen (checked (assertExpectedVersion issue expected)) (\<lambda>_.
       andThen (checked (update_input input issue)) (\<lambda>data.
       updateIssue issue expected data (rc_userId ctx)))))) (\<lambda>_ _. False)"
    using assms by (auto intro!: issue_protocol.after_check after_stale_issue)
qed

lemma assign_stale:
  assumes "expectedVersion ps = Inr v"
  shows "runs db_steps issue_env (\<lambda>d. db_inv d \<and> past i v d) (service_assignIssue i (Obj ps) ctx) (\<lambda>_ _. False)"
  unfolding service_assignIssue_def
  by (intro issue_protocol.after_check after_stale_issue) (use assms in \<open>auto simp: body_of_def\<close>)

lemma transition_stale:
  assumes "expectedVersion ps = Inr v"
  shows "runs db_steps issue_env (\<lambda>d. db_inv d \<and> past i v d) (service_transitionIssue i (Obj ps) ctx) (\<lambda>_ _. False)"
  unfolding service_transitionIssue_def
  by (intro issue_protocol.after_check after_stale_issue) (use assms in \<open>auto simp: body_of_def\<close>)

section \<open>Versioned requests\<close>

text \<open>A request that names the version \<open>v\<close> of the issue \<open>i\<close> and changes the issue.\<close>

definition versioned :: "route \<Rightarrow> jsval \<Rightarrow> string \<Rightarrow> int \<Rightarrow> bool" where
  "versioned rt body i v \<longleftrightarrow>
     (\<exists>ps. body = Obj ps \<and> expectedVersion ps = Inr v \<and>
        (rt = Issues (UpdateIssue i) \<and> hasCorePatchMutation ps \<or> rt = Issues (AssignIssue i) \<or>
         rt = Issues (TransitionIssue i)))"

lemma runs_with_context:
  assumes "\<And>ctx. runs db_steps issue_env P (use_case ctx) (\<lambda>_. Q)"
  shows "runs db_steps issue_env P (with_context h st render use_case) (\<lambda>_. Q)"
  unfolding with_context_def
  by (intro issue_protocol.runs_andThen [OF requestContext_runs] issue_protocol.runs_andThen [OF assms]
      issue_protocol.runs_returning)

lemma versioned_moves:
  "versioned rt b i v \<Longrightarrow> runs db_steps issue_env db_inv (dispatch rt h q b) (\<lambda>_ d. db_inv d \<and> past i v d)"
  by (auto simp: versioned_def intro!: runs_with_context update_moves assign_moves transition_moves)

lemma versioned_stale:
  "versioned rt b i v \<Longrightarrow>
   runs db_steps issue_env (\<lambda>d. db_inv d \<and> past i v d) (dispatch rt h q b) (\<lambda>_ _. False)"
  by (auto simp: versioned_def intro!: runs_with_context update_stale assign_stale transition_stale)

lemma succeeded:
  assumes "serve secret rq e w = (Inr resp, w')" and "rs_status resp \<in> {200, 201}"
  shows "\<exists>h v a. w_db v = w_db w \<and> w_tx v = w_tx w \<and>
    dispatch (rq_route rq) h (rq_query rq) (rq_body rq) e v = (Inr a, w')"
  using assms(1)
proof (cases rule: serve_cases)
  case rejected
  then show ?thesis using assms(2) by simp
next
  case (answered c v st body)
  then show ?thesis by blast
next
  case (failed c v x)
  have "served_error e x" using raises_dispatch failed(3) unfolding raises_def by blast
  moreover have "header (set_header ''x-correlation-id'' c (rq_headers rq)) ''x-correlation-id'' = Some c"
    by (simp add: header_set)
  ultimately have "\<not> (200 \<le> rs_status resp \<and> rs_status resp < 300)"
    using served_status failed(4) by (metis fst_conv)
  then show ?thesis using assms(2) by auto
qed

text \<open>What a success leaves, and what a request on a version that is past gets.\<close>

lemma served_moves:
  assumes "issue_env e" "w_tx w = None" "db_inv (w_db w)" and "versioned (rq_route rq) (rq_body rq) i v"
    and "serve secret rq e w = (Inr resp, w')" "rs_status resp \<in> {200, 201}"
  shows "db_inv (w_db w') \<and> past i v (w_db w')"
proof -
  obtain h u a where run: "w_db u = w_db w" "w_tx u = w_tx w"
      "dispatch (rq_route rq) h (rq_query rq) (rq_body rq) e u = (Inr a, w')"
    using succeeded [OF assms(5,6)] by blast
  show ?thesis using runsD(3) [OF versioned_moves [OF assms(4)] assms(1) _ _ run(3)] assms(2,3) run by simp
qed

lemma served_stale:
  assumes "issue_env e" "w_tx w = None" "db_inv (w_db w) \<and> past i v (w_db w)"
    and "versioned (rq_route rq) (rq_body rq) i v" and "serve secret rq e w = (Inr resp, w')"
  shows "rs_status resp \<notin> {200, 201}"
proof
  assume "rs_status resp \<in> {200, 201}"
  then obtain h u a where run: "w_db u = w_db w" "w_tx u = w_tx w"
      "dispatch (rq_route rq) h (rq_query rq) (rq_body rq) e u = (Inr a, w')"
    using succeeded [OF assms(5)] by blast
  then show False using runsD(3) [OF versioned_stale [OF assms(4)] assms(1) _ _ run(3)] assms(2,3) by simp
qed

section \<open>Concealment\<close>

lemma hidden_visible:
  assumes deny: "\<And>n q. \<exists>c m. access_result (e_http e n q) = Inl (DomainError 404 c m [])"
    and "\<And>n. e_fault e n = NoFault" and "pg_uuid e" and "uuid (Str i) ''issueId'' = Inr iid"
  shows "\<exists>w'. requireVisibleIssue i ctx wr e w = (Inl notFound, w')"
proof -
  have "e_uuid_in e iid = Some iid" using pg_uuid_canonical [OF assms(3) uuid_canonical [OF assms(4)]] .
  then obtain r v where found: "findIssue iid e w = (Inr r, v)"
    by (simp add: findIssue_def andThen_def query_def client_query_def find_stmt_def uuid_param_def assms(2))
  show ?thesis
  proof (cases r)
    case None
    then show ?thesis using found assms(4) by (simp add: requireVisibleIssue_def andThen_def)
  next
    case (Some issue)
    obtain c m where "access_result (e_http e (w_tick v)
        (access_request (i_projectId issue) (rc_userId ctx) (rc_correlationId ctx) e)) = Inl (DomainError 404 c m [])"
      using deny by blast
    then show ?thesis
      using found assms(4) Some by (simp add: requireVisibleIssue_def andThen_def catching_def getAccess_eval)
  qed
qed

end
