(* ===== verification/Example_Run.thy ===== *)
theory Example_Run
  imports Issue_Concurrency
begin

text \<open>
  One request of the example world carried out step by step: a user moves the second issue of
  \<open>world2\<close> from TODO to IN_PROGRESS. It shows that the hypotheses of the properties about
  successful requests can hold.
\<close>

definition example_request :: "route \<Rightarrow> jsval \<Rightarrow> server_request" where
  "example_request rt body = \<lparr>rq_url = ''/internal/x'', rq_route = rt,
     rq_headers = [(''x-internal-service-secret'', Str ''secret''), (''x-authenticated-user-id'', Str example_user),
                   (''x-correlation-id'', Str ''c-1'')],
     rq_query = Obj [], rq_body = body, rq_id = ''req-1''\<rparr>"

definition start_work :: server_request where
  "start_work = example_request (Issues (TransitionIssue (uuid_of_nat 2)))
     (Obj [(''status'', Str ''IN_PROGRESS''), (''expectedVersion'', Num (Fin 1))])"

lemma world2_facts [simp]: "w_db world2 = db2" "w_tx world2 = None" "w_tick world2 = 50"
  by (simp_all add: world2_def)

lemma example_headers [simp]:
  "header (rq_headers (example_request rt b)) ''x-authenticated-user-id'' = Some example_user"
  "rq_route (example_request rt b) = rt" "rq_body (example_request rt b) = b"
  by (simp_all add: header_def example_request_def)

section \<open>The example environment\<close>

named_theorems run_simps "evaluation of programs in the example environment"

lemma example_fields [run_simps]:
  "e_fault example_env n = NoFault" "e_others example_env n d = d" "e_uuid example_env n = uuid_of_nat n"
  "e_trace example_env = []" "e_http example_env n q = Reply 200 (Some example_access)"
  by (simp_all add: example_env_def)

lemma example_uuid_in [run_simps]: "e_uuid_in example_env (uuid_of_nat n) = Some (uuid_of_nat n)"
  by (simp add: example_env_def uuid_text_of_nat)

lemma example_names [run_simps]:
  "e_uuid_in example_env example_user = Some example_user" "e_uuid_in example_env example_project = Some example_project"
  unfolding example_env_def example_user_def example_project_def uuid_text_def by (simp, code_simp)+

lemma uuid_of_nat_eq [run_simps]: "m < 100 \<Longrightarrow> n < 100 \<Longrightarrow> uuid_of_nat m = uuid_of_nat n \<longleftrightarrow> m = n"
  using uuid_of_nat_inj by blast

lemma quiet_query [run_simps]:
  "query s example_env w = (case s example_env (now_of example_env w) (w_db w) of
     Inl x \<Rightarrow> (Inl x, tick w) | Inr (a, d) \<Rightarrow> (Inr a, (tick w)\<lparr>w_db := d\<rparr>))"
  "client_query s example_env w = (case s example_env (now_of example_env w) (w_db w) of
     Inl x \<Rightarrow> (Inl x, tick w) | Inr (a, d) \<Rightarrow> (Inr a, (tick w)\<lparr>w_db := d\<rparr>))"
  "control example_env w = (Inr (), tick w)"
  by (simp_all add: query_def client_query_def control_def others_def run_simps)

lemma db2_tables [run_simps]:
  "t_issues db2 = [example_row 1 ''Login page'', example_row 2 ''100% coverage'']"
  "t_history db2 = [example_created 1, example_created 2]" "t_outbox db2 = [example_event 1, example_event 2]"
  "t_epics db2 = []" "t_sprints db2 = []"
  by (simp_all add: db2_def Let_def empty_db_def numeral_2_eq_2)

lemma example_row_fields [run_simps]:
  "r_id (example_row n s) = uuid_of_nat n" "r_version (example_row n s) = 1"
  "r_status (example_row n s) = TODO" "r_project_id (example_row n s) = example_project"
  by (simp_all add: example_row_def)

lemma uuid_two [run_simps]: "uuid (Str (uuid_of_nat 2)) f = Inr (uuid_of_nat 2)"
proof -
  have "canonical_uuid (uuid_of_nat 2)" by code_simp
  then show ?thesis by (rule uuid_of_canonical)
qed

lemma example_names_fit [run_simps]:
  "varchar 50 ''STATUS_CHANGED''" "varchar 100 ''issue.transitioned''" "varchar 50 ''LAB-2''"
  by (simp_all add: varchar_def pg_text_def char_of_eq_iff)

lemma moved_row_ok [run_simps]:
  "issue_row_ok d ((example_row 2 ''100% coverage'')\<lparr>r_status := s, r_version := 2, r_updated_at := t\<rparr>)"
proof -
  have "''LAB-'' @ dec_string 2 = ''LAB-2''" by code_simp
  then show ?thesis using example_names_fit example_texts by (simp add: issue_row_ok_def example_row_def int4_max_def)
qed

lemma db2_reached: "db_steps empty_db db2"
proof -
  have "db_step (example_db []) (example_db [''Login page''])"
    by (rule example_db_step) (simp_all add: example_texts)
  moreover have "db_step (example_db [''Login page'']) (example_db [''100% coverage'', ''Login page''])"
    by (rule example_db_step) (simp_all add: example_texts)
  ultimately have "db_steps (example_db []) (example_db [''100% coverage'', ''Login page''])"
    by (rule converse_rtranclp_into_rtranclp [OF _ r_into_rtranclp])
  then show ?thesis by (simp only: db2_def example_db.simps(1))
qed

section \<open>The request\<close>

lemma read_example:
  "w_db w = db2 \<Longrightarrow> requireVisibleIssue (uuid_of_nat 2) ctx True example_env w =
   (Inr (toIssue (example_row 2 ''100% coverage'')), tick (tick w))"
  by (simp add: requireVisibleIssue_def andThen_def findIssue_def find_stmt_def uuid_param_def catching_def
     getAccess_eval access_result_def example_access_def Let_def assertWritable_def property_of_def tick_def run_simps)

lemma move_example:
  "\<lbrakk>w_db w = db2; w_tx w = None; w_tick w = 52\<rbrakk> \<Longrightarrow>
   \<exists>a w'. transitionIssue (toIssue (example_row 2 ''100% coverage'')) 1 \<lparr>vt_from = TODO, vt_to = IN_PROGRESS\<rparr>
     example_user example_env w = (Inr a, w')"
  by (simp add: transitionIssue_def transaction_def transitionIssue_work_def updateWithVersion_def update_stmt_def
    uuid_param_def andThen_def Let_def insertHistory_def insertEvent_def insert_history_row_def
    insert_outbox_row_def int4_max_def example_created_def example_event_def run_simps)

definition start_body :: js_object where
  "start_body = [(''status'', Str ''IN_PROGRESS''), (''expectedVersion'', Num (Fin 1))]"

lemma start_work_served:
  assumes "rq_route rq = Issues (TransitionIssue (uuid_of_nat 2))" "rq_body rq = Obj start_body"
    and "header (rq_headers rq) ''x-authenticated-user-id'' = Some example_user"
    and "header (rq_headers rq) ''x-correlation-id'' = Some c" "c \<noteq> []" and "secret_accepted secret (rq_headers rq)"
  shows "\<exists>resp w' ps. serve secret rq example_env world2 = (Inr resp, w') \<and> rs_status resp = 201 \<and> rs_body resp = Obj ps"
proof -
  let ?ctx = "\<lparr>rc_userId = example_user, rc_correlationId = c\<rparr>"
  have st: "enumValue (js_get start_body ''status'') ''status'' ISSUE_STATUSES = Inr IN_PROGRESS"
    "expectedVersion start_body = Inr 1" "assertTransition TODO IN_PROGRESS = Inr \<lparr>vt_from = TODO, vt_to = IN_PROGRESS\<rparr>"
    by code_simp+
  obtain a w' where "transitionIssue (toIssue (example_row 2 ''100% coverage'')) 1 \<lparr>vt_from = TODO, vt_to = IN_PROGRESS\<rparr>
     example_user example_env (tick (tick world2)) = (Inr a, w')"
    using move_example [of "tick (tick world2)"] by auto
  then have run: "service_transitionIssue (uuid_of_nat 2) (Obj start_body) ?ctx example_env world2 = (Inr a, w')"
    using st by (simp add: service_transitionIssue_def body_of_def andThen_checked andThen_def read_example
        assertExpectedVersion_def run_simps)
  have "requestContext (set_header ''x-correlation-id'' c (rq_headers rq)) = returning ?ctx"
    using assms(3,5) by (simp add: requestContext_def header_set example_user_def)
  then show ?thesis
    using run assms by (simp add: serve_def correlation_hook_def andThen_def Let_def catching_def with_context_def field_json_def)
qed

lemma start_work_succeeds: "\<exists>resp w'. serve ''secret'' start_work example_env world2 = (Inr resp, w') \<and> rs_status resp = 201"
proof -
  have "secret_accepted ''secret'' (rq_headers start_work)"
    by (simp add: secret_accepted_def start_work_def example_request_def header_def Let_def)
  moreover have "header (rq_headers start_work) ''x-correlation-id'' = Some ''c-1''"
    by (simp add: start_work_def example_request_def header_def)
  moreover have "rq_route start_work = Issues (TransitionIssue (uuid_of_nat 2))" "rq_body start_work = Obj start_body"
    "header (rq_headers start_work) ''x-authenticated-user-id'' = Some example_user"
    by (simp_all add: start_work_def start_body_def)
  ultimately show ?thesis using start_work_served [of start_work "''c-1''" "''secret''"] by blast
qed

end
