(* ===== verification/Issue_Conflicts.thy ===== *)
theory Issue_Conflicts
  imports Example_Run
begin

text \<open>
  Overlapping requests. A request that changes an issue announces the new version under an
  event id it has drawn itself. An issue has one event of each version, so of two requests
  that draw different ids only one can have announced the version after the one both name,
  however their reads and commits are interleaved.
\<close>

text \<open>A process whose \<open>randomUUID\<close> draws UUIDs of the set \<open>U\<close>.\<close>

definition drawing :: "string set \<Rightarrow> env \<Rightarrow> bool" where
  "drawing U e \<longleftrightarrow> issue_env e \<and> (\<forall>n. e_uuid e n \<in> U \<and> uuid_text (e_uuid e n))"

interpretation drawn: protocol db_steps "drawing U" for U
  by unfold_locales (auto simp: drawing_def issue_env_def)

lemma runs_env: "runs R E P p Q \<Longrightarrow> (\<And>e. E' e \<Longrightarrow> E e) \<Longrightarrow> runs R E' P p Q"
  unfolding runs_def by blast

lemma drawing_env: "drawing U e \<Longrightarrow> issue_env e"
  by (simp add: drawing_def)

section \<open>The event of a request\<close>

definition announced_from :: "string set \<Rightarrow> string \<Rightarrow> int \<Rightarrow> db \<Rightarrow> bool" where
  "announced_from U i v d \<longleftrightarrow>
     (\<exists>ev\<in>set (t_outbox d). o_aggregate_id ev = i \<and> o_aggregate_version ev = v \<and> o_event_id ev \<in> U)"

lemma announced_from_stays: "announced_from U i v d \<Longrightarrow> db_steps d d' \<Longrightarrow> db_inv d \<Longrightarrow> announced_from U i v d'"
proof -
  assume h: "announced_from U i v d" "db_steps d d'" "db_inv d"
  obtain f evs where "keeps_envelope f" "t_outbox d' = map f (t_outbox d) @ evs"
    using db_steps_evolves [OF h(2,3)] unfolding evolves_def by blast
  then show ?thesis using h(1) by (fastforce simp: announced_from_def keeps_envelope_def)
qed

text \<open>Nobody else has announced the same version.\<close>

lemma announced_once:
  assumes "db_inv d" and "announced_from U i v d" and "announced_from V i v d"
  shows "U \<inter> V \<noteq> {}"
proof -
  obtain a b where a: "a \<in> set (t_outbox d)" "o_aggregate_id a = i" "o_aggregate_version a = v" "o_event_id a \<in> U"
    and b: "b \<in> set (t_outbox d)" "o_aggregate_id b = i" "o_aggregate_version b = v" "o_event_id b \<in> V"
    using assms(2,3) by (auto simp: announced_from_def)
  obtain r where r: "r \<in> set (t_issues d)" "r_id r = i" using assms(1) a by (auto simp: db_inv_def)
  then have "map o_aggregate_version (issue_events i d) = [1..r_version r]"
    using assms(1) by (auto simp: db_inv_def issue_ok_def)
  then have "distinct (map o_aggregate_version (issue_events i d))" by simp
  from distinct_map_eqD [OF this, of a b] have "a = b" using a b by (simp add: issue_events_def)
  with a b show ?thesis by blast
qed

lemma insertEvent_draws:
  assumes "insertEvent issue actor eventType payload e w = (Inr x, w')" and "drawing U e"
    and "e_uuid_in e (i_id issue) = Some i"
  shows "announced_from U i (i_version issue) (w_db w')"
proof -
  have "e_uuid_in e (e_uuid e n) = Some (e_uuid e n)" "e_uuid e n \<in> U" for n
    using assms(2) by (simp_all add: drawing_def issue_env_def pg_uuid_def)
  with assms(1,3) show ?thesis
    by (auto simp: insertEvent_def andThen_Inr client_query_Inr try_then_Inr_iff insert_outbox_row_Inr
        announced_from_def)
qed

text \<open>
  A transaction that updates the row under the version read, and then announces what it has
  written, announces the next version.
\<close>

lemma update_announces:
  assumes u: "updateWithVersion issue v setters e w = (Inr upd, w1)" and inv: "db_inv (w_db w)"
    and canon: "canonical_uuid (i_id issue)" and E: "drawing U e"
    and setters: "\<And>(set_row :: issue_row \<Rightarrow> issue_row) r. setters e = Inr set_row \<Longrightarrow> r_id (set_row r) = r_id r"
    and v: "insertEvent upd actor eventType payload e w2 = (Inr y, w')"
  shows "announced_from U (i_id issue) (v + 1) (w_db w')"
proof (rule updateWithVersion_Inr [OF u inv])
  fix r and set_row :: "issue_row \<Rightarrow> issue_row"
  assume h: "setters e = Inr set_row" "e_uuid_in e (i_id issue) = Some (r_id r)" "r_version r = v"
    "upd = toIssue ((set_row r)\<lparr>r_version := r_version r + 1, r_updated_at := now_of e w\<rparr>)"
  have "e_uuid_in e (i_id issue) = Some (i_id issue)"
    using E canon by (simp add: drawing_def issue_env_def pg_uuid_canonical)
  then have "i_id upd = i_id issue" "i_version upd = v + 1" using h setters [OF h(1)] by simp_all
  then show ?thesis using insertEvent_draws [OF v E] \<open>e_uuid_in e (i_id issue) = Some (i_id issue)\<close> by simp
qed

section \<open>Success announces the next version\<close>

definition announces_next :: "string set \<Rightarrow> string \<Rightarrow> int \<Rightarrow> db \<Rightarrow> bool" where
  "announces_next U i v d \<longleftrightarrow>
     (\<exists>issueId. uuid (Str i) ''issueId'' = Inr issueId \<and> announced_from U issueId (v + 1) d)"

lemma announcing_transaction:
  assumes "\<And>e w a w'. \<lbrakk>drawing U e; db_inv (w_db w); work e w = (Inr a, w')\<rbrakk> \<Longrightarrow>
      announced_from U (i_id issue) (v + 1) (w_db w')"
    and "runs db_steps issue_env (\<lambda>d. db_inv d \<and> seen issue d) (transaction work) (\<lambda>_. db_inv)"
    and "uuid (Str i) ''issueId'' = Inr (i_id issue)"
  shows "runs db_steps (drawing U) (\<lambda>d. db_inv d \<and> seen issue d) (transaction work) (\<lambda>_. announces_next U i v)"
proof (rule runsI)
  fix e w r w'
  assume h: "drawing U e" "w_tx w = None" "db_inv (w_db w) \<and> seen issue (w_db w)" "transaction work e w = (r, w')"
  note kept = runsD(1,2) [OF assms(2) drawing_env [OF h(1)] h(2-4)]
  have "announces_next U i v (w_db w')" if "r = Inr a" for a
    using h(4)
  proof (cases rule: transaction_cases)
    case (kept x)
    then show ?thesis using that by simp
  next
    case (committed b w2 w3)
    have "db_inv (w_db w2)"
      using committed(1) h(1,3) drawn.R_others [OF h(1)] db_steps_inv by metis
    then have "announced_from U (i_id issue) (v + 1) (w_db w3)" using assms(1) h(1) committed(3) by blast
    then show ?thesis using committed(4) assms(3) by (simp add: announces_next_def)
  qed
  then show "w_tx w' = None \<and> db_steps (w_db w) (w_db w') \<and> (\<forall>a. r = Inr a \<longrightarrow> announces_next U i v (w_db w'))"
    using kept by blast
qed

lemma work_announces:
  assumes "drawing U e" and "db_inv (w_db w)" and "canonical_uuid (i_id issue)"
  shows "updateIssue_work issue v data actor e w = (Inr a, w') \<Longrightarrow> announced_from U (i_id issue) (v + 1) (w_db w')"
    and "assignIssue_work issue v assignee actor e w = (Inr a, w') \<Longrightarrow> announced_from U (i_id issue) (v + 1) (w_db w')"
    and "transitionIssue_work issue v transition actor e w = (Inr a, w') \<Longrightarrow>
      announced_from U (i_id issue) (v + 1) (w_db w')"
proof -
  note announce = update_announces [OF _ assms(2,3,1)]
  show "updateIssue_work issue v data actor e w = (Inr a, w') \<Longrightarrow> announced_from U (i_id issue) (v + 1) (w_db w')"
    by (auto simp: updateIssue_work_def andThen_Inr elim!: announce)
  show "assignIssue_work issue v assignee actor e w = (Inr a, w') \<Longrightarrow> announced_from U (i_id issue) (v + 1) (w_db w')"
    by (auto simp: assignIssue_work_def andThen_Inr map_result_Inr_iff elim!: announce)
  show "transitionIssue_work issue v transition actor e w = (Inr a, w') \<Longrightarrow>
      announced_from U (i_id issue) (v + 1) (w_db w')"
    by (auto simp: transitionIssue_work_def andThen_Inr elim!: announce)
qed

lemma method_announces:
  assumes "uuid (Str i) ''issueId'' = Inr (i_id issue)"
  shows "runs db_steps (drawing U) (\<lambda>d. db_inv d \<and> seen issue d)
      (updateIssue issue (i_version issue) data actor) (\<lambda>_. announces_next U i (i_version issue))"
    and "runs db_steps (drawing U) (\<lambda>d. db_inv d \<and> seen issue d)
      (assignIssue issue (i_version issue) assignee actor) (\<lambda>_. announces_next U i (i_version issue))"
    and "assertTransition (i_status issue) target = Inr transition \<Longrightarrow>
      runs db_steps (drawing U) (\<lambda>d. db_inv d \<and> seen issue d)
      (transitionIssue issue (i_version issue) transition actor) (\<lambda>_. announces_next U i (i_version issue))"
proof -
  have canon: "canonical_uuid (i_id issue)" using uuid_canonical [OF assms] .
  note announce = announcing_transaction [OF _ _ assms]
  show "runs db_steps (drawing U) (\<lambda>d. db_inv d \<and> seen issue d)
      (updateIssue issue (i_version issue) data actor) (\<lambda>_. announces_next U i (i_version issue))"
    unfolding updateIssue_def
    by (rule announce [OF work_announces(1) [OF _ _ canon]]; assumption?)
      (rule issue_protocol.runs_weaken [OF updateIssue_runs [unfolded updateIssue_def]]; simp)
  show "runs db_steps (drawing U) (\<lambda>d. db_inv d \<and> seen issue d)
      (assignIssue issue (i_version issue) assignee actor) (\<lambda>_. announces_next U i (i_version issue))"
    unfolding assignIssue_def
    by (rule announce [OF work_announces(2) [OF _ _ canon]]; assumption?)
      (rule issue_protocol.runs_weaken [OF assignIssue_runs [unfolded assignIssue_def]]; simp)
  show "assertTransition (i_status issue) target = Inr transition \<Longrightarrow>
      runs db_steps (drawing U) (\<lambda>d. db_inv d \<and> seen issue d)
      (transitionIssue issue (i_version issue) transition actor) (\<lambda>_. announces_next U i (i_version issue))"
    unfolding transitionIssue_def
    by (rule announce [OF work_announces(3) [OF _ _ canon]]; assumption?)
      (erule issue_protocol.runs_weaken [OF transitionIssue_runs [unfolded transitionIssue_def]]; simp)
qed

lemma after_read_issue:
  "(\<And>issue. uuid (Str i) ''issueId'' = Inr (i_id issue) \<Longrightarrow>
      runs db_steps (drawing U) (\<lambda>d. db_inv d \<and> seen issue d) (f issue) Q) \<Longrightarrow>
   runs db_steps (drawing U) db_inv (andThen (requireVisibleIssue i ctx writable) f) Q"
  by (rule drawn.runs_andThen [OF runs_env [OF requireVisibleIssue_runs drawing_env]]) (assumption, rule pure_pre)

lemma update_announces_next:
  assumes "expectedVersion ps = Inr v" and "hasCorePatchMutation ps"
  shows "runs db_steps (drawing U) db_inv (service_updateIssue i (Obj ps) ctx) (\<lambda>_. announces_next U i v)"
  unfolding service_updateIssue_def
proof (intro drawn.after_check)
  fix input u
  assume "body_of (Obj ps) = Inr input"
  then have "input = ps" by (simp add: body_of_def)
  then show "runs db_steps (drawing U) db_inv
     (if \<not> hasCorePatchMutation input then
       andThen (checked (if has_own input ''expectedVersion'' then map_result (\<lambda>_. ()) (expectedVersion input)
                         else Inr ())) (\<lambda>_.
       requireVisibleIssue i ctx False)
     else
       andThen (checked (expectedVersion input)) (\<lambda>expected.
       andThen (requireVisibleIssue i ctx True) (\<lambda>issue.
       andThen (checked (assertExpectedVersion issue expected)) (\<lambda>_.
       andThen (checked (update_input input issue)) (\<lambda>data.
       updateIssue issue expected data (rc_userId ctx)))))) (\<lambda>_. announces_next U i v)"
    using assms by (auto intro!: drawn.after_check after_read_issue method_announces)
qed

lemma assign_announces_next:
  assumes "expectedVersion ps = Inr v"
  shows "runs db_steps (drawing U) db_inv (service_assignIssue i (Obj ps) ctx) (\<lambda>_. announces_next U i v)"
  unfolding service_assignIssue_def using assms
  by (intro drawn.after_check after_read_issue drawn.after_optional_access)
    (auto simp: body_of_def intro!: method_announces)

lemma transition_announces_next:
  assumes "expectedVersion ps = Inr v"
  shows "runs db_steps (drawing U) db_inv (service_transitionIssue i (Obj ps) ctx) (\<lambda>_. announces_next U i v)"
  unfolding service_transitionIssue_def using assms
  by (intro drawn.after_check after_read_issue) (auto simp: body_of_def intro!: method_announces(3))

lemma versioned_announces:
  assumes "versioned rt b i v"
  shows "runs db_steps (drawing U) db_inv (dispatch rt h q b) (\<lambda>_. announces_next U i v)"
proof -
  have framed: "runs db_steps (drawing U) db_inv (with_context h st render use_case) (\<lambda>_. announces_next U i v)"
    if "\<And>ctx. runs db_steps (drawing U) db_inv (use_case ctx) (\<lambda>_. announces_next U i v)" for st render use_case
    unfolding with_context_def
    by (intro drawn.runs_andThen [OF runs_env [OF requestContext_runs drawing_env]] drawn.runs_andThen [OF that]
        drawn.runs_returning)
  show ?thesis using assms
    by (auto simp: versioned_def intro!: framed update_announces_next assign_announces_next transition_announces_next)
qed

text \<open>What a served success has announced.\<close>

lemma served_announces:
  assumes "drawing U e" "w_tx w = None" "db_inv (w_db w)" and "versioned (rq_route rq) (rq_body rq) i v"
    and "serve secret rq e w = (Inr resp, w')" "rs_status resp \<in> {200, 201}"
  shows "announces_next U i v (w_db w')"
proof -
  obtain h u a where run: "w_db u = w_db w" "w_tx u = w_tx w"
      "dispatch (rq_route rq) h (rq_query rq) (rq_body rq) e u = (Inr a, w')"
    using succeeded [OF assms(5,6)] by blast
  show ?thesis using runsD(3) [OF versioned_announces [OF assms(4)] assms(1) _ _ run(3)] assms(2,3) run by simp
qed

lemma announces_next_stays: "announces_next U i v d \<Longrightarrow> db_steps d d' \<Longrightarrow> db_inv d \<Longrightarrow> announces_next U i v d'"
  using announced_from_stays by (auto simp: announces_next_def)

lemma one_announces:
  assumes "db_inv d" and "announces_next U i v d" and "announces_next V i v d"
  shows "U \<inter> V \<noteq> {}"
  using assms(2,3) announced_once [OF assms(1)] by (auto simp: announces_next_def)

section \<open>Two overlapping requests\<close>

text \<open>
  Two users move the second issue of \<open>world2\<close> at the same time. Both requests have read
  version 1; then the one of \<open>example_env\<close> commits, which is what \<open>late_env\<close> sees at its tick
  53, before its own transaction begins.
\<close>

definition moved_db :: db where
  "moved_db = w_db (snd (serve ''secret'' start_work example_env world2))"

definition late_uuid :: string where
  "late_uuid = ''20000000-0000-4000-8000-00000000000d''"

definition late_env :: env where
  "late_env = example_env\<lparr>e_uuid := \<lambda>_. late_uuid, e_others := \<lambda>n d. if n = 53 \<and> d = db2 then moved_db else d\<rparr>"

lemma start_work_versioned: "versioned (rq_route start_work) (rq_body start_work) (uuid_of_nat 2) 1"
proof -
  have "expectedVersion [(''status'', Str ''IN_PROGRESS''), (''expectedVersion'', Num (Fin 1))] = Inr 1" by code_simp
  then show ?thesis by (simp add: versioned_def start_work_def)
qed

lemma moved_db_reached: "db_steps db2 moved_db" "db_inv moved_db" "past (uuid_of_nat 2) 1 moved_db"
proof -
  obtain resp w' where run: "serve ''secret'' start_work example_env world2 = (Inr resp, w')" and ok: "rs_status resp = 201"
    using start_work_succeeds by blast
  show "db_steps db2 moved_db"
    using runsD(2) [OF serve_runs example_issue_env _ _ run] run by (simp add: example_dbs moved_db_def)
  show "db_inv moved_db" "past (uuid_of_nat 2) 1 moved_db"
    using served_moves [OF example_issue_env _ _ start_work_versioned run] run ok
    by (simp_all add: example_dbs moved_db_def)
qed

lemma example_draws: "drawing (range uuid_of_nat) example_env"
  by (simp add: drawing_def example_issue_env run_simps uuid_text_of_nat)

lemma late_draws: "drawing {late_uuid} late_env"
proof -
  have "uuid_text late_uuid" unfolding late_uuid_def uuid_text_def by code_simp
  then show ?thesis
    using example_issue_env moved_db_reached(1)
    by (auto simp: drawing_def issue_env_def pg_uuid_def late_env_def)
qed

lemma draws_apart: "range uuid_of_nat \<inter> {late_uuid} = {}"
  by (auto simp: uuid_of_nat_def late_uuid_def)

lemma moved_row: "r \<in> set (t_issues moved_db) \<Longrightarrow> r_id r = uuid_of_nat 2 \<Longrightarrow> r_version r \<noteq> 1"
proof -
  assume r: "r \<in> set (t_issues moved_db)" "r_id r = uuid_of_nat 2"
  obtain s where s: "s \<in> set (t_issues moved_db)" "r_id s = uuid_of_nat 2" "1 < r_version s"
    using moved_db_reached(3) by (auto simp: past_def run_simps)
  have "distinct (map r_id (t_issues moved_db))" using moved_db_reached(2) by (simp add: db_inv_def)
  from distinct_map_eqD [OF this r(1) s(1)] r(2) s(2,3) show ?thesis by simp
qed

lemma late_fields [run_simps]:
  "e_fault late_env n = NoFault" "e_others late_env n d = (if n = 53 \<and> d = db2 then moved_db else d)"
  "e_http late_env n q = Reply 200 (Some example_access)" "e_uuid_in late_env = e_uuid_in example_env"
  by (simp_all add: late_env_def run_simps)

lemma read_late:
  "w_db w = db2 \<Longrightarrow> w_tick w = 50 \<Longrightarrow> requireVisibleIssue (uuid_of_nat 2) ctx True late_env w =
   (Inr (toIssue (example_row 2 ''100% coverage'')), tick (tick w))"
  by (simp add: requireVisibleIssue_def andThen_def findIssue_def find_stmt_def uuid_param_def catching_def
     query_def client_query_def others_def
     getAccess_eval access_result_def example_access_def Let_def assertWritable_def property_of_def tick_def run_simps)

lemma late_move:
  assumes "w_db w = db2" "w_tx w = None" "w_tick w = 52"
  shows "\<exists>w'. transitionIssue (toIssue (example_row 2 ''100% coverage'')) 1 \<lparr>vt_from = TODO, vt_to = IN_PROGRESS\<rparr>
     example_user late_env w = (Inl concurrentIssueModification, w') \<and> w_db w' = moved_db"
proof -
  have none: "filter (\<lambda>r. r_id r = uuid_of_nat 2 \<and> r_version r = 1) (t_issues moved_db) = []"
    using moved_row by (auto simp: filter_empty_conv)
  have same: "map (\<lambda>r. if r_id r = uuid_of_nat 2 \<and> r_version r = 1 then f r else r) (t_issues moved_db) = t_issues moved_db" for f
    by (rule map_idI) (use moved_row in auto)
  show ?thesis using assms
    by (simp add: transitionIssue_def transaction_def transitionIssue_work_def updateWithVersion_def update_stmt_def
      uuid_param_def andThen_def Let_def control_def client_query_def others_def rollback_def concurrentIssueModification_def int4_max_def none same run_simps)
qed

lemma late_served:
  "\<exists>resp w'. serve ''secret'' start_work late_env world2 = (Inr resp, w') \<and> rs_status resp = 409 \<and> w_db w' = moved_db"
proof -
  let ?ctx = "\<lparr>rc_userId = example_user, rc_correlationId = ''c-1''\<rparr>"
  have st: "enumValue (js_get start_body ''status'') ''status'' ISSUE_STATUSES = Inr IN_PROGRESS"
    "expectedVersion start_body = Inr 1" "assertTransition TODO IN_PROGRESS = Inr \<lparr>vt_from = TODO, vt_to = IN_PROGRESS\<rparr>"
    by code_simp+
  obtain w' where "transitionIssue (toIssue (example_row 2 ''100% coverage'')) 1 \<lparr>vt_from = TODO, vt_to = IN_PROGRESS\<rparr>
     example_user late_env (tick (tick world2)) = (Inl concurrentIssueModification, w')" and db: "w_db w' = moved_db"
    using late_move [of "tick (tick world2)"] by auto
  then have run: "service_transitionIssue (uuid_of_nat 2) (Obj start_body) ?ctx late_env world2 = (Inl concurrentIssueModification, w')"
    using st by (simp add: service_transitionIssue_def body_of_def andThen_checked andThen_def read_late
        assertExpectedVersion_def run_simps)
  have rq: "header (rq_headers start_work) ''x-authenticated-user-id'' = Some example_user"
    "header (rq_headers start_work) ''x-correlation-id'' = Some ''c-1''"
    "secret_accepted ''secret'' (rq_headers start_work)"
    "rq_route start_work = Issues (TransitionIssue (uuid_of_nat 2))" "rq_body start_work = Obj start_body"
    by (simp_all add: start_work_def start_body_def example_request_def header_def secret_accepted_def Let_def)
  then have "requestContext (set_header ''x-correlation-id'' ''c-1'' (rq_headers start_work)) = returning ?ctx"
    by (simp add: requestContext_def header_set example_user_def)
  then show ?thesis
    using run rq db by (simp add: serve_def correlation_hook_def andThen_def Let_def catching_def with_context_def
        DomainExceptionFilter_def concurrentIssueModification_def header_set)
qed

end
