(* ===== verification/Issue_Promises.thy ===== *)
theory Issue_Promises
  imports Issue_Conflicts
begin

text \<open>
  The properties of the issue service as a whole, with an instance of each.
\<close>

section \<open>Examples\<close>

definition refusing_env :: env where
  "refusing_env = example_env\<lparr>e_http := \<lambda>_ _. Reply 404 (Some (Obj [(''code'', Str ''PROJECT_NOT_FOUND'')]))\<rparr>"

definition archived_env :: env where
  "archived_env = example_env\<lparr>e_http := \<lambda>_ _. Reply 200 (Some (Obj [(''projectKey'', Str ''LAB''), (''projectStatus'', Str ''ARCHIVED'')]))\<rparr>"

lemma example_refusing: "denying K refusing_env"
  by (simp add: denying_def quiet_env_def refusing_env_def example_env_def access_result_def property_of_def Let_def)

lemma example_archiving: "archiving archived_env"
  by (simp add: archiving_def quiet_env_def archived_env_def example_env_def access_result_def property_of_def Let_def)

text \<open>What a request answers, and the tables it leaves.\<close>

definition answer :: "server_request \<Rightarrow> env \<Rightarrow> world \<Rightarrow> nat \<times> db" where
  "answer rq e w = (rs_status (projr (fst (serve ''secret'' rq e w))), w_db (snd (serve ''secret'' rq e w)))"

lemma answerI: "(\<And>resp w'. serve ''secret'' rq e w = (Inr resp, w') \<Longrightarrow> P (rs_status resp, w_db w')) \<Longrightarrow> P (answer rq e w)"
  using serve_responds [of "''secret''" rq e w] by (auto simp: answer_def)

section \<open>Answers\<close>

text \<open>
  C28: Every request gets one response. It is a success (200 or 201), or it is an error whose
  body has a code, a message, details and the response's correlation id, and whose status
  and code are one of the nine the service defines, the framework's 404, the error in an answer
  the project service gives in this environment to a question of the client (or the 503 when
  it gives none), or 500 with a fixed text that repeats nothing of the cause; or it is the
  401 of a request without the internal secret. So where the project service refuses nothing,
  every error is one of the table, the 404 or the fixed 500.
\<close>

theorem every_request_is_answered:
  "\<exists>resp w'. serve secret rq e w = (Inr resp, w') \<and>
     (rs_status resp = 401 \<and> rs_correlation resp = None \<and> \<not> secret_accepted secret (rq_headers rq) \<or>
      (\<exists>c. rs_correlation resp = Some c \<and>
        (rs_status resp \<in> {200, 201} \<or>
         (\<exists>code m d. rs_body resp = error_body code m d c \<and>
            ((rs_status resp, code) \<in> set service_error_table \<or> (rs_status resp, code) = (404, ''HTTP_ERROR'') \<or>
             (rs_status resp, code, m, d) = (500, ''INTERNAL_ERROR'', ''An unexpected error occurred'', []) \<or>
             (\<exists>n p u cid. access_result (e_http e n (access_request p u cid e)) =
               Inl (DomainError (rs_status resp) code m d)))))))"
proof -
  obtain resp w' where run: "serve secret rq e w = (Inr resp, w')" using serve_responds by blast
  then show ?thesis
  proof (cases rule: serve_cases)
    case rejected
    then show ?thesis using run by blast
  next
    case (answered c v st body)
    have "st \<in> {200, 201}" using answered(3) by (rule dispatch_status)
    then have "rs_correlation resp = Some c" "rs_status resp \<in> {200, 201}" using answered(4) by simp_all
    then show ?thesis using run by blast
  next
    case (failed c v x)
    have "served_error e x" using raises_dispatch failed(3) unfolding raises_def by blast
    moreover have "header (set_header ''x-correlation-id'' c (rq_headers rq)) ''x-correlation-id'' = Some c"
      by (simp add: header_set)
    ultimately obtain st err m d
      where f: "DomainExceptionFilter x (set_header ''x-correlation-id'' c (rq_headers rq)) (rq_id rq) = (st, error_body err m d c)"
        and b: "(st, err) \<in> set service_error_table \<or> (st, err) = (404, ''HTTP_ERROR'') \<or>
          (st, err, m, d) = (500, ''INTERNAL_ERROR'', ''An unexpected error occurred'', []) \<or>
          (\<exists>n p u cid. access_result (e_http e n (access_request p u cid e)) = Inl (DomainError st err m d))"
      using served_status unfolding refusal_def by metis
    have a: "rs_status resp = st" "rs_body resp = error_body err m d c" using f failed(4) by simp_all
    from b have "\<exists>code m d. rs_body resp = error_body code m d c \<and>
            ((rs_status resp, code) \<in> set service_error_table \<or> (rs_status resp, code) = (404, ''HTTP_ERROR'') \<or>
             (rs_status resp, code, m, d) = (500, ''INTERNAL_ERROR'', ''An unexpected error occurred'', []) \<or>
             (\<exists>n p u cid. access_result (e_http e n (access_request p u cid e)) =
               Inl (DomainError (rs_status resp) code m d)))"
      unfolding a by blast
    with run failed(5) show ?thesis by blast
  qed
qed

text \<open>
  C33: No handler runs for a request outside \<open>/health\<close> whose internal secret is not exactly
  the configured one: it gets a 401 and nothing else happens.
\<close>

theorem internal_secret_required:
  assumes "\<not> starts_with ''/health'' (rq_url rq)" and "secret \<noteq> []"
    and "header (rq_headers rq) ''x-internal-service-secret'' \<noteq> Some secret"
  shows "\<exists>resp. serve secret rq e w = (Inr resp, w) \<and> rs_status resp = 401"
proof -
  have "utf8_encode s = utf8_encode secret \<Longrightarrow> s = secret" for s
    using utf8_decode_encode by (metis option.inject)
  moreover have "(case header (rq_headers rq) ''x-internal-service-secret'' of Some s \<Rightarrow> s | None \<Rightarrow> []) \<noteq> secret"
    using assms(2,3) by (auto split: option.splits)
  ultimately have "\<not> secret_accepted secret (rq_headers rq)"
    unfolding secret_accepted_def Let_def by blast
  then show ?thesis using assms(1) by (simp add: serve_def)
qed

theorem internal_secret_required_witness:
  "\<exists>resp. serve ''other'' (example_request (Issues (GetIssue (uuid_of_nat 1))) Undefined) example_env world2 = (Inr resp, world2) \<and>
     rs_status resp = 401"
  by (rule internal_secret_required) (simp_all add: example_request_def starts_with_def header_def)

section \<open>Authorization\<close>

text \<open>
  C9: A user to whom the project service refuses every project gets no success from any
  handler of the service, reading or writing, and the request changes no table.
\<close>

theorem refused_user_gets_nothing:
  assumes "denying (about u) e" and "w_tx w = None" and "rq_route rq \<noteq> Health"
    and "header (rq_headers rq) ''x-authenticated-user-id'' = Some u"
    and "serve secret rq e w = (Inr resp, w')"
  shows "w_db w' = w_db w \<and> \<not> (200 \<le> rs_status resp \<and> rs_status resp < 300)"
  using assms(5,1,2) by (rule failing_request) (rule denied_dispatch, simp_all add: assms)

theorem refused_user_gets_nothing_witness:
  "snd (answer (example_request (Issues (ListIssues example_project)) Undefined) refusing_env world2) = db2 \<and>
   fst (answer (example_request (Issues (ListIssues example_project)) Undefined) refusing_env world2) \<noteq> 200"
  by (rule answerI, drule refused_user_gets_nothing [OF example_refusing, rotated 3]) auto

text \<open>
  C29: While the project service reports every project archived, no writing request succeeds
  and none changes a table.
\<close>

theorem archived_projects_reject_writes:
  assumes "archiving e" and "w_tx w = None"
    and "writes (rq_route rq) (rq_body rq)"
    and "serve secret rq e w = (Inr resp, w')"
  shows "w_db w' = w_db w \<and> \<not> (200 \<le> rs_status resp \<and> rs_status resp < 300)"
  using assms(4,1,2) by (rule failing_request) (rule archived_dispatch [OF assms(3)])

theorem archived_projects_reject_writes_witness:
  "snd (answer (example_request (Issues (AddComment (uuid_of_nat 1))) (Obj [(''body'', Str ''hi'')])) archived_env world2) = db2"
  by (rule answerI, drule archived_projects_reject_writes [OF example_archiving, rotated 2]) auto

text \<open>
  C31: An issue is created with an assignee, or assigned, only if the project service confirms
  that the assignee may see the project: while it refuses every question about a user, no
  request that names this user as assignee succeeds or changes a table.
\<close>

theorem assignee_needs_access:
  assumes "denying (about a) e" and "w_tx w = None"
    and "(\<exists>p. rq_route rq = Issues (CreateIssue p)) \<or> (\<exists>i. rq_route rq = Issues (AssignIssue i))"
    and "rq_body rq = Obj ps" and "uuid (js_get ps ''assigneeUserId'') ''assigneeUserId'' = Inr a"
    and "serve secret rq e w = (Inr resp, w')"
  shows "w_db w' = w_db w \<and> \<not> (200 \<le> rs_status resp \<and> rs_status resp < 300)"
proof -
  have "\<not> match_re UUID_RE []" using match_re_length [of UUID_RE "[]"] by (auto simp: UUID_RE_def)
  then have "optionalUuid (js_get ps ''assigneeUserId'') ''assigneeUserId'' = Inr (Some a)"
    using assms(5) by (auto simp: optionalUuid_def uuid_def)
  note stop = denied_assignee_create [OF this] denied_assignee_assign [OF this]
  have "fails (denying (about a)) (dispatch (rq_route rq) h q (rq_body rq))" for h q
    using assms(3,4) stop by (auto intro!: fails_any_context)
  with assms(6,1,2) show ?thesis by (rule failing_request)
qed

theorem assignee_needs_access_witness:
  "snd (answer (example_request (Issues (AssignIssue (uuid_of_nat 1)))
      (Obj [(''expectedVersion'', Num (Fin 1)), (''assigneeUserId'', Str example_user)])) refusing_env world2) = db2"
proof (rule answerI)
  fix resp w'
  let ?rq = "example_request (Issues (AssignIssue (uuid_of_nat 1)))
      (Obj [(''expectedVersion'', Num (Fin 1)), (''assigneeUserId'', Str example_user)])"
  assume run: "serve ''secret'' ?rq refusing_env world2 = (Inr resp, w')"
  have u: "uuid (js_get [(''expectedVersion'', Num (Fin 1)), (''assigneeUserId'', Str example_user)] ''assigneeUserId'')
      ''assigneeUserId'' = Inr example_user" by (simp, code_simp)
  show "snd (rs_status resp, w_db w') = db2"
    using assignee_needs_access [OF example_refusing _ _ _ u run] by simp
qed

text \<open>
  C30: An issue of a project that the project service answers 404 for looks like an issue that
  does not exist: reading it, its comments or its history, or commenting on it, gets the
  same 404 response in every world, whether or not the issue is in the table.
\<close>

theorem hidden_issue_looks_missing:
  assumes "\<And>n q. \<exists>c m. access_result (e_http e n q) = Inl (DomainError 404 c m [])"
    and "\<And>n. e_fault e n = NoFault" and "pg_uuid e" and "uuid (Str i) ''issueId'' = Inr iid"
    and "rq_route rq \<in> Issues ` {GetIssue i, ListComments i, ListHistory i, AddComment i}"
    and "secret_accepted secret (rq_headers rq)"
    and "header (rq_headers rq) ''x-authenticated-user-id'' = Some u" and "u \<noteq> []"
  shows "\<exists>resp w' c. serve secret rq e w = (Inr resp, w') \<and> rs_status resp = 404 \<and>
    rs_body resp = error_body ''ISSUE_NOT_FOUND'' ''Issue was not found'' [] c"
proof -
  obtain c v where hook: "correlation_hook (rq_headers rq) e w = (Inr c, v)" using correlation_hook_Inr by blast
  let ?h = "set_header ''x-correlation-id'' c (rq_headers rq)"
  obtain ctx v' where ctx: "requestContext ?h e v = (Inr ctx, v')"
    using assms(7,8) by (cases "c = []") (auto simp: requestContext_def header_set andThen_def)
  have look: "\<exists>w'. requireVisibleIssue i ctx wr e v' = (Inl notFound, w')" for wr
    by (rule hidden_visible [OF assms(1-4)])
  have "\<exists>w'. dispatch (rq_route rq) ?h (rq_query rq) (rq_body rq) e v = (Inl notFound, w')"
    using assms(5) look [of True] look [of False] ctx
    by (auto simp: with_context_def andThen_def service_getIssue_def service_listComments_def
        service_listHistory_def service_addComment_def)
  then obtain w' where "dispatch (rq_route rq) ?h (rq_query rq) (rq_body rq) e v = (Inl notFound, w')" by blast
  with hook assms(6) show ?thesis
    by (auto simp: serve_def andThen_def catching_def Let_def DomainExceptionFilter_def notFound_def header_set)
qed

theorem hidden_issue_looks_missing_witness:
  "fst (answer (example_request (Issues (GetIssue (uuid_of_nat 2))) Undefined) refusing_env world2) = 404 \<and>
   fst (answer (example_request (Issues (GetIssue (uuid_of_nat 2))) Undefined) refusing_env (world2\<lparr>w_db := empty_db\<rparr>)) = 404"
proof -
  have "\<exists>resp w' c. serve ''secret'' (example_request (Issues (GetIssue (uuid_of_nat 2))) Undefined) refusing_env w = (Inr resp, w') \<and>
      rs_status resp = 404 \<and> rs_body resp = error_body ''ISSUE_NOT_FOUND'' ''Issue was not found'' [] c" for w
  proof (rule hidden_issue_looks_missing [OF _ _ _ uuid_two])
    show "pg_uuid refusing_env"
      using example_issue_env by (simp add: issue_env_def pg_uuid_def refusing_env_def)
    show "secret_accepted ''secret'' (rq_headers (example_request (Issues (GetIssue (uuid_of_nat 2))) Undefined))"
      by (simp add: secret_accepted_def example_request_def header_def)
    show "header (rq_headers (example_request (Issues (GetIssue (uuid_of_nat 2))) Undefined)) ''x-authenticated-user-id'' = Some example_user"
      by simp
    show "example_user \<noteq> []" by (simp add: example_user_def)
  qed (simp_all add: refusing_env_def example_env_def access_result_def property_of_def Let_def)
  then have "rs_status (projr (fst (serve ''secret'' (example_request (Issues (GetIssue (uuid_of_nat 2))) Undefined) refusing_env w))) = 404" for w
    by (metis fst_conv sum.sel(2))
  then show ?thesis by (simp add: answer_def)
qed

section \<open>Concurrent changes\<close>

text \<open>
  C1: No lost update, however two requests overlap: of two requests that change an issue and
  name the same version of it, at most one succeeds. Nothing is assumed of their order: each
  is served by a process of its own, between whose statements the other sessions (the other
  request among them) commit what they like, and both may have read the issue before either
  wrote. What relates the two is that their commits are in one database, so that the tables
  each leaves lead to tables \<open>d\<close> they share, and that \<open>randomUUID\<close> gives them different UUIDs.
\<close>

theorem no_lost_update:
  assumes "drawing U e1" "w_tx w1 = None" "db_inv (w_db w1)"
    and "versioned (rq_route rq1) (rq_body rq1) i v"
    and "serve secret rq1 e1 w1 = (Inr resp1, w1')"
    and "drawing V e2" "w_tx w2 = None" "db_inv (w_db w2)"
    and "versioned (rq_route rq2) (rq_body rq2) i v"
    and "serve secret rq2 e2 w2 = (Inr resp2, w2')"
    and "db_steps (w_db w1') d" "db_steps (w_db w2') d" and "U \<inter> V = {}"
  shows "\<not> (rs_status resp1 \<in> {200, 201} \<and> rs_status resp2 \<in> {200, 201})"
proof
  assume ok: "rs_status resp1 \<in> {200, 201} \<and> rs_status resp2 \<in> {200, 201}"
  have inv: "db_inv (w_db w1')" "db_inv (w_db w2')"
    using runsD(3) [OF serve_runs drawing_env [OF assms(1)] assms(2,3,5)]
      runsD(3) [OF serve_runs drawing_env [OF assms(6)] assms(7,8,10)] by blast+
  have "announces_next U i v d" "announces_next V i v d"
    using served_announces [OF assms(1-5)] served_announces [OF assms(6-10)] ok
      announces_next_stays inv assms(11,12) by blast+
  then show False using one_announces db_steps_inv [OF assms(11) inv(1)] assms(13) by blast
qed

theorem no_lost_update_witness:
  "fst (answer start_work example_env world2) = 201 \<and> fst (answer start_work late_env world2) \<notin> {200, 201} \<and>
   snd (answer start_work late_env world2) = snd (answer start_work example_env world2)"
proof -
  obtain resp1 w1 where run1: "serve ''secret'' start_work example_env world2 = (Inr resp1, w1)" and ok: "rs_status resp1 = 201"
    using start_work_succeeds by blast
  obtain resp2 w2 where run2: "serve ''secret'' start_work late_env world2 = (Inr resp2, w2)" and db: "w_db w2 = moved_db"
    using late_served by blast
  have same: "w_db w1 = moved_db" using run1 by (simp add: moved_db_def)
  have "rs_status resp2 \<notin> {200, 201}"
    using no_lost_update [OF example_draws _ _ start_work_versioned run1 late_draws _ _ start_work_versioned run2 _ _ draws_apart,
        of moved_db] ok by (simp add: example_dbs db same)
  then show ?thesis using run1 run2 ok by (simp add: answer_def db same)
qed

section \<open>The data\<close>

text \<open>
  C10: However requests and publisher polls follow each other, whatever fails and whatever the
  other processes commit, in a database that began empty: the issues of a project are numbered
  from 1 to the last number drawn, without gap or repetition, in the order of their rows.
\<close>

theorem issue_numbers_have_no_gaps:
  assumes "issue_env e" "w_tx w = None" "db_steps empty_db (w_db w)" and "perform secret acts e w = (rs, w')"
  shows "map r_issue_number (project_issues p (w_db w')) = [1..last_number p (w_db w')]"
proof -
  have "db_inv (w_db w')" using perform_steps [OF assms(1,2) db_steps_inv [OF assms(3) db_inv_empty] assms(4)] by simp
  then show ?thesis by (simp add: db_inv_def numbering_ok_def)
qed

theorem issue_numbers_have_no_gaps_witness:
  "map r_issue_number (project_issues example_project (w_db (snd (perform ''secret'' [Serve start_work, Poll] example_env world2)))) =
   [1..last_number example_project (w_db (snd (perform ''secret'' [Serve start_work, Poll] example_env world2)))]"
  by (rule issue_numbers_have_no_gaps [OF example_issue_env _ _ surjective_pairing]) (simp_all add: db2_reached)

text \<open>
  C3: The audit trail and the event stream are complete: in every reachable state an issue of
  version n has exactly n history entries and one event of each version from 1 to n, in
  order, and replaying its history through the workflow from CREATED leads, by legal
  transitions only, to the status in its row.
\<close>

theorem audit_trail_is_complete:
  assumes "issue_env e" "w_tx w = None" "db_steps empty_db (w_db w)" and "perform secret acts e w = (rs, w')"
    and "r \<in> set (t_issues (w_db w'))"
  shows "int (length (issue_log (r_id r) (w_db w'))) = r_version r \<and>
    map o_aggregate_version (issue_events (r_id r) (w_db w')) = [1..r_version r] \<and>
    replay (issue_log (r_id r) (w_db w')) = Some (r_status r)"
proof -
  have "db_inv (w_db w')" using perform_steps [OF assms(1,2) db_steps_inv [OF assms(3) db_inv_empty] assms(4)] by simp
  then show ?thesis using assms(5) by (simp add: db_inv_def issue_ok_def)
qed

theorem audit_trail_is_complete_witness:
  "\<exists>r\<in>set (t_issues (w_db (snd (perform ''secret'' [Serve start_work] example_env world2)))).
     r_id r = uuid_of_nat 2 \<and> 1 < r_version r \<and>
     replay (issue_log (r_id r) (w_db (snd (perform ''secret'' [Serve start_work] example_env world2)))) = Some (r_status r)"
proof -
  have "w_db (snd (perform ''secret'' [Serve start_work] example_env world2)) = moved_db"
    by (simp add: moved_db_def split: prod.split)
  then obtain r where r: "r \<in> set (t_issues (w_db (snd (perform ''secret'' [Serve start_work] example_env world2))))"
      "r_id r = uuid_of_nat 2" "1 < r_version r"
    using moved_db_reached(3) by (auto simp: past_def run_simps)
  then show ?thesis
    using audit_trail_is_complete [OF example_issue_env _ _ surjective_pairing r(1)] by (auto simp: db2_reached)
qed

text \<open>
  C32: Nothing is lost or rewritten: across any requests and polls every issue stays, with its
  id, project, number, key, reporter and creation time; its version never falls, and while
  the version is the same the whole row is; history, comments and the topic are only
  appended to.
\<close>

theorem issues_only_move_forward:
  assumes "issue_env e" "w_tx w = None" "db_inv (w_db w)" and "perform secret acts e w = (rs, w')"
  shows "(\<forall>r\<in>set (t_issues (w_db w)). \<exists>r'\<in>set (t_issues (w_db w')). same_identity r r' \<and>
        r_version r \<le> r_version r' \<and> (r_version r' = r_version r \<longrightarrow> r' = r)) \<and>
    (\<exists>hs. t_history (w_db w') = t_history (w_db w) @ hs) \<and>
    (\<exists>cs. t_comments (w_db w') = t_comments (w_db w) @ cs) \<and>
    (\<exists>ms. t_topic (w_db w') = t_topic (w_db w) @ ms)"
proof -
  have "evolves (w_db w) (w_db w')"
    using perform_steps [OF assms(1-4)] assms(3) by (intro db_steps_evolves) simp_all
  then show ?thesis by (simp add: evolves_def row_grows_def)
qed

theorem issues_only_move_forward_witness:
  "\<exists>hs. t_history (w_db (snd (perform ''secret'' [Serve start_work, Poll] example_env world2))) = t_history db2 @ hs"
  using issues_only_move_forward [OF example_issue_env _ _ surjective_pairing, of world2 "''secret''" "[Serve start_work, Poll]"]
  by (simp add: example_dbs del: perform.simps)

end
