(* ===== verification/Gateway_Client.thy ===== *)
theory Gateway_Client
  imports Database Url
begin

text \<open>
  The API gateway (\<open>apps/api-gateway-nest/src\<close>), first part: its errors, the world it runs in,
  the client of the services behind it (\<open>infrastructure/http-clients\<close>) and the four
  adapters that say which path every operation goes to.
\<close>

section \<open>Errors and the world\<close>

text \<open>
  \<open>common/errors/app.exception.ts\<close>, the framework's \<open>HttpException\<close> (status, response,
  message), and every other error.
\<close>

datatype gateway_error =
    AppException (ae_statusCode: nat) (ae_code: string) (ae_message: string) (ae_details: js_object)
  | NestException nat jsval string
  | RuntimeError string

text \<open>
  The commands the rate limiter sends to Redis. The world keeps them with whether they were
  answered, and the server's answer is a function of that history: any behaviour of the server,
  its clock and its other clients is one such function.
\<close>

datatype redis_command = Connect | Incr string | Expire string int | Ttl string | Get string

type_synonym redis_log = "(redis_command \<times> bool) list"

text \<open>
  \<open>Inl\<close> is a failing command with its message. The keys are only written by \<open>INCR\<close>, so a
  value read by \<open>GET\<close> is the decimal text of an integer, which the model keeps as one.
\<close>

record redis_server =
  r_waiting :: "redis_log \<Rightarrow> bool"
  r_connect :: "redis_log \<Rightarrow> string + unit"
  r_incr :: "redis_log \<Rightarrow> string \<Rightarrow> string + int"
  r_expire :: "redis_log \<Rightarrow> string \<Rightarrow> int \<Rightarrow> string + unit"
  r_ttl :: "redis_log \<Rightarrow> string \<Rightarrow> string + int"
  r_get :: "redis_log \<Rightarrow> string \<Rightarrow> string + int option"

datatype http_method = GET | POST | PATCH | DELETE

text \<open>A request to a service: the body is the value that \<open>JSON.stringify\<close> renders.\<close>

record gateway_call =
  gc_method :: http_method
  gc_url :: string
  gc_headers :: "(string \<times> string) list"
  gc_body :: "jsval option"

text \<open>
  What \<open>fetch\<close> makes of it: a rejection (network failure, or the abort of the timeout) with the
  error's name and message, or a status with the parsed body, \<open>None\<close> when the text of the
  body is empty or not JSON.
\<close>

datatype fetch_reply = FetchFails string string | FetchAnswers nat "jsval option"

datatype token_check = TokenExpired | TokenInvalid | TokenPayload jsval

text \<open>
  \<open>ge_verify\<close> is \<open>jwt.verify\<close> on secret, issuer, audience and token at a tick; \<open>ge_vars\<close> the
  process environment; \<open>ge_json_error\<close> the message of the exception when a body cannot be read as an
  object.
\<close>

record gateway_env =
  ge_uuid :: "nat \<Rightarrow> string"
  ge_now :: "nat \<Rightarrow> int"
  ge_redis :: redis_server
  ge_fetch :: "nat \<Rightarrow> gateway_call \<Rightarrow> fetch_reply"
  ge_verify :: "nat \<Rightarrow> string \<Rightarrow> string \<Rightarrow> string \<Rightarrow> string \<Rightarrow> token_check"
  ge_vars :: "string \<Rightarrow> string option"
  ge_json_error :: string

text \<open>\<open>gw_set_cookie\<close> holds the \<open>set-cookie\<close> headers of the reply being made.\<close>

record gateway_world =
  gw_tick :: nat
  gw_redis :: redis_log
  gw_calls :: "gateway_call list"
  gw_set_cookie :: "string list"

type_synonym 'a gateway = "(gateway_env, gateway_world, gateway_error, 'a) program"

definition variable_or :: "string \<Rightarrow> string \<Rightarrow> gateway_env \<Rightarrow> string" where
  "variable_or name otherwise e = (case ge_vars e name of None \<Rightarrow> otherwise | Some v \<Rightarrow> v)"

text \<open>\<open>fetch\<close>: the call is logged and takes a tick.\<close>

definition fetch :: "gateway_call \<Rightarrow> fetch_reply gateway" where
  "fetch c e w =
     (Inr (ge_fetch e (gw_tick w) c), w\<lparr>gw_tick := gw_tick w + 1, gw_calls := gw_calls w @ [c]\<rparr>)"

definition date_now :: "int gateway" where
  "date_now e w = (Inr (ge_now e (gw_tick w)), w\<lparr>gw_tick := gw_tick w + 1\<rparr>)"

definition gateway_uuid :: "string gateway" where
  "gateway_uuid e w = (Inr (ge_uuid e (gw_tick w)), w\<lparr>gw_tick := gw_tick w + 1\<rparr>)"

section \<open>The client of the services\<close>

record client_options =
  co_base_variable :: string
  co_base_default :: string
  co_requestErrorCode :: string
  co_requestErrorMessage :: string
  co_unavailableCode :: string
  co_unavailableMessage :: string
  co_objectResponseOnly :: bool
  co_sendJsonBody :: bool

text \<open>\<open>userId?\<close> and \<open>correlationId\<close> of a call.\<close>

record call_context =
  cc_userId :: "string option"
  cc_correlationId :: string

definition without_trailing_slashes :: "string \<Rightarrow> string" where
  "without_trailing_slashes s = rev (dropWhile (\<lambda>c. c = CHR ''/'') (rev s))"

definition client_base :: "client_options \<Rightarrow> gateway_env \<Rightarrow> string" where
  "client_base options e =
     without_trailing_slashes (variable_or (co_base_variable options) (co_base_default options) e)"

definition errorString :: "jsval \<Rightarrow> string \<Rightarrow> string" where
  "errorString v fallback = (case v of Str s \<Rightarrow> if s \<noteq> [] then s else fallback | _ \<Rightarrow> fallback)"

definition object_or_empty :: "jsval \<Rightarrow> js_object" where
  "object_or_empty v = (case v of Obj ps \<Rightarrow> ps | _ \<Rightarrow> [])"

text \<open>\<open>body ?? {}\<close>.\<close>

definition body_or_empty :: "jsval \<Rightarrow> jsval" where
  "body_or_empty b = (case b of Undefined \<Rightarrow> Obj [] | Null \<Rightarrow> Obj [] | _ \<Rightarrow> b)"

definition client_headers :: "bool \<Rightarrow> call_context \<Rightarrow> gateway_env \<Rightarrow> (string \<times> string) list" where
  "client_headers hasBody context e =
     [(''accept'', ''application/json'')]
     @ (if hasBody then [(''content-type'', ''application/json'')] else [])
     @ (case cc_userId context of
          Some u \<Rightarrow> if u \<noteq> [] then [(''x-authenticated-user-id'', u)] else []
        | None \<Rightarrow> [])
     @ [(''x-correlation-id'', cc_correlationId context),
        (''x-internal-service-secret'', variable_or ''INTERNAL_SERVICE_SECRET'' [] e)]"

definition client_call ::
    "client_options \<Rightarrow> http_method \<Rightarrow> string \<Rightarrow> jsval \<Rightarrow> call_context \<Rightarrow> gateway_env \<Rightarrow> gateway_call" where
  "client_call options method path body context e =
     (let hasBody = co_sendJsonBody options \<and> (method = POST \<or> method = PATCH) in
      \<lparr>gc_method = method, gc_url = client_base options e @ path,
       gc_headers = client_headers hasBody context e,
       gc_body = (if hasBody then Some (body_or_empty body) else None)\<rparr>)"

definition client_result :: "client_options \<Rightarrow> fetch_reply \<Rightarrow> gateway_error + jsval" where
  "client_result options reply =
     (case reply of
        FetchFails _ _ \<Rightarrow> Inl (AppException 503 (co_unavailableCode options) (co_unavailableMessage options) [])
      | FetchAnswers status json \<Rightarrow>
          let parsed = (case json of None \<Rightarrow> Obj [] | Some v \<Rightarrow> v);
              parsed = (if co_objectResponseOnly options then Obj (object_or_empty parsed) else parsed)
          in if \<not> (200 \<le> status \<and> status < 300) then
               (let err = object_or_empty parsed in
                Inl (AppException status
                  (errorString (js_get err ''code'') (co_requestErrorCode options))
                  (errorString (js_get err ''message'') (co_requestErrorMessage options))
                  (object_or_empty (js_get err ''details''))))
             else Inr parsed)"

definition forward ::
    "client_options \<Rightarrow> http_method \<Rightarrow> string \<Rightarrow> jsval \<Rightarrow> call_context \<Rightarrow> jsval gateway" where
  "forward options method path body context =
     andThen (ask (client_call options method path body context)) (\<lambda>c.
     andThen (fetch c) (\<lambda>reply. checked (client_result options reply)))"

section \<open>The adapters\<close>

definition issue_client :: client_options where
  "issue_client =
     \<lparr>co_base_variable = ''ISSUE_SERVICE_URL'', co_base_default = ''http://localhost:8083'',
      co_requestErrorCode = ''ISSUE_REQUEST_FAILED'', co_requestErrorMessage = ''Issue service request failed'',
      co_unavailableCode = ''ISSUE_SERVICE_UNAVAILABLE'', co_unavailableMessage = ''Issue service is unavailable'',
      co_objectResponseOnly = False, co_sendJsonBody = True\<rparr>"

definition project_client :: client_options where
  "project_client =
     \<lparr>co_base_variable = ''PROJECT_SERVICE_URL'', co_base_default = ''http://localhost:8082'',
      co_requestErrorCode = ''INTERNAL_ERROR'', co_requestErrorMessage = ''Project service request failed'',
      co_unavailableCode = ''PROJECT_SERVICE_UNAVAILABLE'',
      co_unavailableMessage = ''Project service is unavailable'',
      co_objectResponseOnly = True, co_sendJsonBody = True\<rparr>"

definition iam_client :: client_options where
  "iam_client =
     \<lparr>co_base_variable = ''IAM_SERVICE_URL'', co_base_default = ''http://localhost:8081'',
      co_requestErrorCode = ''IAM_AUTH_ERROR'', co_requestErrorMessage = ''IAM auth request failed'',
      co_unavailableCode = ''IAM_SERVICE_UNAVAILABLE'', co_unavailableMessage = ''IAM service is unavailable'',
      co_objectResponseOnly = True, co_sendJsonBody = True\<rparr>"

definition notification_client :: client_options where
  "notification_client =
     \<lparr>co_base_variable = ''NOTIFICATION_SERVICE_URL'', co_base_default = ''http://localhost:8084'',
      co_requestErrorCode = ''NOTIFICATION_REQUEST_FAILED'',
      co_requestErrorMessage = ''Notification service request failed'',
      co_unavailableCode = ''NOTIFICATION_SERVICE_UNAVAILABLE'',
      co_unavailableMessage = ''Notification service is unavailable'',
      co_objectResponseOnly = False, co_sendJsonBody = False\<rparr>"

end
