(* ===== verification/Gateway_Adapters.thy ===== *)
theory Gateway_Adapters
  imports Gateway_Client Issue_Server
begin

text \<open>
  The gateway's adapters, one clause per method: the path each operation is forwarded to. The
  operations of the issue service are named by the constructors of its own routes. The second
  part is the routing the decorators of the issue service declare, to relate the two ends.
\<close>

section \<open>issue-service.adapter.ts\<close>

abbreviation encoded :: "string \<Rightarrow> string" where
  "encoded \<equiv> encodeURIComponent"

fun issue_adapter :: "issue_route \<Rightarrow> jsval \<Rightarrow> string \<Rightarrow> call_context \<Rightarrow> jsval gateway" where
  "issue_adapter (CreateIssue p) body qs context =
     forward issue_client POST (''/internal/projects/'' @ encoded p @ ''/issues'') body context"
| "issue_adapter (ListIssues p) body qs context =
     (let search = (if qs \<noteq> [] then ''?'' @ qs else []) in
      forward issue_client GET (''/internal/projects/'' @ encoded p @ ''/issues'' @ search) Undefined context)"
| "issue_adapter (GetIssue i) body qs context =
     forward issue_client GET (''/internal/issues/'' @ encoded i) Undefined context"
| "issue_adapter (UpdateIssue i) body qs context =
     forward issue_client PATCH (''/internal/issues/'' @ encoded i) body context"
| "issue_adapter (AssignIssue i) body qs context =
     forward issue_client PATCH (''/internal/issues/'' @ encoded i @ ''/assignee'') body context"
| "issue_adapter (TransitionIssue i) body qs context =
     forward issue_client POST (''/internal/issues/'' @ encoded i @ ''/transitions'') body context"
| "issue_adapter (AddComment i) body qs context =
     forward issue_client POST (''/internal/issues/'' @ encoded i @ ''/comments'') body context"
| "issue_adapter (ListComments i) body qs context =
     forward issue_client GET (''/internal/issues/'' @ encoded i @ ''/comments'') Undefined context"
| "issue_adapter (ListHistory i) body qs context =
     forward issue_client GET (''/internal/issues/'' @ encoded i @ ''/history'') Undefined context"

fun planning_adapter :: "planning_route \<Rightarrow> jsval \<Rightarrow> call_context \<Rightarrow> jsval gateway" where
  "planning_adapter (ListEpics p) body context =
     forward issue_client GET (''/internal/projects/'' @ encoded p @ ''/epics'') Undefined context"
| "planning_adapter (CreateEpic p) body context =
     forward issue_client POST (''/internal/projects/'' @ encoded p @ ''/epics'') body context"
| "planning_adapter (UpdateEpic i) body context =
     forward issue_client PATCH (''/internal/epics/'' @ encoded i) body context"
| "planning_adapter (ListSprints p) body context =
     forward issue_client GET (''/internal/projects/'' @ encoded p @ ''/sprints'') Undefined context"
| "planning_adapter (CreateSprint p) body context =
     forward issue_client POST (''/internal/projects/'' @ encoded p @ ''/sprints'') body context"
| "planning_adapter (CompleteSprint i) body context =
     forward issue_client POST (''/internal/sprints/'' @ encoded i @ ''/complete'') Undefined context"

section \<open>project-service.adapter.ts\<close>

datatype project_operation =
    CreateWorkspace | ListWorkspaces | CreateProject string | ListWorkspaceMembers string
  | AddWorkspaceMember string | ChangeWorkspaceMemberRole string string
  | RemoveWorkspaceMember string string | ListProjects string | GetProject string
  | UpdateProject string | ArchiveProject string

definition discarding :: "jsval gateway \<Rightarrow> jsval gateway" where
  "discarding p = andThen p (\<lambda>_. returning Undefined)"

fun project_adapter :: "project_operation \<Rightarrow> jsval \<Rightarrow> call_context \<Rightarrow> jsval gateway" where
  "project_adapter CreateWorkspace body context =
     forward project_client POST ''/internal/workspaces'' body context"
| "project_adapter ListWorkspaces body context =
     forward project_client GET ''/internal/workspaces'' Undefined context"
| "project_adapter (CreateProject ws) body context =
     forward project_client POST (''/internal/workspaces/'' @ encoded ws @ ''/projects'') body context"
| "project_adapter (ListWorkspaceMembers ws) body context =
     forward project_client GET (''/internal/workspaces/'' @ encoded ws @ ''/members'') Undefined context"
| "project_adapter (AddWorkspaceMember ws) body context =
     forward project_client POST (''/internal/workspaces/'' @ encoded ws @ ''/members'') body context"
| "project_adapter (ChangeWorkspaceMemberRole ws u) body context =
     forward project_client PATCH
       (''/internal/workspaces/'' @ encoded ws @ ''/members/'' @ encoded u) body context"
| "project_adapter (RemoveWorkspaceMember ws u) body context =
     discarding (forward project_client DELETE
       (''/internal/workspaces/'' @ encoded ws @ ''/members/'' @ encoded u) Undefined context)"
| "project_adapter (ListProjects ws) body context =
     forward project_client GET (''/internal/workspaces/'' @ encoded ws @ ''/projects'') Undefined context"
| "project_adapter (GetProject p) body context =
     forward project_client GET (''/internal/projects/'' @ encoded p) Undefined context"
| "project_adapter (UpdateProject p) body context =
     forward project_client PATCH (''/internal/projects/'' @ encoded p) body context"
| "project_adapter (ArchiveProject p) body context =
     discarding (forward project_client DELETE (''/internal/projects/'' @ encoded p) Undefined context)"

section \<open>iam-service.adapter.ts and notification-service.adapter.ts\<close>

definition forwardToIam :: "string \<Rightarrow> jsval \<Rightarrow> string \<Rightarrow> jsval gateway" where
  "forwardToIam path body correlationId =
     forward iam_client POST (''/auth/'' @ path) body \<lparr>cc_userId = None, cc_correlationId = correlationId\<rparr>"

definition iam_register :: "jsval \<Rightarrow> string \<Rightarrow> jsval gateway" where
  "iam_register = forwardToIam ''register''"

definition iam_login :: "jsval \<Rightarrow> string \<Rightarrow> jsval gateway" where
  "iam_login = forwardToIam ''login''"

definition iam_refresh :: "jsval \<Rightarrow> string \<Rightarrow> jsval gateway" where
  "iam_refresh = forwardToIam ''refresh''"

definition iam_logout :: "jsval \<Rightarrow> string \<Rightarrow> jsval gateway" where
  "iam_logout = forwardToIam ''logout''"

datatype notification_operation = ListNotifications | MarkRead string | MarkAllRead

fun notification_adapter :: "notification_operation \<Rightarrow> call_context \<Rightarrow> jsval gateway" where
  "notification_adapter ListNotifications context =
     forward notification_client GET ''/internal/notifications'' Undefined context"
| "notification_adapter (MarkRead i) context =
     discarding (forward notification_client PATCH
       (''/internal/notifications/'' @ encoded i @ ''/read'') Undefined context)"
| "notification_adapter MarkAllRead context =
     discarding (forward notification_client POST ''/internal/notifications/read-all'' Undefined context)"

section \<open>Routing\<close>

text \<open>
  The framework's router: a table of methods, paths and handlers; a segment \<open>:name\<close> of a path
  matches any segment of 1 to 100 characters, which is decoded. The first match wins (no two
  paths of the tables match the same request). A URL is split at the first question mark. The
  fixed segments are compared as they are written. A segment that does not decode matches
  nothing here; the framework rejects such a URL before it looks for a route
  (\<open>gateway_serve\<close> of \<open>Gateway_Server\<close>), and the gateway sends the issue service none.
\<close>

datatype pattern = Lit string | Param

fun match_pattern :: "pattern list \<Rightarrow> string list \<Rightarrow> string list option" where
  "match_pattern [] [] = Some []"
| "match_pattern (Lit l # ps) (s # ss) = (if s = l then match_pattern ps ss else None)"
| "match_pattern (Param # ps) (s # ss) =
     (if s \<noteq> [] \<and> length s \<le> 100 then
        (case decodeURIComponent s of
           None \<Rightarrow> None
         | Some v \<Rightarrow> map_option ((#) v) (match_pattern ps ss))
      else None)"
| "match_pattern _ _ = None"

type_synonym 'r route_table = "(http_method \<times> pattern list \<times> (string list \<Rightarrow> 'r)) list"

fun find_route :: "'r route_table \<Rightarrow> http_method \<Rightarrow> string list \<Rightarrow> 'r option" where
  "find_route [] m ss = None"
| "find_route ((m', ps, r) # rest) m ss =
     (case (if m = m' then match_pattern ps ss else None) of
        Some vs \<Rightarrow> Some (r vs)
      | None \<Rightarrow> find_route rest m ss)"

definition path_of_url :: "string \<Rightarrow> string" where
  "path_of_url u = takeWhile (\<lambda>c. c \<noteq> CHR ''?'') u"

definition query_of_url :: "string \<Rightarrow> string" where
  "query_of_url u = drop 1 (dropWhile (\<lambda>c. c \<noteq> CHR ''?'') u)"

definition segments_of_url :: "string \<Rightarrow> string list" where
  "segments_of_url u = drop 1 (split_on (CHR ''/'') (path_of_url u))"

text \<open>A \<open>fetch\<close> resolves the segments \<open>.\<close> and \<open>..\<close> of a path before it sends it.\<close>

fun without_dots :: "string list \<Rightarrow> string list \<Rightarrow> string list" where
  "without_dots acc [] = rev acc"
| "without_dots acc [s] =
     (if s = ''.'' then rev ([] # acc) else if s = ''..'' then rev ([] # drop 1 acc) else rev (s # acc))"
| "without_dots acc (s # t # ss) =
     (if s = ''.'' then without_dots acc (t # ss)
      else if s = ''..'' then without_dots (drop 1 acc) (t # ss)
      else without_dots (s # acc) (t # ss))"

text \<open>The decorators of the issue service's controllers.\<close>

definition issues_controller_routes :: "route route_table" where
  "issues_controller_routes =
     [(POST, [Lit ''internal'', Lit ''projects'', Param, Lit ''issues''], \<lambda>v. Issues (CreateIssue (hd v))),
      (GET, [Lit ''internal'', Lit ''projects'', Param, Lit ''issues''], \<lambda>v. Issues (ListIssues (hd v))),
      (GET, [Lit ''internal'', Lit ''issues'', Param], \<lambda>v. Issues (GetIssue (hd v))),
      (PATCH, [Lit ''internal'', Lit ''issues'', Param], \<lambda>v. Issues (UpdateIssue (hd v))),
      (PATCH, [Lit ''internal'', Lit ''issues'', Param, Lit ''assignee''], \<lambda>v. Issues (AssignIssue (hd v))),
      (POST, [Lit ''internal'', Lit ''issues'', Param, Lit ''transitions''], \<lambda>v. Issues (TransitionIssue (hd v))),
      (POST, [Lit ''internal'', Lit ''issues'', Param, Lit ''comments''], \<lambda>v. Issues (AddComment (hd v))),
      (GET, [Lit ''internal'', Lit ''issues'', Param, Lit ''comments''], \<lambda>v. Issues (ListComments (hd v))),
      (GET, [Lit ''internal'', Lit ''issues'', Param, Lit ''history''], \<lambda>v. Issues (ListHistory (hd v)))]"

definition planning_controller_routes :: "route route_table" where
  "planning_controller_routes =
     [(GET, [Lit ''internal'', Lit ''projects'', Param, Lit ''epics''], \<lambda>v. Planning (ListEpics (hd v))),
      (POST, [Lit ''internal'', Lit ''projects'', Param, Lit ''epics''], \<lambda>v. Planning (CreateEpic (hd v))),
      (PATCH, [Lit ''internal'', Lit ''epics'', Param], \<lambda>v. Planning (UpdateEpic (hd v))),
      (GET, [Lit ''internal'', Lit ''projects'', Param, Lit ''sprints''], \<lambda>v. Planning (ListSprints (hd v))),
      (POST, [Lit ''internal'', Lit ''projects'', Param, Lit ''sprints''], \<lambda>v. Planning (CreateSprint (hd v))),
      (POST, [Lit ''internal'', Lit ''sprints'', Param, Lit ''complete''], \<lambda>v. Planning (CompleteSprint (hd v)))]"

definition issue_service_routes :: "route route_table" where
  "issue_service_routes =
     issues_controller_routes @ planning_controller_routes @ [(GET, [Lit ''health''], \<lambda>_. Health)]"

text \<open>The route a call of the gateway is handled by, the base address stripped.\<close>

definition issue_service_route :: "http_method \<Rightarrow> string \<Rightarrow> route" where
  "issue_service_route m path =
     (case find_route issue_service_routes m (without_dots [] (segments_of_url path)) of
        None \<Rightarrow> NoRoute path
      | Some r \<Rightarrow> r)"

end
