(* ===== verification/Gateway_Services.thy ===== *)
theory Gateway_Services
  imports Gateway_Adapters
begin

text \<open>
  The gateway, second part: the Redis rate limiter, \<open>auth.service.ts\<close> and
  \<open>projects.service.ts\<close>, which limit before they forward.
\<close>

section \<open>redis-rate-limit.adapter.ts\<close>

text \<open>A command: its answer is the server's, and the log keeps whether there was one.\<close>

definition redis_do ::
    "redis_command \<Rightarrow> (redis_server \<Rightarrow> redis_log \<Rightarrow> string + 'a) \<Rightarrow> 'a gateway" where
  "redis_do c answer e w =
     (case answer (ge_redis e) (gw_redis w) of
        Inl m \<Rightarrow> (Inl (RuntimeError m), w\<lparr>gw_redis := gw_redis w @ [(c, False)]\<rparr>)
      | Inr a \<Rightarrow> (Inr a, w\<lparr>gw_redis := gw_redis w @ [(c, True)]\<rparr>))"

definition redis_waiting :: "bool gateway" where
  "redis_waiting e w = (Inr (r_waiting (ge_redis e) (gw_redis w)), w)"

definition ensureConnected :: "unit gateway" where
  "ensureConnected =
     andThen redis_waiting (\<lambda>waiting.
       if waiting then redis_do Connect r_connect else returning ())"

definition redis_incr :: "string \<Rightarrow> int gateway" where
  "redis_incr key = redis_do (Incr key) (\<lambda>r h. r_incr r h key)"

definition redis_expire :: "string \<Rightarrow> int \<Rightarrow> unit gateway" where
  "redis_expire key ttl = redis_do (Expire key ttl) (\<lambda>r h. r_expire r h key ttl)"

definition redis_ttl :: "string \<Rightarrow> int gateway" where
  "redis_ttl key = redis_do (Ttl key) (\<lambda>r h. r_ttl r h key)"

definition redis_get :: "string \<Rightarrow> int option gateway" where
  "redis_get key = redis_do (Get key) (\<lambda>r h. r_get r h key)"

record rate_limit_result =
  rl_limited :: bool
  rl_count :: int
  rl_limit :: int
  rl_ttlSeconds :: int
  rl_failOpen :: bool

definition hit_try :: "string \<Rightarrow> int \<Rightarrow> int \<Rightarrow> rate_limit_result gateway" where
  "hit_try key limit windowSeconds =
     andThen ensureConnected (\<lambda>_.
     andThen (redis_incr key) (\<lambda>count.
     andThen (if count = 1 then redis_expire key windowSeconds else returning ()) (\<lambda>_.
     andThen (redis_ttl key) (\<lambda>ttlSeconds.
     andThen
       (if ttlSeconds < 0
        then andThen (redis_expire key windowSeconds) (\<lambda>_. returning windowSeconds)
        else returning ttlSeconds) (\<lambda>ttlSeconds.
     returning \<lparr>rl_limited = count > limit, rl_count = count, rl_limit = limit,
                rl_ttlSeconds = ttlSeconds, rl_failOpen = False\<rparr>)))))"

definition hit :: "string \<Rightarrow> int \<Rightarrow> int \<Rightarrow> rate_limit_result gateway" where
  "hit key limit windowSeconds =
     catching (hit_try key limit windowSeconds)
       (\<lambda>_. returning \<lparr>rl_limited = False, rl_count = 0, rl_limit = limit,
                       rl_ttlSeconds = 0, rl_failOpen = True\<rparr>)"

definition isAtLimit :: "string \<Rightarrow> int \<Rightarrow> bool gateway" where
  "isAtLimit key limit =
     catching
       (andThen ensureConnected (\<lambda>_.
        andThen (redis_get key) (\<lambda>rawCount.
        returning ((case rawCount of None \<Rightarrow> 0 | Some n \<Rightarrow> n) \<ge> limit))))
       (\<lambda>_. returning False)"

section \<open>auth.service.ts\<close>

definition rateLimited :: "string \<Rightarrow> int \<Rightarrow> int \<Rightarrow> int \<Rightarrow> gateway_error" where
  "rateLimited rule limit count ttlSeconds =
     AppException 429 ''RATE_LIMITED'' ''Too many requests''
       [(''rule'', Str rule), (''limit'', int_json limit), (''count'', int_json count),
        (''retryAfterSeconds'', int_json (max ttlSeconds 0))]"

definition refuse_limited :: "string \<Rightarrow> rate_limit_result \<Rightarrow> unit gateway" where
  "refuse_limited rule result =
     (if rl_limited result
      then throwing (rateLimited rule (rl_limit result) (rl_count result) (rl_ttlSeconds result))
      else returning ())"

definition emailFromBody :: "jsval \<Rightarrow> string option" where
  "emailFromBody body =
     (case body of
        Obj ps \<Rightarrow>
          (case js_get ps ''email'' of
             Str email \<Rightarrow> if trim email \<noteq> [] then Some (toLowerCase (trim email)) else None
           | _ \<Rightarrow> None)
      | _ \<Rightarrow> None)"

definition auth_register :: "jsval \<Rightarrow> string \<Rightarrow> string \<Rightarrow> jsval gateway" where
  "auth_register body clientIp correlationId =
     andThen (hit (''rate:auth:register:ip:'' @ clientIp) 5 600) (\<lambda>result.
     andThen (refuse_limited ''register_ip'' result) (\<lambda>_.
     iam_register body correlationId))"

definition invalid_credentials :: "gateway_error \<Rightarrow> bool" where
  "invalid_credentials error =
     (case error of AppException st c m d \<Rightarrow> c = ''INVALID_CREDENTIALS'' | _ \<Rightarrow> False)"

definition auth_login :: "jsval \<Rightarrow> string \<Rightarrow> string \<Rightarrow> jsval gateway" where
  "auth_login body clientIp correlationId =
     andThen (hit (''rate:auth:login:ip:'' @ clientIp) 10 60) (\<lambda>ipLimit.
     andThen (refuse_limited ''login_ip'' ipLimit) (\<lambda>_.
     let emailKey = map_option (\<lambda>email. ''rate:auth:login:email:'' @ email) (emailFromBody body) in
     andThen (case emailKey of None \<Rightarrow> returning False | Some key \<Rightarrow> isAtLimit key 5) (\<lambda>atLimit.
     if atLimit then throwing (rateLimited ''login_email'' 5 5 300)
     else
       catching (iam_login body correlationId) (\<lambda>error.
         andThen
           (case emailKey of
              None \<Rightarrow> returning ()
            | Some key \<Rightarrow>
                if invalid_credentials error then andThen (hit key 5 300) (\<lambda>_. returning ()) else returning ())
           (\<lambda>_. throwing error)))))"

definition auth_refresh :: "jsval \<Rightarrow> string \<Rightarrow> string \<Rightarrow> jsval gateway" where
  "auth_refresh body correlationId clientIp =
     andThen (hit (''rate:auth:refresh:ip:'' @ clientIp) 10 60) (\<lambda>limit.
     andThen (refuse_limited ''refresh_ip'' limit) (\<lambda>_.
     iam_refresh body correlationId))"

definition auth_logout :: "jsval \<Rightarrow> string \<Rightarrow> jsval gateway" where
  "auth_logout = iam_logout"

section \<open>projects.service.ts\<close>

definition MEMBER_ADD_LIMIT :: int where "MEMBER_ADD_LIMIT = 20"

definition MEMBER_ADD_WINDOW_SECONDS :: int where "MEMBER_ADD_WINDOW_SECONDS = 600"

definition projects_context :: "string option \<Rightarrow> string \<Rightarrow> gateway_error + call_context" where
  "projects_context userId correlationId =
     (case userId of
        Some u \<Rightarrow>
          if u \<noteq> [] then Inr \<lparr>cc_userId = Some u, cc_correlationId = correlationId\<rparr>
          else Inl (AppException 401 ''UNAUTHORIZED'' ''Authentication token is required'' [])
      | None \<Rightarrow> Inl (AppException 401 ''UNAUTHORIZED'' ''Authentication token is required'' []))"

definition addWorkspaceMember_limited :: "string \<Rightarrow> jsval \<Rightarrow> call_context \<Rightarrow> jsval gateway" where
  "addWorkspaceMember_limited workspaceId body context =
     andThen (hit (''rate:workspace-member-add:user:'' @ (case cc_userId context of None \<Rightarrow> [] | Some u \<Rightarrow> u))
                MEMBER_ADD_LIMIT MEMBER_ADD_WINDOW_SECONDS) (\<lambda>limit.
     andThen (refuse_limited ''workspace_member_add_user'' limit) (\<lambda>_.
     project_adapter (AddWorkspaceMember workspaceId) body context))"

fun projects_service :: "project_operation \<Rightarrow> jsval \<Rightarrow> string option \<Rightarrow> string \<Rightarrow> jsval gateway" where
  "projects_service (AddWorkspaceMember ws) body userId correlationId =
     andThen (checked (projects_context userId correlationId)) (addWorkspaceMember_limited ws body)"
| "projects_service operation body userId correlationId =
     andThen (checked (projects_context userId correlationId)) (project_adapter operation body)"

section \<open>What a hit of the limiter does\<close>

text \<open>
  Neither function fails: an error of Redis lets the request pass, and the world then has a
  command without an answer.
\<close>

definition failures :: "redis_log \<Rightarrow> nat" where
  "failures h = length (filter (\<lambda>(c, ok). \<not> ok) h)"

definition counted :: "string \<Rightarrow> redis_log \<Rightarrow> nat" where
  "counted key h = length (filter (\<lambda>x. x = (Incr key, True)) h)"

lemma failures_simps [simp]:
  "failures [] = 0" "failures (h @ h') = failures h + failures h'"
  "failures ((c, ok) # h) = (if ok then failures h else Suc (failures h))"
  by (simp_all add: failures_def)

lemma counted_simps [simp]:
  "counted key [] = 0" "counted key (h @ h') = counted key h + counted key h'"
  "counted key (x # h) = (if x = (Incr key, True) then Suc (counted key h) else counted key h)"
  by (simp_all add: counted_def)

text \<open>\<open>logs p M\<close>: the program only appends to the log of Redis, entries with \<open>M\<close>.\<close>

definition only_redis :: "gateway_world \<Rightarrow> gateway_world \<Rightarrow> redis_log \<Rightarrow> bool" where
  "only_redis w w' new \<longleftrightarrow> w' = w\<lparr>gw_redis := gw_redis w @ new\<rparr>"

lemma only_redis_refl: "only_redis w w []"
  by (simp add: only_redis_def)

lemma only_redis_trans: "\<lbrakk>only_redis w v a; only_redis v u b\<rbrakk> \<Longrightarrow> only_redis w u (a @ b)"
  by (simp add: only_redis_def)

text \<open>
  \<open>commands key n p\<close>: the program stops at its first unanswered command, and otherwise counts
  \<open>n\<close> increments of the key.
\<close>

definition commands :: "string \<Rightarrow> nat \<Rightarrow> 'a gateway \<Rightarrow> bool" where
  "commands key n p \<longleftrightarrow>
     (\<forall>e w r w'. p e w = (r, w') \<longrightarrow>
        (\<exists>new. only_redis w w' new \<and>
           (if isl r then failures new = 1 \<and> counted key new \<le> n
            else failures new = 0 \<and> counted key new = n)))"

lemma commandsE:
  assumes "commands key n p" "p e w = (r, w')"
  obtains new where "only_redis w w' new"
    "isl r \<Longrightarrow> failures new = 1 \<and> counted key new \<le> n"
    "\<not> isl r \<Longrightarrow> failures new = 0 \<and> counted key new = n"
  using assms unfolding commands_def by (metis (full_types))

lemma commands_do: "commands key (if c = Incr key then 1 else 0) (redis_do c f)"
  unfolding commands_def redis_do_def only_redis_def by (auto split: sum.splits)

lemma commands_returning: "commands key 0 (returning a)"
  unfolding commands_def by (auto intro: only_redis_refl)

lemma commands_waiting: "commands key 0 redis_waiting"
  unfolding commands_def redis_waiting_def by (auto intro: only_redis_refl)

lemma commands_andThen:
  assumes p: "commands key m p" and f: "\<And>a. commands key n (f a)"
  shows "commands key (m + n) (andThen p f)"
  unfolding commands_def
proof (intro allI impI)
  fix e w r w' assume run: "andThen p f e w = (r, w')"
  obtain s v where s: "p e w = (s, v)" by (cases "p e w") auto
  obtain a where a: "only_redis w v a" "isl s \<Longrightarrow> failures a = 1 \<and> counted key a \<le> m"
    "\<not> isl s \<Longrightarrow> failures a = 0 \<and> counted key a = m"
    using commandsE [OF p s] by metis
  show "\<exists>new. only_redis w w' new \<and>
      (if isl r then failures new = 1 \<and> counted key new \<le> m + n
       else failures new = 0 \<and> counted key new = m + n)"
  proof (cases s)
    case (Inl x)
    then show ?thesis using run s a by (intro exI [of _ a]) (auto simp: andThen_def)
  next
    case (Inr b)
    then have "f b e v = (r, w')" using run s by (simp add: andThen_def)
    then obtain c where "only_redis v w' c" "isl r \<Longrightarrow> failures c = 1 \<and> counted key c \<le> n"
      "\<not> isl r \<Longrightarrow> failures c = 0 \<and> counted key c = n"
      using commandsE [OF f] by metis
    then show ?thesis using a Inr only_redis_trans by (intro exI [of _ "a @ c"]) auto
  qed
qed

lemma commands_connect: "commands key 0 ensureConnected"
proof -
  have "commands key 0 (redis_do Connect r_connect)" using commands_do [of key Connect r_connect] by simp
  then have "commands key (0 + 0) ensureConnected"
    unfolding ensureConnected_def by (intro commands_andThen) (simp_all add: commands_waiting commands_returning)
  then show ?thesis by simp
qed

lemma commands_redis:
  "commands key (if k = key then 1 else 0) (redis_incr k)"
  "commands key 0 (redis_expire k n)" "commands key 0 (redis_ttl k)" "commands key 0 (redis_get k)"
  using commands_do [of key "Incr k" "\<lambda>r h. r_incr r h k"] commands_do [of key "Expire k n" "\<lambda>r h. r_expire r h k n"]
    commands_do [of key "Ttl k" "\<lambda>r h. r_ttl r h k"] commands_do [of key "Get k" "\<lambda>r h. r_get r h k"]
  by (simp_all add: redis_incr_def redis_expire_def redis_ttl_def redis_get_def)

lemma commands_expire_later:
  "commands k 0 (if b then andThen (redis_expire key n) (\<lambda>_. returning a) else returning c)"
  using commands_andThen [of k 0 "redis_expire key n" 0 "\<lambda>_. returning a"]
  by (simp add: commands_redis commands_returning)

lemma commands_hit: "commands k (if key = k then 1 else 0) (hit_try key limit n)"
proof -
  have "commands k (0 + ((if key = k then 1 else 0) + (0 + (0 + (0 + 0))))) (hit_try key limit n)"
    unfolding hit_try_def
    by (intro commands_andThen commands_connect commands_redis(1,3) commands_returning commands_expire_later)
      (simp add: commands_redis commands_returning)
  then show ?thesis by simp
qed

lemma hit_try_Inr:
  assumes run: "hit_try key limit n e w = (Inr res, w')" and n: "0 \<le> n"
  shows "\<exists>h. r_incr (ge_redis e) (gw_redis w @ h) key = Inr (rl_count res) \<and>
     counted key h = 0 \<and> rl_limited res = (rl_count res > limit) \<and> rl_limit res = limit \<and>
     \<not> rl_failOpen res \<and> 0 \<le> rl_ttlSeconds res"
proof -
  obtain v where v: "ensureConnected e w = (Inr (), v)" and
    rest: "\<exists>c v1. redis_incr key e v = (Inr c, v1) \<and> rl_count res = c \<and> rl_limited res = (c > limit) \<and>
       rl_limit res = limit \<and> \<not> rl_failOpen res \<and> 0 \<le> rl_ttlSeconds res"
    using run n unfolding hit_try_def by (auto simp: andThen_Inr split: if_splits)
  obtain h where h: "only_redis w v h" "counted key h = 0"
    using commandsE [OF commands_connect [of key] v] by auto
  then have "gw_redis v = gw_redis w @ h" by (simp add: only_redis_def)
  then show ?thesis
    using rest h by (intro exI [of _ h]) (auto simp: redis_incr_def redis_do_def split: sum.splits)
qed

text \<open>
  One hit: it never throws, and either Redis answered every command, the key was counted once,
  and the decision follows the count; or the request passes and a command has no answer.
\<close>

lemma hit_cases:
  assumes run: "hit key limit n e w = (r, w')" and n: "0 \<le> n"
  obtains (answered) res h new where "r = Inr res" "only_redis w w' new" "failures new = 0"
      "counted key new = 1" "counted key h = 0"
      "r_incr (ge_redis e) (gw_redis w @ h) key = Inr (rl_count res)"
      "rl_limited res = (rl_count res > limit)" "rl_limit res = limit" "0 \<le> rl_ttlSeconds res"
  | (passed) res new where "r = Inr res" "only_redis w w' new" "failures new = 1" "counted key new \<le> 1"
      "\<not> rl_limited res"
proof -
  obtain s v where s: "hit_try key limit n e w = (s, v)" by (cases "hit_try key limit n e w") auto
  obtain new where new: "only_redis w v new" "isl s \<Longrightarrow> failures new = 1 \<and> counted key new \<le> 1"
    "\<not> isl s \<Longrightarrow> failures new = 0 \<and> counted key new = 1"
    using commandsE [OF commands_hit [of key key] s] by (metis (full_types))
  show thesis
  proof (cases s)
    case (Inl x)
    then show thesis using run s new passed by (auto simp: hit_def catching_def)
  next
    case (Inr res)
    then have "r = Inr res" "w' = v" using run s by (auto simp: hit_def catching_def)
    then show thesis using hit_try_Inr [OF s [unfolded Inr] n] new Inr answered by auto
  qed
qed

lemma isAtLimit_log:
  assumes "isAtLimit key limit e w = (r, w')"
  obtains b new where "r = Inr b" "only_redis w w' new" "counted k new = 0"
proof -
  let ?p = "andThen ensureConnected (\<lambda>_. andThen (redis_get key) (\<lambda>rawCount.
    returning ((case rawCount of None \<Rightarrow> 0 | Some n \<Rightarrow> n) \<ge> limit)))"
  have c: "commands k (0 + (0 + 0)) ?p"
    by (intro commands_andThen commands_connect commands_redis commands_returning)
  obtain s v where s: "?p e w = (s, v)" by (cases "?p e w") auto
  obtain new where "only_redis w v new" "counted k new = 0"
    using commandsE [OF c s] by (metis add.right_neutral le_zero_eq)
  then show thesis using assms s that by (cases s) (auto simp: isAtLimit_def catching_def)
qed

end
