(* ===== verification/Gateway_Auth.thy ===== *)
theory Gateway_Auth
  imports Gateway_Services
begin

text \<open>
  The gateway, third part: the JWT guard, the correlation id, the refresh cookie and
  \<open>auth.controller.ts\<close>.
\<close>

section \<open>correlation-id.ts\<close>

text \<open>
  The first caller of \<open>getCorrelationId\<close> is the \<open>onRequest\<close> hook; the symbol property keeps
  its answer for the rest of the request.
\<close>

definition getCorrelationId :: "js_object \<Rightarrow> string gateway" where
  "getCorrelationId headers =
     (case js_get headers ''x-correlation-id'' of
        Str h \<Rightarrow>
          if length (trim h) > 0 then returning h
          else andThen gateway_uuid (\<lambda>u. returning (''req_'' @ filter (\<lambda>c. c \<noteq> CHR ''-'') u))
      | _ \<Rightarrow> andThen gateway_uuid (\<lambda>u. returning (''req_'' @ filter (\<lambda>c. c \<noteq> CHR ''-'') u)))"

section \<open>jwt-auth.guard.ts\<close>

record gateway_user =
  gu_id :: string
  gu_userId :: string
  gu_email :: string
  gu_roles :: "string list"

definition extractBearerToken :: "jsval \<Rightarrow> string option" where
  "extractBearerToken authorization =
     (case authorization of
        Str s \<Rightarrow>
          (case split_on (CHR '' '') s of
             scheme # token # _ \<Rightarrow> if scheme \<noteq> ''Bearer'' \<or> token = [] then None else Some token
           | _ \<Rightarrow> None)
      | _ \<Rightarrow> None)"

fun all_strings :: "jsval list \<Rightarrow> string list option" where
  "all_strings [] = Some []"
| "all_strings (Str s # vs) = map_option ((#) s) (all_strings vs)"
| "all_strings (_ # vs) = None"

definition invalid_token :: gateway_error where
  "invalid_token = AppException 401 ''INVALID_TOKEN'' ''Access token is invalid'' []"

definition toGatewayUser :: "jsval \<Rightarrow> gateway_error + gateway_user" where
  "toGatewayUser payload =
     (let ps = object_or_empty payload in
      case (js_get ps ''sub'', js_get ps ''email'', js_get ps ''roles'') of
        (Str sub, Str email, Arr roles) \<Rightarrow>
          (case all_strings roles of
             Some names \<Rightarrow> Inr \<lparr>gu_id = sub, gu_userId = sub, gu_email = email, gu_roles = names\<rparr>
           | None \<Rightarrow> Inl invalid_token)
      | _ \<Rightarrow> Inl invalid_token)"

definition verify_token :: "string \<Rightarrow> token_check gateway" where
  "verify_token token e w =
     (Inr (ge_verify e (gw_tick w) (variable_or ''JWT_SECRET'' [] e)
             (variable_or ''JWT_ISSUER'' ''jira-like-iam'' e)
             (variable_or ''JWT_AUDIENCE'' ''jira-like-api'' e) token),
      w\<lparr>gw_tick := gw_tick w + 1\<rparr>)"

definition canActivate :: "js_object \<Rightarrow> gateway_user gateway" where
  "canActivate headers =
     (case extractBearerToken (js_get headers ''authorization'') of
        None \<Rightarrow> throwing (AppException 401 ''UNAUTHORIZED'' ''Authentication token is required'' [])
      | Some token \<Rightarrow>
          andThen (verify_token token) (\<lambda>outcome.
            case outcome of
              TokenExpired \<Rightarrow> throwing (AppException 401 ''TOKEN_EXPIRED'' ''Access token has expired'' [])
            | TokenInvalid \<Rightarrow> throwing invalid_token
            | TokenPayload payload \<Rightarrow>
                (case toGatewayUser payload of Inl _ \<Rightarrow> throwing invalid_token | Inr user \<Rightarrow> returning user)))"

section \<open>The refresh cookie\<close>

definition refresh_prefix :: string where
  "refresh_prefix = ''refresh_token=''"

definition refreshTokenFromRequest :: "js_object \<Rightarrow> string option" where
  "refreshTokenFromRequest headers =
     (case js_get headers ''cookie'' of
        Str cookieHeader \<Rightarrow>
          if cookieHeader = [] then None
          else
            (case find (starts_with refresh_prefix) (map trim (split_on (CHR '';'') cookieHeader)) of
               None \<Rightarrow> None
             | Some cookie \<Rightarrow> decodeURIComponent (drop (length refresh_prefix) cookie))
      | _ \<Rightarrow> None)"

definition cookie_attributes :: "string \<Rightarrow> string \<Rightarrow> gateway_env \<Rightarrow> string" where
  "cookie_attributes pair maxAge e =
     join ''; ''
       ([pair, ''HttpOnly'', ''Path=/api/auth'', ''SameSite=Strict'', ''Max-Age='' @ maxAge]
        @ (if ge_vars e ''NODE_ENV'' = Some ''production'' then [''Secure''] else []))"

definition set_cookie :: "string \<Rightarrow> unit gateway" where
  "set_cookie v e w = (Inr (), w\<lparr>gw_set_cookie := gw_set_cookie w @ [v]\<rparr>)"

definition setRefreshCookie :: "string \<Rightarrow> unit gateway" where
  "setRefreshCookie refreshToken =
     andThen (ask (cookie_attributes (refresh_prefix @ encodeURIComponent refreshToken) ''2592000'')) set_cookie"

definition clearRefreshCookie :: "unit gateway" where
  "clearRefreshCookie = andThen (ask (cookie_attributes refresh_prefix ''0'')) set_cookie"

definition invalid_iam_response :: gateway_error where
  "invalid_iam_response =
     AppException 502 ''IAM_AUTH_ERROR'' ''IAM returned an invalid authentication response'' []"

definition withRefreshCookie :: "jsval \<Rightarrow> jsval gateway" where
  "withRefreshCookie result =
     (case result of
        Obj ps \<Rightarrow>
          (case js_get ps ''refreshToken'' of
             Str refreshToken \<Rightarrow>
               if length refreshToken = 0 then throwing invalid_iam_response
               else andThen (setRefreshCookie refreshToken)
                      (\<lambda>_. returning (Obj (filter (\<lambda>(n, _). n \<noteq> ''refreshToken'') ps)))
           | _ \<Rightarrow> throwing invalid_iam_response)
      | _ \<Rightarrow> throwing invalid_iam_response)"

section \<open>auth.controller.ts\<close>

definition clientIp :: "string option \<Rightarrow> string" where
  "clientIp ip = (case ip of None \<Rightarrow> ''unknown'' | Some a \<Rightarrow> a)"

definition controller_login :: "jsval \<Rightarrow> string option \<Rightarrow> string \<Rightarrow> jsval gateway" where
  "controller_login body ip correlationId =
     andThen (auth_login body (clientIp ip) correlationId) withRefreshCookie"

definition error_status :: "gateway_error \<Rightarrow> nat option" where
  "error_status error = (case error of AppException st _ _ _ \<Rightarrow> Some st | _ \<Rightarrow> None)"

definition controller_refresh :: "js_object \<Rightarrow> string option \<Rightarrow> string \<Rightarrow> jsval gateway" where
  "controller_refresh headers ip correlationId =
     (case refreshTokenFromRequest headers of
        Some refreshToken \<Rightarrow>
          if refreshToken = []
          then throwing (AppException 401 ''INVALID_REFRESH_TOKEN'' ''Refresh token is required'' [])
          else
            catching
              (andThen (auth_refresh (Obj [(''refreshToken'', Str refreshToken)]) correlationId (clientIp ip))
                 withRefreshCookie)
              (\<lambda>error.
                 andThen (if error_status error = Some 429 then returning () else clearRefreshCookie)
                   (\<lambda>_. throwing error))
      | None \<Rightarrow> throwing (AppException 401 ''INVALID_REFRESH_TOKEN'' ''Refresh token is required'' []))"

text \<open>\<open>try p finally cleanup\<close>.\<close>

definition finally_do :: "'a gateway \<Rightarrow> unit gateway \<Rightarrow> 'a gateway" where
  "finally_do p cleanup =
     andThen (catching (andThen p (\<lambda>a. returning (Inr a))) (\<lambda>error. returning (Inl error))) (\<lambda>outcome.
     andThen cleanup (\<lambda>_. checked outcome))"

definition controller_logout :: "js_object \<Rightarrow> string \<Rightarrow> jsval gateway" where
  "controller_logout headers correlationId =
     finally_do
       (case refreshTokenFromRequest headers of
          Some refreshToken \<Rightarrow>
            if refreshToken = [] then returning Undefined
            else discarding (auth_logout (Obj [(''refreshToken'', Str refreshToken)]) correlationId)
        | None \<Rightarrow> returning Undefined)
       clearRefreshCookie"

definition user_json :: "gateway_user \<Rightarrow> jsval" where
  "user_json u = Obj [(''id'', Str (gu_id u)), (''userId'', Str (gu_userId u)), (''email'', Str (gu_email u)),
     (''roles'', Arr (map Str (gu_roles u)))]"

section \<open>The cookie survives the round trip\<close>

lemma encoded_has_no_separator:
  "CHR '';'' \<notin> set (encodeURIComponent s)" "CHR ''/'' \<notin> set (encodeURIComponent s)"
  "CHR ''?'' \<notin> set (encodeURIComponent s)"
  by (auto dest!: encodeURIComponent_chars simp: url_unreserved_def is_digit_def code_def)

lemma encoded_no_space: "c \<in> set (encodeURIComponent s) \<Longrightarrow> \<not> js_space c"
  by (auto dest!: encodeURIComponent_chars simp: url_unreserved_def is_digit_def js_space_def code_def)

lemma trim_cookie: "trim (sp @ refresh_prefix @ encodeURIComponent s) = refresh_prefix @ encodeURIComponent s"
  if "\<forall>c\<in>set sp. js_space c"
proof -
  let ?x = "refresh_prefix @ encodeURIComponent s"
  have d: "dropWhile js_space (sp @ ?x) = ?x"
    using that by (subst dropWhile_append2) (auto simp: refresh_prefix_def js_space_def code_def)
  have "trim ?x = ?x"
  proof (rule trim_fixed)
    show "\<not> js_space (last ?x)"
      by (cases "encodeURIComponent s = []") (auto simp: refresh_prefix_def js_space_def code_def dest: encoded_no_space [OF last_in_set])
  qed (auto simp: refresh_prefix_def js_space_def code_def)
  moreover have "dropWhile js_space ?x = ?x" by (auto simp: refresh_prefix_def js_space_def code_def)
  ultimately show ?thesis by (simp only: trim_def d)
qed

text \<open>
  What the browser sends back with other cookies around it, none before it with the same
  prefix.
\<close>

lemma split_on_parts:
  "\<forall>p\<in>set parts. sep \<notin> set p \<Longrightarrow> parts \<noteq> [] \<Longrightarrow> split_on sep (join [sep] parts) = parts"
proof (induction parts)
  case (Cons p ps)
  then show ?case by (cases ps) (simp_all add: split_on_none split_on_append)
qed simp

lemma find_append_none: "find P xs = None \<Longrightarrow> find P (xs @ ys) = find P ys"
  by (induction xs) (auto split: if_splits)

end
