(* ===== verification/Gateway_Server.thy ===== *)
theory Gateway_Server
  imports Gateway_Auth
begin

text \<open>
  The gateway, last part: the health service, the routes and controllers, the exception filter
  and the start of the process (\<open>presentation\<close>, \<open>main.ts\<close>).
\<close>

section \<open>health.service.ts\<close>

record service_target =
  tg_name :: string
  tg_envName :: string
  tg_defaultUrl :: string

definition targets :: "service_target list" where
  "targets =
     [\<lparr>tg_name = ''iam-service'', tg_envName = ''IAM_SERVICE_URL'', tg_defaultUrl = ''http://localhost:8081''\<rparr>,
      \<lparr>tg_name = ''project-service'', tg_envName = ''PROJECT_SERVICE_URL'', tg_defaultUrl = ''http://localhost:8082''\<rparr>,
      \<lparr>tg_name = ''issue-service'', tg_envName = ''ISSUE_SERVICE_URL'', tg_defaultUrl = ''http://localhost:8083''\<rparr>,
      \<lparr>tg_name = ''notification-service'', tg_envName = ''NOTIFICATION_SERVICE_URL'',
       tg_defaultUrl = ''http://localhost:8084''\<rparr>]"

datatype health_status = Ok | Degraded | Down

record service_health =
  sh_name :: string
  sh_url :: string
  sh_status :: health_status
  sh_latencyMs :: int
  sh_service :: jsval
  sh_error :: "string option"

definition describeError :: "string \<Rightarrow> string \<Rightarrow> string" where
  "describeError name message = (if name = ''AbortError'' then ''timeout'' else message)"

definition health_url :: "service_target \<Rightarrow> gateway_env \<Rightarrow> string" where
  "health_url target e =
     without_trailing_slashes (variable_or (tg_envName target) (tg_defaultUrl target) e) @ ''/health''"

definition checkService :: "service_target \<Rightarrow> service_health gateway" where
  "checkService target =
     andThen (ask (health_url target)) (\<lambda>url.
     andThen date_now (\<lambda>startedAt.
     andThen (fetch \<lparr>gc_method = GET, gc_url = url, gc_headers = [(''accept'', ''application/json'')], gc_body = None\<rparr>)
       (\<lambda>reply.
     andThen date_now (\<lambda>now.
     andThen (ask ge_json_error) (\<lambda>json_error.
     let down = (\<lambda>err. \<lparr>sh_name = tg_name target, sh_url = url, sh_status = Down,
                        sh_latencyMs = now - startedAt, sh_service = Undefined, sh_error = Some err\<rparr>) in
     returning
       (case reply of
          FetchFails name message \<Rightarrow> down (describeError name message)
        | FetchAnswers status json \<Rightarrow>
            if \<not> (200 \<le> status \<and> status < 300) then down (''http_'' @ dec_string status)
            else
              (case json of
                 None \<Rightarrow> down json_error
               | Some Null \<Rightarrow> down json_error
               | Some body \<Rightarrow>
                   \<lparr>sh_name = tg_name target, sh_url = url,
                    sh_status = (if js_get (object_or_empty body) ''status'' = Str ''ok'' then Ok else Degraded),
                    sh_latencyMs = now - startedAt,
                    sh_service = js_get (object_or_empty body) ''service'', sh_error = None\<rparr>)))))))"

text \<open>The four checks run at the same time; none depends on another.\<close>

fun each :: "('a \<Rightarrow> 'b gateway) \<Rightarrow> 'a list \<Rightarrow> 'b list gateway" where
  "each f [] = returning []"
| "each f (x # xs) = andThen (f x) (\<lambda>y. andThen (each f xs) (\<lambda>ys. returning (y # ys)))"

definition overall_status :: "service_health list \<Rightarrow> health_status" where
  "overall_status services = (if list_all (\<lambda>s. sh_status s = Ok) services then Ok else Degraded)"

fun health_status_name :: "health_status \<Rightarrow> string" where
  "health_status_name Ok = ''ok''"
| "health_status_name Degraded = ''degraded''"
| "health_status_name Down = ''down''"

definition service_health_json :: "service_health \<Rightarrow> jsval" where
  "service_health_json s = Obj
     ([(''name'', Str (sh_name s)), (''url'', Str (sh_url s)),
       (''status'', Str (health_status_name (sh_status s))), (''latencyMs'', int_json (sh_latencyMs s))]
      @ (if sh_service s = Undefined then [] else [(''service'', sh_service s)])
      @ (case sh_error s of None \<Rightarrow> [] | Some err \<Rightarrow> [(''error'', Str err)]))"

definition getServicesHealth :: "jsval gateway" where
  "getServicesHealth =
     andThen (each checkService targets) (\<lambda>services.
     andThen date_now (\<lambda>now.
     returning (Obj [(''status'', Str (health_status_name (overall_status services))),
                     (''timestamp'', date_json now), (''services'', Arr (map service_health_json services))])))"

definition getGatewayHealth :: "jsval gateway" where
  "getGatewayHealth =
     andThen date_now (\<lambda>now.
     returning (Obj [(''status'', Str ''ok''), (''service'', Str ''api-gateway''), (''version'', Str ''0.1.0''),
                     (''timestamp'', date_json now)]))"

section \<open>Routes\<close>

datatype auth_operation = Register | Login | Refresh | Logout | Me

datatype gateway_route =
    GwAuth auth_operation
  | GwIssues issue_route
  | GwPlanning planning_route
  | GwProjects project_operation
  | GwNotifications notification_operation
  | GwProtected
  | GwHealth
  | GwServicesHealth

text \<open>The decorators of the gateway's controllers, in the order of the modules.\<close>

definition health_routes :: "gateway_route route_table" where
  "health_routes =
     [(GET, [Lit ''health''], \<lambda>_. GwHealth),
      (GET, [Lit ''health'', Lit ''services''], \<lambda>_. GwServicesHealth)]"

definition auth_routes :: "gateway_route route_table" where
  "auth_routes =
     [(POST, [Lit ''api'', Lit ''auth'', Lit ''register''], \<lambda>_. GwAuth Register),
      (POST, [Lit ''api'', Lit ''auth'', Lit ''login''], \<lambda>_. GwAuth Login),
      (POST, [Lit ''api'', Lit ''auth'', Lit ''refresh''], \<lambda>_. GwAuth Refresh),
      (POST, [Lit ''api'', Lit ''auth'', Lit ''logout''], \<lambda>_. GwAuth Logout),
      (GET, [Lit ''api'', Lit ''auth'', Lit ''me''], \<lambda>_. GwAuth Me)]"

definition protected_routes :: "gateway_route route_table" where
  "protected_routes =
     [(GET, [Lit ''api'', Lit ''protected'', Lit ''profile-test''], \<lambda>_. GwProtected)]"

definition projects_routes :: "gateway_route route_table" where
  "projects_routes =
     [(POST, [Lit ''api'', Lit ''workspaces''], \<lambda>_. GwProjects CreateWorkspace),
      (GET, [Lit ''api'', Lit ''workspaces''], \<lambda>_. GwProjects ListWorkspaces),
      (POST, [Lit ''api'', Lit ''workspaces'', Param, Lit ''projects''], \<lambda>v. GwProjects (CreateProject (hd v))),
      (GET, [Lit ''api'', Lit ''workspaces'', Param, Lit ''members''], \<lambda>v. GwProjects (ListWorkspaceMembers (hd v))),
      (POST, [Lit ''api'', Lit ''workspaces'', Param, Lit ''members''], \<lambda>v. GwProjects (AddWorkspaceMember (hd v))),
      (PATCH, [Lit ''api'', Lit ''workspaces'', Param, Lit ''members'', Param],
         \<lambda>v. GwProjects (ChangeWorkspaceMemberRole (hd v) (v ! 1))),
      (DELETE, [Lit ''api'', Lit ''workspaces'', Param, Lit ''members'', Param],
         \<lambda>v. GwProjects (RemoveWorkspaceMember (hd v) (v ! 1))),
      (GET, [Lit ''api'', Lit ''workspaces'', Param, Lit ''projects''], \<lambda>v. GwProjects (ListProjects (hd v))),
      (GET, [Lit ''api'', Lit ''projects'', Param], \<lambda>v. GwProjects (GetProject (hd v))),
      (PATCH, [Lit ''api'', Lit ''projects'', Param], \<lambda>v. GwProjects (UpdateProject (hd v))),
      (DELETE, [Lit ''api'', Lit ''projects'', Param], \<lambda>v. GwProjects (ArchiveProject (hd v)))]"

definition issues_routes :: "gateway_route route_table" where
  "issues_routes =
     [(POST, [Lit ''api'', Lit ''projects'', Param, Lit ''issues''], \<lambda>v. GwIssues (CreateIssue (hd v))),
      (GET, [Lit ''api'', Lit ''projects'', Param, Lit ''issues''], \<lambda>v. GwIssues (ListIssues (hd v))),
      (GET, [Lit ''api'', Lit ''issues'', Param], \<lambda>v. GwIssues (GetIssue (hd v))),
      (PATCH, [Lit ''api'', Lit ''issues'', Param], \<lambda>v. GwIssues (UpdateIssue (hd v))),
      (PATCH, [Lit ''api'', Lit ''issues'', Param, Lit ''assignee''], \<lambda>v. GwIssues (AssignIssue (hd v))),
      (POST, [Lit ''api'', Lit ''issues'', Param, Lit ''transitions''], \<lambda>v. GwIssues (TransitionIssue (hd v))),
      (POST, [Lit ''api'', Lit ''issues'', Param, Lit ''comments''], \<lambda>v. GwIssues (AddComment (hd v))),
      (GET, [Lit ''api'', Lit ''issues'', Param, Lit ''comments''], \<lambda>v. GwIssues (ListComments (hd v))),
      (GET, [Lit ''api'', Lit ''issues'', Param, Lit ''history''], \<lambda>v. GwIssues (ListHistory (hd v))),
      (GET, [Lit ''api'', Lit ''projects'', Param, Lit ''epics''], \<lambda>v. GwPlanning (ListEpics (hd v))),
      (POST, [Lit ''api'', Lit ''projects'', Param, Lit ''epics''], \<lambda>v. GwPlanning (CreateEpic (hd v))),
      (PATCH, [Lit ''api'', Lit ''epics'', Param], \<lambda>v. GwPlanning (UpdateEpic (hd v))),
      (GET, [Lit ''api'', Lit ''projects'', Param, Lit ''sprints''], \<lambda>v. GwPlanning (ListSprints (hd v))),
      (POST, [Lit ''api'', Lit ''projects'', Param, Lit ''sprints''], \<lambda>v. GwPlanning (CreateSprint (hd v))),
      (POST, [Lit ''api'', Lit ''sprints'', Param, Lit ''complete''], \<lambda>v. GwPlanning (CompleteSprint (hd v)))]"

definition notifications_routes :: "gateway_route route_table" where
  "notifications_routes =
     [(GET, [Lit ''api'', Lit ''notifications''], \<lambda>_. GwNotifications ListNotifications),
      (PATCH, [Lit ''api'', Lit ''notifications'', Param, Lit ''read''], \<lambda>v. GwNotifications (MarkRead (hd v))),
      (POST, [Lit ''api'', Lit ''notifications'', Lit ''read-all''], \<lambda>_. GwNotifications MarkAllRead)]"

definition gateway_routes :: "gateway_route route_table" where
  "gateway_routes =
     health_routes @ auth_routes @ protected_routes @ projects_routes @ issues_routes @ notifications_routes"

section \<open>Controllers\<close>

record gateway_request =
  gr_method :: http_method
  gr_url :: string
  gr_headers :: js_object
  gr_body :: jsval
  gr_ip :: "string option"

definition user_context :: "gateway_user \<Rightarrow> string \<Rightarrow> call_context" where
  "user_context user correlationId = \<lparr>cc_userId = Some (gu_id user), cc_correlationId = correlationId\<rparr>"

definition gateway_issues_controller ::
    "issue_route \<Rightarrow> gateway_request \<Rightarrow> gateway_user \<Rightarrow> string \<Rightarrow> jsval gateway" where
  "gateway_issues_controller operation request user correlationId =
     issue_adapter operation (gr_body request) (query_of_url (gr_url request)) (user_context user correlationId)"

definition gateway_planning_controller ::
    "planning_route \<Rightarrow> gateway_request \<Rightarrow> gateway_user \<Rightarrow> string \<Rightarrow> jsval gateway" where
  "gateway_planning_controller operation request user correlationId =
     planning_adapter operation (gr_body request) (user_context user correlationId)"

definition gateway_projects_controller ::
    "project_operation \<Rightarrow> gateway_request \<Rightarrow> gateway_user \<Rightarrow> string \<Rightarrow> jsval gateway" where
  "gateway_projects_controller operation request user correlationId =
     projects_service operation (gr_body request) (Some (gu_userId user)) correlationId"

definition gateway_notifications_controller ::
    "notification_operation \<Rightarrow> gateway_user \<Rightarrow> string \<Rightarrow> jsval gateway" where
  "gateway_notifications_controller operation user correlationId =
     notification_adapter operation (user_context user correlationId)"

fun auth_controller :: "auth_operation \<Rightarrow> gateway_request \<Rightarrow> string \<Rightarrow> jsval gateway" where
  "auth_controller Register request correlationId =
     auth_register (gr_body request) (clientIp (gr_ip request)) correlationId"
| "auth_controller Login request correlationId =
     controller_login (gr_body request) (gr_ip request) correlationId"
| "auth_controller Refresh request correlationId =
     controller_refresh (gr_headers request) (gr_ip request) correlationId"
| "auth_controller Logout request correlationId = controller_logout (gr_headers request) correlationId"
| "auth_controller Me request correlationId =
     andThen (canActivate (gr_headers request)) (\<lambda>user. returning (Obj [(''user'', user_json user)]))"

definition profileTest :: "gateway_user \<Rightarrow> jsval" where
  "profileTest user =
     Obj [(''message'', Str ''Protected profile test passed''), (''user'', user_json user)]"

text \<open>\<open>@UseGuards(JwtAuthGuard)\<close>: the handler runs with the user the guard found.\<close>

definition guarded :: "gateway_request \<Rightarrow> (gateway_user \<Rightarrow> jsval gateway) \<Rightarrow> jsval gateway" where
  "guarded request handler = andThen (canActivate (gr_headers request)) handler"

fun gateway_dispatch :: "gateway_route \<Rightarrow> gateway_request \<Rightarrow> string \<Rightarrow> jsval gateway" where
  "gateway_dispatch (GwAuth operation) request c = auth_controller operation request c"
| "gateway_dispatch (GwIssues operation) request c =
     guarded request (\<lambda>user. gateway_issues_controller operation request user c)"
| "gateway_dispatch (GwPlanning operation) request c =
     guarded request (\<lambda>user. gateway_planning_controller operation request user c)"
| "gateway_dispatch (GwProjects operation) request c =
     guarded request (\<lambda>user. gateway_projects_controller operation request user c)"
| "gateway_dispatch (GwNotifications operation) request c =
     guarded request (\<lambda>user. gateway_notifications_controller operation user c)"
| "gateway_dispatch GwProtected request c = guarded request (\<lambda>user. returning (profileTest user))"
| "gateway_dispatch GwHealth request c = getGatewayHealth"
| "gateway_dispatch GwServicesHealth request c = getServicesHealth"

text \<open>\<open>@HttpCode\<close>, and the framework's default.\<close>

fun success_status :: "gateway_route \<Rightarrow> http_method \<Rightarrow> nat" where
  "success_status (GwAuth Login) m = 200"
| "success_status (GwAuth Refresh) m = 200"
| "success_status (GwAuth Logout) m = 204"
| "success_status (GwIssues (TransitionIssue i)) m = 200"
| "success_status (GwProjects (RemoveWorkspaceMember ws u)) m = 204"
| "success_status (GwProjects (ArchiveProject p)) m = 204"
| "success_status (GwNotifications (MarkRead i)) m = 204"
| "success_status (GwNotifications MarkAllRead) m = 204"
| "success_status r m = (if m = POST then 201 else 200)"

section \<open>The exception filter\<close>

definition toApiError :: "gateway_error \<Rightarrow> gateway_error" where
  "toApiError error =
     (case error of
        AppException st c m d \<Rightarrow> error
      | NestException statusCode response message \<Rightarrow>
          let body = object_or_empty response in
          AppException statusCode
            (errorString (js_get body ''code'') (''HTTP_'' @ dec_string statusCode))
            (errorString (js_get body ''message'') message)
            (object_or_empty (js_get body ''details''))
      | RuntimeError _ \<Rightarrow> AppException 500 ''INTERNAL_ERROR'' ''Unexpected server error'' [])"

definition ApiExceptionFilter :: "gateway_error \<Rightarrow> string \<Rightarrow> nat \<times> jsval" where
  "ApiExceptionFilter error correlationId =
     (let apiError = toApiError error in
      (ae_statusCode apiError,
       Obj [(''code'', Str (ae_code apiError)), (''message'', Str (ae_message apiError)),
            (''correlationId'', Str correlationId), (''details'', Obj (ae_details apiError))]))"

section \<open>One request\<close>

record gateway_response =
  gs_status :: nat
  gs_body :: jsval
  gs_correlation :: string
  gs_cookies :: "string list"

definition gateway_route_of :: "gateway_request \<Rightarrow> gateway_route option" where
  "gateway_route_of request = find_route gateway_routes (gr_method request) (segments_of_url (gr_url request))"

fun method_name :: "http_method \<Rightarrow> string" where
  "method_name GET = ''GET''"
| "method_name POST = ''POST''"
| "method_name PATCH = ''PATCH''"
| "method_name DELETE = ''DELETE''"

definition not_found :: "gateway_request \<Rightarrow> gateway_error" where
  "not_found request =
     (let message = ''Cannot '' @ method_name (gr_method request) @ '' '' @ gr_url request in
      NestException 404 (Obj [(''message'', Str message), (''error'', Str ''Not Found''), (''statusCode'', int_json 404)])
        message)"

definition handler_outcome :: "gateway_request \<Rightarrow> string \<Rightarrow> (nat \<times> jsval) gateway" where
  "handler_outcome request correlationId =
     catching
       (case gateway_route_of request of
          None \<Rightarrow> throwing (not_found request)
        | Some r \<Rightarrow>
            andThen (gateway_dispatch r request correlationId)
              (\<lambda>body. returning (success_status r (gr_method request), body)))
       (\<lambda>error. returning (ApiExceptionFilter error correlationId))"

definition fresh_reply :: "unit gateway" where
  "fresh_reply e w = (Inr (), w\<lparr>gw_set_cookie := []\<rparr>)"

definition reply_cookies :: "string list gateway" where
  "reply_cookies e w = (Inr (gw_set_cookie w), w)"

definition gateway_handle :: "gateway_request \<Rightarrow> gateway_response gateway" where
  "gateway_handle request =
     andThen fresh_reply (\<lambda>_.
     andThen (getCorrelationId (gr_headers request)) (\<lambda>correlationId.
     andThen (handler_outcome request correlationId) (\<lambda>outcome.
     andThen reply_cookies (\<lambda>cookies.
     returning \<lparr>gs_status = fst outcome, gs_body = snd outcome, gs_correlation = correlationId,
                gs_cookies = cookies\<rparr>))))"

text \<open>
  Before any hook, guard or filter the framework's router decodes the path. A path that does
  not decode gets the framework's own 400, which has no correlation id; every other request
  goes to \<open>gateway_handle\<close>.
\<close>

definition bad_url :: "string \<Rightarrow> gateway_response" where
  "bad_url url =
     \<lparr>gs_status = 400,
      gs_body = Obj [(''error'', Str ''Bad Request''), (''code'', Str ''FST_ERR_BAD_URL''),
        (''message'', Str (CHR 0x27 # url @ CHR 0x27 # '' is not a valid url component'')), (''statusCode'', int_json 400)],
      gs_correlation = [], gs_cookies = []\<rparr>"

definition gateway_serve :: "gateway_request \<Rightarrow> gateway_response gateway" where
  "gateway_serve request =
     (if decodeURIComponent (path_of_url (gr_url request)) = None then returning (bad_url (gr_url request))
      else gateway_handle request)"

section \<open>The start of the process\<close>

definition MIN_JWT_SECRET_BYTES :: nat where "MIN_JWT_SECRET_BYTES = 32"

definition assertRequiredSecrets :: "(string \<Rightarrow> string option) \<Rightarrow> string + unit" where
  "assertRequiredSecrets env =
     (if env ''INTERNAL_SERVICE_SECRET'' \<in> {None, Some []} then Inl ''INTERNAL_SERVICE_SECRET is required''
      else if length (utf8_encode (case env ''JWT_SECRET'' of None \<Rightarrow> [] | Some s \<Rightarrow> s)) < MIN_JWT_SECRET_BYTES
      then Inl (''JWT_SECRET is required and must be at least '' @ dec_string MIN_JWT_SECRET_BYTES @ '' bytes'')
      else Inr ())"

definition allowedOrigins :: "(string \<Rightarrow> string option) \<Rightarrow> string list" where
  "allowedOrigins env =
     filter (\<lambda>origin. length origin > 0)
       (map trim (split_on (CHR '','')
          (case env ''CORS_ALLOWED_ORIGINS'' of None \<Rightarrow> ''http://localhost:3001'' | Some s \<Rightarrow> s)))"

end
