(* ===== verification/Gateway_Guarantees.thy ===== *)
theory Gateway_Guarantees
  imports Gateway_Server
begin

text \<open>
  What the gateway's programs do to its world: \<open>makes p C\<close> says that every call \<open>p\<close> adds
  satisfies \<open>C\<close>, and that the log of Redis only grows. The rules follow the combinators.
\<close>

section \<open>The calls a program makes\<close>

definition makes :: "'a gateway \<Rightarrow> (gateway_env \<Rightarrow> gateway_call \<Rightarrow> bool) \<Rightarrow> bool" where
  "makes p C \<longleftrightarrow>
     (\<forall>e w r w'. p e w = (r, w') \<longrightarrow>
        (\<exists>cs. gw_calls w' = gw_calls w @ cs \<and> (\<forall>c\<in>set cs. C e c)) \<and>
        (\<exists>new. gw_redis w' = gw_redis w @ new))"

lemma makesI:
  assumes "\<And>e w r w'. p e w = (r, w') \<Longrightarrow>
    (\<exists>cs. gw_calls w' = gw_calls w @ cs \<and> (\<forall>c\<in>set cs. C e c)) \<and> (\<exists>new. gw_redis w' = gw_redis w @ new)"
  shows "makes p C"
  using assms unfolding makes_def by blast

lemma makesE:
  assumes "makes p C" "p e w = (r, w')"
  obtains cs new where "gw_calls w' = gw_calls w @ cs" "\<And>c. c \<in> set cs \<Longrightarrow> C e c"
    "gw_redis w' = gw_redis w @ new"
proof -
  have "(\<exists>cs. gw_calls w' = gw_calls w @ cs \<and> (\<forall>c\<in>set cs. C e c)) \<and> (\<exists>new. gw_redis w' = gw_redis w @ new)"
    using assms unfolding makes_def by blast
  then show thesis using that by blast
qed

named_theorems makes_rules "the calls of the gateway's programs"

lemma makes_basic [makes_rules]:
  "makes (returning a) C" "makes (throwing x) C" "makes (checked y) C" "makes (ask g) C"
  by (rule makesI; simp)+

lemma makes_small [makes_rules]:
  "makes date_now C" "makes gateway_uuid C" "makes (set_cookie v) C" "makes (verify_token t) C"
  "makes fresh_reply C" "makes reply_cookies C" "makes redis_waiting C"
  by (rule makesI; auto simp: date_now_def gateway_uuid_def set_cookie_def verify_token_def fresh_reply_def
      reply_cookies_def redis_waiting_def)+

lemma makes_redis [makes_rules]: "makes (redis_do c f) C"
  by (rule makesI) (auto simp: redis_do_def split: sum.splits)

lemma makes_fetch: "(\<And>e. C e c) \<Longrightarrow> makes (fetch c) C"
  by (rule makesI) (auto simp: fetch_def)

lemma makes_andThen:
  assumes p: "makes p C" and f: "\<And>a. makes (f a) C"
  shows "makes (andThen p f) C"
proof (rule makesI)
  fix e w r w' assume run: "andThen p f e w = (r, w')"
  obtain s v where s: "p e w = (s, v)" by (cases "p e w") auto
  obtain cs new where a: "gw_calls v = gw_calls w @ cs" "\<And>c. c \<in> set cs \<Longrightarrow> C e c" "gw_redis v = gw_redis w @ new"
    using makesE [OF p s] by blast
  show "(\<exists>cs. gw_calls w' = gw_calls w @ cs \<and> (\<forall>c\<in>set cs. C e c)) \<and> (\<exists>new. gw_redis w' = gw_redis w @ new)"
  proof (cases s)
    case (Inl x)
    then show ?thesis using run s a by (auto simp: andThen_def)
  next
    case (Inr b)
    then have "f b e v = (r, w')" using run s by (simp add: andThen_def)
    then obtain cs' new' where "gw_calls w' = gw_calls v @ cs'" "\<And>c. c \<in> set cs' \<Longrightarrow> C e c"
      "gw_redis w' = gw_redis v @ new'" using makesE [OF f] by blast
    then show ?thesis using a by (intro conjI exI [of _ "cs @ cs'"] exI [of _ "new @ new'"]) auto
  qed
qed

lemma makes_catching:
  assumes p: "makes p C" and h: "\<And>x. makes (handler x) C"
  shows "makes (catching p handler) C"
proof (rule makesI)
  fix e w r w' assume run: "catching p handler e w = (r, w')"
  obtain s v where s: "p e w = (s, v)" by (cases "p e w") auto
  obtain cs new where a: "gw_calls v = gw_calls w @ cs" "\<And>c. c \<in> set cs \<Longrightarrow> C e c" "gw_redis v = gw_redis w @ new"
    using makesE [OF p s] by blast
  show "(\<exists>cs. gw_calls w' = gw_calls w @ cs \<and> (\<forall>c\<in>set cs. C e c)) \<and> (\<exists>new. gw_redis w' = gw_redis w @ new)"
  proof (cases s)
    case (Inr x)
    then show ?thesis using run s a by (auto simp: catching_def)
  next
    case (Inl x)
    then have "handler x e v = (r, w')" using run s by (simp add: catching_def)
    then obtain cs' new' where "gw_calls w' = gw_calls v @ cs'" "\<And>c. c \<in> set cs' \<Longrightarrow> C e c"
      "gw_redis w' = gw_redis v @ new'" using makesE [OF h] by blast
    then show ?thesis using a by (intro conjI exI [of _ "cs @ cs'"] exI [of _ "new @ new'"]) auto
  qed
qed

lemma makes_cases [makes_rules]:
  "(b \<Longrightarrow> makes p C) \<Longrightarrow> (\<not> b \<Longrightarrow> makes q C) \<Longrightarrow> makes (if b then p else q) C"
  "makes p C \<Longrightarrow> (\<And>x. makes (f x) C) \<Longrightarrow> makes (case v of None \<Rightarrow> p | Some x \<Rightarrow> f x) C"
  "(\<And>x. makes (g x) C) \<Longrightarrow> (\<And>x. makes (h x) C) \<Longrightarrow> makes (case s of Inl x \<Rightarrow> g x | Inr x \<Rightarrow> h x) C"
  by (simp, cases v, simp_all, cases s, simp_all)

lemmas makes_steps = makes_andThen makes_catching

section \<open>The limiter, the guard and the cookies send nothing\<close>

lemma makes_limiter [makes_rules]:
  "makes ensureConnected C" "makes (redis_incr k) C" "makes (redis_expire k n) C" "makes (redis_ttl k) C"
  "makes (redis_get k) C"
  by (auto simp: ensureConnected_def redis_incr_def redis_expire_def redis_ttl_def redis_get_def
      intro!: makes_rules makes_steps)

lemma makes_hit [makes_rules]: "makes (hit k l n) C" "makes (isAtLimit k l) C" "makes (refuse_limited rule res) C"
  unfolding hit_def hit_try_def isAtLimit_def refuse_limited_def by (intro makes_rules makes_steps)+

lemma makes_correlation [makes_rules]: "makes (getCorrelationId h) C"
  unfolding getCorrelationId_def by (auto split: jsval.split intro!: makes_rules makes_steps)

lemma makes_guard [makes_rules]: "makes (canActivate h) C"
  unfolding canActivate_def
  by (auto split: option.split token_check.split sum.split intro!: makes_rules makes_steps)

lemma makes_cookies [makes_rules]: "makes (setRefreshCookie t) C" "makes clearRefreshCookie C" "makes (withRefreshCookie v) C"
  unfolding setRefreshCookie_def clearRefreshCookie_def withRefreshCookie_def
  by (auto split: jsval.split intro!: makes_rules makes_steps)

section \<open>Who a call speaks for\<close>

definition header_of :: "gateway_call \<Rightarrow> string \<Rightarrow> string option" where
  "header_of c name = map_of (gc_headers c) name"

text \<open>The call carries the user, the correlation id and the shared secret of the process.\<close>

definition speaks_for :: "string option \<Rightarrow> string \<Rightarrow> gateway_env \<Rightarrow> gateway_call \<Rightarrow> bool" where
  "speaks_for user correlationId e c \<longleftrightarrow>
     header_of c ''x-authenticated-user-id'' = (if user = Some [] then None else user) \<and>
     header_of c ''x-correlation-id'' = Some correlationId \<and>
     header_of c ''x-internal-service-secret'' = Some (variable_or ''INTERNAL_SERVICE_SECRET'' [] e)"

lemma client_call_speaks:
  "speaks_for (cc_userId ctx) (cc_correlationId ctx) e (client_call opts m path body ctx e)"
  by (auto simp: speaks_for_def header_of_def client_call_def client_headers_def Let_def split: option.split)

lemma forward_run:
  "forward opts m path body ctx e w =
     (client_result opts (ge_fetch e (gw_tick w) (client_call opts m path body ctx e)),
      w\<lparr>gw_tick := gw_tick w + 1, gw_calls := gw_calls w @ [client_call opts m path body ctx e]\<rparr>)"
  by (simp add: forward_def andThen_def fetch_def)

lemma makes_forward:
  assumes "\<And>e. C e (client_call opts m path body ctx e)"
  shows "makes (forward opts m path body ctx) C"
  by (rule makesI) (auto simp: forward_run assms)

lemma forward_speaks [makes_rules]:
  "\<lbrakk>cc_userId ctx = u; cc_correlationId ctx = c\<rbrakk> \<Longrightarrow> makes (forward opts m path body ctx) (speaks_for u c)"
  by (rule makes_forward) (use client_call_speaks in blast)

lemma discarding_sends [makes_rules]: "makes p C \<Longrightarrow> makes (discarding p) C"
  unfolding discarding_def by (intro makes_rules makes_steps)

lemma adapters_speak:
  assumes "cc_userId ctx = u" "cc_correlationId ctx = c"
  shows "makes (issue_adapter op body qs ctx) (speaks_for u c)"
    and "makes (planning_adapter pop body ctx) (speaks_for u c)"
    and "makes (project_adapter jop body ctx) (speaks_for u c)"
    and "makes (notification_adapter nop ctx) (speaks_for u c)"
proof -
  show "makes (issue_adapter op body qs ctx) (speaks_for u c)"
    by (cases op; simp only: issue_adapter.simps Let_def; intro makes_rules assms)
  show "makes (planning_adapter pop body ctx) (speaks_for u c)"
    by (cases pop; simp only: planning_adapter.simps; intro makes_rules assms)
  show "makes (project_adapter jop body ctx) (speaks_for u c)"
    by (cases jop; simp only: project_adapter.simps; intro makes_rules assms)
  show "makes (notification_adapter nop ctx) (speaks_for u c)"
    by (cases nop; simp only: notification_adapter.simps; intro makes_rules assms)
qed

lemma projects_service_speaks: "makes (projects_service op body (Some u) c) (speaks_for (Some u) c)"
proof -
  have "makes (andThen (checked (projects_context (Some u) c)) f) (speaks_for (Some u) c)"
    if "\<And>ctx. cc_userId ctx = Some u \<Longrightarrow> cc_correlationId ctx = c \<Longrightarrow> makes (f ctx) (speaks_for (Some u) c)" for f
  proof (cases "u = []")
    case False
    then have "andThen (checked (projects_context (Some u) c)) f = f \<lparr>cc_userId = Some u, cc_correlationId = c\<rparr>"
      by (intro ext) (simp add: andThen_def projects_context_def)
    then show ?thesis using that by simp
  next
    case True
    then have "andThen (checked (projects_context (Some u) c)) f =
        throwing (AppException 401 ''UNAUTHORIZED'' ''Authentication token is required'' [])"
      by (intro ext) (simp add: andThen_def projects_context_def)
    then show ?thesis by (simp add: makes_rules)
  qed
  note h = this
  have "makes (addWorkspaceMember_limited ws body ctx) (speaks_for (Some u) c)"
    if "cc_userId ctx = Some u" "cc_correlationId ctx = c" for ws ctx
    unfolding addWorkspaceMember_limited_def by (intro makes_rules makes_steps adapters_speak that)
  then show ?thesis by (cases op; simp only: projects_service.simps; intro h adapters_speak)
qed

section \<open>The guard\<close>

definition accepted_token :: "js_object \<Rightarrow> string \<Rightarrow> gateway_env \<Rightarrow> bool" where
  "accepted_token headers u e \<longleftrightarrow>
     (\<exists>token n payload.
        extractBearerToken (js_get headers ''authorization'') = Some token \<and>
        ge_verify e n (variable_or ''JWT_SECRET'' [] e) (variable_or ''JWT_ISSUER'' ''jira-like-iam'' e)
          (variable_or ''JWT_AUDIENCE'' ''jira-like-api'' e) token = TokenPayload payload \<and>
        js_get (object_or_empty payload) ''sub'' = Str u)"

lemma toGatewayUser_Inr:
  "toGatewayUser payload = Inr user \<Longrightarrow>
     js_get (object_or_empty payload) ''sub'' = Str (gu_id user) \<and> gu_userId user = gu_id user"
  by (auto simp: toGatewayUser_def Let_def split: jsval.splits option.splits)

lemma canActivate_Inr:
  assumes "canActivate headers e w = (Inr user, v)"
  shows "accepted_token headers (gu_id user) e" and "gu_userId user = gu_id user"
proof -
  obtain token where t: "extractBearerToken (js_get headers ''authorization'') = Some token"
    using assms by (auto simp: canActivate_def split: option.splits)
  let ?o = "ge_verify e (gw_tick w) (variable_or ''JWT_SECRET'' [] e) (variable_or ''JWT_ISSUER'' ''jira-like-iam'' e)
          (variable_or ''JWT_AUDIENCE'' ''jira-like-api'' e) token"
  obtain payload where p: "?o = TokenPayload payload" "toGatewayUser payload = Inr user"
    using assms t by (auto simp: canActivate_def andThen_def verify_token_def split: token_check.splits sum.splits)
  show "accepted_token headers (gu_id user) e"
    unfolding accepted_token_def using t p(1) toGatewayUser_Inr [OF p(2)] by blast
  show "gu_userId user = gu_id user" using toGatewayUser_Inr [OF p(2)] by simp
qed

text \<open>The routes behind the guard of their controller.\<close>

fun needs_token :: "gateway_route \<Rightarrow> bool" where
  "needs_token (GwIssues op) = True"
| "needs_token (GwPlanning op) = True"
| "needs_token (GwProjects op) = True"
| "needs_token (GwNotifications op) = True"
| "needs_token GwProtected = True"
| "needs_token (GwAuth op) = (op = Me)"
| "needs_token r = False"

lemma guarded_makes:
  assumes "\<And>user e. accepted_token (gr_headers rq) (gu_id user) e \<Longrightarrow> gu_userId user = gu_id user \<Longrightarrow>
    makes (handler user) (speaks_for (Some (gu_id user)) c)"
  shows "makes (guarded rq handler) (\<lambda>e call. \<exists>u. accepted_token (gr_headers rq) u e \<and> speaks_for (Some u) c e call)"
proof (rule makesI)
  fix e w r w' assume run: "guarded rq handler e w = (r, w')"
  obtain s v where s: "canActivate (gr_headers rq) e w = (s, v)" by (cases "canActivate (gr_headers rq) e w") auto
  obtain new where g: "gw_calls v = gw_calls w" "gw_redis v = gw_redis w @ new"
  proof -
    have "makes (canActivate (gr_headers rq)) (\<lambda>_ _. False)" by (rule makes_guard)
    then obtain cs new where h: "gw_calls v = gw_calls w @ cs" "\<And>c. c \<in> set cs \<Longrightarrow> False" "gw_redis v = gw_redis w @ new"
      using s by (rule makesE) blast
    have "cs = []" using h(2) by (cases cs) auto
    then show thesis using h that by simp
  qed
  show "(\<exists>cs. gw_calls w' = gw_calls w @ cs \<and>
         (\<forall>call\<in>set cs. \<exists>u. accepted_token (gr_headers rq) u e \<and> speaks_for (Some u) c e call)) \<and>
       (\<exists>new. gw_redis w' = gw_redis w @ new)"
  proof (cases s)
    case (Inl x)
    then show ?thesis using run s g by (auto simp: guarded_def andThen_def)
  next
    case (Inr user)
    then have h: "handler user e v = (r, w')" using run s by (simp add: guarded_def andThen_def)
    note a = canActivate_Inr [OF s [unfolded Inr]]
    obtain cs new' where "gw_calls w' = gw_calls v @ cs" "\<And>call. call \<in> set cs \<Longrightarrow> speaks_for (Some (gu_id user)) c e call"
      "gw_redis w' = gw_redis v @ new'"
      using assms [OF a] h by (rule makesE) blast
    then show ?thesis using g a(1) by auto
  qed
qed

lemma dispatch_speaks:
  assumes "needs_token r"
  shows "makes (gateway_dispatch r rq c)
     (\<lambda>e call. \<exists>u. accepted_token (gr_headers rq) u e \<and> speaks_for (Some u) c e call)"
proof (cases r)
  case (GwAuth op)
  have "makes (guarded rq (\<lambda>user. returning (Obj [(''user'', user_json user)])))
      (\<lambda>e call. \<exists>u. accepted_token (gr_headers rq) u e \<and> speaks_for (Some u) c e call)"
    by (rule guarded_makes) (rule makes_basic)
  then show ?thesis using assms GwAuth by (simp add: guarded_def)
qed (use assms in \<open>simp_all add: guarded_makes makes_basic adapters_speak projects_service_speaks user_context_def
      gateway_issues_controller_def gateway_planning_controller_def gateway_projects_controller_def
      gateway_notifications_controller_def\<close>)

section \<open>One request\<close>

lemma handler_outcome_Inr: "\<exists>a w'. handler_outcome rq c e w = (Inr a, w')"
  unfolding handler_outcome_def catching_def by (simp split: prod.split sum.split)

lemma gateway_handle_run:
  assumes "gateway_handle rq e w = (r, w')"
  obtains cid v answer where "getCorrelationId (gr_headers rq) e (w\<lparr>gw_set_cookie := []\<rparr>) = (Inr cid, v)"
    "handler_outcome rq cid e v = (Inr answer, w')"
    "r = Inr \<lparr>gs_status = fst answer, gs_body = snd answer, gs_correlation = cid, gs_cookies = gw_set_cookie w'\<rparr>"
    "gw_calls v = gw_calls w" "gw_redis v = gw_redis w" "gw_set_cookie v = []"
proof -
  let ?w = "w\<lparr>gw_set_cookie := []\<rparr>"
  have "\<exists>cid v. getCorrelationId (gr_headers rq) e ?w = (Inr cid, v) \<and>
      gw_calls v = gw_calls w \<and> gw_redis v = gw_redis w \<and> gw_set_cookie v = []"
    by (auto simp: getCorrelationId_def andThen_def gateway_uuid_def split: jsval.split)
  then obtain cid v where c: "getCorrelationId (gr_headers rq) e ?w = (Inr cid, v)"
      "gw_calls v = gw_calls w" "gw_redis v = gw_redis w" "gw_set_cookie v = []" by blast
  obtain answer v' where o: "handler_outcome rq cid e v = (Inr answer, v')"
    using handler_outcome_Inr by blast
  show thesis
    by (rule that [OF c(1)]) (use assms c o in \<open>auto simp: gateway_handle_def andThen_def fresh_reply_def reply_cookies_def\<close>)
qed

lemma handle_makes:
  assumes run: "gateway_handle rq e w = (r, w')"
    and d: "\<And>rt cid. gateway_route_of rq = Some rt \<Longrightarrow> makes (gateway_dispatch rt rq cid) (C cid)"
  obtains resp cs new where "r = Inr resp" "gw_calls w' = gw_calls w @ cs"
    "\<And>call. call \<in> set cs \<Longrightarrow> C (gs_correlation resp) e call" "gw_redis w' = gw_redis w @ new"
proof -
  obtain cid v answer where h: "handler_outcome rq cid e v = (Inr answer, w')"
    "r = Inr \<lparr>gs_status = fst answer, gs_body = snd answer, gs_correlation = cid, gs_cookies = gw_set_cookie w'\<rparr>"
    "gw_calls v = gw_calls w" "gw_redis v = gw_redis w"
    using run by (rule gateway_handle_run) blast
  have "makes (handler_outcome rq cid) (C cid)"
    unfolding handler_outcome_def by (auto split: option.split intro!: makes_basic makes_steps d)
  then obtain cs new where "gw_calls w' = gw_calls v @ cs" "\<And>call. call \<in> set cs \<Longrightarrow> C cid e call" "gw_redis w' = gw_redis v @ new"
    using h(1) by (rule makesE) blast
  then show thesis using h that by auto
qed

end
