(* ===== verification/Gateway_Limits.thy ===== *)
theory Gateway_Limits
  imports Gateway_Guarantees
begin

text \<open>
  How often the limiter lets requests through: a sequence of requests to the gateway, what
  Redis promises about a counter, and the counting argument the limits share.
\<close>

section \<open>Sequences of requests\<close>

text \<open>Every request with its response and the calls it made to the services.\<close>

fun gateway_run ::
    "gateway_request list \<Rightarrow> gateway_env \<Rightarrow> gateway_world
       \<Rightarrow> (gateway_request \<times> gateway_response \<times> gateway_call list) list \<times> gateway_world" where
  "gateway_run [] e w = ([], w)"
| "gateway_run (rq # rqs) e w =
     (case gateway_handle rq e w of
        (r, v) \<Rightarrow>
          (case gateway_run rqs e v of
             (out, w') \<Rightarrow>
               ((case r of Inl _ \<Rightarrow> [] | Inr resp \<Rightarrow> [(rq, resp, drop (length (gw_calls w)) (gw_calls v))]) @ out, w')))"

definition redis_since :: "gateway_world \<Rightarrow> gateway_world \<Rightarrow> redis_log" where
  "redis_since w w' = drop (length (gw_redis w)) (gw_redis w')"

lemma handle_grows: "gateway_handle rq e w = (r, w') \<Longrightarrow> \<exists>new resp. gw_redis w' = gw_redis w @ new \<and> r = Inr resp"
proof -
  have d: "makes (gateway_dispatch rt rq cid) (\<lambda>_ _. True)" for rt cid
  proof -
    have f: "makes (forward opts m p b ctx) (\<lambda>_ _. True)" for opts m p b ctx by (rule makes_forward) simp
    have iam: "makes (iam_register b c) (\<lambda>_ _. True)" "makes (iam_login b c) (\<lambda>_ _. True)" "makes (iam_refresh b c) (\<lambda>_ _. True)"
      "makes (iam_logout b c) (\<lambda>_ _. True)" for b c
      unfolding iam_register_def iam_login_def iam_refresh_def iam_logout_def forwardToIam_def by (rule f)+
    have any: "makes p (speaks_for u c) \<Longrightarrow> makes p (\<lambda>_ _. True)" for p :: "'a gateway" and u c
      unfolding makes_def by blast
    have check: "makes (checkService t) (\<lambda>_ _. True)" for t
      unfolding checkService_def Let_def by (intro makes_basic makes_small makes_fetch makes_steps) auto
    have each: "makes (each checkService ts) (\<lambda>_ _. True)" for ts
      by (induction ts) (simp_all only: each.simps, (intro makes_rules makes_steps check, assumption?)+)
    have auth: "makes (auth_controller op rq cid) (\<lambda>_ _. True)" for op
      by (cases op; simp only: auth_controller.simps)
        (auto simp: auth_register_def auth_login_def auth_refresh_def auth_logout_def controller_login_def controller_refresh_def
          controller_logout_def finally_do_def discarding_def Let_def split: option.split
          intro!: makes_rules makes_steps iam)
    show ?thesis
    proof (cases rt)
      case (GwAuth op)
      then show ?thesis by (simp add: auth)
    next
      case GwHealth
      show ?thesis unfolding GwHealth gateway_dispatch.simps getGatewayHealth_def by (intro makes_rules makes_steps)
    next
      case GwServicesHealth
      show ?thesis unfolding GwServicesHealth gateway_dispatch.simps getServicesHealth_def
        by (intro makes_rules makes_steps each)
    next
      case (GwIssues op)
      then show ?thesis using dispatch_speaks [of rt rq cid] unfolding makes_def by (simp, blast)
    next
      case (GwPlanning op)
      then show ?thesis using dispatch_speaks [of rt rq cid] unfolding makes_def by (simp, blast)
    next
      case (GwProjects op)
      then show ?thesis using dispatch_speaks [of rt rq cid] unfolding makes_def by (simp, blast)
    next
      case (GwNotifications op)
      then show ?thesis using dispatch_speaks [of rt rq cid] unfolding makes_def by (simp, blast)
    next
      case GwProtected
      then show ?thesis using dispatch_speaks [of rt rq cid] unfolding makes_def by (simp, blast)
    qed
  qed
  show "gateway_handle rq e w = (r, w') \<Longrightarrow> \<exists>new resp. gw_redis w' = gw_redis w @ new \<and> r = Inr resp"
    using handle_makes [where C = "\<lambda>_ _ _. True", OF _ d] by metis
qed

section \<open>What Redis promises\<close>

text \<open>
  Since the log \<open>h0\<close> the key has not expired: an answered \<open>INCR\<close> returns more than the number
  of increments answered since then, and \<open>GET\<close> reads at least that number (other clients can
  only add to it).
\<close>

definition counts_since :: "redis_server \<Rightarrow> string \<Rightarrow> redis_log \<Rightarrow> bool" where
  "counts_since r key h0 \<longleftrightarrow>
     (\<forall>mid c. r_incr r (h0 @ mid) key = Inr c \<longrightarrow> int (counted key mid) < c)"

definition reads_since :: "redis_server \<Rightarrow> string \<Rightarrow> redis_log \<Rightarrow> bool" where
  "reads_since r key h0 \<longleftrightarrow>
     (\<forall>mid v. r_get r (h0 @ mid) key = Inr v \<longrightarrow> int (counted key mid) \<le> (case v of None \<Rightarrow> 0 | Some n \<Rightarrow> n))"

section \<open>The counting argument\<close>

text \<open>
  A request is admitted only when the counter is below \<open>N\<close> and then increments it, unless a
  command of Redis fails.
\<close>

lemma admissions_bounded:
  assumes step: "\<And>rq w resp v mid. \<lbrakk>gw_redis w = h0 @ mid; gateway_handle rq e w = (Inr resp, v);
      admitted (rq, resp, drop (length (gw_calls w)) (gw_calls v))\<rbrakk> \<Longrightarrow>
      1 \<le> failures (redis_since w v) \<or> counted key mid < N \<and> 1 \<le> counted key (redis_since w v)"
    and run: "gateway_run rqs e w = (out, w')" and start: "gw_redis w = h0 @ mid"
  shows "\<exists>new. gw_redis w' = gw_redis w @ new \<and>
     length (filter admitted out) + min N (counted key mid) \<le> min N (counted key (mid @ new)) + failures new"
  using run start
proof (induction rqs arbitrary: w mid out)
  case (Cons rq rqs)
  obtain r v where h: "gateway_handle rq e w = (r, v)" by (cases "gateway_handle rq e w") auto
  obtain a resp where a: "gw_redis v = gw_redis w @ a" "r = Inr resp" using handle_grows [OF h] by blast
  obtain out2 where out2: "gateway_run rqs e v = (out2, w')"
    "out = (rq, resp, drop (length (gw_calls w)) (gw_calls v)) # out2"
    using Cons.prems(1) h a(2) by (auto split: prod.splits)
  obtain b where b: "gw_redis w' = gw_redis v @ b"
    "length (filter admitted out2) + min N (counted key (mid @ a)) \<le> min N (counted key ((mid @ a) @ b)) + failures b"
    using Cons.IH [OF out2(1)] a(1) Cons.prems(2) by auto
  have since: "redis_since w v = a" using a(1) by (simp add: redis_since_def)
  have "(if admitted (rq, resp, drop (length (gw_calls w)) (gw_calls v)) then 1 else 0) + min N (counted key mid)
      \<le> min N (counted key (mid @ a)) + failures a"
    using step [OF Cons.prems(2) h [unfolded a(2)]] since by (auto simp: min_def)
  then show ?case using a(1) b out2(2) by (intro exI [of _ "a @ b"]) (auto split: if_splits)
qed simp

lemma admissions_at_most:
  assumes "\<And>rq w resp v mid. \<lbrakk>gw_redis w = h0 @ mid; gateway_handle rq e w = (Inr resp, v);
      admitted (rq, resp, drop (length (gw_calls w)) (gw_calls v))\<rbrakk> \<Longrightarrow>
      1 \<le> failures (redis_since w v) \<or> counted key mid < N \<and> 1 \<le> counted key (redis_since w v)"
    and "gateway_run rqs e w = (out, w')" and "gw_redis w = h0"
  shows "length (filter admitted out) \<le> N + failures (redis_since w w')"
proof -
  have start: "gw_redis w = h0 @ []" using assms(3) by simp
  have "\<exists>new. gw_redis w' = gw_redis w @ new \<and>
     length (filter admitted out) + min N (counted key []) \<le> min N (counted key ([] @ new)) + failures new"
    by (rule admissions_bounded [OF _ assms(2) start]) (rule assms(1), assumption+)
  then show ?thesis by (auto simp: redis_since_def)
qed

section \<open>Programs that ask the limiter first\<close>

text \<open>A program whose calls are admitted by the counter of the key, or follow a failing command.\<close>

definition admits :: "gateway_env \<Rightarrow> redis_log \<Rightarrow> string \<Rightarrow> nat \<Rightarrow> 'a gateway \<Rightarrow> bool" where
  "admits e h0 key N p \<longleftrightarrow>
     (\<forall>w r v mid. gw_redis w = h0 @ mid \<longrightarrow> p e w = (r, v) \<longrightarrow>
        (\<exists>new. gw_redis v = gw_redis w @ new \<and>
           (gw_calls v = gw_calls w \<or> 1 \<le> failures new \<or> counted key mid < N \<and> 1 \<le> counted key new)))"

lemma admitsI:
  assumes "\<And>w r v mid. \<lbrakk>gw_redis w = h0 @ mid; p e w = (r, v)\<rbrakk> \<Longrightarrow>
      \<exists>new. gw_redis v = gw_redis w @ new \<and>
        (gw_calls v = gw_calls w \<or> 1 \<le> failures new \<or> counted key mid < N \<and> 1 \<le> counted key new)"
  shows "admits e h0 key N p"
  using assms unfolding admits_def by blast

lemma admitsD:
  assumes "admits e h0 key N p" "gw_redis w = h0 @ mid" "p e w = (r, v)"
  shows "\<exists>new. gw_redis v = gw_redis w @ new \<and>
    (gw_calls v = gw_calls w \<or> 1 \<le> failures new \<or> counted key mid < N \<and> 1 \<le> counted key new)"
  using assms unfolding admits_def by blast

lemma quiet_calls:
  assumes "makes p (\<lambda>_ _. False)" "p e w = (r, v)"
  obtains new where "gw_calls v = gw_calls w" "gw_redis v = gw_redis w @ new"
proof -
  obtain cs new where h: "gw_calls v = gw_calls w @ cs" "\<And>c. c \<in> set cs \<Longrightarrow> False" "gw_redis v = gw_redis w @ new"
    using assms by (rule makesE) blast
  then have "cs = []" by (cases cs) auto
  then show thesis using h that by simp
qed

lemma admits_quiet: "makes p (\<lambda>_ _. False) \<Longrightarrow> admits e h0 key N p"
  by (rule admitsI) (erule (1) quiet_calls, blast)

lemma admits_then:
  assumes p: "admits e h0 key N p" and f: "\<And>a. makes (f a) (\<lambda>_ _. False)"
  shows "admits e h0 key N (andThen p f)"
proof (rule admitsI)
  fix w r v mid assume w: "gw_redis w = h0 @ mid" and run: "andThen p f e w = (r, v)"
  obtain s u where s: "p e w = (s, u)" by (cases "p e w") auto
  obtain a where a: "gw_redis u = gw_redis w @ a"
    "gw_calls u = gw_calls w \<or> 1 \<le> failures a \<or> counted key mid < N \<and> 1 \<le> counted key a"
    using admitsD [OF p w s] by blast
  obtain b where b: "gw_redis v = gw_redis u @ b" "gw_calls v = gw_calls u"
  proof (cases s)
    case (Inl x)
    then have "v = u" using run s by (simp add: andThen_def)
    then show thesis using that [of "[]"] by simp
  next
    case (Inr y)
    then have "f y e u = (r, v)" using run s by (simp add: andThen_def)
    from quiet_calls [OF f this] show thesis using that by blast
  qed
  show "\<exists>new. gw_redis v = gw_redis w @ new \<and>
      (gw_calls v = gw_calls w \<or> 1 \<le> failures new \<or> counted key mid < N \<and> 1 \<le> counted key new)"
    using a b by (intro exI [of _ "a @ b"]) auto
qed

lemma admits_catching:
  assumes p: "admits e h0 key N p" and f: "\<And>x. makes (handler x) (\<lambda>_ _. False)"
  shows "admits e h0 key N (catching p handler)"
proof (rule admitsI)
  fix w r v mid assume w: "gw_redis w = h0 @ mid" and run: "catching p handler e w = (r, v)"
  obtain s u where s: "p e w = (s, u)" by (cases "p e w") auto
  obtain a where a: "gw_redis u = gw_redis w @ a"
    "gw_calls u = gw_calls w \<or> 1 \<le> failures a \<or> counted key mid < N \<and> 1 \<le> counted key a"
    using admitsD [OF p w s] by blast
  obtain b where b: "gw_redis v = gw_redis u @ b" "gw_calls v = gw_calls u"
  proof (cases s)
    case (Inr x)
    then have "v = u" using run s by (simp add: catching_def)
    then show thesis using that [of "[]"] by simp
  next
    case (Inl y)
    then have "handler y e u = (r, v)" using run s by (simp add: catching_def)
    from quiet_calls [OF f this] show thesis using that by blast
  qed
  show "\<exists>new. gw_redis v = gw_redis w @ new \<and>
      (gw_calls v = gw_calls w \<or> 1 \<le> failures new \<or> counted key mid < N \<and> 1 \<le> counted key new)"
    using a b by (intro exI [of _ "a @ b"]) auto
qed

lemma admits_hit:
  assumes c: "counts_since (ge_redis e) key h0" and n: "0 \<le> n" and f: "\<And>a. makes (f a) (\<lambda>_ _. True)"
  shows "admits e h0 key N (andThen (hit key (int N) n) (\<lambda>res. andThen (refuse_limited rule res) f))"
proof (rule admitsI)
  fix w r v mid
  assume w: "gw_redis w = h0 @ mid" and run: "andThen (hit key (int N) n) (\<lambda>res. andThen (refuse_limited rule res) f) e w = (r, v)"
  obtain s u where s: "hit key (int N) n e w = (s, u)" by (cases "hit key (int N) n e w") auto
  from s n show "\<exists>new. gw_redis v = gw_redis w @ new \<and>
      (gw_calls v = gw_calls w \<or> 1 \<le> failures new \<or> counted key mid < N \<and> 1 \<le> counted key new)"
  proof (cases rule: hit_cases)
    case (answered res h a)
    have u: "gw_redis u = gw_redis w @ a" "gw_calls u = gw_calls w" using answered(2) by (simp_all add: only_redis_def)
    show ?thesis
    proof (cases "rl_limited res")
      case True
      then have "v = u" using run s answered(1) by (simp add: andThen_def refuse_limited_def)
      then show ?thesis using u by blast
    next
      case False
      have "int (counted key (mid @ h)) < rl_count res"
        using c answered(6) w unfolding counts_since_def by (metis append_assoc)
      then have low: "counted key mid < N" using answered(5,7) False by simp
      have "f () e u = (r, v)" using run s answered(1) False by (simp add: andThen_def refuse_limited_def)
      from makesE [OF f this] obtain b where "gw_redis v = gw_redis u @ b" by blast
      then show ?thesis using u low answered(4) by (intro exI [of _ "a @ b"]) simp
    qed
  next
    case (passed res a)
    have u: "gw_redis u = gw_redis w @ a" using passed(2) by (simp add: only_redis_def)
    have "f () e u = (r, v)" using run s passed(1,5) by (simp add: andThen_def refuse_limited_def)
    from makesE [OF f this] obtain b where "gw_redis v = gw_redis u @ b" by blast
    then show ?thesis using u passed(3) by (intro exI [of _ "a @ b"]) simp
  qed
qed

text \<open>The limits by address: the counter's key and its limit.\<close>

fun address_limit :: "auth_operation \<Rightarrow> string \<Rightarrow> (string \<times> nat) option" where
  "address_limit Register ip = Some (''rate:auth:register:ip:'' @ ip, 5)"
| "address_limit Login ip = Some (''rate:auth:login:ip:'' @ ip, 10)"
| "address_limit Refresh ip = Some (''rate:auth:refresh:ip:'' @ ip, 10)"
| "address_limit _ ip = None"

lemma makes_iam: "makes (forwardToIam path b c) (\<lambda>_ _. True)"
  unfolding forwardToIam_def by (rule makes_forward) simp

lemma limits: "int 5 = 5" "int 10 = 10" "int 20 = 20"
  by simp_all

lemma makes_wrong_password: "makes (case k of None \<Rightarrow> returning () | Some key \<Rightarrow>
    if invalid_credentials x then andThen (hit key 5 300) (\<lambda>_. returning ()) else returning ()) C"
  by (auto split: option.split intro!: makes_rules makes_steps)

lemma admits_login:
  assumes "counts_since (ge_redis e) (''rate:auth:login:ip:'' @ ip) h0"
  shows "admits e h0 (''rate:auth:login:ip:'' @ ip) 10 (auth_login b ip cid)"
  unfolding auth_login_def Let_def
  by (rule admits_hit [where N = 10, unfolded limits, OF assms])
    (auto simp: iam_login_def intro!: makes_rules makes_steps makes_iam makes_wrong_password split: option.split)

lemma admits_register:
  assumes "counts_since (ge_redis e) (''rate:auth:register:ip:'' @ ip) h0"
  shows "admits e h0 (''rate:auth:register:ip:'' @ ip) 5 (auth_register b ip cid)"
  unfolding auth_register_def iam_register_def
  by (rule admits_hit [where N = 5, unfolded limits, OF assms]) (simp_all add: makes_iam)

lemma admits_refresh:
  assumes "counts_since (ge_redis e) (''rate:auth:refresh:ip:'' @ ip) h0"
  shows "admits e h0 (''rate:auth:refresh:ip:'' @ ip) 10 (auth_refresh b cid ip)"
  unfolding auth_refresh_def iam_refresh_def
  by (rule admits_hit [where N = 10, unfolded limits, OF assms]) (simp_all add: makes_iam)

lemma admits_auth:
  assumes l: "address_limit op (clientIp (gr_ip rq)) = Some (key, N)"
    and c: "counts_since (ge_redis e) key h0"
  shows "admits e h0 key N (auth_controller op rq cid)"
proof (cases op)
  case Register
  then have "key = ''rate:auth:register:ip:'' @ clientIp (gr_ip rq)" "N = 5" using l by simp_all
  then show ?thesis using admits_register c Register by (simp only: auth_controller.simps)
next
  case Login
  then have k: "key = ''rate:auth:login:ip:'' @ clientIp (gr_ip rq)" "N = 10" using l by simp_all
  then have "admits e h0 key N (auth_login (gr_body rq) (clientIp (gr_ip rq)) cid)" using admits_login c by blast
  then show ?thesis
    unfolding Login auth_controller.simps controller_login_def by (rule admits_then) (rule makes_cookies)
next
  case Refresh
  then have k: "key = ''rate:auth:refresh:ip:'' @ clientIp (gr_ip rq)" "N = 10" using l by simp_all
  then have "admits e h0 key N (auth_refresh b cid (clientIp (gr_ip rq)))" for b using admits_refresh c by blast
  then show ?thesis
    unfolding Refresh auth_controller.simps controller_refresh_def
    by (auto split: option.split intro!: admits_quiet [OF makes_basic(2)] admits_catching admits_then makes_rules makes_steps)
qed (use l in simp_all)

lemma admits_step:
  assumes "gateway_route_of rq = Some rt" "\<And>cid. admits e h0 key N (gateway_dispatch rt rq cid)"
    and "gw_redis w = h0 @ mid" "gateway_handle rq e w = (Inr resp, v)"
    and "drop (length (gw_calls w)) (gw_calls v) \<noteq> []"
  shows "1 \<le> failures (redis_since w v) \<or> counted key mid < N \<and> 1 \<le> counted key (redis_since w v)"
proof -
  obtain cid u where u: "handler_outcome rq cid e u = (Inr (gs_status resp, gs_body resp), v)"
      "gw_calls u = gw_calls w" "gw_redis u = gw_redis w"
    using assms(4) by (rule gateway_handle_run) auto
  have "admits e h0 key N (handler_outcome rq cid)"
    unfolding handler_outcome_def using assms(1,2) by (auto intro!: admits_catching admits_then makes_basic)
  from admitsD [OF this _ u(1)] obtain new where "gw_redis v = gw_redis u @ new"
    "gw_calls v = gw_calls u \<or> 1 \<le> failures new \<or> counted key mid < N \<and> 1 \<le> counted key new"
    using u(3) assms(3) by metis
  then show ?thesis using assms(5) u by (auto simp: redis_since_def)
qed

section \<open>Guessing a password\<close>

lemma isAtLimit_False:
  assumes g: "reads_since (ge_redis e) key h0" and w: "gw_redis w = h0 @ mid"
    and run: "isAtLimit key (int N) e w = (Inr False, v)"
  shows "\<exists>new. gw_redis v = gw_redis w @ new \<and> (1 \<le> failures new \<or> counted key mid < N)"
proof -
  let ?rest = "\<lambda>_. andThen (redis_get key) (\<lambda>rawCount. returning ((case rawCount of None \<Rightarrow> 0 | Some n \<Rightarrow> n) \<ge> int N))"
  let ?p = "andThen ensureConnected ?rest"
  have c: "commands key (0 + (0 + 0)) ?p"
    by (intro commands_andThen commands_connect commands_redis commands_returning)
  obtain s u where s: "?p e w = (s, u)" by (cases "?p e w") auto
  obtain new where new: "only_redis w u new" "isl s \<Longrightarrow> failures new = 1"
    using commandsE [OF c s] by metis
  have v: "v = u" using run s by (cases s) (auto simp: isAtLimit_def catching_def)
  then have ext: "gw_redis v = gw_redis w @ new" using new(1) by (simp add: only_redis_def)
  show ?thesis
  proof (cases s)
    case (Inl x)
    then show ?thesis using ext new(2) by auto
  next
    case (Inr b)
    then have "\<not> b" using run s by (simp add: isAtLimit_def catching_def)
    obtain u1 where u1: "ensureConnected e w = (Inr (), u1)" and rest: "?rest () e u1 = (Inr b, u)"
      using s Inr by (auto simp: andThen_Inr)
    obtain a where a: "only_redis w u1 a" "counted key a = 0"
      using commandsE [OF commands_connect [of key] u1] by auto
    obtain val where val: "r_get (ge_redis e) (gw_redis u1) key = Inr val" "(case val of None \<Rightarrow> 0 | Some n \<Rightarrow> n) < int N"
      using rest \<open>\<not> b\<close> by (auto simp: andThen_def redis_get_def redis_do_def split: sum.splits)
    have "int (counted key (mid @ a)) \<le> (case val of None \<Rightarrow> 0 | Some n \<Rightarrow> n)"
      using g val(1) a(1) w unfolding reads_since_def only_redis_def by (metis append_assoc gateway_world.select_convs(2) gateway_world.surjective gateway_world.update_convs(2))
    then show ?thesis using ext val(2) a(2) by auto
  qed
qed

definition email_key :: "string \<Rightarrow> string" where
  "email_key email = ''rate:auth:login:email:'' @ email"

lemma auth_login_email:
  "emailFromBody b = Some email \<Longrightarrow>
   auth_login b ip cid =
     andThen (hit (''rate:auth:login:ip:'' @ ip) 10 60) (\<lambda>ipLimit.
     andThen (refuse_limited ''login_ip'' ipLimit) (\<lambda>_.
     andThen (isAtLimit (email_key email) 5) (\<lambda>atLimit.
     if atLimit then throwing (rateLimited ''login_email'' 5 5 300)
     else
       catching (iam_login b cid) (\<lambda>error.
         andThen (if invalid_credentials error then andThen (hit (email_key email) 5 300) (\<lambda>_. returning ()) else returning ())
           (\<lambda>_. throwing error)))))"
  by (simp only: auth_login_def Let_def email_key_def option.map option.case cong: if_cong)

lemma makes_extends:
  assumes "makes p C" "p e w = (r, v)"
  obtains new where "gw_redis v = gw_redis w @ new"
  using makesE [OF assms] by blast

lemma login_guess:
  assumes email: "emailFromBody b = Some email" and g: "reads_since (ge_redis e) (email_key email) h0"
    and w: "gw_redis w = h0 @ mid" and run: "auth_login b ip cid e w = (Inl x, v)" and x: "invalid_credentials x"
  shows "\<exists>new. gw_redis v = gw_redis w @ new \<and>
    (1 \<le> failures new \<or> counted (email_key email) mid < 5 \<and> 1 \<le> counted (email_key email) new)"
proof -
  let ?k = "email_key email"
  have no: "\<not> invalid_credentials (rateLimited r l c t)" for r l c t
    by (simp add: invalid_credentials_def rateLimited_def)
  obtain s w1 where h: "hit (''rate:auth:login:ip:'' @ ip) 10 60 e w = (s, w1)"
    by (cases "hit (''rate:auth:login:ip:'' @ ip) 10 60 e w") auto
  obtain res where res: "s = Inr res" using h by (rule hit_cases) auto
  obtain a where a: "gw_redis w1 = gw_redis w @ a" using makes_extends [OF makes_hit(1) h] by blast
  have lim: "\<not> rl_limited res"
    using run h x no unfolding auth_login_email [OF email] by (auto simp: res andThen_def refuse_limited_def)
  obtain bl w2 where at: "isAtLimit ?k 5 e w1 = (Inr bl, w2)"
    by (cases "isAtLimit ?k 5 e w1") (auto elim: isAtLimit_log)
  have rest: "(if bl then throwing (rateLimited ''login_email'' 5 5 300)
     else catching (iam_login b cid) (\<lambda>error.
         andThen (if invalid_credentials error then andThen (hit ?k 5 300) (\<lambda>_. returning ()) else returning ())
           (\<lambda>_. throwing error))) e w2 = (Inl x, v)"
    using run h at lim unfolding auth_login_email [OF email] by (simp add: res andThen_def refuse_limited_def)
  have nb: "\<not> bl" using rest x no by (auto split: if_splits)
  obtain b1 where b1: "gw_redis w2 = gw_redis w1 @ b1" "1 \<le> failures b1 \<or> counted ?k (mid @ a) < 5"
    using isAtLimit_False [OF g, of w1 "mid @ a" 5 w2] at nb a w limits by auto
  obtain s2 w3 where iam: "iam_login b cid e w2 = (s2, w3)" by (cases "iam_login b cid e w2") auto
  have same: "gw_redis w3 = gw_redis w2"
    using iam by (auto simp: iam_login_def forwardToIam_def forward_run)
  obtain y where y: "s2 = Inl y" using rest nb iam by (cases s2) (auto simp: catching_def)
  obtain t w4 where t: "hit ?k 5 300 e w3 = (t, w4)" by (cases "hit ?k 5 300 e w3") auto
  have yx: "y = x \<and> v = w4"
  proof -
    obtain tres where "t = Inr tres" using t by (rule hit_cases) auto
    then show ?thesis using rest nb iam y t x by (auto simp: catching_def andThen_def split: if_splits)
  qed
  obtain c1 where c1: "gw_redis w4 = gw_redis w3 @ c1" "1 \<le> failures c1 \<or> 1 \<le> counted ?k c1"
    using t by (rule hit_cases) (auto simp: only_redis_def)
  show ?thesis using a b1 c1 same yx by (intro exI [of _ "a @ b1 @ c1"]) auto
qed

text \<open>The login handler only throws the gateway's own errors, with a status that is not 2xx.\<close>

definition own_error :: "gateway_error \<Rightarrow> bool" where
  "own_error x \<longleftrightarrow> (\<exists>st c m d. x = AppException st c m d \<and> \<not> (200 \<le> st \<and> st < 300))"

lemma own_errors [simp]:
  "own_error (AppException st c m d) = (\<not> (200 \<le> st \<and> st < 300))" "own_error invalid_iam_response"
  "own_error (rateLimited r l n t)"
  by (simp_all add: own_error_def invalid_iam_response_def rateLimited_def)

lemma raises_hit: "raises e (hit k l n) X" "raises e (isAtLimit k l) X"
  unfolding hit_def isAtLimit_def by (intro raises_catching; simp)+

lemma raises_refuse: "(\<And>r l n t. X (rateLimited r l n t)) \<Longrightarrow> raises e (refuse_limited rule res) X"
  by (simp add: refuse_limited_def)

lemma raises_forward: "raises e (forward opts m p b ctx) own_error"
  by (auto simp: raises_def forward_run client_result_def Let_def split: fetch_reply.splits if_splits)

lemma raises_login: "raises e (auth_login b ip cid) own_error"
proof -
  have h: "raises e (case k of None \<Rightarrow> returning () | Some key \<Rightarrow>
      if invalid_credentials x then andThen (hit key 5 300) (\<lambda>_. returning ()) else returning ()) own_error" for k x
    by (cases k) (simp_all add: raises_andThen raises_hit)
  have i: "raises e (catching (iam_login b cid) (\<lambda>x. andThen (case k of None \<Rightarrow> returning () | Some key \<Rightarrow>
      if invalid_credentials x then andThen (hit key 5 300) (\<lambda>_. returning ()) else returning ()) (\<lambda>_. throwing x))) own_error" for k
    by (rule raises_catching_some [where X = own_error])
      (simp_all add: iam_login_def forwardToIam_def raises_forward raises_andThen h)
  have l: "raises e (case k of None \<Rightarrow> returning False | Some key \<Rightarrow> isAtLimit key 5) own_error" for k
    by (cases k) (simp_all add: raises_hit)
  show ?thesis
    unfolding auth_login_def Let_def
    by (intro raises_andThen raises_hit raises_refuse l) (simp_all only: own_errors raises_basic i split: if_split, simp)
qed

lemma cookie_error: "withRefreshCookie a e w = (Inl x, v) \<Longrightarrow> x = invalid_iam_response"
  by (auto simp: withRefreshCookie_def setRefreshCookie_def set_cookie_def andThen_def split: jsval.splits if_splits)

text \<open>A guess: a login for the e-mail address that IAM answered with wrong credentials.\<close>

definition wrong_guess :: "string \<Rightarrow> gateway_request \<times> gateway_response \<times> gateway_call list \<Rightarrow> bool" where
  "wrong_guess email x \<longleftrightarrow>
     (case x of (rq, resp, calls) \<Rightarrow>
        gateway_route_of rq = Some (GwAuth Login) \<and> emailFromBody (gr_body rq) = Some email \<and>
        gs_status resp \<noteq> 200 \<and> js_get (object_or_empty (gs_body resp)) ''code'' = Str ''INVALID_CREDENTIALS'')"

lemma guess_step:
  assumes g: "reads_since (ge_redis e) (email_key email) h0" and w: "gw_redis w = h0 @ mid"
    and run: "gateway_handle rq e w = (Inr resp, v)" and guess: "wrong_guess email (rq, resp, calls)"
  shows "1 \<le> failures (redis_since w v) \<or>
    counted (email_key email) mid < 5 \<and> 1 \<le> counted (email_key email) (redis_since w v)"
proof -
  obtain cid u where u: "handler_outcome rq cid e u = (Inr (gs_status resp, gs_body resp), v)" "gw_redis u = gw_redis w"
    using run by (rule gateway_handle_run) auto
  have r: "gateway_route_of rq = Some (GwAuth Login)" and m: "emailFromBody (gr_body rq) = Some email"
    and st: "gs_status resp \<noteq> 200" and code: "js_get (object_or_empty (gs_body resp)) ''code'' = Str ''INVALID_CREDENTIALS''"
    using guess by (simp_all add: wrong_guess_def)
  obtain x where x: "andThen (controller_login (gr_body rq) (gr_ip rq) cid) (\<lambda>body. returning (200, body)) e u = (Inl x, v)"
    "ApiExceptionFilter x cid = (gs_status resp, gs_body resp)"
    using u(1) st by (auto simp: handler_outcome_def r catching_def andThen_def split: prod.splits sum.splits)
  have c: "controller_login (gr_body rq) (gr_ip rq) cid e u = (Inl x, v)"
    using x(1) by (auto simp: andThen_Inl)
  have own: "x = invalid_iam_response \<or> auth_login (gr_body rq) (clientIp (gr_ip rq)) cid e u = (Inl x, v)"
    using c cookie_error unfolding controller_login_def andThen_Inl by blast
  have "ae_code (toApiError x) = ''INVALID_CREDENTIALS''"
  proof -
    have "gs_body resp = Obj [(''code'', Str (ae_code (toApiError x))), (''message'', Str (ae_message (toApiError x))),
        (''correlationId'', Str cid), (''details'', Obj (ae_details (toApiError x)))]"
      using x(2) by (simp add: ApiExceptionFilter_def Let_def)
    then show ?thesis using code by (simp add: object_or_empty_def)
  qed
  then have failed: "auth_login (gr_body rq) (clientIp (gr_ip rq)) cid e u = (Inl x, v)"
    using own by (auto simp: invalid_iam_response_def toApiError_def)
  then obtain st c m d where "x = AppException st c m d"
    using raises_login unfolding raises_def own_error_def by blast
  then have "invalid_credentials x"
    using \<open>ae_code (toApiError x) = ''INVALID_CREDENTIALS''\<close> by (simp add: toApiError_def invalid_credentials_def)
  then obtain new where "gw_redis v = gw_redis u @ new"
    "1 \<le> failures new \<or> counted (email_key email) mid < 5 \<and> 1 \<le> counted (email_key email) new"
    using login_guess [OF m g, of u mid] failed w u(2) by metis
  then show ?thesis using u(2) by (simp add: redis_since_def)
qed

end
