(* ===== verification/Gateway_Routing.thy ===== *)
theory Gateway_Routing
  imports Gateway_Guarantees Issue_System
begin

text \<open>
  The gateway in front of the issue service: the path of every adapter method, split by the
  other side's router, names the same operation with the same decoded identifier, and the
  headers carry the identity the issue service reads.
\<close>

section \<open>Paths\<close>

definition path_of_segments :: "string list \<Rightarrow> string" where
  "path_of_segments ss = concat (map ((#) (CHR ''/'')) ss)"

lemma takeWhile_path:
  "\<lbrakk>CHR ''?'' \<notin> set p; tail = [] \<or> hd tail = CHR ''?''\<rbrakk> \<Longrightarrow> path_of_url (p @ tail) = p"
  by (cases tail) (auto simp: path_of_url_def takeWhile_tail takeWhile_eq_all_conv)

lemma split_path:
  "\<forall>s\<in>set ss. CHR ''/'' \<notin> set s \<Longrightarrow> split_on (CHR ''/'') (path_of_segments ss) = [] # ss"
proof -
  have "\<forall>s\<in>set ss. CHR ''/'' \<notin> set s \<Longrightarrow> CHR ''/'' \<notin> set a \<Longrightarrow>
      split_on (CHR ''/'') (a @ path_of_segments ss) = a # ss" for a
    by (induction ss arbitrary: a) (auto simp: path_of_segments_def split_on_none split_on_append)
  then show "\<forall>s\<in>set ss. CHR ''/'' \<notin> set s \<Longrightarrow> split_on (CHR ''/'') (path_of_segments ss) = [] # ss"
    by (metis append_Nil empty_iff empty_set)
qed

lemma segments_of_path:
  assumes "\<forall>s\<in>set ss. CHR ''/'' \<notin> set s \<and> CHR ''?'' \<notin> set s" "tail = [] \<or> hd tail = CHR ''?''"
  shows "segments_of_url (path_of_segments ss @ tail) = ss"
proof -
  have "CHR ''?'' \<notin> set (path_of_segments ss)" using assms(1) by (auto simp: path_of_segments_def)
  then show ?thesis using assms by (simp add: segments_of_url_def takeWhile_path split_path)
qed

lemma without_dots_none:
  "\<lbrakk>ss \<noteq> []; ''.'' \<notin> set ss; ''..'' \<notin> set ss\<rbrakk> \<Longrightarrow> without_dots acc ss = rev acc @ ss"
  by (induction acc ss rule: without_dots.induct) auto

lemma encoded_dots: "encodeURIComponent x \<in> {''.'', ''..''} \<longleftrightarrow> x \<in> {''.'', ''..''}"
proof -
  have "encodeURIComponent ''.'' = ''.''" "encodeURIComponent ''..'' = ''..''"
    by (simp_all add: encodeURIComponent_def url_unreserved_def code_def)
  then show ?thesis by (metis decode_encodeURIComponent insert_iff option.inject singletonD)
qed

text \<open>An identifier a path can carry: what the routers match and the URL parser leaves alone.\<close>

definition addressable :: "string \<Rightarrow> bool" where
  "addressable x \<longleftrightarrow> x \<noteq> [] \<and> x \<noteq> ''.'' \<and> x \<noteq> ''..'' \<and> length (encodeURIComponent x) \<le> 100"

lemma addressableD:
  assumes "addressable x"
  shows "encodeURIComponent x \<noteq> []" "encodeURIComponent x \<noteq> ''.''" "encodeURIComponent x \<noteq> ''..''"
    "length (encodeURIComponent x) \<le> 100"
proof -
  show "encodeURIComponent x \<noteq> []"
    using assms decode_encodeURIComponent [of x] by (auto simp: addressable_def)
  show "encodeURIComponent x \<noteq> ''.''" "encodeURIComponent x \<noteq> ''..''" "length (encodeURIComponent x) \<le> 100"
    using assms encoded_dots [of x] by (auto simp: addressable_def)
qed

lemma route_of_segments:
  assumes "find_route issue_service_routes m ss = Some r" "ss \<noteq> []"
    and "\<forall>s\<in>set ss. CHR ''/'' \<notin> set s \<and> CHR ''?'' \<notin> set s \<and> s \<noteq> ''.'' \<and> s \<noteq> ''..''"
    and "tail = [] \<or> hd tail = CHR ''?''"
  shows "issue_service_route m (path_of_segments ss @ tail) = r"
proof -
  have "segments_of_url (path_of_segments ss @ tail) = ss" using assms by (intro segments_of_path) auto
  moreover have "without_dots [] ss = ss" using assms without_dots_none [of ss "[]"] by auto
  ultimately show ?thesis using assms(1) by (simp add: issue_service_route_def)
qed

lemmas route_tables = issue_service_routes_def issues_controller_routes_def planning_controller_routes_def

lemma three_segments:
  assumes "addressable x" "a \<in> {''projects'', ''issues'', ''epics'', ''sprints''}"
    and "find_route issue_service_routes m [''internal'', a, encodeURIComponent x] = Some r"
  shows "issue_service_route m (''/internal/'' @ a @ ''/'' @ encodeURIComponent x) = r"
proof -
  have "issue_service_route m (path_of_segments [''internal'', a, encodeURIComponent x] @ []) = r"
    by (rule route_of_segments) (use assms addressableD [OF assms(1)] encoded_has_no_separator [of x] in auto)
  then show ?thesis by (simp add: path_of_segments_def)
qed

lemma four_segments:
  assumes "addressable x" "a \<in> {''projects'', ''issues'', ''epics'', ''sprints''}"
    and "b \<in> {''issues'', ''assignee'', ''transitions'', ''comments'', ''history'', ''epics'', ''sprints'', ''complete''}"
    and "tail = [] \<or> hd tail = CHR ''?''"
    and "find_route issue_service_routes m [''internal'', a, encodeURIComponent x, b] = Some r"
  shows "issue_service_route m (''/internal/'' @ a @ ''/'' @ encodeURIComponent x @ ''/'' @ b @ tail) = r"
proof -
  have "issue_service_route m (path_of_segments [''internal'', a, encodeURIComponent x, b] @ tail) = r"
    by (rule route_of_segments) (use assms addressableD [OF assms(1)] encoded_has_no_separator [of x] in auto)
  then show ?thesis by (simp add: path_of_segments_def)
qed

section \<open>Deliveries\<close>

text \<open>
  The request the issue service sees for a call of the gateway to its base address \<open>base\<close>;
  \<open>parse\<close> is the framework's parser of the query string.
\<close>

definition arriving_request :: "string \<Rightarrow> (string \<Rightarrow> jsval) \<Rightarrow> string \<Rightarrow> gateway_call \<Rightarrow> server_request" where
  "arriving_request base parse request_id c =
     (let path = drop (length base) (gc_url c) in
      \<lparr>rq_url = path, rq_route = issue_service_route (gc_method c) path,
       rq_headers = map (\<lambda>(n, v). (n, Str v)) (gc_headers c),
       rq_query = parse (query_of_url path),
       rq_body = (case gc_body c of None \<Rightarrow> Undefined | Some b \<Rightarrow> b), rq_id = request_id\<rparr>)"

lemma delivered_header: "js_get (rq_headers (arriving_request base parse i c)) name =
    (case header_of c name of None \<Rightarrow> Undefined | Some v \<Rightarrow> Str v)"
proof -
  have "js_get (map (\<lambda>(n, v). (n, Str v)) hs) name = (case map_of hs name of None \<Rightarrow> Undefined | Some v \<Rightarrow> Str v)" for hs
    by (induction hs) (auto simp: js_get_def)
  then show ?thesis by (simp add: arriving_request_def header_of_def Let_def)
qed

text \<open>What an adapter sends: method and path.\<close>

fun issue_path :: "issue_route \<Rightarrow> string \<Rightarrow> http_method \<times> string" where
  "issue_path (CreateIssue p) qs = (POST, ''/internal/projects/'' @ encoded p @ ''/issues'')"
| "issue_path (ListIssues p) qs =
     (GET, ''/internal/projects/'' @ encoded p @ ''/issues'' @ (if qs \<noteq> [] then ''?'' @ qs else []))"
| "issue_path (GetIssue i) qs = (GET, ''/internal/issues/'' @ encoded i)"
| "issue_path (UpdateIssue i) qs = (PATCH, ''/internal/issues/'' @ encoded i)"
| "issue_path (AssignIssue i) qs = (PATCH, ''/internal/issues/'' @ encoded i @ ''/assignee'')"
| "issue_path (TransitionIssue i) qs = (POST, ''/internal/issues/'' @ encoded i @ ''/transitions'')"
| "issue_path (AddComment i) qs = (POST, ''/internal/issues/'' @ encoded i @ ''/comments'')"
| "issue_path (ListComments i) qs = (GET, ''/internal/issues/'' @ encoded i @ ''/comments'')"
| "issue_path (ListHistory i) qs = (GET, ''/internal/issues/'' @ encoded i @ ''/history'')"

fun subject_of :: "issue_route \<Rightarrow> string" where
  "subject_of (CreateIssue p) = p"
| "subject_of (ListIssues p) = p"
| "subject_of (GetIssue i) = i"
| "subject_of (UpdateIssue i) = i"
| "subject_of (AssignIssue i) = i"
| "subject_of (TransitionIssue i) = i"
| "subject_of (AddComment i) = i"
| "subject_of (ListComments i) = i"
| "subject_of (ListHistory i) = i"

fun planning_path :: "planning_route \<Rightarrow> http_method \<times> string" where
  "planning_path (ListEpics p) = (GET, ''/internal/projects/'' @ encoded p @ ''/epics'')"
| "planning_path (CreateEpic p) = (POST, ''/internal/projects/'' @ encoded p @ ''/epics'')"
| "planning_path (UpdateEpic i) = (PATCH, ''/internal/epics/'' @ encoded i)"
| "planning_path (ListSprints p) = (GET, ''/internal/projects/'' @ encoded p @ ''/sprints'')"
| "planning_path (CreateSprint p) = (POST, ''/internal/projects/'' @ encoded p @ ''/sprints'')"
| "planning_path (CompleteSprint i) = (POST, ''/internal/sprints/'' @ encoded i @ ''/complete'')"

fun planning_subject :: "planning_route \<Rightarrow> string" where
  "planning_subject (ListEpics p) = p"
| "planning_subject (CreateEpic p) = p"
| "planning_subject (UpdateEpic i) = i"
| "planning_subject (ListSprints p) = p"
| "planning_subject (CreateSprint p) = p"
| "planning_subject (CompleteSprint i) = i"

lemma tables_match:
  assumes "addressable x"
  shows "find_route issue_service_routes POST [''internal'', ''projects'', encoded x, ''issues''] = Some (Issues (CreateIssue x))"
    "find_route issue_service_routes GET [''internal'', ''projects'', encoded x, ''issues''] = Some (Issues (ListIssues x))"
    "find_route issue_service_routes GET [''internal'', ''issues'', encoded x] = Some (Issues (GetIssue x))"
    "find_route issue_service_routes PATCH [''internal'', ''issues'', encoded x] = Some (Issues (UpdateIssue x))"
    "find_route issue_service_routes PATCH [''internal'', ''issues'', encoded x, ''assignee''] = Some (Issues (AssignIssue x))"
    "find_route issue_service_routes POST [''internal'', ''issues'', encoded x, ''transitions''] = Some (Issues (TransitionIssue x))"
    "find_route issue_service_routes POST [''internal'', ''issues'', encoded x, ''comments''] = Some (Issues (AddComment x))"
    "find_route issue_service_routes GET [''internal'', ''issues'', encoded x, ''comments''] = Some (Issues (ListComments x))"
    "find_route issue_service_routes GET [''internal'', ''issues'', encoded x, ''history''] = Some (Issues (ListHistory x))"
    "find_route issue_service_routes GET [''internal'', ''projects'', encoded x, ''epics''] = Some (Planning (ListEpics x))"
    "find_route issue_service_routes POST [''internal'', ''projects'', encoded x, ''epics''] = Some (Planning (CreateEpic x))"
    "find_route issue_service_routes PATCH [''internal'', ''epics'', encoded x] = Some (Planning (UpdateEpic x))"
    "find_route issue_service_routes GET [''internal'', ''projects'', encoded x, ''sprints''] = Some (Planning (ListSprints x))"
    "find_route issue_service_routes POST [''internal'', ''projects'', encoded x, ''sprints''] = Some (Planning (CreateSprint x))"
    "find_route issue_service_routes POST [''internal'', ''sprints'', encoded x, ''complete''] = Some (Planning (CompleteSprint x))"
  using addressableD [OF assms] by (simp_all add: route_tables decode_encodeURIComponent)

lemma issue_path_routes:
  "addressable (subject_of op) \<Longrightarrow>
    issue_service_route (fst (issue_path op qs)) (snd (issue_path op qs)) = Issues op"
  using three_segments [of _ "''issues''"] four_segments [of _ "''issues''" _ "[]"]
    four_segments [of _ "''projects''" "''issues''" "[]"] four_segments [of _ "''projects''" "''issues''" "''?'' @ qs"]
  by (cases op) (simp_all add: tables_match)

lemma planning_path_routes:
  "addressable (planning_subject op) \<Longrightarrow>
    issue_service_route (fst (planning_path op)) (snd (planning_path op)) = Planning op"
  using three_segments [of _ "''epics''"] four_segments [of _ "''sprints''" "''complete''" "[]"]
    four_segments [of _ "''projects''" "''epics''" "[]"] four_segments [of _ "''projects''" "''sprints''" "[]"]
  by (cases op) (simp_all add: tables_match)

end
