(* ===== verification/Gateway_Example.thy ===== *)
theory Gateway_Example
  imports Gateway_Limits Gateway_Routing
begin

text \<open>
  A concrete gateway for the witnesses: Redis counts what its log says, every token belongs to
  one user, and the services answer every call with the same reply.
\<close>

definition counting_redis :: redis_server where
  "counting_redis =
     \<lparr>r_waiting = (\<lambda>h. h = []), r_connect = (\<lambda>h. Inr ()), r_incr = (\<lambda>h k. Inr (int (counted k h) + 1)),
      r_expire = (\<lambda>h k n. Inr ()), r_ttl = (\<lambda>h k. Inr 60), r_get = (\<lambda>h k. Inr (Some (int (counted k h))))\<rparr>"

definition example_payload :: jsval where
  "example_payload = Obj [(''sub'', Str ''u1''), (''email'', Str ''a@b''), (''roles'', Arr [])]"

definition example_gateway :: "fetch_reply \<Rightarrow> gateway_env" where
  "example_gateway reply =
     \<lparr>ge_uuid = (\<lambda>n. ''00-1''), ge_now = (\<lambda>n. 0), ge_redis = counting_redis, ge_fetch = (\<lambda>n c. reply),
      ge_verify = (\<lambda>n s i a t. TokenPayload example_payload),
      ge_vars = (\<lambda>v. if v = ''INTERNAL_SERVICE_SECRET'' then Some ''s3'' else None), ge_json_error = []\<rparr>"

definition idle_gateway :: gateway_world where
  "idle_gateway = \<lparr>gw_tick = 0, gw_redis = [], gw_calls = [], gw_set_cookie = []\<rparr>"

definition get_issue_request :: gateway_request where
  "get_issue_request =
     \<lparr>gr_method = GET, gr_url = ''/api/issues/7'', gr_headers = [(''authorization'', Str ''Bearer t'')],
      gr_body = Undefined, gr_ip = None\<rparr>"

definition login_request :: gateway_request where
  "login_request =
     \<lparr>gr_method = POST, gr_url = ''/api/auth/login'', gr_headers = [],
      gr_body = Obj [(''email'', Str ''a@b''), (''password'', Str ''x'')], gr_ip = Some ''9''\<rparr>"

lemmas gateway_tables = gateway_routes_def health_routes_def auth_routes_def protected_routes_def projects_routes_def
  issues_routes_def notifications_routes_def

lemma example_urls:
  "segments_of_url ''/api/issues/7'' = [''api'', ''issues'', ''7'']"
  "segments_of_url ''/api/auth/login'' = [''api'', ''auth'', ''login'']"
  by (simp_all add: segments_of_url_def path_of_url_def)

lemma example_routes:
  "gateway_route_of get_issue_request = Some (GwIssues (GetIssue ''7''))"
  "gateway_route_of login_request = Some (GwAuth Login)"
  by (simp_all add: gateway_route_of_def get_issue_request_def login_request_def example_urls gateway_tables)

lemmas gateway_run_simps = gateway_handle_def handler_outcome_def andThen_def catching_def fresh_reply_def reply_cookies_def
  getCorrelationId_def gateway_uuid_def guarded_def canActivate_def extractBearerToken_def verify_token_def toGatewayUser_def
  object_or_empty_def forward_run client_result_def client_call_def client_headers_def client_base_def errorString_def
  variable_or_def Let_def

definition get_issue_call :: gateway_call where
  "get_issue_call =
     \<lparr>gc_method = GET, gc_url = ''http://localhost:8083/internal/issues/7'',
      gc_headers = [(''accept'', ''application/json''), (''x-authenticated-user-id'', ''u1''),
        (''x-correlation-id'', ''req_001''), (''x-internal-service-secret'', ''s3'')], gc_body = None\<rparr>"

lemma example_base: "client_base issue_client (example_gateway reply) = ''http://localhost:8083''"
  by (simp add: client_base_def issue_client_def variable_or_def example_gateway_def without_trailing_slashes_def)

lemma get_issue_runs:
  "gateway_handle get_issue_request (example_gateway (FetchAnswers 200 (Some Null))) idle_gateway =
     (Inr \<lparr>gs_status = 200, gs_body = Null, gs_correlation = ''req_001'', gs_cookies = []\<rparr>,
      \<lparr>gw_tick = 3, gw_redis = [], gw_calls = [get_issue_call], gw_set_cookie = []\<rparr>)"
  by (simp add: gateway_run_simps example_routes gateway_issues_controller_def user_context_def)
    (simp add: get_issue_request_def example_gateway_def idle_gateway_def example_payload_def gateway_run_simps
      get_issue_call_def issue_client_def without_trailing_slashes_def encodeURIComponent_def url_unreserved_def)

lemma login_request_fields:
  "gr_headers login_request = []" "gr_method login_request = POST" "clientIp (gr_ip login_request) = ''9''"
  "emailFromBody (gr_body login_request) = Some ''a@b''"
  by (simp_all add: login_request_def clientIp_def emailFromBody_def trim_def js_space_def code_def toLowerCase_def lower_char_def Let_def)

lemmas limiter_simps = hit_def hit_try_def isAtLimit_def refuse_limited_def
    ensureConnected_def redis_waiting_def redis_incr_def redis_expire_def redis_ttl_def redis_get_def redis_do_def

definition wrong_credentials :: fetch_reply where
  "wrong_credentials = FetchAnswers 401 (Some (Obj [(''code'', Str ''INVALID_CREDENTIALS'')]))"

lemma login_runs:
  "\<exists>b w'. gateway_handle login_request (example_gateway wrong_credentials) idle_gateway =
    (Inr \<lparr>gs_status = 401, gs_body = Obj ((''code'', Str ''INVALID_CREDENTIALS'') # b), gs_correlation = ''req_001'', gs_cookies = []\<rparr>, w') \<and>
    length (gw_calls w') = 1 \<and> failures (gw_redis w') = 0"
  by (simp add: gateway_run_simps example_routes login_request_fields controller_login_def auth_login_email
      limiter_simps iam_login_def forwardToIam_def)
    (simp add: wrong_credentials_def example_gateway_def idle_gateway_def counting_redis_def gateway_run_simps
      invalid_credentials_def email_key_def limiter_simps ApiExceptionFilter_def toApiError_def
      iam_login_def forwardToIam_def iam_client_def)

lemma counting_laws: "counts_since counting_redis key []" "reads_since counting_redis key []"
  by (simp_all add: counts_since_def reads_since_def counting_redis_def)

lemma example_redis [simp]: "ge_redis (example_gateway reply) = counting_redis"
  by (simp add: example_gateway_def)

lemma idle_simps [simp]: "gw_redis idle_gateway = []" "gw_calls idle_gateway = []"
  by (simp_all add: idle_gateway_def)

text \<open>One login with wrong credentials.\<close>

lemma login_run:
  obtains resp calls w' where
    "gateway_run [login_request] (example_gateway wrong_credentials) idle_gateway = ([(login_request, resp, calls)], w')"
    "calls \<noteq> []" "gs_status resp = 401" "js_get (object_or_empty (gs_body resp)) ''code'' = Str ''INVALID_CREDENTIALS''"
proof -
  obtain b w' where b: "gateway_handle login_request (example_gateway wrong_credentials) idle_gateway =
      (Inr \<lparr>gs_status = 401, gs_body = Obj ((''code'', Str ''INVALID_CREDENTIALS'') # b),
            gs_correlation = ''req_001'', gs_cookies = []\<rparr>, w')" "length (gw_calls w') = 1"
    using login_runs by blast
  show thesis by (rule that [of _ "gw_calls w'" w']) (use b in \<open>auto simp: object_or_empty_def\<close>)
qed

definition granted :: fetch_reply where
  "granted = FetchAnswers 200 (Some (Obj [(''accessToken'', Str ''x''), (''refreshToken'', Str ''r;1'')]))"

lemma login_succeeds:
  "\<exists>resp w'. gateway_handle login_request (example_gateway granted) idle_gateway = (Inr resp, w') \<and> gs_status resp = 200"
  by (simp add: gateway_run_simps example_routes login_request_fields controller_login_def auth_login_email
      limiter_simps iam_login_def forwardToIam_def)
    (simp add: granted_def example_gateway_def idle_gateway_def counting_redis_def gateway_run_simps
      email_key_def limiter_simps iam_login_def forwardToIam_def iam_client_def
      withRefreshCookie_def setRefreshCookie_def set_cookie_def)

end
