(* ===== verification/Gateway_Errors.thy ===== *)
theory Gateway_Errors
  imports Gateway_Limits
begin

text \<open>
  Which errors the gateway's handlers raise: its own, with the status and code of each; what a
  service answered, passed on; and a 503 for a service that did not answer. None of them is
  unexpected, and none carries the text of a failing command or request.
\<close>

section \<open>The errors\<close>

definition gateway_error_table :: "(nat \<times> string) list" where
  "gateway_error_table =
     [(401, ''UNAUTHORIZED''), (401, ''TOKEN_EXPIRED''), (401, ''INVALID_TOKEN''),
      (401, ''INVALID_REFRESH_TOKEN''), (429, ''RATE_LIMITED''), (502, ''IAM_AUTH_ERROR'')]"

text \<open>Code and message for a service that cannot be reached, and when its answer has none.\<close>

definition unavailable_table :: "(string \<times> string) list" where
  "unavailable_table =
     [(''ISSUE_SERVICE_UNAVAILABLE'', ''Issue service is unavailable''),
      (''PROJECT_SERVICE_UNAVAILABLE'', ''Project service is unavailable''),
      (''IAM_SERVICE_UNAVAILABLE'', ''IAM service is unavailable''),
      (''NOTIFICATION_SERVICE_UNAVAILABLE'', ''Notification service is unavailable'')]"

definition fallback_table :: "(string \<times> string) list" where
  "fallback_table =
     [(''ISSUE_REQUEST_FAILED'', ''Issue service request failed''),
      (''INTERNAL_ERROR'', ''Project service request failed''),
      (''IAM_AUTH_ERROR'', ''IAM auth request failed''),
      (''NOTIFICATION_REQUEST_FAILED'', ''Notification service request failed'')]"

text \<open>
  An error a service of this environment answered with: its status, and its own code, message
  and details, or the fixed text where it has none.
\<close>

definition relayed_error :: "gateway_env \<Rightarrow> nat \<Rightarrow> string \<Rightarrow> string \<Rightarrow> js_object \<Rightarrow> bool" where
  "relayed_error e st c m d \<longleftrightarrow>
     (\<exists>n call json. ge_fetch e n call = FetchAnswers st json \<and> \<not> (200 \<le> st \<and> st < 300) \<and>
        (let b = object_or_empty (case json of None \<Rightarrow> Undefined | Some v \<Rightarrow> v) in
         (js_get b ''code'' = Str c \<or> c \<in> fst ` set fallback_table) \<and>
         (js_get b ''message'' = Str m \<or> m \<in> snd ` set fallback_table) \<and>
         d = object_or_empty (js_get b ''details'')))"

definition unreachable_error :: "gateway_env \<Rightarrow> nat \<Rightarrow> string \<Rightarrow> string \<Rightarrow> js_object \<Rightarrow> bool" where
  "unreachable_error e st c m d \<longleftrightarrow>
     st = 503 \<and> (c, m) \<in> set unavailable_table \<and> d = [] \<and>
     (\<exists>n call name text1. ge_fetch e n call = FetchFails name text1)"

definition gateway_fault :: "gateway_env \<Rightarrow> gateway_error \<Rightarrow> bool" where
  "gateway_fault e x \<longleftrightarrow>
     (\<exists>st c m d. x = AppException st c m d \<and>
        ((st, c) \<in> set gateway_error_table \<or> relayed_error e st c m d \<or> unreachable_error e st c m d))"

lemma gateway_faults [simp]:
  "gateway_fault e (AppException 401 ''UNAUTHORIZED'' m d)" "gateway_fault e (AppException 401 ''TOKEN_EXPIRED'' m d)"
  "gateway_fault e (AppException 401 ''INVALID_REFRESH_TOKEN'' m d)" "gateway_fault e invalid_token"
  "gateway_fault e (rateLimited r l n t)" "gateway_fault e invalid_iam_response"
  by (simp_all add: gateway_fault_def gateway_error_table_def invalid_token_def rateLimited_def invalid_iam_response_def)

section \<open>The client\<close>

lemma error_text: "errorString v f = x \<Longrightarrow> v = Str x \<or> x = f"
  by (auto simp: errorString_def split: jsval.splits if_splits)

lemma client_fault:
  assumes "client_result opts (ge_fetch e n call) = Inl x"
    and "opts \<in> {issue_client, project_client, iam_client, notification_client}"
  shows "gateway_fault e x"
proof (cases "ge_fetch e n call")
  case (FetchFails name msg)
  then have "x = AppException 503 (co_unavailableCode opts) (co_unavailableMessage opts) []"
    using assms(1) by (simp add: client_result_def)
  moreover have "(co_unavailableCode opts, co_unavailableMessage opts) \<in> set unavailable_table"
    using assms(2) by (auto simp: unavailable_table_def issue_client_def project_client_def iam_client_def notification_client_def)
  ultimately show ?thesis using FetchFails by (auto simp: gateway_fault_def unreachable_error_def)
next
  case (FetchAnswers st json)
  let ?b = "object_or_empty (case json of None \<Rightarrow> Undefined | Some v \<Rightarrow> v)"
  have b: "object_or_empty (if co_objectResponseOnly opts then Obj (object_or_empty v) else v) = object_or_empty v" for v
    by (simp add: object_or_empty_def)
  have none: "object_or_empty (case json of None \<Rightarrow> Obj [] | Some v \<Rightarrow> v) = ?b"
    by (cases json) (simp_all add: object_or_empty_def)
  have st: "\<not> (200 \<le> st \<and> st < 300)" using assms(1) FetchAnswers by (auto simp: client_result_def Let_def)
  then have x: "x = AppException st (errorString (js_get ?b ''code'') (co_requestErrorCode opts))
      (errorString (js_get ?b ''message'') (co_requestErrorMessage opts)) (object_or_empty (js_get ?b ''details''))"
    using assms(1) FetchAnswers by (auto simp: client_result_def Let_def b none)
  have "co_requestErrorCode opts \<in> fst ` set fallback_table" "co_requestErrorMessage opts \<in> snd ` set fallback_table"
    using assms(2) by (auto simp: fallback_table_def issue_client_def project_client_def iam_client_def notification_client_def)
  then have "js_get ?b ''code'' = Str (errorString (js_get ?b ''code'') (co_requestErrorCode opts)) \<or>
        errorString (js_get ?b ''code'') (co_requestErrorCode opts) \<in> fst ` set fallback_table"
      "js_get ?b ''message'' = Str (errorString (js_get ?b ''message'') (co_requestErrorMessage opts)) \<or>
        errorString (js_get ?b ''message'') (co_requestErrorMessage opts) \<in> snd ` set fallback_table"
    using error_text [OF refl] by metis+
  then have "relayed_error e st (errorString (js_get ?b ''code'') (co_requestErrorCode opts))
      (errorString (js_get ?b ''message'') (co_requestErrorMessage opts)) (object_or_empty (js_get ?b ''details''))"
    unfolding relayed_error_def Let_def
    by (intro exI [of _ n] exI [of _ call] exI [of _ json] conjI FetchAnswers st refl)
  then show ?thesis by (simp add: gateway_fault_def x)
qed

lemma faults_forward:
  assumes "opts \<in> {issue_client, project_client, iam_client, notification_client}"
  shows "raises e (forward opts m p b ctx) (gateway_fault e)"
  using client_fault [OF _ assms] by (auto simp: raises_def forward_run)

lemma faults_discarding: "raises e p X \<Longrightarrow> raises e (discarding p) X"
  unfolding discarding_def by (intro raises_andThen raises_basic)

lemma faults_adapters:
  "raises e (issue_adapter op b qs ctx) (gateway_fault e)" "raises e (planning_adapter pop b ctx) (gateway_fault e)"
  "raises e (project_adapter jop b ctx) (gateway_fault e)" "raises e (notification_adapter nop ctx) (gateway_fault e)"
  "raises e (forwardToIam path b c) (gateway_fault e)"
proof -
  note f = faults_forward faults_discarding
  show "raises e (issue_adapter op b qs ctx) (gateway_fault e)" by (cases op) (simp_all add: f Let_def)
  show "raises e (planning_adapter pop b ctx) (gateway_fault e)" by (cases pop) (simp_all add: f)
  show "raises e (project_adapter jop b ctx) (gateway_fault e)" by (cases jop) (simp_all add: f)
  show "raises e (notification_adapter nop ctx) (gateway_fault e)" by (cases nop) (simp_all add: f)
  show "raises e (forwardToIam path b c) (gateway_fault e)" by (simp add: forwardToIam_def f)
qed

section \<open>The services of the gateway\<close>

lemma faults_refuse: "raises e (refuse_limited rule res) (gateway_fault e)"
  by (simp add: refuse_limited_def)

lemma faults_auth:
  "raises e (auth_register b ip c) (gateway_fault e)" "raises e (auth_refresh b c ip) (gateway_fault e)"
  "raises e (auth_logout b c) (gateway_fault e)"
  unfolding auth_register_def auth_refresh_def auth_logout_def iam_register_def iam_refresh_def iam_logout_def
  by (intro raises_andThen raises_hit faults_refuse faults_adapters)+

lemma faults_login: "raises e (auth_login b ip c) (gateway_fault e)"
proof -
  have h: "raises e (case k of None \<Rightarrow> returning () | Some key \<Rightarrow>
      if invalid_credentials x then andThen (hit key 5 300) (\<lambda>_. returning ()) else returning ()) (gateway_fault e)" for k x
    by (cases k) (simp_all add: raises_andThen raises_hit)
  have i: "raises e (catching (iam_login b c) (\<lambda>x. andThen (case k of None \<Rightarrow> returning () | Some key \<Rightarrow>
      if invalid_credentials x then andThen (hit key 5 300) (\<lambda>_. returning ()) else returning ()) (\<lambda>_. throwing x)))
      (gateway_fault e)" for k
    by (rule raises_catching_some [where X = "gateway_fault e"]) (simp_all add: iam_login_def faults_adapters raises_andThen h)
  have l: "raises e (case k of None \<Rightarrow> returning False | Some key \<Rightarrow> isAtLimit key 5) (gateway_fault e)" for k
    by (cases k) (simp_all add: raises_hit)
  show ?thesis
    unfolding auth_login_def Let_def
    by (intro raises_andThen raises_hit faults_refuse l)
      (simp_all only: gateway_faults raises_basic i split: if_split, simp)
qed

lemma faults_projects: "raises e (projects_service op b u c) (gateway_fault e)"
proof -
  have ctx: "raises e (checked (projects_context u c)) (gateway_fault e)"
    by (auto simp: raises_checked_iff projects_context_def split: option.split)
  have add: "raises e (addWorkspaceMember_limited ws b cx) (gateway_fault e)" for ws cx
    unfolding addWorkspaceMember_limited_def by (intro raises_andThen raises_hit faults_refuse faults_adapters)
  show ?thesis by (cases op) (simp_all add: raises_andThen ctx add faults_adapters del: project_adapter.simps)
qed

section \<open>The controllers\<close>

lemma faults_guard: "raises e (canActivate h) (gateway_fault e)"
  by (auto simp: canActivate_def raises_def verify_token_def andThen_def split: option.splits token_check.splits sum.splits)

lemma faults_guarded: "(\<And>u. raises e (handler u) (gateway_fault e)) \<Longrightarrow> raises e (guarded rq handler) (gateway_fault e)"
  unfolding guarded_def by (rule raises_andThen [OF faults_guard])

lemma faults_cookies:
  "raises e (withRefreshCookie v) (gateway_fault e)" "raises e clearRefreshCookie X"
  by (auto simp: raises_def dest: cookie_error) (auto simp: clearRefreshCookie_def set_cookie_def andThen_def)

lemma faults_refreshing: "raises e (controller_refresh h ip c) (gateway_fault e)"
proof -
  have "raises e (catching (andThen (auth_refresh b c i) withRefreshCookie)
      (\<lambda>x. andThen (if error_status x = Some 429 then returning () else clearRefreshCookie) (\<lambda>_. throwing x))) (gateway_fault e)" for b i
    by (rule raises_catching_some [OF raises_andThen [OF faults_auth(2) faults_cookies(1)]])
      (simp add: raises_andThen faults_cookies(2))
  then show ?thesis by (simp add: controller_refresh_def split: option.split)
qed

lemma faults_finally:
  assumes "raises e p X" and "\<And>Y. raises e cleanup Y"
  shows "raises e (finally_do p cleanup) X"
  using assms(1) assms(2) [of "\<lambda>_. False"]
  unfolding raises_def finally_do_def andThen_def catching_def
  by (fastforce split: prod.splits sum.splits)

lemma faults_auth_controller: "raises e (auth_controller op rq c) (gateway_fault e)"
proof (cases op)
  case Logout
  have "raises e (case refreshTokenFromRequest (gr_headers rq) of
          Some t \<Rightarrow> if t = [] then returning Undefined
            else discarding (auth_logout (Obj [(''refreshToken'', Str t)]) c)
        | None \<Rightarrow> returning Undefined) (gateway_fault e)"
    by (simp add: faults_discarding faults_auth split: option.split)
  then show ?thesis by (simp add: Logout controller_logout_def faults_finally faults_cookies(2))
next
  case Login
  then show ?thesis by (simp add: controller_login_def raises_andThen faults_login faults_cookies(1))
qed (simp_all add: faults_auth faults_refreshing raises_andThen faults_guard)

lemma faults_health: "raises e (each checkService ts) X" "raises e getServicesHealth X" "raises e getGatewayHealth X"
proof -
  have small: "raises e date_now X" "raises e (fetch call) X" for call by (auto simp: raises_def date_now_def fetch_def)
  have check: "raises e (checkService t) X" for t
    unfolding checkService_def Let_def by (intro raises_andThen raises_basic small)
  have each: "raises e (each checkService ts) X" for ts
    by (induction ts) (simp_all only: each.simps, (intro raises_andThen raises_basic check, assumption?)+)
  show "raises e (each checkService ts) X" by (rule each)
  show "raises e getServicesHealth X" unfolding getServicesHealth_def by (intro raises_andThen raises_basic small each)
  show "raises e getGatewayHealth X" unfolding getGatewayHealth_def by (intro raises_andThen raises_basic small)
qed

lemma faults_dispatch: "raises e (gateway_dispatch rt rq c) (gateway_fault e)"
  by (cases rt) (auto simp: faults_auth_controller faults_health gateway_issues_controller_def gateway_planning_controller_def
      gateway_projects_controller_def gateway_notifications_controller_def faults_projects
      intro!: faults_guarded faults_adapters)

text \<open>The framework's own error, as the filter renders it.\<close>

lemma not_found_answer:
  "\<exists>m. ApiExceptionFilter (not_found rq) cid = (404, Obj [(''code'', Str ''HTTP_404''), (''message'', Str m),
     (''correlationId'', Str cid), (''details'', Obj [])])"
proof -
  have "''HTTP_'' @ dec_string 404 = ''HTTP_404''" by code_simp
  then show ?thesis
    by (simp add: ApiExceptionFilter_def not_found_def toApiError_def Let_def object_or_empty_def errorString_def js_get_def)
qed

end
