(* ===== verification/Gateway_Promises.thy ===== *)
theory Gateway_Promises
  imports Gateway_Example Gateway_Errors
begin

text \<open>
  What the gateway promises the browser and the services: identities, routing to the issue
  service, errors, limits, the refresh cookie and the health report. Each promise has a
  concrete run as its witness.
\<close>

section \<open>Lemmas\<close>

lemma new_calls: "gw_calls w' = gw_calls w @ cs \<Longrightarrow> drop (length (gw_calls w)) (gw_calls w') = cs"
  by simp

lemma makes_both:
  assumes "makes p C" "makes p D"
  shows "makes p (\<lambda>e c. C e c \<and> D e c)"
proof (rule makesI)
  fix e w r w' assume run: "p e w = (r, w')"
  obtain cs new where c: "gw_calls w' = gw_calls w @ cs" "\<And>c. c \<in> set cs \<Longrightarrow> C e c" "gw_redis w' = gw_redis w @ new"
    by (rule makesE [OF assms(1) run]) (rule that)
  obtain ds where d: "gw_calls w' = gw_calls w @ ds" "\<And>c. c \<in> set ds \<Longrightarrow> D e c"
    by (rule makesE [OF assms(2) run]) (rule that)
  have "cs = ds" using c(1) d(1) by simp
  then have "gw_calls w' = gw_calls w @ cs \<and> (\<forall>c\<in>set cs. C e c \<and> D e c)" using c(1,2) d(2) by simp
  then show "(\<exists>cs. gw_calls w' = gw_calls w @ cs \<and> (\<forall>c\<in>set cs. C e c \<and> D e c)) \<and> (\<exists>new. gw_redis w' = gw_redis w @ new)"
    using c(3) by (intro conjI exI [of _ cs] exI [of _ new]) simp_all
qed

text \<open>The operation of the issue service a route of the gateway stands for, and its identifier.\<close>

fun issue_target :: "gateway_route \<Rightarrow> (route \<times> string) option" where
  "issue_target (GwIssues op) = Some (Issues op, subject_of op)"
| "issue_target (GwPlanning op) = Some (Planning op, planning_subject op)"
| "issue_target _ = None"

definition aimed_at :: "route \<Rightarrow> gateway_env \<Rightarrow> gateway_call \<Rightarrow> bool" where
  "aimed_at target e c \<longleftrightarrow>
     issue_service_route (gc_method c) (drop (length (client_base issue_client e)) (gc_url c)) = target"

lemma forward_aims:
  "issue_service_route m path = target \<Longrightarrow> makes (forward issue_client m path b ctx) (aimed_at target)"
  by (rule makes_forward) (simp add: aimed_at_def client_call_def Let_def)

lemma issue_adapter_aims:
  assumes "addressable (subject_of op)"
  shows "makes (issue_adapter op b qs ctx) (aimed_at (Issues op))"
proof -
  note r = issue_path_routes [OF assms, of qs]
  show ?thesis by (cases op) (use r in \<open>simp_all add: Let_def forward_aims del: append_assoc\<close>)
qed

lemma planning_adapter_aims:
  assumes "addressable (planning_subject op)"
  shows "makes (planning_adapter op b ctx) (aimed_at (Planning op))"
proof -
  note r = planning_path_routes [OF assms]
  show ?thesis by (cases op) (use r in \<open>simp_all add: forward_aims\<close>)
qed

lemma dispatch_aims:
  assumes "issue_target rt = Some (target, i)" "addressable i"
  shows "makes (gateway_dispatch rt rq cid) (aimed_at target)"
  using assms
  by (cases rt) (auto simp: guarded_def gateway_issues_controller_def gateway_planning_controller_def
      intro!: makes_andThen makes_guard issue_adapter_aims planning_adapter_aims)

lemma target_needs_token: "issue_target rt = Some x \<Longrightarrow> needs_token rt"
  by (cases rt) simp_all

lemma speaks_headers:
  assumes "speaks_for (Some u) cid e c"
  shows "header (rq_headers (arriving_request base parse i c)) ''x-authenticated-user-id'' = (if u = [] then None else Some u)"
    and "header (rq_headers (arriving_request base parse i c)) ''x-correlation-id'' = Some cid"
    and "header (rq_headers (arriving_request base parse i c)) ''x-internal-service-secret'' =
       Some (variable_or ''INTERNAL_SERVICE_SECRET'' [] e)"
  using assms by (auto simp: header_def delivered_header speaks_for_def)

lemma request_context_of:
  assumes "speaks_for (Some u) cid e c" "u \<noteq> []" "cid \<noteq> []"
  shows "requestContext (rq_headers (arriving_request base parse i c)) = returning \<lparr>rc_userId = u, rc_correlationId = cid\<rparr>"
  using speaks_headers [OF assms(1)] assms(2,3) by (simp add: requestContext_def)

lemma correlation_not_empty: "getCorrelationId h e w = (Inr cid, v) \<Longrightarrow> cid \<noteq> []"
  by (auto simp: getCorrelationId_def andThen_def gateway_uuid_def trim_def split: jsval.splits if_splits)

section \<open>Identity and routing\<close>

text \<open>
  C12: No one can speak for someone else through the gateway. Whatever the browser sends, every
  call a guarded route makes to a service carries, as \<open>x-authenticated-user-id\<close>, the subject of
  a token that the token library accepted for this request under the configured secret, issuer
  and audience (and no user header at all when that subject is empty), together with the shared
  internal secret and the correlation id of the response; a request without an accepted token
  makes no call.
\<close>

theorem calls_speak_for_the_token:
  assumes "gateway_handle rq e w = (r, w')" and "gateway_route_of rq = Some rt" and "needs_token rt"
    and "c \<in> set (drop (length (gw_calls w)) (gw_calls w'))"
  shows "\<exists>u resp. accepted_token (gr_headers rq) u e \<and> r = Inr resp \<and> speaks_for (Some u) (gs_correlation resp) e c"
proof -
  let ?C = "\<lambda>cid e c. \<exists>u. accepted_token (gr_headers rq) u e \<and> speaks_for (Some u) cid e c"
  have "makes (gateway_dispatch rt' rq cid) (?C cid)" if "gateway_route_of rq = Some rt'" for rt' cid
    using dispatch_speaks assms(2,3) that by simp
  note d = this
  obtain resp cs where cs: "r = Inr resp" "gw_calls w' = gw_calls w @ cs"
      "\<And>c. c \<in> set cs \<Longrightarrow> ?C (gs_correlation resp) e c"
    by (rule handle_makes [OF assms(1), of ?C, OF d]) (assumption, rule that)
  have "c \<in> set cs" using assms(4) cs(2) by simp
  from cs(3) [OF this] show ?thesis using cs(1) by blast
qed

theorem calls_speak_for_the_token_witness:
  "\<exists>u. accepted_token (gr_headers get_issue_request) u (example_gateway (FetchAnswers 200 (Some Null))) \<and>
     speaks_for (Some u) ''req_001'' (example_gateway (FetchAnswers 200 (Some Null))) get_issue_call"
  using calls_speak_for_the_token [OF get_issue_runs example_routes(1), of get_issue_call] by simp

text \<open>
  C11: A request for an issue or planning operation of the gateway is served by the same
  operation of the issue service. The path the gateway calls, resolved and matched by the issue
  service's own route table, names the operation with the same decoded identifier; the request
  passes the issue service's secret check when both processes have the same secret; and the
  context its controllers read is the subject of the accepted token with the gateway's
  correlation id. Identifiers are non-empty, encode to at most 100 characters (the router's
  bound on a parameter), and are not the path segments \<open>.\<close> and \<open>..\<close>.
\<close>

theorem operations_reach_the_issue_service:
  assumes "gateway_handle rq e w = (r, w')" and "gateway_route_of rq = Some rt"
    and "issue_target rt = Some (target, i)" and "addressable i"
    and "c \<in> set (drop (length (gw_calls w)) (gw_calls w'))"
  shows "let d = arriving_request (client_base issue_client e) parse request_id c in
     rq_route d = target \<and>
     secret_accepted (variable_or ''INTERNAL_SERVICE_SECRET'' [] e) (rq_headers d) \<and>
     (\<exists>u resp. accepted_token (gr_headers rq) u e \<and> r = Inr resp \<and>
        (u \<noteq> [] \<longrightarrow> requestContext (rq_headers d) =
           returning \<lparr>rc_userId = u, rc_correlationId = gs_correlation resp\<rparr>))"
proof -
  let ?C = "\<lambda>cid e c. (\<exists>u. accepted_token (gr_headers rq) u e \<and> speaks_for (Some u) cid e c) \<and> aimed_at target e c"
  have "makes (gateway_dispatch rt' rq cid) (?C cid)" if "gateway_route_of rq = Some rt'" for rt' cid
    using makes_both [OF dispatch_speaks dispatch_aims] target_needs_token assms(2-4) that by simp
  note d = this
  obtain resp cs where cs: "r = Inr resp" "gw_calls w' = gw_calls w @ cs"
      "\<And>c. c \<in> set cs \<Longrightarrow> ?C (gs_correlation resp) e c"
    by (rule handle_makes [OF assms(1), of ?C, OF d]) (assumption, rule that)
  have "c \<in> set cs" using assms(5) cs(2) by simp
  then have "?C (gs_correlation resp) e c" by (rule cs(3))
  then obtain u where u: "accepted_token (gr_headers rq) u e" "speaks_for (Some u) (gs_correlation resp) e c"
    and t: "aimed_at target e c" by blast
  have "gs_correlation resp \<noteq> []"
    using assms(1) cs(1) correlation_not_empty by (auto elim!: gateway_handle_run)
  then have "requestContext (rq_headers (arriving_request (client_base issue_client e) parse request_id c)) =
      returning \<lparr>rc_userId = u, rc_correlationId = gs_correlation resp\<rparr>" if "u \<noteq> []"
    using request_context_of [OF u(2) that] by blast
  moreover have "secret_accepted (variable_or ''INTERNAL_SERVICE_SECRET'' [] e)
      (rq_headers (arriving_request (client_base issue_client e) parse request_id c))"
    using speaks_headers(3) [OF u(2)] by (simp add: secret_accepted_def Let_def)
  moreover have "rq_route (arriving_request (client_base issue_client e) parse request_id c) = target"
    using t by (simp add: arriving_request_def aimed_at_def Let_def)
  ultimately show ?thesis unfolding Let_def using u(1) cs(1) by blast
qed

theorem operations_reach_the_issue_service_witness:
  "rq_route (arriving_request ''http://localhost:8083'' (\<lambda>_. Undefined) ''r'' get_issue_call) = Issues (GetIssue ''7'')"
proof -
  have "addressable ''7''" by (simp add: addressable_def encodeURIComponent_def url_unreserved_def)
  then show ?thesis
    using operations_reach_the_issue_service [OF get_issue_runs example_routes(1), of "Issues (GetIssue ''7'')" "''7''"
        get_issue_call "\<lambda>_. Undefined" "''r''"]
    unfolding Let_def example_base by simp
qed

section \<open>Errors\<close>

text \<open>An error the issue service answers with a status that is not 2xx, a code and a message.\<close>

fun relayable :: "exn \<Rightarrow> bool" where
  "relayable (DomainError st c m d) \<longleftrightarrow> \<not> (200 \<le> st \<and> st < 300) \<and> c \<noteq> [] \<and> m \<noteq> []"
| "relayable (HttpException st m) \<longleftrightarrow> \<not> (200 \<le> st \<and> st < 300) \<and> m \<noteq> []"
| "relayable _ = True"

text \<open>
  C22: An error of the issue service reaches the browser unchanged. What the issue service's
  exception filter answers, parsed by the gateway's client and answered again by the gateway's
  exception filter, has the same status and the same code, message, details and correlation id.
  That includes the 500 of an unexpected error, and excludes only errors with an empty code or
  message, which the gateway replaces with its own.
\<close>

theorem issue_errors_reach_the_browser:
  assumes "relayable x" and "header h ''x-correlation-id'' = Some cid"
  shows "\<exists>y. client_result issue_client
       (FetchAnswers (fst (DomainExceptionFilter x h rid)) (Some (snd (DomainExceptionFilter x h rid)))) = Inl y \<and>
     fst (ApiExceptionFilter y cid) = fst (DomainExceptionFilter x h rid) \<and>
     (\<forall>f. js_get (object_or_empty (snd (ApiExceptionFilter y cid))) f =
       js_get (object_or_empty (snd (DomainExceptionFilter x h rid))) f)"
  using assms
  by (cases x) (simp_all add: DomainExceptionFilter_def error_body_def client_result_def issue_client_def Let_def
      object_or_empty_def errorString_def ApiExceptionFilter_def toApiError_def)

theorem issue_errors_reach_the_browser_witness:
  "\<exists>y. client_result issue_client
       (FetchAnswers (fst (DomainExceptionFilter concurrentIssueModification [(''x-correlation-id'', Str ''c'')] []))
          (Some (snd (DomainExceptionFilter concurrentIssueModification [(''x-correlation-id'', Str ''c'')] [])))) = Inl y \<and>
     js_get (object_or_empty (snd (ApiExceptionFilter y ''c''))) ''code'' = Str ''CONCURRENT_ISSUE_MODIFICATION''"
proof -
  let ?h = "[(''x-correlation-id'', Str ''c'')]"
  have "js_get (object_or_empty (snd (DomainExceptionFilter concurrentIssueModification ?h []))) ''code'' =
      Str ''CONCURRENT_ISSUE_MODIFICATION''"
    by (simp add: concurrentIssueModification_def DomainExceptionFilter_def error_body_def object_or_empty_def Let_def)
  moreover have "relayable concurrentIssueModification" "header ?h ''x-correlation-id'' = Some ''c''"
    by (simp_all add: concurrentIssueModification_def header_def)
  ultimately show ?thesis
    using issue_errors_reach_the_browser [of concurrentIssueModification ?h "''c''" "[]"] by metis
qed


section \<open>Limits\<close>

text \<open>A request of this kind from this address that made a call.\<close>

definition made_call ::
    "auth_operation \<Rightarrow> string \<Rightarrow> gateway_request \<times> gateway_response \<times> gateway_call list \<Rightarrow> bool" where
  "made_call op ip x \<longleftrightarrow>
     (case x of (rq, resp, calls) \<Rightarrow>
        gateway_route_of rq = Some (GwAuth op) \<and> clientIp (gr_ip rq) = ip \<and> calls \<noteq> [])"

text \<open>
  C16: Registering, logging in and refreshing are limited by address. Of any sequence of requests
  to the gateway, at most 5 registrations, 10 logins and 10 refreshes from one address make a
  call to the IAM service for as long as the address's counter does not expire in Redis, plus
  one for every Redis command that fails (the limiter lets a request pass then). Redis counts:
  an answered \<open>INCR\<close> of a key returns more than the increments answered since the window began.
\<close>

theorem address_limits_hold:
  assumes "address_limit op ip = Some (key, N)" and "counts_since (ge_redis e) key (gw_redis w)"
    and "gateway_run rqs e w = (out, w')"
  shows "length (filter (made_call op ip) out) \<le> N + failures (redis_since w w')"
proof (rule admissions_at_most [OF _ assms(3) refl])
  fix rq u resp v mid
  assume "gw_redis u = gw_redis w @ mid" "gateway_handle rq e u = (Inr resp, v)"
    and "made_call op ip (rq, resp, drop (length (gw_calls u)) (gw_calls v))"
  then show "1 \<le> failures (redis_since u v) \<or> counted key mid < N \<and> 1 \<le> counted key (redis_since u v)"
    using admits_step [of rq "GwAuth op" e "gw_redis w" key N u mid resp v] admits_auth [of op rq key N e] assms(1,2)
    by (simp add: made_call_def)
qed

theorem address_limits_hold_witness:
  "\<exists>out w'. gateway_run [login_request] (example_gateway wrong_credentials) idle_gateway = (out, w') \<and>
     length (filter (made_call Login ''9'') out) \<le> 10 + failures (redis_since idle_gateway w') \<and>
     length (filter (made_call Login ''9'') out) = 1"
proof -
  obtain resp calls w' where r:
    "gateway_run [login_request] (example_gateway wrong_credentials) idle_gateway = ([(login_request, resp, calls)], w')"
    "calls \<noteq> []" by (rule login_run)
  have k: "address_limit Login ''9'' = Some (''rate:auth:login:ip:9'', 10)" by simp
  have c: "counts_since (ge_redis (example_gateway wrong_credentials)) ''rate:auth:login:ip:9'' (gw_redis idle_gateway)"
    by (simp add: counting_laws)
  have "length (filter (made_call Login ''9'') [(login_request, resp, calls)]) = 1"
    using r by (simp add: made_call_def example_routes login_request_fields)
  then show ?thesis using address_limits_hold [OF k c r(1)] r(1) by metis
qed

text \<open>
  C15: Guessing a password is limited by e-mail address, from whatever addresses the guesses come.
  Of any sequence of requests, at most 5 logins for an e-mail address are answered by the IAM
  service with wrong credentials while the address's counter does not expire, plus one for every
  failing Redis command. (Requests are handled one after the other here; logins that are in
  flight together have all read the counter before any of them increments it.)
\<close>

theorem password_guesses_are_limited:
  assumes "reads_since (ge_redis e) (email_key email) (gw_redis w)" and "gateway_run rqs e w = (out, w')"
  shows "length (filter (wrong_guess email) out) \<le> 5 + failures (redis_since w w')"
proof (rule admissions_at_most [OF _ assms(2) refl])
  fix rq u resp v mid
  assume "gw_redis u = gw_redis w @ mid" "gateway_handle rq e u = (Inr resp, v)"
    and "wrong_guess email (rq, resp, drop (length (gw_calls u)) (gw_calls v))"
  then show "1 \<le> failures (redis_since u v) \<or>
      counted (email_key email) mid < 5 \<and> 1 \<le> counted (email_key email) (redis_since u v)"
    using guess_step [OF assms(1)] by blast
qed

theorem password_guesses_are_limited_witness:
  "\<exists>out w'. gateway_run [login_request] (example_gateway wrong_credentials) idle_gateway = (out, w') \<and>
     length (filter (wrong_guess ''a@b'') out) \<le> 5 + failures (redis_since idle_gateway w') \<and>
     length (filter (wrong_guess ''a@b'') out) = 1"
proof -
  obtain resp calls w' where r:
    "gateway_run [login_request] (example_gateway wrong_credentials) idle_gateway = ([(login_request, resp, calls)], w')"
    "gs_status resp = 401" "js_get (object_or_empty (gs_body resp)) ''code'' = Str ''INVALID_CREDENTIALS''" by (rule login_run)
  have c: "reads_since (ge_redis (example_gateway wrong_credentials)) (email_key ''a@b'') (gw_redis idle_gateway)"
    by (simp add: counting_laws)
  have "length (filter (wrong_guess ''a@b'') [(login_request, resp, calls)]) = 1"
    using r by (simp add: wrong_guess_def example_routes login_request_fields)
  then show ?thesis using password_guesses_are_limited [OF c r(1)] r(1) by metis
qed

end
