(* ===== verification/Gateway_Session.thy ===== *)
theory Gateway_Session
  imports Gateway_Promises
begin

text \<open>
  The gateway's handling of sessions and its health report: the refresh token lives in a cookie
  that the browser sends back and page scripts never see, a failed refresh clears it, and the
  report is \<open>ok\<close> exactly when every service is.
\<close>

section \<open>The cookie of a reply\<close>

lemma keeps_small:
  "keeps gw_set_cookie date_now" "keeps gw_set_cookie gateway_uuid" "keeps gw_set_cookie (verify_token t)"
  "keeps gw_set_cookie redis_waiting" "keeps gw_set_cookie (redis_do c f)" "keeps gw_set_cookie (fetch call)"
  by (auto simp: keeps_def date_now_def gateway_uuid_def verify_token_def redis_waiting_def redis_do_def fetch_def split: sum.splits)

lemmas cookie_rules = keeps_rules keeps_small

lemma keeps_limiter:
  "keeps gw_set_cookie (hit k l n)" "keeps gw_set_cookie (isAtLimit k l)" "keeps gw_set_cookie (refuse_limited rule res)"
  unfolding hit_def hit_try_def isAtLimit_def refuse_limited_def ensureConnected_def redis_incr_def redis_expire_def
    redis_ttl_def redis_get_def
  by (intro cookie_rules)+

lemma keeps_iam: "keeps gw_set_cookie (forwardToIam p b c)"
  unfolding forwardToIam_def forward_def by (intro cookie_rules)

lemma keeps_login: "keeps gw_set_cookie (auth_login b ip c)"
  unfolding auth_login_def Let_def iam_login_def by (intro cookie_rules keeps_limiter keeps_iam)

lemma keeps_refresh: "keeps gw_set_cookie (auth_refresh b c ip)"
  unfolding auth_refresh_def iam_refresh_def by (intro cookie_rules keeps_limiter keeps_iam)

definition session_cookie :: "string \<Rightarrow> gateway_env \<Rightarrow> string" where
  "session_cookie t = cookie_attributes (refresh_prefix @ encodeURIComponent t) ''2592000''"

text \<open>Its text, attribute by attribute.\<close>

lemma session_cookie_text:
  "session_cookie t e =
     ''refresh_token='' @ encodeURIComponent t @ ''; HttpOnly; Path=/api/auth; SameSite=Strict; Max-Age=2592000'' @
     (if ge_vars e ''NODE_ENV'' = Some ''production'' then ''; Secure'' else [])"
  by (simp add: session_cookie_def cookie_attributes_def refresh_prefix_def)

lemma withRefreshCookie_Inr:
  assumes "withRefreshCookie v e w = (Inr body, w')"
  shows "\<exists>t. t \<noteq> [] \<and> gw_set_cookie w' = gw_set_cookie w @ [session_cookie t e] \<and>
    \<not> has_own (object_or_empty body) ''refreshToken''"
proof -
  have no: "map_of (filter (\<lambda>(n, _). n \<noteq> ''refreshToken'') ps) ''refreshToken'' = None" for ps :: js_object
    by (induction ps) auto
  show ?thesis
    using assms
    by (auto simp: withRefreshCookie_def setRefreshCookie_def set_cookie_def andThen_def session_cookie_def has_own_def
        object_or_empty_def no split: jsval.splits if_splits)
qed

lemma with_cookie_Inr:
  assumes "keeps gw_set_cookie p" and "andThen p withRefreshCookie e w = (Inr body, w')"
  shows "\<exists>t. t \<noteq> [] \<and> gw_set_cookie w' = gw_set_cookie w @ [session_cookie t e] \<and>
    \<not> has_own (object_or_empty body) ''refreshToken''"
proof -
  obtain v u where "p e w = (Inr v, u)" "withRefreshCookie v e u = (Inr body, w')"
    using assms(2) by (auto simp: andThen_Inr)
  then show ?thesis using withRefreshCookie_Inr keepsD [OF assms(1)] by metis
qed

lemma rethrown:
  assumes "\<And>x e w. \<exists>y v. handler x e w = (Inl y, v)" and "catching p handler e w = (Inr a, w')"
  shows "p e w = (Inr a, w')"
proof (cases "p e w")
  case (Pair s v)
  then show ?thesis using assms(2) assms(1) [of _ e v] by (cases s) (auto simp: catching_def, metis Inl_Inr_False prod.inject)
qed

lemma session_granted:
  assumes "op \<in> {Login, Refresh}" and "auth_controller op rq c e w = (Inr body, w')"
  shows "\<exists>t. t \<noteq> [] \<and> gw_set_cookie w' = gw_set_cookie w @ [session_cookie t e] \<and>
    \<not> has_own (object_or_empty body) ''refreshToken''"
proof (cases "op = Login")
  case True
  then show ?thesis using assms(2) with_cookie_Inr [OF keeps_login] by (simp add: controller_login_def)
next
  case False
  then have "controller_refresh (gr_headers rq) (gr_ip rq) c e w = (Inr body, w')" using assms by auto
  then obtain t where t: "catching
      (andThen (auth_refresh (Obj [(''refreshToken'', Str t)]) c (clientIp (gr_ip rq))) withRefreshCookie)
      (\<lambda>x. andThen (if error_status x = Some 429 then returning () else clearRefreshCookie) (\<lambda>_. throwing x)) e w =
      (Inr body, w')"
    by (auto simp: controller_refresh_def split: option.splits if_splits)
  have "andThen (auth_refresh (Obj [(''refreshToken'', Str t)]) c (clientIp (gr_ip rq))) withRefreshCookie e w = (Inr body, w')"
    by (rule rethrown [OF _ t]) (auto simp: andThen_def clearRefreshCookie_def set_cookie_def)
  then show ?thesis by (rule with_cookie_Inr [OF keeps_refresh])
qed

text \<open>An error of these handlers has no status of a success.\<close>

lemma raises_refresh: "raises e (auth_refresh b c ip) own_error"
  unfolding auth_refresh_def iam_refresh_def forwardToIam_def
  by (intro raises_andThen raises_hit raises_refuse raises_forward) simp

lemma raises_with_cookie: "raises e p own_error \<Longrightarrow> raises e (andThen p withRefreshCookie) own_error"
  by (rule raises_andThen) (auto simp: raises_def dest: cookie_error)

lemma raises_session:
  assumes "op \<in> {Login, Refresh}"
  shows "raises e (auth_controller op rq c) own_error"
proof -
  have clear: "raises e (if error_status x = Some 429 then returning () else clearRefreshCookie) own_error" for x
    by (auto simp: raises_def clearRefreshCookie_def set_cookie_def andThen_def)
  have "raises e (controller_refresh h ip c) own_error" for h ip
  proof -
    have "raises e (catching (andThen (auth_refresh b c i) withRefreshCookie)
        (\<lambda>x. andThen (if error_status x = Some 429 then returning () else clearRefreshCookie) (\<lambda>_. throwing x))) own_error" for b i
      by (rule raises_catching_some [OF raises_with_cookie [OF raises_refresh]]) (simp add: raises_andThen clear)
    then show ?thesis by (simp add: controller_refresh_def split: option.split)
  qed
  moreover have "raises e (controller_login b ip c) own_error" for b ip
    unfolding controller_login_def by (rule raises_with_cookie [OF raises_login])
  ultimately show ?thesis using assms by auto
qed

section \<open>Health\<close>

fun answers_ok :: "fetch_reply \<Rightarrow> bool" where
  "answers_ok (FetchAnswers st (Some (Obj ps))) \<longleftrightarrow> 200 \<le> st \<and> st < 300 \<and> js_get ps ''status'' = Str ''ok''"
| "answers_ok _ \<longleftrightarrow> False"

definition health_call :: "service_target \<Rightarrow> gateway_env \<Rightarrow> gateway_call" where
  "health_call t e =
     \<lparr>gc_method = GET, gc_url = health_url t e, gc_headers = [(''accept'', ''application/json'')], gc_body = None\<rparr>"

lemma checkService_run:
  "\<exists>s. checkService t e w = (Inr s, w\<lparr>gw_calls := gw_calls w @ [health_call t e], gw_tick := gw_tick w + 3\<rparr>) \<and>
     (sh_status s = Ok \<longleftrightarrow> answers_ok (ge_fetch e (gw_tick w + 1) (health_call t e)))"
  by (cases "(ge_fetch e (gw_tick w + 1) (health_call t e))" rule: answers_ok.cases)
    (auto simp: checkService_def andThen_def fetch_def date_now_def health_call_def Let_def object_or_empty_def numeral_3_eq_3)

lemma each_check:
  "\<exists>ss cs. each checkService ts e w = (Inr ss, w\<lparr>gw_calls := cs, gw_tick := gw_tick w + 3 * length ts\<rparr>) \<and>
     length ss = length ts \<and>
     (\<forall>i<length ts. sh_status (ss ! i) = Ok \<longleftrightarrow>
        answers_ok (ge_fetch e (gw_tick w + 3 * i + 1) (health_call (ts ! i) e)))"
proof (induction ts arbitrary: w)
  case Nil
  show ?case by (rule exI [of _ "[]"], rule exI [of _ "gw_calls w"]) simp
next
  case (Cons t ts)
  obtain s cs where s: "checkService t e w = (Inr s, w\<lparr>gw_calls := cs, gw_tick := gw_tick w + 3\<rparr>)"
    "sh_status s = Ok \<longleftrightarrow> answers_ok (ge_fetch e (gw_tick w + 1) (health_call t e))"
    using checkService_run by blast
  let ?v = "w\<lparr>gw_calls := cs, gw_tick := gw_tick w + 3\<rparr>"
  obtain ss ds where ss: "each checkService ts e ?v = (Inr ss, ?v\<lparr>gw_calls := ds, gw_tick := gw_tick ?v + 3 * length ts\<rparr>)"
    "length ss = length ts"
    "\<forall>i<length ts. sh_status (ss ! i) = Ok \<longleftrightarrow>
        answers_ok (ge_fetch e (gw_tick ?v + 3 * i + 1) (health_call (ts ! i) e))"
    using Cons.IH [of ?v] by blast
  show ?case
  proof (intro exI conjI)
    show "each checkService (t # ts) e w = (Inr (s # ss), w\<lparr>gw_calls := ds, gw_tick := gw_tick w + 3 * length (t # ts)\<rparr>)"
      using s(1) ss(1) by (simp add: andThen_def add.assoc)
    show "length (s # ss) = length (t # ts)" using ss(2) by simp
    show "\<forall>i<length (t # ts). sh_status ((s # ss) ! i) = Ok \<longleftrightarrow>
        answers_ok (ge_fetch e (gw_tick w + 3 * i + 1) (health_call ((t # ts) ! i) e))"
    proof (intro allI impI)
      fix i assume "i < length (t # ts)"
      then show "sh_status ((s # ss) ! i) = Ok \<longleftrightarrow>
          answers_ok (ge_fetch e (gw_tick w + 3 * i + 1) (health_call ((t # ts) ! i) e))"
        using s(2) ss(3) by (cases i) (simp_all add: algebra_simps)
    qed
  qed
qed

section \<open>Promises\<close>

text \<open>
  C24: The refresh token never reaches page scripts. When a login or a refresh succeeds, the body
  of the answer has no refresh token, and the only cookie of the reply is
  \<open>refresh_token\<close> with a non-empty token, percent-encoded, followed by exactly the attributes
  \<open>HttpOnly\<close>, \<open>Path=/api/auth\<close>, \<open>SameSite=Strict\<close> and \<open>Max-Age\<close> of 30 days, and \<open>Secure\<close> in
  production.
\<close>

theorem refresh_token_only_in_the_cookie:
  assumes "gateway_handle rq e w = (Inr resp, w')" and "gateway_route_of rq = Some (GwAuth op)"
    and "op \<in> {Login, Refresh}" and "gs_status resp = 200"
  shows "\<not> has_own (object_or_empty (gs_body resp)) ''refreshToken'' \<and>
    (\<exists>t. t \<noteq> [] \<and> gs_cookies resp =
       [''refresh_token='' @ encodeURIComponent t @ ''; HttpOnly; Path=/api/auth; SameSite=Strict; Max-Age=2592000'' @
        (if ge_vars e ''NODE_ENV'' = Some ''production'' then ''; Secure'' else [])])"
proof -
  obtain cid v where h: "handler_outcome rq cid e v = (Inr (gs_status resp, gs_body resp), w')"
    "gs_cookies resp = gw_set_cookie w'" "gw_set_cookie v = []"
    using assms(1) by (rule gateway_handle_run) auto
  obtain r u where r: "auth_controller op rq cid e v = (r, u)" by (cases "auth_controller op rq cid e v") auto
  show ?thesis
  proof (cases r)
    case (Inl x)
    then have "own_error x" using raises_session [OF assms(3), of _ rq cid] r unfolding raises_def by blast
    then show ?thesis
      using h(1) r Inl assms(2,4)
      by (auto simp: handler_outcome_def catching_def andThen_def own_error_def ApiExceptionFilter_def toApiError_def Let_def)
  next
    case (Inr body)
    then have "w' = u" "gs_body resp = body"
      using h(1) r assms(2) by (auto simp: handler_outcome_def catching_def andThen_def)
    then obtain t where t: "t \<noteq> []" "gs_cookies resp = [session_cookie t e]"
        "\<not> has_own (object_or_empty (gs_body resp)) ''refreshToken''"
      using session_granted [OF assms(3) r [unfolded Inr]] h by auto
    show ?thesis by (intro conjI exI [of _ t] t(1,3)) (simp only: t(2) session_cookie_text)
  qed
qed

theorem refresh_token_only_in_the_cookie_witness:
  "\<exists>resp w' t. gateway_handle login_request (example_gateway granted) idle_gateway = (Inr resp, w') \<and> t \<noteq> [] \<and>
     gs_cookies resp = [''refresh_token='' @ encodeURIComponent t @
        ''; HttpOnly; Path=/api/auth; SameSite=Strict; Max-Age=2592000'' @ []]"
proof -
  obtain resp w' where r: "gateway_handle login_request (example_gateway granted) idle_gateway = (Inr resp, w')"
    "gs_status resp = 200" using login_succeeds by blast
  have op: "Login \<in> {Login, Refresh}" by simp
  have dev: "ge_vars (example_gateway granted) ''NODE_ENV'' \<noteq> Some ''production''" by (simp add: example_gateway_def)
  show ?thesis
    using conjunct2 [OF refresh_token_only_in_the_cookie [OF r(1) example_routes(2) op r(2)], unfolded if_not_P [OF dev]] r(1)
    by blast
qed

lemma join_not_Nil: "\<lbrakk>x \<in> set cs; x \<noteq> []\<rbrakk> \<Longrightarrow> join sep cs \<noteq> []"
  by (induction sep cs rule: join.induct) auto

text \<open>
  C25: The session cookie survives the browser. The browser stores what precedes the first
  semicolon of the cookie the gateway sets and sends it back among its other cookies, joined by
  a semicolon and a space; the gateway then reads the very token it stored, whatever characters
  the token has, provided no cookie before it has the same name.
\<close>

theorem refresh_cookie_roundtrip:
  assumes "\<forall>c\<in>set (before @ after). CHR '';'' \<notin> set c"
    and "\<forall>c\<in>set before. \<not> starts_with refresh_prefix (trim c)"
    and "js_get headers ''cookie'' =
      Str (join ''; '' (before @ [takeWhile (\<lambda>c. c \<noteq> CHR '';'') (session_cookie t e)] @ after))"
  shows "refreshTokenFromRequest headers = Some t"
proof -
  let ?p = "refresh_prefix @ encodeURIComponent t"
  have semi: "CHR '';'' \<notin> set ?p" using encoded_has_no_separator(1) [of t] by (auto simp: refresh_prefix_def)
  obtain rest where "session_cookie t e = ?p @ CHR '';'' # rest"
    by (simp add: session_cookie_def cookie_attributes_def)
  then have pair: "takeWhile (\<lambda>c. c \<noteq> CHR '';'') (session_cookie t e) = ?p"
    using semi by (simp only: takeWhile_tail) (simp only: takeWhile_eq_all_conv, blast)
  have split: "map trim (split_on (CHR '';'') (join ''; '' cs)) = map trim cs"
    if "\<forall>c\<in>set cs. CHR '';'' \<notin> set c" "cs \<noteq> []" for cs
    using that
  proof (induction cs)
    case (Cons c cs)
    have space: "trim (CHR '' '' # d) = trim d" for d by (simp add: trim_def js_space_def code_def)
    show ?case
    proof (cases cs)
      case Nil
      then show ?thesis using Cons.prems by (simp add: split_on_none)
    next
      case (Cons d ds)
      obtain x xs where x: "split_on (CHR '';'') (join ''; '' cs) = x # xs"
        by (cases "split_on (CHR '';'') (join ''; '' cs)") auto
      have "split_on (CHR '';'') (join ''; '' (c # cs)) = c # (CHR '' '' # x) # xs"
        using Cons.prems x Cons by (simp add: split_on_append)
      then show ?thesis using Cons.IH Cons.prems x Cons by (simp add: space)
    qed
  qed simp
  have "find (starts_with refresh_prefix) (map trim (before @ [?p] @ after)) = Some ?p"
  proof -
    have "find (starts_with refresh_prefix) (map trim before) = None"
      using assms(2) by (auto simp: find_None_iff)
    then have "find (starts_with refresh_prefix) (map trim (before @ [?p] @ after)) =
        find (starts_with refresh_prefix) (trim ?p # map trim after)"
      by (simp add: find_append_none)
    moreover have "trim ?p = ?p" using trim_cookie [of "[]" t] by simp
    ultimately show ?thesis by (simp add: starts_with_def)
  qed
  moreover have "map trim (split_on (CHR '';'') (join ''; '' (before @ [?p] @ after))) = map trim (before @ [?p] @ after)"
    using assms(1) semi by (intro split) auto
  moreover have "join ''; '' (before @ [?p] @ after) \<noteq> []"
    by (rule join_not_Nil [of ?p]) (simp_all add: refresh_prefix_def)
  ultimately show ?thesis
    using assms(3) by (simp add: refreshTokenFromRequest_def pair decode_encodeURIComponent)
qed

theorem refresh_cookie_roundtrip_witness:
  "refreshTokenFromRequest
     [(''cookie'', Str (join ''; '' ([''a=b''] @
        [takeWhile (\<lambda>c. c \<noteq> CHR '';'') (session_cookie ''r;1'' (example_gateway granted))] @ [])))] = Some ''r;1''"
  by (rule refresh_cookie_roundtrip [where before = "[''a=b'']" and after = "[]" and e = "example_gateway granted"])
    (simp_all add: starts_with_def refresh_prefix_def trim_def js_space_def code_def)

text \<open>
  C27: The health report tells whether every service answers. The gateway's overall status is
  \<open>ok\<close> exactly when each of the four services answered its health request with a 2xx status and
  an object whose \<open>status\<close> is \<open>ok\<close>, and the report always has one entry per service, even when
  requests fail.
\<close>

theorem health_is_ok_iff_every_service_is:
  "\<exists>status ts ss w'. getServicesHealth e w = (Inr (Obj [(''status'', Str status), (''timestamp'', ts), (''services'', Arr ss)]), w') \<and>
     length ss = 4 \<and>
     (status = ''ok'' \<longleftrightarrow> (\<forall>i. \<not> (i < 4 \<and>
        \<not> answers_ok (ge_fetch e (gw_tick w + 3 * i + 1) (health_call (targets ! i) e)))))"
proof -
  obtain ss cs where ss: "each checkService targets e w = (Inr ss, w\<lparr>gw_calls := cs, gw_tick := gw_tick w + 3 * length targets\<rparr>)"
    "length ss = length targets"
    "\<forall>i<length targets. sh_status (ss ! i) = Ok \<longleftrightarrow>
        answers_ok (ge_fetch e (gw_tick w + 3 * i + 1) (health_call (targets ! i) e))"
    using each_check by blast
  have four: "length targets = 4" by (simp add: targets_def)
  have "overall_status ss = Ok \<longleftrightarrow> (\<forall>i<length targets. sh_status (ss ! i) = Ok)"
    using ss(2) by (auto simp: overall_status_def list_all_length)
  then have "overall_status ss = Ok \<longleftrightarrow>
      (\<forall>i<4. answers_ok (ge_fetch e (gw_tick w + 3 * i + 1) (health_call (targets ! i) e)))"
    using ss(3) four by simp
  moreover have "health_status_name s = ''ok'' \<longleftrightarrow> s = Ok" for s by (cases s) simp_all
  ultimately show ?thesis
    using ss(1,2) four by (simp add: getServicesHealth_def andThen_def date_now_def)
qed

end
