(* ===== verification/Web_Errors.thy ===== *)
theory Web_Errors
  imports JsValue
begin

text \<open>
  The web client (\<open>apps/web-client/src\<close>), first part: what a failed request is for the user.
  \<open>lib/apiError.ts\<close> reads kind, code and message off an error, \<open>lib/queryClient.ts\<close> decides
  whether a failed query is tried again.
\<close>

section \<open>Values\<close>

text \<open>Truthiness of a value; \<open>-0\<close> is the number zero.\<close>

fun js_truthy :: "jsval \<Rightarrow> bool" where
  "js_truthy Undefined = False"
| "js_truthy Null = False"
| "js_truthy (Bool b) = b"
| "js_truthy (Num n) = (n \<noteq> Fin 0 \<and> n \<noteq> NaN)"
| "js_truthy (Str s) = (s \<noteq> [])"
| "js_truthy (Arr xs) = True"
| "js_truthy (Obj ps) = True"

text \<open>\<open>v?.name\<close> for a name that the prototypes of primitives and arrays do not have.\<close>

definition maybe_property :: "jsval \<Rightarrow> string \<Rightarrow> jsval" where
  "maybe_property v name = (case v of Obj ps \<Rightarrow> js_get ps name | _ \<Rightarrow> Undefined)"

text \<open>\<open>Object.values\<close>.\<close>

fun object_values :: "jsval \<Rightarrow> jsval list" where
  "object_values (Obj ps) = map snd ps"
| "object_values (Arr xs) = xs"
| "object_values (Str s) = map (\<lambda>c. Str [c]) s"
| "object_values _ = []"

fun strings_of :: "jsval list \<Rightarrow> string list" where
  "strings_of [] = []"
| "strings_of (v # vs) = (case v of Str s \<Rightarrow> s # strings_of vs | _ \<Rightarrow> strings_of vs)"

section \<open>Errors of a request\<close>

text \<open>
  An error of the HTTP library (with the status and the parsed body when there was a
  response), or any other exception.
\<close>

datatype web_error = AxiosError "(nat \<times> jsval) option" | OtherError string

datatype api_error_kind = Unavailable | Unauthorized | Forbidden | NotFound | RejectedRequest | Unknown

definition getApiErrorCode :: "web_error \<Rightarrow> string option" where
  "getApiErrorCode error =
     (case error of
        OtherError _ \<Rightarrow> None
      | AxiosError response \<Rightarrow>
          (case response of
             None \<Rightarrow> None
           | Some (status, data) \<Rightarrow>
               (case maybe_property data ''code'' of Str c \<Rightarrow> Some c | _ \<Rightarrow> None)))"

definition status_kind :: "nat \<Rightarrow> api_error_kind" where
  "status_kind status =
     (if status = 0 \<or> status = 502 \<or> status = 503 \<or> status = 504 then Unavailable
      else if status = 401 then Unauthorized
      else if status = 403 then Forbidden
      else if status = 404 then NotFound
      else if status < 500 then RejectedRequest
      else Unknown)"

definition getApiErrorKind :: "web_error \<Rightarrow> api_error_kind" where
  "getApiErrorKind error =
     (case error of
        OtherError _ \<Rightarrow> Unknown
      | AxiosError None \<Rightarrow> Unavailable
      | AxiosError (Some (status, data)) \<Rightarrow> status_kind status)"

text \<open>The text of a 4xx body: the messages of its fields, else its message.\<close>

definition body_message :: "jsval \<Rightarrow> string \<Rightarrow> string" where
  "body_message data fallback =
     (let message = maybe_property data ''message''; details = maybe_property data ''details'';
          fieldMessages =
            (case details of Obj _ \<Rightarrow> strings_of (object_values details)
             | Arr _ \<Rightarrow> strings_of (object_values details) | _ \<Rightarrow> [])
      in if fieldMessages \<noteq> [] then join '' '' fieldMessages
         else (case message of Str s \<Rightarrow> if s \<noteq> [] then s else fallback | _ \<Rightarrow> fallback))"

definition getApiErrorMessage :: "web_error \<Rightarrow> string \<Rightarrow> string" where
  "getApiErrorMessage error fallback =
     (case getApiErrorKind error of
        Unavailable \<Rightarrow>
          (case error of
             AxiosError (Some _) \<Rightarrow> ''The service is temporarily unavailable. Try again shortly.''
           | _ \<Rightarrow> ''Cannot reach the server. Check your connection and try again.'')
      | Unauthorized \<Rightarrow> ''Your session has expired. Sign in again.''
      | Unknown \<Rightarrow> fallback
      | _ \<Rightarrow>
          (case error of
             AxiosError (Some (status, data)) \<Rightarrow> body_message data fallback
           | _ \<Rightarrow> fallback))"

section \<open>Toasts and retries\<close>

text \<open>A toast with its title, its description, and the id that collapses repetitions.\<close>

datatype toast =
    SuccessToast string "string option"
  | ErrorToast string "string option" "api_error_kind option"

definition toastApiError :: "web_error \<Rightarrow> string \<Rightarrow> toast" where
  "toastApiError error fallback =
     (let kind = getApiErrorKind error; message = getApiErrorMessage error fallback in
      if kind = Unauthorized \<or> kind = Unavailable then ErrorToast message None (Some kind)
      else ErrorToast message None None)"

definition query_retry :: "nat \<Rightarrow> web_error \<Rightarrow> bool" where
  "query_retry failureCount error =
     (let kind = getApiErrorKind error in failureCount < 1 \<and> (kind = Unavailable \<or> kind = Unknown))"

section \<open>Facts\<close>

lemma getApiErrorCode_Some:
  "getApiErrorCode e = Some c \<Longrightarrow> \<exists>st d. e = AxiosError (Some (st, d)) \<and> maybe_property d ''code'' = Str c"
  by (auto simp: getApiErrorCode_def split: web_error.splits option.splits jsval.splits)

lemma message_uses_fallback:
  "getApiErrorKind e = Unknown \<Longrightarrow> getApiErrorMessage e fallback = fallback"
  by (simp add: getApiErrorMessage_def)

text \<open>A query is asked at most twice, and a 4xx answer only once.\<close>

lemma retry_only_once: "query_retry n e \<Longrightarrow> n = 0"
  by (simp add: query_retry_def Let_def)

lemma refusals_are_final: "getApiErrorKind e \<in> {Unauthorized, Forbidden, NotFound, RejectedRequest} \<Longrightarrow> \<not> query_retry n e"
  by (auto simp: query_retry_def)

end
