(* ===== verification/Transition_System.thy ===== *)
theory Transition_System
  imports Prelude
begin

text \<open>
  State machines given by a partial step function, and what their runs inherit from single
  steps: an invariant, a simulation of a specification, and a bound on the number of steps of
  a kind. Each is a locale; the start of the replicas and the session of the web client
  interpret them.
\<close>

fun run_events :: "('e \<Rightarrow> 's \<Rightarrow> 's option) \<Rightarrow> 'e list \<Rightarrow> 's \<Rightarrow> 's option" where
  "run_events step [] s = Some s"
| "run_events step (ev # evs) s = (case step ev s of None \<Rightarrow> None | Some t \<Rightarrow> run_events step evs t)"

lemma run_events_Cons_E:
  assumes "run_events step (ev # evs) s = Some t"
  obtains u where "step ev s = Some u" "run_events step evs u = Some t"
  using assms by (auto split: option.splits)

text \<open>A predicate that every step keeps.\<close>

locale invariant_system =
  fixes step :: "'e \<Rightarrow> 's \<Rightarrow> 's option" and inv :: "'s \<Rightarrow> bool"
  assumes kept: "inv s \<Longrightarrow> step ev s = Some t \<Longrightarrow> inv t"
begin

lemma run_inv: "inv s \<Longrightarrow> run_events step evs s = Some t \<Longrightarrow> inv t"
  by (induction evs arbitrary: s) (auto split: option.splits dest: kept)

end

text \<open>Every step is invisible in the abstraction, or a step of the specification.\<close>

locale simulation = invariant_system +
  fixes abs :: "'s \<Rightarrow> 'a" and spec :: "'a \<Rightarrow> 'a \<Rightarrow> bool"
  assumes simulates: "inv s \<Longrightarrow> step ev s = Some t \<Longrightarrow> abs t = abs s \<or> spec (abs s) (abs t)"
begin

lemma run_refines: "inv s \<Longrightarrow> run_events step evs s = Some t \<Longrightarrow> spec\<^sup>*\<^sup>* (abs s) (abs t)"
proof (induction evs arbitrary: s)
  case (Cons ev evs)
  obtain u where u: "step ev s = Some u" "run_events step evs u = Some t"
    using Cons.prems(2) by (rule run_events_Cons_E)
  have "spec\<^sup>*\<^sup>* (abs u) (abs t)" using Cons.IH kept Cons.prems(1) u by blast
  then show ?case using simulates [OF Cons.prems(1) u(1)] by (metis converse_rtranclp_into_rtranclp)
qed simp

end

text \<open>Every counted step does some of the work left; a step may bring new work.\<close>

locale settling = invariant_system +
  fixes work :: "'s \<Rightarrow> nat" and counted :: "'e \<Rightarrow> bool" and brings :: "'e \<Rightarrow> nat"
  assumes works: "inv s \<Longrightarrow> step ev s = Some t \<Longrightarrow> work t + of_bool (counted ev) \<le> work s + brings ev"
begin

lemma run_works:
  "inv s \<Longrightarrow> run_events step evs s = Some t \<Longrightarrow>
   work t + length (filter counted evs) \<le> work s + sum_list (map brings evs)"
proof (induction evs arbitrary: s)
  case (Cons ev evs)
  obtain u where u: "step ev s = Some u" "run_events step evs u = Some t"
    using Cons.prems(2) by (rule run_events_Cons_E)
  then show ?case using Cons.IH [OF kept [OF Cons.prems(1) u(1)] u(2)] works [OF Cons.prems(1) u(1)]
    by (cases "counted ev") simp_all
qed simp

end

end
