(* ===== verification/Web_Session.thy ===== *)
theory Web_Session
  imports Web_Errors Transition_System
begin

text \<open>
  The session of the web client: the auth store (\<open>features/auth/store.ts\<close>) with its copy in
  \<open>localStorage\<close>, and the interceptors of the HTTP client (\<open>lib/interceptors.ts\<close>), which
  attach the access token, refresh it once when requests are refused with 401, and replay
  those requests. Requests of the page overlap, so the interceptors are a state machine: each
  event is what one callback does before it yields to the browser again.
\<close>

section \<open>The auth store\<close>

text \<open>
  \<open>localStorage\<close> keeps texts. The text that \<open>JSON.stringify\<close> wrote is represented by the
  value that \<open>JSON.parse\<close> reads from it; somebody else may have left an empty text or one that
  is not JSON.
\<close>

datatype stored_text = EmptyText | Malformed | Json jsval

text \<open>
  The browser: \<open>pg_window\<close> is false while the page is rendered on the server; \<open>pg_quota\<close> says
  that \<open>setItem\<close> finds room; \<open>pg_text\<close> is \<open>String\<close> on values that are not strings.
\<close>

record page =
  pg_window :: bool
  pg_quota :: bool
  pg_text :: "jsval \<Rightarrow> string"

record auth_state =
  a_user :: jsval
  a_accessToken :: jsval
  a_isAuthenticated :: bool
  a_isHydrated :: bool
  a_storage :: "stored_text option"

definition initial_auth :: "stored_text option \<Rightarrow> auth_state" where
  "initial_auth storage =
     \<lparr>a_user = Null, a_accessToken = Null, a_isAuthenticated = False, a_isHydrated = False, a_storage = storage\<rparr>"

text \<open>
  The value \<open>JSON.parse(JSON.stringify(v))\<close>: numbers that are not finite become null,
  properties that are undefined disappear, undefined elements become null.
\<close>

fun json_copy :: "jsval \<Rightarrow> jsval" where
  "json_copy (Num n) = (case n of Fin r \<Rightarrow> Num n | _ \<Rightarrow> Null)"
| "json_copy (Arr xs) = Arr (map (\<lambda>v. if v = Undefined then Null else json_copy v) xs)"
| "json_copy (Obj ps) = Obj (map (\<lambda>(k, v). (k, json_copy v)) (filter (\<lambda>(k, v). v \<noteq> Undefined) ps))"
| "json_copy v = v"

text \<open>\<open>v.name\<close>; \<open>None\<close> is a thrown \<open>TypeError\<close>.\<close>

definition property :: "jsval \<Rightarrow> string \<Rightarrow> jsval option" where
  "property v name = (if v = Undefined \<or> v = Null then None else Some (maybe_property v name))"

definition persisted :: "jsval \<Rightarrow> jsval \<Rightarrow> stored_text" where
  "persisted accessToken user = Json (json_copy (Obj [(''accessToken'', accessToken), (''user'', user)]))"

text \<open>
  The body of the \<open>try\<close> with its \<open>catch\<close>: whatever throws, the entry is removed and the store is
  hydrated with what was set before.
\<close>

definition read_session :: "page \<Rightarrow> stored_text \<Rightarrow> auth_state \<Rightarrow> auth_state" where
  "read_session pg rawSession s =
     (let failed = (\<lambda>t. t\<lparr>a_storage := None, a_isHydrated := True\<rparr>) in
      case rawSession of
        Json session \<Rightarrow>
          (case property session ''accessToken'' of
             None \<Rightarrow> failed s
           | Some accessToken \<Rightarrow>
               let user = maybe_property session ''user'';
                   t = s\<lparr>a_accessToken := accessToken, a_user := user,
                         a_isAuthenticated := js_truthy accessToken \<and> js_truthy user, a_isHydrated := True\<rparr>
               in if pg_quota pg then t\<lparr>a_storage := Some (persisted accessToken user)\<rparr> else failed t)
      | _ \<Rightarrow> failed s)"

definition hydrate :: "page \<Rightarrow> auth_state \<Rightarrow> auth_state" where
  "hydrate pg s =
     (if a_isHydrated s \<or> \<not> pg_window pg then s
      else case a_storage s of
             None \<Rightarrow> s\<lparr>a_isHydrated := True\<rparr>
           | Some rawSession \<Rightarrow>
               if rawSession = EmptyText then s\<lparr>a_isHydrated := True\<rparr> else read_session pg rawSession s)"

text \<open>\<open>None\<close>: the session is null or undefined, or the storage is full, and nothing is set.\<close>

definition setSession :: "page \<Rightarrow> jsval \<Rightarrow> auth_state \<Rightarrow> auth_state option" where
  "setSession pg session s =
     (case property session ''accessToken'' of
        None \<Rightarrow> None
      | Some accessToken \<Rightarrow>
          let user = maybe_property session ''user'';
              t = s\<lparr>a_accessToken := accessToken, a_user := user, a_isAuthenticated := True, a_isHydrated := True\<rparr>
          in if \<not> pg_window pg then Some t
             else if pg_quota pg then Some (t\<lparr>a_storage := Some (persisted accessToken user)\<rparr>)
             else None)"

definition clearSession :: "page \<Rightarrow> auth_state \<Rightarrow> auth_state" where
  "clearSession pg s =
     s\<lparr>a_accessToken := Null, a_user := Null, a_isAuthenticated := False, a_isHydrated := True,
       a_storage := (if pg_window pg then None else a_storage s)\<rparr>"

section \<open>The interceptors\<close>

text \<open>
  A request of the page: on the wire, refused and waiting for the refresh with its original
  error, or settled. \<open>rq_retry\<close> is \<open>_retry\<close> of its configuration, which the library carries over
  to the replay; \<open>rq_sends\<close> counts how often it went out.
\<close>

datatype phase = OnTheWire | AwaitsRefresh web_error | Succeeded jsval | Failed web_error

record request =
  rq_authorization :: "string option"
  rq_retry :: bool
  rq_phase :: phase
  rq_sends :: nat

text \<open>
  \<open>it_refreshing\<close>: \<open>refreshPromise\<close> is not null. \<open>it_unanswered\<close> counts the refresh calls on
  the wire; \<open>it_toasts\<close> are the toasts shown.
\<close>

record interceptors =
  it_auth :: auth_state
  it_refreshing :: bool
  it_unanswered :: nat
  it_requests :: "request list"
  it_toasts :: "toast list"

definition bearer :: "page \<Rightarrow> jsval \<Rightarrow> string" where
  "bearer pg token = ''Bearer '' @ (case token of Str s \<Rightarrow> s | _ \<Rightarrow> pg_text pg token)"

definition request_interceptor :: "page \<Rightarrow> auth_state \<Rightarrow> request \<Rightarrow> request" where
  "request_interceptor pg auth r =
     (let token = a_accessToken auth in
      if js_truthy token then r\<lparr>rq_authorization := Some (bearer pg token)\<rparr> else r)"

text \<open>The request interceptor runs and the request goes out.\<close>

definition send_request :: "page \<Rightarrow> auth_state \<Rightarrow> request \<Rightarrow> request" where
  "send_request pg auth r =
     (request_interceptor pg auth r)\<lparr>rq_phase := OnTheWire, rq_sends := rq_sends r + 1\<rparr>"

definition new_request :: request where
  "new_request = \<lparr>rq_authorization = None, rq_retry = False, rq_phase = OnTheWire, rq_sends = 0\<rparr>"

definition start_request :: "page \<Rightarrow> interceptors \<Rightarrow> interceptors" where
  "start_request pg s =
     s\<lparr>it_requests := it_requests s @ [send_request pg (it_auth s) new_request]\<rparr>"

text \<open>\<open>refreshSession\<close>: a new call only when none is under way.\<close>

definition refreshSession :: "interceptors \<Rightarrow> interceptors" where
  "refreshSession s =
     (if \<not> it_refreshing s then s\<lparr>it_refreshing := True, it_unanswered := it_unanswered s + 1\<rparr> else s)"

definition response_status :: "web_error \<Rightarrow> nat option" where
  "response_status error =
     (case error of AxiosError (Some (status, _)) \<Rightarrow> Some status | _ \<Rightarrow> None)"

definition put_request :: "nat \<Rightarrow> request \<Rightarrow> interceptors \<Rightarrow> interceptors" where
  "put_request i r s = s\<lparr>it_requests := (it_requests s)[i := r]\<rparr>"

text \<open>
  The response interceptor's error callback up to its first \<open>await\<close>; \<open>hasConfig\<close> says that the
  error carries the configuration of its request.
\<close>

definition response_error :: "page \<Rightarrow> nat \<Rightarrow> request \<Rightarrow> web_error \<Rightarrow> bool \<Rightarrow> interceptors \<Rightarrow> interceptors" where
  "response_error pg i r error hasConfig s =
     (if response_status error = Some 401 \<and> hasConfig \<and> \<not> rq_retry r then
        if a_isAuthenticated (it_auth s)
        then refreshSession (put_request i (r\<lparr>rq_retry := True, rq_phase := AwaitsRefresh error\<rparr>) s)
        else put_request i (r\<lparr>rq_retry := True, rq_phase := Failed error\<rparr>)
               (s\<lparr>it_auth := clearSession pg (it_auth s)\<rparr>)
      else put_request i (r\<lparr>rq_phase := Failed error\<rparr>) s)"

text \<open>
  What the waiting requests do when the refresh is answered: the header is set and the
  request replayed, or the \<open>catch\<close> rejects it with its original error.
\<close>

definition replay_request :: "page \<Rightarrow> auth_state \<Rightarrow> jsval \<Rightarrow> request \<Rightarrow> request" where
  "replay_request pg auth data r =
     (case rq_phase r of
        AwaitsRefresh error \<Rightarrow>
          send_request pg auth (r\<lparr>rq_authorization := Some (bearer pg (maybe_property data ''accessToken''))\<rparr>)
      | _ \<Rightarrow> r)"

definition give_up :: "request \<Rightarrow> request" where
  "give_up r = (case rq_phase r of AwaitsRefresh error \<Rightarrow> r\<lparr>rq_phase := Failed error\<rparr> | _ \<Rightarrow> r)"

definition waiting_errors :: "request list \<Rightarrow> web_error list" where
  "waiting_errors rs = concat (map (\<lambda>r. case rq_phase r of AwaitsRefresh error \<Rightarrow> [error] | _ \<Rightarrow> []) rs)"

definition refresh_failed :: "page \<Rightarrow> interceptors \<Rightarrow> interceptors" where
  "refresh_failed pg s =
     (let errors = waiting_errors (it_requests s) in
      s\<lparr>it_refreshing := False, it_unanswered := it_unanswered s - 1,
        it_requests := map give_up (it_requests s),
        it_auth := (if errors = [] then it_auth s else clearSession pg (it_auth s)),
        it_toasts := it_toasts s @ map (\<lambda>error. toastApiError error []) errors\<rparr>)"

definition refresh_answered :: "page \<Rightarrow> jsval \<Rightarrow> interceptors \<Rightarrow> interceptors" where
  "refresh_answered pg data s =
     (case setSession pg data (it_auth s) of
        None \<Rightarrow> refresh_failed pg s
      | Some auth \<Rightarrow>
          s\<lparr>it_auth := auth, it_refreshing := False, it_unanswered := it_unanswered s - 1,
            it_requests := map (replay_request pg auth data) (it_requests s)\<rparr>)"

section \<open>Events\<close>

text \<open>
  What can happen: the page sends a request, a request or the refresh is answered, the user
  signs in or out (\<open>useAuth\<close>), the store is hydrated.
\<close>

datatype event =
    Start
  | Answered nat jsval
  | Refused nat web_error bool
  | RefreshAnswered jsval
  | RefreshFailed
  | SignedIn jsval
  | SignedOut
  | Hydrated

definition on_the_wire :: "interceptors \<Rightarrow> nat \<Rightarrow> bool" where
  "on_the_wire s i \<longleftrightarrow> i < length (it_requests s) \<and> rq_phase (it_requests s ! i) = OnTheWire"

fun react :: "page \<Rightarrow> event \<Rightarrow> interceptors \<Rightarrow> interceptors option" where
  "react pg Start s = Some (start_request pg s)"
| "react pg (Answered i data) s =
     (if on_the_wire s i then Some (put_request i ((it_requests s ! i)\<lparr>rq_phase := Succeeded data\<rparr>) s) else None)"
| "react pg (Refused i error hasConfig) s =
     (if on_the_wire s i then Some (response_error pg i (it_requests s ! i) error hasConfig s) else None)"
| "react pg (RefreshAnswered data) s =
     (if 0 < it_unanswered s then Some (refresh_answered pg data s) else None)"
| "react pg RefreshFailed s = (if 0 < it_unanswered s then Some (refresh_failed pg s) else None)"
| "react pg (SignedIn session) s =
     Some (case setSession pg session (it_auth s) of None \<Rightarrow> s | Some auth \<Rightarrow> s\<lparr>it_auth := auth\<rparr>)"
| "react pg SignedOut s = Some (s\<lparr>it_auth := clearSession pg (it_auth s)\<rparr>)"
| "react pg Hydrated s = Some (s\<lparr>it_auth := hydrate pg (it_auth s)\<rparr>)"

definition initial_interceptors :: "stored_text option \<Rightarrow> interceptors" where
  "initial_interceptors storage =
     \<lparr>it_auth = initial_auth storage, it_refreshing = False, it_unanswered = 0, it_requests = [], it_toasts = []\<rparr>"

inductive reachable :: "page \<Rightarrow> stored_text option \<Rightarrow> interceptors \<Rightarrow> bool" for pg storage where
  loaded: "reachable pg storage (initial_interceptors storage)"
| reacts: "reachable pg storage s \<Longrightarrow> react pg ev s = Some t \<Longrightarrow> reachable pg storage t"

definition waits :: "request \<Rightarrow> bool" where
  "waits r \<longleftrightarrow> (\<exists>error. rq_phase r = AwaitsRefresh error)"

section \<open>Two refused requests\<close>

definition example_page :: page where
  "example_page = \<lparr>pg_window = True, pg_quota = True, pg_text = (\<lambda>_. ''[object Object]'')\<rparr>"

definition example_storage :: stored_text where
  "example_storage = persisted (Str ''t1'') (Obj [(''id'', Str ''u'')])"

definition expired :: web_error where
  "expired = AxiosError (Some (401, Obj [(''code'', Str ''TOKEN_EXPIRED'')]))"

definition two_refused :: "event list" where
  "two_refused = [Hydrated, Start, Start, Refused 0 expired True, Refused 1 expired True]"

definition refused_state :: interceptors where
  "refused_state = the (run_events (react example_page) two_refused (initial_interceptors (Some example_storage)))"

lemmas session_run_simps = example_page_def example_storage_def expired_def initial_interceptors_def
  initial_auth_def hydrate_def read_session_def property_def maybe_property_def persisted_def Let_def
  start_request_def send_request_def request_interceptor_def bearer_def new_request_def on_the_wire_def
  response_error_def response_status_def put_request_def refreshSession_def waits_def

lemma refused_state_run:
  "run_events (react example_page) two_refused (initial_interceptors (Some example_storage)) = Some refused_state"
  "it_unanswered refused_state = 1" "map waits (it_requests refused_state) = [True, True]"
  "a_isAuthenticated (it_auth refused_state)" "a_accessToken (it_auth refused_state) = Str ''t1''"
  "a_user (it_auth refused_state) = Obj [(''id'', Str ''u'')]"
proof -
  have run: "\<exists>s. run_events (react example_page) two_refused (initial_interceptors (Some example_storage)) = Some s \<and>
      it_unanswered s = 1 \<and> map waits (it_requests s) = [True, True] \<and> a_isAuthenticated (it_auth s) \<and>
      a_accessToken (it_auth s) = Str ''t1'' \<and> a_user (it_auth s) = Obj [(''id'', Str ''u'')]"
    by (simp add: two_refused_def session_run_simps)
  then show "run_events (react example_page) two_refused (initial_interceptors (Some example_storage)) = Some refused_state"
    "it_unanswered refused_state = 1" "map waits (it_requests refused_state) = [True, True]"
    "a_isAuthenticated (it_auth refused_state)" "a_accessToken (it_auth refused_state) = Str ''t1''"
    "a_user (it_auth refused_state) = Obj [(''id'', Str ''u'')]"
    unfolding refused_state_def by auto
qed

end
