(* ===== verification/Web_Interceptors.thy ===== *)
theory Web_Interceptors
  imports Web_Session
begin

text \<open>
  What the session code of the web client guarantees whatever the order of answers, sign-ins
  and sign-outs: one refresh at a time, at most one replay per request, every request settles,
  and a reload finds the session the page had.
\<close>

section \<open>The stored session\<close>

lemma json_copy_Undefined [simp]: "json_copy v = Undefined \<longleftrightarrow> v = Undefined"
  by (cases v) (auto split: jsnum.splits)

lemma json_copy_idem [simp]: "json_copy (json_copy v) = json_copy v"
proof (induction v)
  case (Num n)
  then show ?case by (cases n) simp_all
next
  case (Arr xs)
  then show ?case by simp
next
  case (Obj ps)
  let ?qs = "filter (\<lambda>(k, v). v \<noteq> Undefined) ps"
  have "filter (\<lambda>(k, v). v \<noteq> Undefined) (map (\<lambda>(k, v). (k, json_copy v)) ?qs) = map (\<lambda>(k, v). (k, json_copy v)) ?qs"
    by (rule filter_True) auto
  moreover have "map (\<lambda>(k, v). (k, json_copy v)) (map (\<lambda>(k, v). (k, json_copy v)) ?qs) = map (\<lambda>(k, v). (k, json_copy v)) ?qs"
    unfolding map_map by (rule map_cong [OF refl]) (use Obj in \<open>auto intro: Obj\<close>)
  ultimately show ?case by (simp only: json_copy.simps)
qed simp_all

lemma js_truthy_copy: "js_truthy (json_copy v) \<Longrightarrow> js_truthy v"
  by (cases v) (auto split: jsnum.splits)

lemma persisted_reads:
  obtains ps where "persisted t u = Json (Obj ps)" "js_get ps ''accessToken'' = json_copy t" "js_get ps ''user'' = json_copy u"
  by (cases "t = Undefined"; cases "u = Undefined") (simp_all add: persisted_def that)

lemma persisted_copy: "persisted (json_copy t) (json_copy u) = persisted t u"
  by (simp add: persisted_def)

definition session_stored :: "page \<Rightarrow> auth_state \<Rightarrow> bool" where
  "session_stored pg s \<longleftrightarrow>
     (a_isAuthenticated s \<longrightarrow> a_isHydrated s) \<and>
     (a_isAuthenticated s \<and> pg_window pg \<and> pg_quota pg \<longrightarrow>
      a_storage s = Some (persisted (a_accessToken s) (a_user s)))"

lemma property_Some: "property v n = Some x \<Longrightarrow> x = maybe_property v n"
  by (simp add: property_def split: if_splits)

lemma setSession_stored: "setSession pg session s = Some t \<Longrightarrow> session_stored pg t"
  by (auto simp: setSession_def session_stored_def Let_def split: option.splits if_splits)

lemma clearSession_stored: "session_stored pg (clearSession pg s)"
  by (simp add: clearSession_def session_stored_def)

lemma hydrate_stored: "session_stored pg s \<Longrightarrow> session_stored pg (hydrate pg s)"
  by (auto simp: hydrate_def read_session_def session_stored_def Let_def
      split: option.splits stored_text.splits)

section \<open>Requests\<close>

definition request_ok :: "request \<Rightarrow> bool" where
  "request_ok r \<longleftrightarrow>
     rq_sends r \<in> {1, 2} \<and> (rq_sends r = 2 \<longrightarrow> rq_retry r) \<and> (waits r \<longrightarrow> rq_retry r \<and> rq_sends r = 1)
     \<and> (rq_phase r = OnTheWire \<and> rq_retry r \<longrightarrow> rq_sends r = 2)"

definition session_inv :: "page \<Rightarrow> interceptors \<Rightarrow> bool" where
  "session_inv pg s \<longleftrightarrow>
     (\<forall>r\<in>set (it_requests s). request_ok r) \<and>
     it_unanswered s = (if it_refreshing s then 1 else 0) \<and>
     (it_refreshing s \<longleftrightarrow> (\<exists>r\<in>set (it_requests s). waits r)) \<and>
     session_stored pg (it_auth s)"

lemma send_request_simps [simp]:
  "rq_retry (send_request pg a r) = rq_retry r" "rq_phase (send_request pg a r) = OnTheWire"
  "rq_sends (send_request pg a r) = rq_sends r + 1"
  by (simp_all add: send_request_def request_interceptor_def Let_def)

lemma waits_send [simp]: "\<not> waits (send_request pg a r)"
  by (simp add: waits_def)

lemma give_up_facts: "\<not> waits (give_up r)" "request_ok r \<Longrightarrow> request_ok (give_up r)"
  by (auto simp: give_up_def waits_def request_ok_def split: phase.splits)

lemma replay_facts: "\<not> waits (replay_request pg a data r)" "request_ok r \<Longrightarrow> request_ok (replay_request pg a data r)"
  by (auto simp: replay_request_def waits_def request_ok_def split: phase.splits)

lemma put_request_simps [simp]:
  "it_requests (put_request i r s) = (it_requests s)[i := r]" "it_auth (put_request i r s) = it_auth s"
  "it_refreshing (put_request i r s) = it_refreshing s" "it_unanswered (put_request i r s) = it_unanswered s"
  by (simp_all add: put_request_def)

text \<open>A request on the wire gives way to one in another phase.\<close>

lemma update_set:
  "i < length rs \<Longrightarrow> set (rs[i := r']) = insert r' (set (take i rs) \<union> set (drop (Suc i) rs))"
  by (simp add: upd_conv_take_nth_drop)

lemma nth_set: "i < length rs \<Longrightarrow> set rs = insert (rs ! i) (set (take i rs) \<union> set (drop (Suc i) rs))"
  by (metis list_update_id update_set)

lemma put_inv:
  assumes "session_inv pg s" and "on_the_wire s i" and "request_ok r" and "\<not> waits r"
  shows "session_inv pg (put_request i r s)"
proof -
  have i: "i < length (it_requests s)" "\<not> waits (it_requests s ! i)"
    using assms(2) by (simp_all add: on_the_wire_def waits_def)
  show ?thesis using assms(1,3,4) i(2)
    unfolding session_inv_def put_request_simps update_set [OF i(1)] nth_set [OF i(1)] by simp
qed

lemma auth_inv: "session_inv pg s \<Longrightarrow> session_stored pg a \<Longrightarrow> session_inv pg (s\<lparr>it_auth := a\<rparr>)"
  by (simp add: session_inv_def)

lemma refreshSession_simps [simp]:
  "it_requests (refreshSession s) = it_requests s" "it_auth (refreshSession s) = it_auth s"
  "it_refreshing (refreshSession s)"
  "it_unanswered (refreshSession s) = (if it_refreshing s then it_unanswered s else it_unanswered s + 1)"
  by (simp_all add: refreshSession_def)

lemma inv_stored: "session_inv pg s \<Longrightarrow> session_stored pg (it_auth s)"
  by (simp add: session_inv_def)

lemma wait_inv:
  assumes "session_inv pg s" and "on_the_wire s i" and "request_ok r" and "waits r"
  shows "session_inv pg (refreshSession (put_request i r s))"
proof -
  have i: "i < length (it_requests s)" using assms(2) by (simp add: on_the_wire_def)
  show ?thesis using assms(1,3,4)
    unfolding session_inv_def put_request_simps refreshSession_simps update_set [OF i] nth_set [OF i] by simp
qed

lemma waiting_errors_empty: "waiting_errors rs = [] \<longleftrightarrow> (\<forall>r\<in>set rs. \<not> waits r)"
  by (auto simp: waiting_errors_def waits_def split: phase.splits)

lemma refused_inv:
  assumes s: "session_inv pg s" and w: "on_the_wire s i"
  shows "session_inv pg (response_error pg i (it_requests s ! i) error hasConfig s)"
proof -
  have ok: "request_ok (it_requests s ! i)" "rq_phase (it_requests s ! i) = OnTheWire"
    using s w by (auto simp: session_inv_def on_the_wire_def)
  have w': "on_the_wire (s\<lparr>it_auth := a\<rparr>) i" for a using w by (simp add: on_the_wire_def)
  let ?r = "it_requests s ! i"
  have "request_ok (?r\<lparr>rq_phase := Failed error\<rparr>)" "\<not> waits (?r\<lparr>rq_phase := Failed error\<rparr>)"
    "request_ok (?r\<lparr>rq_retry := True, rq_phase := Failed error\<rparr>)"
    "\<not> waits (?r\<lparr>rq_retry := True, rq_phase := Failed error\<rparr>)"
    using ok by (simp_all add: request_ok_def waits_def)
  note settled = put_inv [OF s w this(1,2)] put_inv [OF auth_inv [OF s clearSession_stored] w' this(3,4)]
  have "request_ok (?r\<lparr>rq_retry := True, rq_phase := AwaitsRefresh error\<rparr>)"
    "waits (?r\<lparr>rq_retry := True, rq_phase := AwaitsRefresh error\<rparr>)" if "\<not> rq_retry ?r"
    using ok that by (auto simp: request_ok_def waits_def)
  note wait = wait_inv [OF s w this]
  show ?thesis unfolding response_error_def using settled wait by simp
qed

lemma refresh_failed_inv: "session_inv pg s \<Longrightarrow> session_inv pg (refresh_failed pg s)"
  by (auto simp: session_inv_def refresh_failed_def Let_def give_up_facts clearSession_stored split: if_splits)

lemma refresh_answered_inv:
  assumes "session_inv pg s"
  shows "session_inv pg (refresh_answered pg data s)"
proof (cases "setSession pg data (it_auth s)")
  case None
  then show ?thesis by (simp add: refresh_answered_def refresh_failed_inv [OF assms])
next
  case (Some auth)
  then show ?thesis using assms setSession_stored [OF Some]
    by (auto simp: refresh_answered_def session_inv_def replay_facts split: if_splits)
qed

lemma react_inv: "session_inv pg s \<Longrightarrow> react pg ev s = Some t \<Longrightarrow> session_inv pg t"
proof (cases ev)
  case Start
  assume s: "session_inv pg s" "react pg ev s = Some t"
  have "request_ok (send_request pg a new_request)" for a by (simp add: request_ok_def new_request_def)
  then show ?thesis using s Start by (auto simp: session_inv_def start_request_def)
next
  case (Answered i data)
  assume s: "session_inv pg s" "react pg ev s = Some t"
  then have w: "on_the_wire s i" by (auto simp: Answered split: if_splits)
  then have "request_ok ((it_requests s ! i)\<lparr>rq_phase := Succeeded data\<rparr>)"
    using s by (auto simp: session_inv_def on_the_wire_def request_ok_def waits_def)
  then show ?thesis using s w put_inv [OF s(1) w] by (auto simp: Answered waits_def)
qed (auto simp: refused_inv refresh_answered_inv refresh_failed_inv auth_inv clearSession_stored setSession_stored
    hydrate_stored inv_stored split: if_splits option.splits)

lemma reachable_inv: "reachable pg storage s \<Longrightarrow> session_inv pg s"
  by (induction rule: reachable.induct)
    (simp_all add: react_inv, simp add: session_inv_def initial_interceptors_def session_stored_def initial_auth_def)

section \<open>Every request settles\<close>

text \<open>The answers a request still waits for, at most: refusal, refresh, answer to the replay.\<close>

definition work :: "request \<Rightarrow> nat" where
  "work r = (case rq_phase r of OnTheWire \<Rightarrow> if rq_retry r then 1 else 3 | AwaitsRefresh _ \<Rightarrow> 2 | _ \<Rightarrow> 0)"

fun network_event :: "event \<Rightarrow> bool" where
  "network_event (Answered _ _) = True"
| "network_event (Refused _ _ _) = True"
| "network_event (RefreshAnswered _) = True"
| "network_event RefreshFailed = True"
| "network_event _ = False"

definition remaining_work :: "interceptors \<Rightarrow> nat" where
  "remaining_work s = sum_list (map work (it_requests s))"

lemma work_le: "work r \<le> 3"
  by (simp add: work_def split: phase.split)

lemma put_work:
  assumes "on_the_wire s i" and "work r < work (it_requests s ! i)"
  shows "remaining_work (put_request i r s) < remaining_work s"
proof -
  have i: "i < length (it_requests s)" using assms(1) by (simp add: on_the_wire_def)
  have split: "sum_list (map work (xs[i := r])) + work (xs ! i) = sum_list (map work xs) + work r"
    if "i < length xs" for xs
    using that by (induction xs arbitrary: i) (auto split: nat.splits)
  show ?thesis using split [OF i] assms(2) by (simp add: remaining_work_def)
qed

lemma map_work_less:
  assumes "\<And>r. r \<in> set rs \<Longrightarrow> work (f r) \<le> work r" and "\<exists>r\<in>set rs. work (f r) < work r"
  shows "sum_list (map work (map f rs)) < sum_list (map work rs)"
  using assms
proof (induction rs)
  case (Cons r rs)
  have le: "sum_list (map work (map f rs)) \<le> sum_list (map work rs)"
    using Cons.prems(1) by (simp add: o_def sum_list_mono)
  show ?case
  proof (cases "work (f r) < work r")
    case True
    then show ?thesis using le by simp
  next
    case False
    then have "sum_list (map work (map f rs)) < sum_list (map work rs)" using Cons by auto
    then show ?thesis using Cons.prems(1) [of r] by simp
  qed
qed simp

lemma waiting_work:
  "request_ok r \<Longrightarrow> waits r \<Longrightarrow> work (give_up r) < work r \<and> work (replay_request pg a data r) < work r"
  "\<not> waits r \<Longrightarrow> give_up r = r \<and> replay_request pg a data r = r"
  by (auto simp: waits_def work_def give_up_def replay_request_def request_ok_def split: phase.splits)

lemma refresh_work:
  assumes "session_inv pg s" and "0 < it_unanswered s"
  shows "remaining_work (refresh_failed pg s) < remaining_work s"
    and "remaining_work (refresh_answered pg data s) < remaining_work s"
proof -
  have ok: "\<forall>r\<in>set (it_requests s). request_ok r" and w: "\<exists>r\<in>set (it_requests s). waits r"
    using assms by (auto simp: session_inv_def split: if_splits)
  have less: "sum_list (map work (map f (it_requests s))) < sum_list (map work (it_requests s))"
    if "\<And>r. request_ok r \<Longrightarrow> waits r \<Longrightarrow> work (f r) < work r" "\<And>r. \<not> waits r \<Longrightarrow> f r = r" for f
    by (rule map_work_less) (use ok w that in \<open>metis less_imp_le order_refl\<close>, use ok w that in blast)
  show f: "remaining_work (refresh_failed pg s) < remaining_work s"
    unfolding remaining_work_def refresh_failed_def Let_def
    using less [of give_up] waiting_work by simp
  show "remaining_work (refresh_answered pg data s) < remaining_work s"
    using f less [of "replay_request pg a data" for a] waiting_work
    by (simp add: refresh_answered_def remaining_work_def split: option.split)
qed

lemma refused_work:
  assumes "session_inv pg s" and "on_the_wire s i"
  shows "remaining_work (response_error pg i (it_requests s ! i) error hasConfig s) < remaining_work s"
proof -
  have "rq_phase (it_requests s ! i) = OnTheWire" using assms by (simp add: on_the_wire_def)
  moreover have "remaining_work (refreshSession t) = remaining_work t" for t
    by (simp add: remaining_work_def refreshSession_def)
  moreover have "on_the_wire (s\<lparr>it_auth := a\<rparr>) i" "remaining_work (s\<lparr>it_auth := a\<rparr>) = remaining_work s"
    "it_requests (s\<lparr>it_auth := a\<rparr>) = it_requests s" for a
    using assms(2) by (simp_all add: on_the_wire_def remaining_work_def)
  ultimately show ?thesis
    using assms(2) put_work [OF assms(2)] put_work [of "s\<lparr>it_auth := clearSession pg (it_auth s)\<rparr>" i]
    by (simp add: response_error_def work_def)
qed

lemma react_work:
  assumes "session_inv pg s" and "react pg ev s = Some t"
  shows "remaining_work t + (if network_event ev then 1 else 0) \<le> remaining_work s + (if ev = Start then 3 else 0)"
proof (cases ev)
  case Start
  then show ?thesis using assms by (auto simp: start_request_def remaining_work_def work_def new_request_def)
next
  case (Answered i data)
  then have w: "on_the_wire s i" using assms by (auto split: if_splits)
  then show ?thesis using assms put_work [OF w, of "(it_requests s ! i)\<lparr>rq_phase := Succeeded data\<rparr>"]
    by (auto simp: Answered work_def on_the_wire_def Suc_le_eq)
qed (use assms refused_work refresh_work in \<open>auto simp: Suc_le_eq remaining_work_def split: if_splits option.splits\<close>)

interpretation session: settling "react pg" "session_inv pg" remaining_work network_event
    "\<lambda>ev. if ev = Start then 3 else 0" for pg
  by unfold_locales (auto simp: of_bool_def dest: react_inv react_work)

lemma work_of_starts: "sum_list (map (\<lambda>ev. if ev = Start then 3 else (0 :: nat)) evs) = 3 * length (filter (\<lambda>ev. ev = Start) evs)"
  by (induction evs) auto

section \<open>The answer to a refresh\<close>

text \<open>
  A refresh that brings a token sends every waiting request again under it and leaves the
  others alone; one that fails rejects each of them with its own error and ends the session.
\<close>

lemma refresh_serves_every_waiter:
  assumes "react pg (RefreshAnswered data) s = Some t" and "pg_window pg" "pg_quota pg"
    and "maybe_property data ''accessToken'' = Str token" and "token \<noteq> []"
  shows "it_requests t = map (\<lambda>r. if waits r
      then r\<lparr>rq_authorization := Some (''Bearer '' @ token), rq_phase := OnTheWire, rq_sends := rq_sends r + 1\<rparr>
      else r) (it_requests s)" (is ?replayed)
    and "a_accessToken (it_auth t) = Str token" "a_isAuthenticated (it_auth t)"
proof -
  have "property data ''accessToken'' = Some (Str token)"
    using assms(4) by (auto simp: property_def maybe_property_def)
  then obtain auth where a: "setSession pg data (it_auth s) = Some auth"
    "a_accessToken auth = Str token" "a_isAuthenticated auth"
    using assms(2,3) by (simp add: setSession_def Let_def)
  have t: "t = refresh_answered pg data s" using assms(1) by (simp split: if_splits)
  show ?replayed
    unfolding t using a assms(4,5)
    by (auto simp: refresh_answered_def replay_request_def waits_def send_request_def request_interceptor_def bearer_def
        split: phase.split)
  show "a_accessToken (it_auth t) = Str token" "a_isAuthenticated (it_auth t)"
    unfolding t using a by (simp_all add: refresh_answered_def)
qed

lemma failed_refresh_ends_session:
  assumes "reachable pg storage s" and "react pg RefreshFailed s = Some t"
  shows "it_requests t = map give_up (it_requests s)" and "\<not> a_isAuthenticated (it_auth t)"
proof -
  have t: "t = refresh_failed pg s" "0 < it_unanswered s" using assms(2) by (auto split: if_splits)
  then have "waiting_errors (it_requests s) \<noteq> []"
    using reachable_inv [OF assms(1)] by (auto simp: waiting_errors_empty session_inv_def split: if_splits)
  then show "it_requests t = map give_up (it_requests s)" "\<not> a_isAuthenticated (it_auth t)"
    by (simp_all add: t refresh_failed_def clearSession_def)
qed

text \<open>
  A user who signs out while a refresh is on the wire is signed in again by its answer.
\<close>

lemma sign_out_undone_by_refresh:
  assumes "react pg SignedOut s = Some t" and "0 < it_unanswered s" and "pg_window pg" "pg_quota pg"
    and "maybe_property data ''accessToken'' = Str token"
  shows "\<not> a_isAuthenticated (it_auth t) \<and>
    (\<exists>u. react pg (RefreshAnswered data) t = Some u \<and> a_isAuthenticated (it_auth u))"
proof -
  have "property data ''accessToken'' = Some (Str token)"
    using assms(5) by (auto simp: property_def maybe_property_def)
  moreover have "t = s\<lparr>it_auth := clearSession pg (it_auth s)\<rparr>" using assms(1) by simp
  ultimately show ?thesis using assms(2-4)
    by (simp add: refresh_answered_def setSession_def clearSession_def Let_def)
qed

section \<open>Properties\<close>

lemma run_reachable: "reachable pg storage s \<Longrightarrow> run_events (react pg) evs s = Some t \<Longrightarrow> reachable pg storage t"
  by (induction evs arbitrary: s) (auto split: option.splits intro: reachable.reacts)

text \<open>
  C13: However the requests of a page overlap, at most one refresh call is on the wire, one is
  exactly when a refused request waits for it, and no request goes out more than twice, the
  second time only as the replay after its refusal.
\<close>

theorem one_refresh_at_a_time:
  assumes "reachable pg storage s"
  shows "it_unanswered s \<le> 1 \<and> (it_unanswered s = 1 \<longleftrightarrow> (\<exists>r\<in>set (it_requests s). waits r)) \<and>
    (\<forall>r\<in>set (it_requests s). rq_sends r \<le> 2 \<and> (rq_sends r = 2 \<longrightarrow> rq_retry r))"
proof -
  have "\<forall>r\<in>set (it_requests s). request_ok r"
    and n: "it_unanswered s = (if it_refreshing s then 1 else 0)"
    and w: "it_refreshing s \<longleftrightarrow> (\<exists>r\<in>set (it_requests s). waits r)"
    using reachable_inv [OF assms] by (auto simp: session_inv_def)
  then have "\<forall>r\<in>set (it_requests s). rq_sends r \<le> 2 \<and> (rq_sends r = 2 \<longrightarrow> rq_retry r)"
    by (auto simp: request_ok_def)
  then show ?thesis unfolding n w by simp
qed

lemma refused_state_reachable: "reachable example_page (Some example_storage) refused_state"
  by (rule run_reachable [OF reachable.loaded refused_state_run(1)])

theorem one_refresh_at_a_time_witness:
  "it_unanswered refused_state = 1 \<and> map waits (it_requests refused_state) = [True, True] \<and>
   filter (\<lambda>r. \<not> rq_sends r \<le> 2) (it_requests refused_state) = []"
  using one_refresh_at_a_time [OF refused_state_reachable] refused_state_run
  by (simp add: filter_empty_conv)

text \<open>
  C17: Every request of the page settles: a run has at most three network answers per request
  (its refusal, the refresh and the answer to its replay), and as long as some request has not
  settled an answer is outstanding.
\<close>

theorem requests_settle:
  assumes "reachable pg storage s" and "run_events (react pg) evs s = Some t"
  shows "length (filter network_event evs) \<le> 3 * (length (it_requests s) + length (filter (\<lambda>ev. ev = Start) evs)) \<and>
    ((\<exists>r\<in>set (it_requests t). work r \<noteq> 0) \<longrightarrow> (\<exists>ev. network_event ev \<and> react pg ev t \<noteq> None))"
proof (intro conjI impI)
  have "remaining_work s \<le> 3 * length (it_requests s)"
    using sum_list_mono [of "it_requests s" work "\<lambda>_. 3"] work_le
    by (simp add: remaining_work_def sum_list_triv)
  then show "length (filter network_event evs) \<le> 3 * (length (it_requests s) + length (filter (\<lambda>ev. ev = Start) evs))"
    using session.run_works [OF reachable_inv [OF assms(1)] assms(2)] by (simp add: work_of_starts)
next
  assume "\<exists>r\<in>set (it_requests t). work r \<noteq> 0"
  then obtain i where i: "i < length (it_requests t)" "work (it_requests t ! i) \<noteq> 0"
    by (auto simp: in_set_conv_nth)
  show "\<exists>ev. network_event ev \<and> react pg ev t \<noteq> None"
  proof (cases "waits (it_requests t ! i)")
    case True
    then have "0 < it_unanswered t"
      using i reachable_inv [OF run_reachable [OF assms]] by (auto simp: session_inv_def)
    then show ?thesis by (intro exI [of _ RefreshFailed]) simp
  next
    case False
    then have "on_the_wire t i" using i by (auto simp: on_the_wire_def work_def waits_def split: phase.splits)
    then show ?thesis by (intro exI [of _ "Answered i Null"]) simp
  qed
qed

theorem requests_settle_witness:
  "\<exists>t. run_events (react example_page) [RefreshFailed] refused_state = Some t \<and>
     length (filter network_event [RefreshFailed]) \<le> 3 * length (it_requests refused_state) \<and>
     filter (\<lambda>r. work r \<noteq> 0) (it_requests t) = []"
proof -
  obtain t where t: "run_events (react example_page) [RefreshFailed] refused_state = Some t" "it_requests t = map give_up (it_requests refused_state)"
    by (simp add: refused_state_run refresh_failed_def Let_def)
  moreover have "\<forall>r\<in>set (it_requests refused_state). waits r"
    using refused_state_run(3) by (auto simp: map_eq_Cons_conv)
  then have "filter (\<lambda>r. work r \<noteq> 0) (it_requests t) = []"
    by (auto simp: t(2) filter_empty_conv waits_def give_up_def work_def)
  ultimately show ?thesis using requests_settle [OF refused_state_reachable t(1)] by simp
qed

text \<open>
  C26: A reload of the page restores its session: what the store of a signed-in page keeps in
  \<open>localStorage\<close> is hydrated to the same token and user (as JSON keeps them) and is left as it
  was; after signing out nobody is restored.
\<close>

theorem reload_restores_session:
  assumes "reachable pg storage s" and "pg_window pg" "pg_quota pg" and "auth = it_auth s"
    and "reloaded = hydrate pg (initial_auth (a_storage auth))"
  shows "(a_isAuthenticated auth \<longrightarrow>
      a_accessToken reloaded = json_copy (a_accessToken auth) \<and> a_user reloaded = json_copy (a_user auth) \<and>
      a_storage reloaded = a_storage auth \<and> a_isHydrated reloaded \<and>
      (a_isAuthenticated reloaded \<longleftrightarrow> js_truthy (json_copy (a_accessToken auth)) \<and> js_truthy (json_copy (a_user auth)))) \<and>
    \<not> a_isAuthenticated (hydrate pg (initial_auth (a_storage (clearSession pg auth))))"
proof -
  have "session_stored pg auth" using reachable_inv [OF assms(1)] assms(4) by (simp add: inv_stored)
  moreover obtain ps where "persisted (a_accessToken auth) (a_user auth) = Json (Obj ps)"
    "js_get ps ''accessToken'' = json_copy (a_accessToken auth)" "js_get ps ''user'' = json_copy (a_user auth)"
    by (rule persisted_reads)
  moreover have "persisted (json_copy (a_accessToken auth)) (json_copy (a_user auth)) =
      persisted (a_accessToken auth) (a_user auth)"
    by (rule persisted_copy)
  ultimately show ?thesis
    using assms(2,3) unfolding assms(5)
    by (simp add: session_stored_def hydrate_def initial_auth_def read_session_def property_def
        maybe_property_def Let_def clearSession_def)
qed

theorem reload_restores_session_witness:
  "a_isAuthenticated (it_auth refused_state) \<and>
   a_isAuthenticated (hydrate example_page (initial_auth (a_storage (it_auth refused_state)))) \<and>
   \<not> a_isAuthenticated (hydrate example_page (initial_auth (a_storage (clearSession example_page (it_auth refused_state)))))"
proof -
  have "pg_window example_page" "pg_quota example_page" by (simp_all add: example_page_def)
  then show ?thesis
    using reload_restores_session [OF refused_state_reachable _ _ refl refl] refused_state_run(4-6) by simp
qed

end
