(* ===== verification/Web_Client.thy ===== *)
theory Web_Client
  imports Web_Session Program Gateway_Client
begin

text \<open>
  The web client's calls of the gateway: \<open>features/*/api.ts\<close> over the HTTP instance of
  \<open>lib/http.ts\<close>. A program of the page may fail with a web error; it sends requests and has
  effects on the page (toasts, navigation, cache invalidations).
\<close>

section \<open>The page's world\<close>

record web_request =
  wr_method :: http_method
  wr_path :: string
  wr_params :: js_object
  wr_body :: jsval

text \<open>
  What the HTTP instance makes of a request, interceptors included: the body of a 2xx answer,
  or a rejection.
\<close>

datatype web_reply = Resolves jsval | Rejects web_error

text \<open>
  A query key is the list of its parts. \<open>SetState\<close> is a call of the setter of a component's
  state, \<open>Refetch\<close> a call of the \<open>refetch\<close> of the query with that number.
\<close>

datatype effect =
    ShowToast toast
  | Invalidate "jsval list"
  | PushRoute string
  | ReplaceRoute string
  | ResetForm
  | SetState string jsval
  | Refetch nat

text \<open>
  \<open>be_http\<close> answers the request sent at a tick; \<open>be_confirm\<close> is the user's answer to a
  confirmation; \<open>be_currentTarget\<close> says whether the event being handled still has its
  \<open>currentTarget\<close> at a tick (the browser clears it when the dispatch ends).
\<close>

record browser_env =
  be_http :: "nat \<Rightarrow> web_request \<Rightarrow> web_reply"
  be_confirm :: "nat \<Rightarrow> string \<Rightarrow> bool"
  be_currentTarget :: "nat \<Rightarrow> bool"
  be_page :: page

record browser =
  b_tick :: nat
  b_requests :: "web_request list"
  b_effects :: "effect list"
  b_auth :: auth_state

type_synonym 'a web = "(browser_env, browser, web_error, 'a) program"

definition type_error :: web_error where
  "type_error = OtherError ''TypeError''"

definition http_call :: "http_method \<Rightarrow> string \<Rightarrow> js_object \<Rightarrow> jsval \<Rightarrow> jsval web" where
  "http_call method path params body e w =
     (let rq = \<lparr>wr_method = method, wr_path = path, wr_params = params, wr_body = body\<rparr>;
          w' = w\<lparr>b_tick := b_tick w + 1, b_requests := b_requests w @ [rq]\<rparr>
      in case be_http e (b_tick w) rq of
           Resolves data \<Rightarrow> (Inr data, w')
         | Rejects error \<Rightarrow> (Inl error, w'))"

definition perform_effect :: "effect \<Rightarrow> unit web" where
  "perform_effect f e w = (Inr (), w\<lparr>b_effects := b_effects w @ [f]\<rparr>)"

definition confirm :: "string \<Rightarrow> bool web" where
  "confirm message e w = (Inr (be_confirm e (b_tick w) message), w\<lparr>b_tick := b_tick w + 1\<rparr>)"

text \<open>\<open>v.name\<close>.\<close>

definition get_property :: "jsval \<Rightarrow> string \<Rightarrow> jsval web" where
  "get_property v name = (case property v name of None \<Rightarrow> throwing type_error | Some x \<Rightarrow> returning x)"

text \<open>\<open>const { data } = await call; return data.name\<close>.\<close>

definition field_of :: "jsval web \<Rightarrow> string \<Rightarrow> jsval web" where
  "field_of call name = andThen call (\<lambda>data. get_property data name)"

definition ignoring :: "jsval web \<Rightarrow> unit web" where
  "ignoring call = andThen call (\<lambda>_. returning ())"

text \<open>An assignment to a property of an object: in place when it has it, else at the end.\<close>

definition put_property :: "string \<Rightarrow> jsval \<Rightarrow> js_object \<Rightarrow> js_object" where
  "put_property k v ps =
     (if has_own ps k then map (\<lambda>(k', v'). (k', if k' = k then v else v')) ps else ps @ [(k, v)])"

text \<open>Spreading a value into an object literal.\<close>

definition spread_properties :: "jsval \<Rightarrow> js_object" where
  "spread_properties v =
     (case v of
        Obj ps \<Rightarrow> ps
      | Arr xs \<Rightarrow> zip (map dec_string [0..<length xs]) xs
      | Str s \<Rightarrow> zip (map dec_string [0..<length s]) (map (\<lambda>c. Str [c]) s)
      | _ \<Rightarrow> [])"

text \<open>Spreading a value into the arguments of \<open>push\<close>: arrays and strings can be iterated.\<close>

definition spread_elements :: "jsval \<Rightarrow> jsval list web" where
  "spread_elements v =
     (case v of Arr xs \<Rightarrow> returning xs | Str s \<Rightarrow> returning (map (\<lambda>c. Str [c]) s) | _ \<Rightarrow> throwing type_error)"

section \<open>Issues: \<open>features/issue/api.ts\<close>\<close>

definition isConcurrentIssueModification :: "web_error \<Rightarrow> bool" where
  "isConcurrentIssueModification error \<longleftrightarrow> getApiErrorCode error = Some ''CONCURRENT_ISSUE_MODIFICATION''"

definition ISSUE_PAGE_SIZE :: nat where
  "ISSUE_PAGE_SIZE = 50"

definition page_params :: "js_object \<Rightarrow> jsval \<Rightarrow> js_object" where
  "page_params filters cursor =
     (let ps = put_property ''limit'' (Num (Fin (of_nat ISSUE_PAGE_SIZE))) filters in
      if js_truthy cursor then put_property ''cursor'' cursor ps else ps)"

text \<open>One round of the loop: the items and the next cursor.\<close>

definition read_page :: "string \<Rightarrow> js_object \<Rightarrow> jsval \<Rightarrow> (jsval list \<times> jsval) web" where
  "read_page projectId filters cursor =
     andThen (http_call GET (''/api/projects/'' @ projectId @ ''/issues'') (page_params filters cursor) Undefined) (\<lambda>data.
     andThen (get_property data ''items'') (\<lambda>items.
     andThen (spread_elements items) (\<lambda>xs.
     andThen (get_property data ''nextCursor'') (\<lambda>next_cursor. returning (xs, next_cursor)))))"

text \<open>The \<open>do\<close> loop. A server that always names a next page keeps it going: \<open>None\<close>.\<close>

partial_function (option) read_pages ::
    "string \<Rightarrow> js_object \<Rightarrow> jsval \<Rightarrow> jsval list \<Rightarrow> browser_env \<Rightarrow> browser \<Rightarrow> ((web_error + jsval list) \<times> browser) option"
  where
  "read_pages projectId filters cursor issues e w =
     (case read_page projectId filters cursor e w of
        (Inl error, w') \<Rightarrow> Some (Inl error, w')
      | (Inr (xs, next_cursor), w') \<Rightarrow>
          if js_truthy next_cursor then read_pages projectId filters next_cursor (issues @ xs) e w'
          else Some (Inr (issues @ xs), w'))"

definition api_listIssues ::
    "string \<Rightarrow> js_object \<Rightarrow> browser_env \<Rightarrow> browser \<Rightarrow> ((web_error + jsval list) \<times> browser) option" where
  "api_listIssues projectId filters = read_pages projectId filters Null []"

definition api_getIssue :: "string \<Rightarrow> jsval web" where
  "api_getIssue issueId = field_of (http_call GET (''/api/issues/'' @ issueId) [] Undefined) ''issue''"

definition api_createIssue :: "string \<Rightarrow> jsval \<Rightarrow> jsval web" where
  "api_createIssue projectId payload =
     field_of (http_call POST (''/api/projects/'' @ projectId @ ''/issues'') [] payload) ''issue''"

definition api_transitionIssue :: "string \<Rightarrow> jsval \<Rightarrow> jsval \<Rightarrow> jsval web" where
  "api_transitionIssue issueId status expectedVersion =
     field_of (http_call POST (''/api/issues/'' @ issueId @ ''/transitions'') []
       (Obj [(''status'', status), (''expectedVersion'', expectedVersion)])) ''issue''"

definition api_assignIssue :: "string \<Rightarrow> jsval \<Rightarrow> jsval \<Rightarrow> jsval web" where
  "api_assignIssue issueId assigneeUserId expectedVersion =
     field_of (http_call PATCH (''/api/issues/'' @ issueId @ ''/assignee'') []
       (Obj [(''assigneeUserId'', assigneeUserId), (''expectedVersion'', expectedVersion)])) ''issue''"

definition api_updateIssue :: "string \<Rightarrow> jsval \<Rightarrow> jsval \<Rightarrow> jsval web" where
  "api_updateIssue issueId payload expectedVersion =
     field_of (http_call PATCH (''/api/issues/'' @ issueId) []
       (Obj (put_property ''expectedVersion'' expectedVersion (spread_properties payload)))) ''issue''"

definition api_listComments :: "string \<Rightarrow> jsval web" where
  "api_listComments issueId =
     field_of (http_call GET (''/api/issues/'' @ issueId @ ''/comments'') [] Undefined) ''items''"

definition api_addComment :: "string \<Rightarrow> jsval \<Rightarrow> jsval web" where
  "api_addComment issueId body =
     field_of (http_call POST (''/api/issues/'' @ issueId @ ''/comments'') [] (Obj [(''body'', body)])) ''comment''"

definition api_listHistory :: "string \<Rightarrow> jsval web" where
  "api_listHistory issueId =
     field_of (http_call GET (''/api/issues/'' @ issueId @ ''/history'') [] Undefined) ''items''"

definition api_listEpics :: "string \<Rightarrow> jsval web" where
  "api_listEpics projectId =
     field_of (http_call GET (''/api/projects/'' @ projectId @ ''/epics'') [] Undefined) ''items''"

definition api_createEpic :: "string \<Rightarrow> jsval \<Rightarrow> jsval web" where
  "api_createEpic projectId payload =
     field_of (http_call POST (''/api/projects/'' @ projectId @ ''/epics'') [] payload) ''epic''"

definition api_listSprints :: "string \<Rightarrow> jsval web" where
  "api_listSprints projectId =
     field_of (http_call GET (''/api/projects/'' @ projectId @ ''/sprints'') [] Undefined) ''items''"

definition api_createSprint :: "string \<Rightarrow> jsval \<Rightarrow> jsval web" where
  "api_createSprint projectId payload =
     field_of (http_call POST (''/api/projects/'' @ projectId @ ''/sprints'') [] payload) ''sprint''"

definition api_completeSprint :: "string \<Rightarrow> jsval web" where
  "api_completeSprint sprintId =
     field_of (http_call POST (''/api/sprints/'' @ sprintId @ ''/complete'') [] Undefined) ''sprint''"

section \<open>Accounts, projects and notifications\<close>

text \<open>\<open>features/auth/api.ts\<close>.\<close>

definition api_register :: "jsval \<Rightarrow> jsval web" where
  "api_register payload = field_of (http_call POST ''/api/auth/register'' [] payload) ''user''"

definition api_login :: "jsval \<Rightarrow> jsval web" where
  "api_login payload = http_call POST ''/api/auth/login'' [] payload"

definition api_logout :: "unit web" where
  "api_logout = ignoring (http_call POST ''/api/auth/logout'' [] Undefined)"

definition api_me :: "jsval web" where
  "api_me = field_of (http_call GET ''/api/auth/me'' [] Undefined) ''user''"

text \<open>\<open>features/project/api.ts\<close>.\<close>

definition api_listWorkspaces :: "jsval web" where
  "api_listWorkspaces = field_of (http_call GET ''/api/workspaces'' [] Undefined) ''items''"

definition api_createWorkspace :: "jsval \<Rightarrow> jsval web" where
  "api_createWorkspace payload =
     andThen (field_of (http_call POST ''/api/workspaces'' [] payload) ''workspace'') (\<lambda>workspace.
     returning (Obj (put_property ''role'' (Str ''OWNER'') (spread_properties workspace))))"

definition api_listProjects :: "string \<Rightarrow> jsval web" where
  "api_listProjects workspaceId =
     field_of (http_call GET (''/api/workspaces/'' @ workspaceId @ ''/projects'') [] Undefined) ''items''"

definition api_createProject :: "string \<Rightarrow> jsval \<Rightarrow> jsval web" where
  "api_createProject workspaceId payload =
     field_of (http_call POST (''/api/workspaces/'' @ workspaceId @ ''/projects'') [] payload) ''project''"

definition api_getProject :: "string \<Rightarrow> jsval web" where
  "api_getProject projectId = http_call GET (''/api/projects/'' @ projectId) [] Undefined"

definition api_updateProject :: "string \<Rightarrow> jsval \<Rightarrow> jsval web" where
  "api_updateProject projectId payload =
     field_of (http_call PATCH (''/api/projects/'' @ projectId) [] payload) ''project''"

definition api_archiveProject :: "string \<Rightarrow> unit web" where
  "api_archiveProject projectId = ignoring (http_call DELETE (''/api/projects/'' @ projectId) [] Undefined)"

definition api_listWorkspaceMembers :: "string \<Rightarrow> jsval web" where
  "api_listWorkspaceMembers workspaceId =
     field_of (http_call GET (''/api/workspaces/'' @ workspaceId @ ''/members'') [] Undefined) ''items''"

definition api_addWorkspaceMember :: "string \<Rightarrow> jsval \<Rightarrow> unit web" where
  "api_addWorkspaceMember workspaceId payload =
     ignoring (http_call POST (''/api/workspaces/'' @ workspaceId @ ''/members'') [] payload)"

definition api_changeWorkspaceMemberRole :: "string \<Rightarrow> string \<Rightarrow> jsval \<Rightarrow> unit web" where
  "api_changeWorkspaceMemberRole workspaceId userId role =
     ignoring (http_call PATCH (''/api/workspaces/'' @ workspaceId @ ''/members/'' @ userId) []
       (Obj [(''role'', role)]))"

definition api_removeWorkspaceMember :: "string \<Rightarrow> string \<Rightarrow> unit web" where
  "api_removeWorkspaceMember workspaceId userId =
     ignoring (http_call DELETE (''/api/workspaces/'' @ workspaceId @ ''/members/'' @ userId) [] Undefined)"

text \<open>\<open>features/notification/api.ts\<close>.\<close>

definition api_listNotifications :: "jsval web" where
  "api_listNotifications = field_of (http_call GET ''/api/notifications'' [] Undefined) ''items''"

definition api_markNotificationRead :: "string \<Rightarrow> unit web" where
  "api_markNotificationRead i = ignoring (http_call PATCH (''/api/notifications/'' @ i @ ''/read'') [] Undefined)"

definition api_markAllNotificationsRead :: "unit web" where
  "api_markAllNotificationsRead = ignoring (http_call POST ''/api/notifications/read-all'' [] Undefined)"

end
