(* ===== verification/Web_Listing.thy ===== *)
theory Web_Listing
  imports Web_Client Issue_Paging Issue_Server
begin

text \<open>
  The loop of the web client's \<open>listIssues\<close>, whose pages are served by the issue service's
  \<open>listIssues\<close> on tables that other sessions change between the pages. What lies between them is
  the locale \<open>list_transport\<close>: it hands the parameters on as texts and the answer's body back.
\<close>

section \<open>The server the client sees\<close>

text \<open>\<open>String(v)\<close> of a parameter: a text, or a natural number.\<close>

definition query_text :: "jsval \<Rightarrow> string" where
  "query_text v = (case v of Str s \<Rightarrow> s | Num (Fin r) \<Rightarrow> dec_string (nat \<lfloor>r\<rfloor>) | _ \<Rightarrow> [])"

definition arrived_query :: "js_object \<Rightarrow> jsval" where
  "arrived_query params = Obj (map (\<lambda>(k, v). (k, Str (query_text v))) params)"

text \<open>The parameters of a call: distinct names, texts and natural numbers.\<close>

definition plain_query :: "js_object \<Rightarrow> bool" where
  "plain_query ps \<longleftrightarrow>
     distinct (map fst ps) \<and> (\<forall>v\<in>snd ` set ps. (\<exists>s. v = Str s) \<or> (\<exists>k. v = Num (Fin (of_nat k))))"

definition list_request :: "string \<Rightarrow> js_object \<Rightarrow> web_request" where
  "list_request p ps =
     \<lparr>wr_method = GET, wr_path = ''/api/projects/'' @ p @ ''/issues'', wr_params = ps, wr_body = Undefined\<rparr>"

text \<open>
  The service at the time of a request: its database answers, the project service grants access,
  and the tables are \<open>d\<close> when the page is read.
\<close>

definition serves_from :: "env \<Rightarrow> (char \<Rightarrow> char) \<Rightarrow> db \<Rightarrow> bool" where
  "serves_from se lower d \<longleftrightarrow>
     pg_uuid se \<and> e_lower se = lower \<and> (\<forall>n. e_fault se n = NoFault) \<and>
     (\<forall>n rq. \<exists>access. e_http se n rq = Reply 200 (Some access)) \<and> (\<forall>n d'. e_others se n d' = d)"

text \<open>The rows of a query.\<close>

definition query_rows :: "(char \<Rightarrow> char) \<Rightarrow> string \<Rightarrow> issue_list_query \<Rightarrow> issue_row \<Rightarrow> bool" where
  "query_rows lower p q =
     (let f = lq_filter q in
      list_where lower p (f_status f) (f_assigneeUserId f) (f_sprintId f) (truthy (f_q f)))"

definition row_cursor :: "issue_row \<Rightarrow> string" where
  "row_cursor r = encodeIssueCursor \<lparr>p_createdAt = position_text (r_created_at r), p_id = r_id r\<rparr>"

section \<open>One page\<close>

lemma parsed_ids:
  assumes "parseIssueListQuery v = Inr q"
  shows "opt_ok canonical_uuid (f_assigneeUserId (lq_filter q))" "opt_ok canonical_uuid (f_sprintId (lq_filter q))"
proof -
  from assms obtain ps st u1 u2 t l a where
    u: "if_given (map_of ps ''assigneeUserId'') (\<lambda>s. map_result Some (uuid (Str s) ''assigneeUserId'')) None = Inr u1"
      "if_given (map_of ps ''sprintId'') (\<lambda>s. map_result Some (uuid (Str s) ''sprintId'')) None = Inr u2"
    and q: "q = \<lparr>lq_filter = \<lparr>f_status = st, f_assigneeUserId = u1, f_sprintId = u2, f_q = t\<rparr>,
                 lq_limit = l, lq_after = a\<rparr>"
    unfolding parseIssueListQuery_def Let_def try_then_Inr_iff by blast
  have ok: "if_given v (\<lambda>s. map_result Some (uuid (Str s) f)) None = Inr u \<Longrightarrow> opt_ok canonical_uuid u" for v f u
    by (cases v) (auto simp: if_given_def map_result_Inr_iff uuid_canonical)
  show "opt_ok canonical_uuid (f_assigneeUserId (lq_filter q))" "opt_ok canonical_uuid (f_sprintId (lq_filter q))"
    using u [THEN ok] by (simp_all add: q)
qed

lemma uuid_opt_param_canonical:
  "pg_uuid se \<Longrightarrow> opt_ok canonical_uuid v \<Longrightarrow> uuid_opt_param se (truthy v) = Inr v"
  by (cases v) (auto simp: truthy_def uuid_opt_param_def uuid_param_def pg_uuid_canonical dest: canonical_uuid_length)

lemma list_stmt_rows:
  assumes "pg_uuid se" and "canonical_uuid p" and "parseIssueListQuery v = Inr q"
    and "opt_ok pg_text (f_q (lq_filter q))"
    and "lq_after q = map_option (\<lambda>r. \<lparr>p_createdAt = position_text (r_created_at r), p_id = r_id r\<rparr>) after"
    and "opt_ok listable after"
  shows "list_stmt p (lq_filter q) (lq_after q) n se now d =
    Inr (list_rows (query_rows (e_lower se) p q) (map_option keyset_of after) n d, d)"
proof -
  note ids = parsed_ids [OF assms(3), THEN uuid_opt_param_canonical [OF assms(1)]]
  have p: "e_uuid_in se p = Some p" by (rule pg_uuid_canonical [OF assms(1,2)])
  have q: "opt_ok pg_text (truthy (f_q (lq_filter q)))" using assms(4) by (simp add: truthy_def opt_ok_def)
  show ?thesis
  proof (cases after)
    case None
    then show ?thesis using assms(5) by (simp add: list_stmt_def uuid_param_def p ids q query_rows_def Let_def)
  next
    case (Some r)
    then have "e_uuid_in se (r_id r) = Some (r_id r)" "timestamptz_in (position_text (r_created_at r)) = Inr (r_created_at r)"
      using assms(6) pg_uuid_canonical [OF assms(1)] position_roundtrip by (simp_all add: listable_def)
    then show ?thesis using Some assms(5) by (simp add: list_stmt_def uuid_param_def p ids q query_rows_def Let_def keyset_of_def)
  qed
qed

lemma list_page:
  assumes "serves_from se lower d" and "canonical_uuid p" and "parseIssueListQuery v = Inr q"
    and "opt_ok pg_text (f_q (lq_filter q))" and "0 < lq_limit q"
    and "lq_after q = map_option (\<lambda>r. \<lparr>p_createdAt = position_text (r_created_at r), p_id = r_id r\<rparr>) after"
    and "opt_ok listable after"
    and "all_rows = list_rows (query_rows lower p q) (map_option keyset_of after) (lq_limit q + 1) d"
    and "rows = take (lq_limit q) all_rows"
  shows "\<exists>w'. service_listIssues p v ctx se w =
    (Inr \<lparr>il_items = map toIssue rows,
          il_nextCursor = (if length all_rows > lq_limit q then Some (row_cursor (last rows)) else None)\<rparr>, w')"
proof -
  have env: "pg_uuid se" "e_lower se = lower" "e_fault se n = NoFault" "e_others se n d' = d" for n d'
    using assms(1) by (simp_all add: serves_from_def)
  obtain access where a: "e_http se (w_tick w) (access_request p (rc_userId ctx) (rc_correlationId ctx) se) = Reply 200 (Some access)"
    using assms(1) unfolding serves_from_def by blast
  have stmt: "query (list_stmt p (lq_filter q) (lq_after q) (lq_limit q + 1)) se w1 = (Inr all_rows, (tick (others se w1))\<lparr>w_db := d\<rparr>)" for w1
    using list_stmt_rows [OF env(1) assms(2,3,4,6,7)] env assms(8) by (simp add: query_def client_query_def)
  have ne: "length all_rows > lq_limit q \<Longrightarrow> rows \<noteq> []" using assms(5,9) by auto
  show ?thesis
    unfolding service_listIssues_def listIssues_def
    using a stmt ne assms(3) uuid_of_canonical [OF assms(2)]
    by (simp add: andThen_def getAccess_eval access_result_def Let_def row_cursor_def assms(9) [symmetric])
qed

section \<open>The parameters of a page\<close>

definition text_params :: "(string \<times> string) list \<Rightarrow> js_object" where
  "text_params fs = map (\<lambda>(k, v). (k, Str v)) fs"

definition after_cursor :: "issue_row option \<Rightarrow> jsval" where
  "after_cursor after = (case after of None \<Rightarrow> Null | Some r \<Rightarrow> Str (row_cursor r))"

lemma after_cursor_simps [simp]: "after_cursor None = Null" "after_cursor (Some r) = Str (row_cursor r)"
  by (simp_all add: after_cursor_def)

lemma decode_row_cursor:
  "listable r \<Longrightarrow> decodeIssueCursor (row_cursor r) = Inr \<lparr>p_createdAt = position_text (r_created_at r), p_id = r_id r\<rparr>"
  using position_roundtrip by (simp add: row_cursor_def listable_def decode_encode)

lemma row_cursor_nonempty: "listable r \<Longrightarrow> row_cursor r \<noteq> []"
proof
  assume "listable r" "row_cursor r = []"
  moreover have "decodeIssueCursor [] = Inl invalidCursor" by code_simp
  ultimately show False using decode_row_cursor [of r] by simp
qed

lemma has_own_text_params [simp]: "has_own (text_params fs) k \<longleftrightarrow> k \<in> fst ` set fs"
  by (induction fs) (auto simp: text_params_def)

lemma has_own_append [simp]: "has_own (xs @ ys) k \<longleftrightarrow> has_own xs k \<or> has_own ys k"
  by (auto simp: has_own_def)

lemma arrived_text_params: "arrived_query (text_params fs @ ps) = Obj (text_params fs @ map (\<lambda>(k, v). (k, Str (query_text v))) ps)"
  by (auto simp: arrived_query_def text_params_def query_text_def)

lemma arrived_page:
  assumes "{''limit'', ''cursor''} \<inter> fst ` set fs = {}" and "opt_ok listable after"
  shows "arrived_query (page_params (text_params fs) (after_cursor after)) =
    Obj (text_params (fs @ (''limit'', ''50'') # (case after of None \<Rightarrow> [] | Some r \<Rightarrow> [(''cursor'', row_cursor r)])))"
proof -
  have fifty: "query_text (Num (Fin (of_nat 50))) = ''50''"
  proof -
    have "dec_string 50 = ''50''" by code_simp
    then show ?thesis by (simp add: query_text_def)
  qed
  have app: "text_params (xs @ ys) = text_params xs @ text_params ys" for xs ys by (simp add: text_params_def)
  have one: "query_text (Str t) = t" for t by (simp add: query_text_def)
  have "page_params (text_params fs) (after_cursor after) = text_params fs @ (''limit'', Num (Fin (of_nat 50))) #
      (case after of None \<Rightarrow> [] | Some r \<Rightarrow> [(''cursor'', Str (row_cursor r))])"
    using assms by (auto simp: page_params_def put_property_def after_cursor_def row_cursor_nonempty
        ISSUE_PAGE_SIZE_def Let_def split: option.split)
  then show ?thesis
    unfolding app using fifty by (cases after) (simp_all only: arrived_text_params, simp_all add: text_params_def one)
qed

lemma list_params_texts: "fst ` set ps \<subseteq> set PARAMETERS \<Longrightarrow> list_params (text_params ps) = Inr ps"
  by (simp add: list_params_Inr_iff text_params_def)

lemma text_params_inj: "map (\<lambda>(k, v). (k, Str v)) ps = map (\<lambda>(k, v). (k, Str v)) qs \<Longrightarrow> ps = qs"
proof (induction ps arbitrary: qs)
  case (Cons p ps)
  then show ?case by (cases qs; cases p) auto
qed simp

lemma list_params_textsD: "list_params (text_params ps) = Inr qs \<Longrightarrow> qs = ps \<and> fst ` set ps \<subseteq> set PARAMETERS"
  using text_params_inj by (auto simp: list_params_Inr_iff text_params_def)

lemma parse_page:
  assumes "parseIssueListQuery (Obj (text_params (fs @ [(''limit'', ''50'')]))) = Inr q"
    and "{''limit'', ''cursor''} \<inter> fst ` set fs = {}" and "opt_ok listable after"
  shows "parseIssueListQuery (Obj (text_params (fs @ (''limit'', ''50'') #
      (case after of None \<Rightarrow> [] | Some r \<Rightarrow> [(''cursor'', row_cursor r)])))) =
      Inr (q\<lparr>lq_after := map_option (\<lambda>r. \<lparr>p_createdAt = position_text (r_created_at r), p_id = r_id r\<rparr>) after\<rparr>)"
    and "lq_limit q = 50"
proof -
  let ?ps = "fs @ [(''limit'', ''50'')]"
  obtain st u1 u2 t l a ps where ps: "list_params (object_entries (Obj (text_params ?ps))) = Inr ps"
    and parts: "if_given (map_of ps ''status'') (\<lambda>s. map_result Some (enumValue (Str s) ''status'' ISSUE_STATUSES)) None = Inr st"
      "if_given (map_of ps ''assigneeUserId'') (\<lambda>s. map_result Some (uuid (Str s) ''assigneeUserId'')) None = Inr u1"
      "if_given (map_of ps ''sprintId'') (\<lambda>s. map_result Some (uuid (Str s) ''sprintId'')) None = Inr u2"
      "if_given (map_of ps ''q'') (\<lambda>s. map_result Some (requiredText (Str s) ''q'' 200)) None = Inr t"
      "if_given (map_of ps ''limit'') parseLimit ISSUE_LIST_DEFAULT_LIMIT = Inr l"
      "if_given (map_of ps ''cursor'') (\<lambda>s. map_result Some (decodeIssueCursor s)) None = Inr a"
    and q: "q = \<lparr>lq_filter = \<lparr>f_status = st, f_assigneeUserId = u1, f_sprintId = u2, f_q = t\<rparr>,
                 lq_limit = l, lq_after = a\<rparr>"
    using assms(1) unfolding parseIssueListQuery_def Let_def try_then_Inr_iff by blast
  have eq: "ps = ?ps" and names: "fst ` set ?ps \<subseteq> set PARAMETERS"
    using ps list_params_textsD [of ?ps ps] by simp_all
  have none: "map_of fs ''limit'' = None" "map_of fs ''cursor'' = None"
    using assms(2) by (auto simp: map_of_eq_None_iff)
  have "parseLimit ''50'' = Inr 50" by code_simp
  then show limit: "lq_limit q = 50" using parts(5) none by (simp add: eq q if_given_def map_add_def)
  define new where "new = fs @ (''limit'', ''50'') # (case after of None \<Rightarrow> [] | Some r \<Rightarrow> [(''cursor'', row_cursor r)])"
  have "fst ` set new \<subseteq> set PARAMETERS" using names by (auto simp: PARAMETERS_def new_def split: option.split)
  then have params: "list_params (object_entries (Obj (text_params new))) = Inr new" by (simp add: list_params_texts)
  have same: "map_of new k = map_of ps k" if "k \<noteq> ''cursor''" for k
    using that by (auto simp: new_def eq map_add_def split: option.split)
  have cursor: "if_given (map_of new ''cursor'') (\<lambda>s. map_result Some (decodeIssueCursor s)) None =
      Inr (map_option (\<lambda>r. \<lparr>p_createdAt = position_text (r_created_at r), p_id = r_id r\<rparr>) after)"
    using assms(3) none decode_row_cursor by (auto simp: new_def if_given_def map_add_def split: option.split)
  have "parseIssueListQuery (Obj (text_params new)) =
      Inr (q\<lparr>lq_after := map_option (\<lambda>r. \<lparr>p_createdAt = position_text (r_created_at r), p_id = r_id r\<rparr>) after\<rparr>)"
    unfolding parseIssueListQuery_def Let_def params try_then_simps cursor
    using parts(1-5) by (simp add: same q)
  then show "parseIssueListQuery (Obj (text_params (fs @ (''limit'', ''50'') #
      (case after of None \<Rightarrow> [] | Some r \<Rightarrow> [(''cursor'', row_cursor r)])))) =
      Inr (q\<lparr>lq_after := map_option (\<lambda>r. \<lparr>p_createdAt = position_text (r_created_at r), p_id = r_id r\<rparr>) after\<rparr>)"
    unfolding new_def .
qed

section \<open>The loop\<close>

lemma read_page_reply:
  assumes "be_http e (b_tick w) \<lparr>wr_method = GET, wr_path = ''/api/projects/'' @ p @ ''/issues'',
      wr_params = page_params filters c, wr_body = Undefined\<rparr> =
    Resolves (Obj [(''items'', Arr xs), (''nextCursor'', d)])"
  shows "\<exists>w'. read_page p filters c e w = (Inr (xs, d), w') \<and> b_tick w' = b_tick w + 1"
  using assms
  by (simp add: read_page_def http_call_def andThen_def get_property_def property_def maybe_property_def
      spread_elements_def Let_def)

lemma plain_page:
  assumes "{''limit'', ''cursor''} \<inter> fst ` set fs = {}" "distinct (map fst fs)" and "opt_ok listable after"
  shows "plain_query (page_params (text_params fs) (after_cursor after))"
proof -
  have fs: "map fst (text_params fs) = map fst fs" "snd ` set (text_params fs) \<subseteq> range Str"
    by (auto simp: text_params_def)
  have "page_params (text_params fs) (after_cursor after) = text_params fs @ (''limit'', Num (Fin (of_nat 50))) #
      (case after of None \<Rightarrow> [] | Some r \<Rightarrow> [(''cursor'', Str (row_cursor r))])"
    using assms by (auto simp: page_params_def put_property_def after_cursor_def row_cursor_nonempty
        ISSUE_PAGE_SIZE_def Let_def split: option.split)
  then show ?thesis
    using assms fs unfolding plain_query_def by (auto simp: image_Un split: option.split)
qed

lemma listable_matching:
  "\<lbrakk>r \<in> set (list_rows P after n d); \<forall>r\<in>set (t_issues d). listable r\<rbrakk> \<Longrightarrow> listable r"
  by (auto simp: list_rows_matching set_matching dest: in_set_takeD)

lemma truthy_after: "opt_ok listable after \<Longrightarrow> js_truthy (after_cursor after) \<longleftrightarrow> after \<noteq> None"
  by (cases after) (simp_all add: after_cursor_def row_cursor_nonempty)

text \<open>The keys a traversal may still meet get fewer with every full page.\<close>

lemma fewer_keys:
  assumes "finite K" and "r \<in> set (take 50 (matching P after d))" and "\<forall>r\<in>set (t_issues d). keyset_of r \<in> K"
  shows "card {k \<in> K. before (Some (keyset_of r)) k} < card {k \<in> K. before after k}"
proof (rule psubset_card_mono)
  have r: "r \<in> set (t_issues d)" "before after (keyset_of r)"
    using in_set_takeD [OF assms(2)] by (simp_all add: set_matching)
  then show "{k \<in> K. before (Some (keyset_of r)) k} \<subset> {k \<in> K. before after k}"
    using assms(3) before_trans [OF r(2)] by auto
qed (use assms(1) in simp)

section \<open>The loop behind a transport\<close>

text \<open>
  What the client needs of all that lies between it and the issue service: a list request that
  the service would answer with a page is answered with this page. \<open>admits\<close> says when a state
  of the transport lets the client's requests for a project through.
\<close>

locale list_transport =
  fixes answer :: "'s \<Rightarrow> nat \<Rightarrow> web_request \<Rightarrow> web_reply" and admits :: "'s \<Rightarrow> string \<Rightarrow> bool"
    and se :: "'s \<Rightarrow> nat \<Rightarrow> env" and sw :: "'s \<Rightarrow> nat \<Rightarrow> world"
  assumes relays: "\<lbrakk>admits st p; plain_query ps;
      \<forall>ctx. \<exists>w'. service_listIssues p (arrived_query ps) ctx (se st n) (sw st n) = (Inr l, w')\<rbrakk> \<Longrightarrow>
    answer st n (list_request p ps) = Resolves (issue_list_json l)"
begin

lemma read_page_served:
  assumes http: "be_http e = answer st" and ok: "admits st p"
    and serves: "serves_from (se st (b_tick w)) lower d" and p: "canonical_uuid p"
    and parse: "parseIssueListQuery (Obj (text_params (fs @ [(''limit'', ''50'')]))) = Inr q"
    and q: "opt_ok pg_text (f_q (lq_filter q))"
    and fs: "{''limit'', ''cursor''} \<inter> fst ` set fs = {}" "distinct (map fst fs)" and after: "opt_ok listable after"
    and rows: "all_rows = list_rows (query_rows lower p q) (map_option keyset_of after) 51 d"
  obtains w' where "read_page p (text_params fs) (after_cursor after) e w =
      (Inr (map (\<lambda>r. issue_json (toIssue r)) (take 50 all_rows),
            after_cursor (if length all_rows > 50 then Some (last (take 50 all_rows)) else None)), w')"
    and "b_tick w' = b_tick w + 1"
proof -
  let ?q = "q\<lparr>lq_after := map_option (\<lambda>r. \<lparr>p_createdAt = position_text (r_created_at r), p_id = r_id r\<rparr>) after\<rparr>"
  let ?l = "\<lparr>il_items = map toIssue (take 50 all_rows),
    il_nextCursor = (if length all_rows > 50 then Some (row_cursor (last (take 50 all_rows))) else None)\<rparr>"
  note pp = parse_page [OF parse fs(1) after]
  have all: "all_rows = list_rows (query_rows lower p ?q) (map_option keyset_of after) (lq_limit ?q + 1) d"
    by (simp add: rows pp(2) query_rows_def)
  have limit: "lq_limit ?q = 50" using pp(2) by simp
  have "\<exists>sw'. service_listIssues p (arrived_query (page_params (text_params fs) (after_cursor after))) ctx
      (se st (b_tick w)) (sw st (b_tick w)) = (Inr ?l, sw')" for ctx
    unfolding arrived_page [OF fs(1) after]
    using list_page [OF serves p pp(1) _ _ _ after all refl, of ctx "sw st (b_tick w)", unfolded limit] q pp(2) by simp
  then have "be_http e (b_tick w) (list_request p (page_params (text_params fs) (after_cursor after))) =
      Resolves (issue_list_json ?l)"
    unfolding http by (intro relays ok plain_page fs after) blast
  then have "be_http e (b_tick w) \<lparr>wr_method = GET, wr_path = ''/api/projects/'' @ p @ ''/issues'',
      wr_params = page_params (text_params fs) (after_cursor after), wr_body = Undefined\<rparr> =
      Resolves (Obj [(''items'', Arr (map issue_json (map toIssue (take 50 all_rows)))),
        (''nextCursor'', after_cursor (if length all_rows > 50 then Some (last (take 50 all_rows)) else None))])"
    by (simp add: list_request_def issue_list_json_def str_or_null_def)
  from read_page_reply [OF this] show thesis using that by (auto simp: o_def)
qed

lemma read_pages_walk:
  assumes http: "be_http e = answer st" and admitted: "admits st p"
    and serves: "\<And>n. serves_from (se st n) lower (dbs n)" and p: "canonical_uuid p"
    and parse: "parseIssueListQuery (Obj (text_params (fs @ [(''limit'', ''50'')]))) = Inr q"
    and q: "opt_ok pg_text (f_q (lq_filter q))"
    and fs: "{''limit'', ''cursor''} \<inter> fst ` set fs = {}" "distinct (map fst fs)"
    and ok: "\<And>n. \<forall>r\<in>set (t_issues (dbs n)). listable r \<and> keyset_of r \<in> K" and "finite K"
    and "opt_ok listable after"
  shows "\<exists>k rows w'. read_pages p (text_params fs) (after_cursor after) issues e w =
      Some (Inr (issues @ map (\<lambda>r. issue_json (toIssue r)) rows), w') \<and>
    walk (query_rows lower p q) 50 (map dbs [b_tick w..<b_tick w + k]) (map_option keyset_of after) = (rows, True) \<and>
    0 < k \<and> b_tick w' = b_tick w + k"
  using assms(11)
proof (induction "card {k \<in> K. before (map_option keyset_of after) k}" arbitrary: after issues w rule: less_induct)
  case less
  let ?P = "query_rows lower p q" and ?d = "dbs (b_tick w)" and ?a = "map_option keyset_of after"
  let ?all = "list_rows ?P ?a 51 ?d"
  let ?next = "if length ?all > 50 then Some (last (take 50 ?all)) else None"
  let ?json = "\<lambda>r. issue_json (toIssue r)"
  obtain w1 where page: "read_page p (text_params fs) (after_cursor after) e w =
      (Inr (map ?json (take 50 ?all), after_cursor ?next), w1)" and w1: "b_tick w1 = b_tick w + 1"
    using read_page_served [OF http admitted serves p parse q fs less.prems refl] by metis
  show ?case
  proof (cases "length ?all > 50")
    case False
    then have "read_pages p (text_params fs) (after_cursor after) issues e w =
        Some (Inr (issues @ map ?json (take 50 ?all)), w1)"
      using page by (simp add: read_pages.simps [of _ _ "after_cursor after"])
    moreover have "walk ?P 50 (map dbs [b_tick w..<b_tick w + 1]) ?a = (take 50 ?all, True)"
      using False by (simp add: Let_def)
    ultimately show ?thesis using w1 by (intro exI [of _ "1 :: nat"] exI [of _ "take 50 ?all"] exI [of _ w1]) simp
  next
    case True
    let ?r = "last (take 50 ?all)"
    have "?r \<in> set (take 50 ?all)" using True by (intro last_in_set) auto
    then have r: "?r \<in> set ?all" "?r \<in> set (take 50 (matching ?P ?a ?d))"
      using set_take_subset_set_take [of 50 51 "matching ?P ?a ?d"]
      by (auto simp: list_rows_matching min_def)
    have l: "opt_ok listable (Some ?r)" using listable_matching [OF r(1)] ok by simp
    have "card {k \<in> K. before (map_option keyset_of (Some ?r)) k} < card {k \<in> K. before ?a k}"
      using fewer_keys [OF \<open>finite K\<close> r(2)] ok by simp
    from less.hyps [OF this l] obtain k rows w2 where
      rest: "read_pages p (text_params fs) (after_cursor (Some ?r)) (issues @ map ?json (take 50 ?all)) e w1 =
          Some (Inr ((issues @ map ?json (take 50 ?all)) @ map ?json rows), w2)"
        "walk ?P 50 (map dbs [b_tick w1..<b_tick w1 + k]) (map_option keyset_of (Some ?r)) = (rows, True)"
        "0 < k" "b_tick w2 = b_tick w1 + k"
      by blast
    have "read_pages p (text_params fs) (after_cursor after) issues e w =
        Some (Inr (issues @ map ?json (take 50 ?all @ rows)), w2)"
      using page True rest(1) truthy_after [OF l] by (simp add: read_pages.simps [of _ _ "after_cursor after"])
    moreover have "[b_tick w..<b_tick w + Suc k] = b_tick w # [b_tick w1..<b_tick w1 + k]"
      using w1 by (simp add: upt_rec [of "b_tick w"])
    then have "walk ?P 50 (map dbs [b_tick w..<b_tick w + Suc k]) ?a = (take 50 ?all @ rows, True)"
      using rest(2) True by (simp add: Let_def)
    ultimately show ?thesis using rest(4) w1
      by (intro exI [of _ "Suc k"] exI [of _ "take 50 ?all @ rows"] exI [of _ w2]) simp
  qed
qed

text \<open>
  The client's list ends, and holds what matched throughout: \<open>dbs n\<close> are the tables the service
  reads at the \<open>n\<close>th tick of the browser.
\<close>

lemma lists_everything:
  assumes "be_http e = answer st" and "admits st p"
    and "\<forall>n. serves_from (se st n) lower (dbs n) \<and> db_inv (dbs n) \<and> (\<forall>r\<in>set (t_issues (dbs n)). listable r)"
    and "\<forall>m n. m \<le> n \<longrightarrow> evolves (dbs m) (dbs n)"
    and "finite (\<Union>n. keyset_of ` set (t_issues (dbs n)))"
    and "canonical_uuid p" and "{''limit'', ''cursor''} \<inter> fst ` set fs = {}" "distinct (map fst fs)"
    and "parseIssueListQuery (Obj (text_params (fs @ [(''limit'', ''50'')]))) = Inr q"
    and "opt_ok pg_text (f_q (lq_filter q))"
  shows "\<exists>k rows w'. api_listIssues p (text_params fs) e w = Some (Inr (map (\<lambda>r. issue_json (toIssue r)) rows), w') \<and>
    0 < k \<and> b_tick w' = b_tick w + k \<and> descending rows \<and> distinct (map r_id rows) \<and>
    (\<forall>r\<in>set rows. query_rows lower p q r \<and> (\<exists>n\<in>{b_tick w..<b_tick w + k}. r \<in> set (t_issues (dbs n)))) \<and>
    (\<forall>i. (\<forall>n\<in>{b_tick w..<b_tick w + k}. \<exists>r\<in>set (t_issues (dbs n)). query_rows lower p q r \<and> r_id r = i) \<longrightarrow>
         i \<in> r_id ` set rows)"
proof -
  let ?K = "\<Union>n. keyset_of ` set (t_issues (dbs n))"
  have serves: "\<And>n. serves_from (se st n) lower (dbs n)" and inv: "\<And>n. db_inv (dbs n)"
    and ok: "\<And>n. \<forall>r\<in>set (t_issues (dbs n)). listable r \<and> keyset_of r \<in> ?K"
    using assms(3) by auto
  obtain k rows w' where run: "read_pages p (text_params fs) (after_cursor None) [] e w =
        Some (Inr ([] @ map (\<lambda>r. issue_json (toIssue r)) rows), w')"
    and walk: "walk (query_rows lower p q) 50 (map dbs [b_tick w..<b_tick w + k]) (map_option keyset_of None) = (rows, True)"
    and k: "0 < k" "b_tick w' = b_tick w + k"
    using read_pages_walk [OF assms(1,2) serves assms(6,9,10,7,8) ok assms(5), of None "[]" w] by auto
  have ds: "\<forall>d\<in>set (map dbs [b_tick w..<b_tick w + k]). db_inv d"
    "sorted_wrt evolves (map dbs [b_tick w..<b_tick w + k])"
    using inv assms(4) by (auto simp: sorted_wrt_map sorted_wrt_iff_nth_less)
  note facts = traversal_facts [OF ds _ walk [unfolded option.map], simplified]
  have "\<forall>d\<in>set (map dbs [b_tick w..<b_tick w + k]). distinct (map r_id (t_issues d))"
    using ds(1) inv_distinct_ids by blast
  then have "\<forall>r\<in>set rows. query_rows lower p q r \<and> (\<exists>n\<in>{b_tick w..<b_tick w + k}. r \<in> set (t_issues (dbs n)))"
    using walk_rows [of "map dbs [b_tick w..<b_tick w + k]" 50 "query_rows lower p q" None] walk by auto
  then show ?thesis using facts run k by (intro exI [of _ k] exI [of _ rows] exI [of _ w']) (simp add: api_listIssues_def)
qed

end

end
