(* ===== verification/Web_Stack.thy ===== *)
theory Web_Stack
  imports Web_Listing Gateway_Promises Issue_Guarantees
begin

text \<open>
  The three applications wired together: a request of the web client becomes a request of the
  gateway, whose calls of the issue service's address are requests served by the issue service,
  and the answers travel back. The list of the issues of a project is followed through all of
  them.
\<close>

section \<open>The wiring\<close>

text \<open>
  A state of the system, by ticks of the browser: the gateway and the issue service with their
  environments, the access token that the request interceptor attaches, the address of the
  client, and the third-party code on the way: the serialiser of query parameters in the
  browser, the parser of query strings in the issue service, the identifiers of its requests.
\<close>

record stack =
  sk_gateway :: "nat \<Rightarrow> gateway_env"
  sk_gateway_world :: "nat \<Rightarrow> gateway_world"
  sk_service :: "nat \<Rightarrow> env"
  sk_world :: "nat \<Rightarrow> world"
  sk_token :: "nat \<Rightarrow> string"
  sk_ip :: "string option"
  sk_serialise :: "js_object \<Rightarrow> string"
  sk_parse :: "string \<Rightarrow> jsval"
  sk_request_id :: "nat \<Rightarrow> string"

text \<open>The issue service answers a call of the gateway, if it has started; bodies travel as JSON.\<close>

definition service_fetch :: "stack \<Rightarrow> nat \<Rightarrow> gateway_call \<Rightarrow> fetch_reply" where
  "service_fetch st n c =
     (let refused = FetchFails ''TypeError'' ''fetch failed'';
          rq = arriving_request (client_base issue_client (sk_gateway st n)) (sk_parse st) (sk_request_id st n) c
      in case bootstrap_secret (sk_service st n) of
           None \<Rightarrow> refused
         | Some secret \<Rightarrow>
             (case serve secret rq (sk_service st n) (sk_world st n) of
                (Inr answer, _) \<Rightarrow> FetchAnswers (rs_status answer) (Some (json_copy (rs_body answer)))
              | (Inl _, _) \<Rightarrow> refused))"

definition gateway_with_service :: "stack \<Rightarrow> nat \<Rightarrow> gateway_env" where
  "gateway_with_service st n =
     (let g = sk_gateway st n in
      g\<lparr>ge_fetch := (\<lambda>t c. if starts_with (client_base issue_client g) (gc_url c) then service_fetch st n c
                           else ge_fetch g t c)\<rparr>)"

text \<open>What the HTTP library sends for a request of the client.\<close>

definition browser_request :: "stack \<Rightarrow> nat \<Rightarrow> web_request \<Rightarrow> gateway_request" where
  "browser_request st n rq =
     (let search = sk_serialise st (wr_params rq) in
      \<lparr>gr_method = wr_method rq, gr_url = wr_path rq @ (if search = [] then [] else ''?'' @ search),
       gr_headers = [(''authorization'', Str (''Bearer '' @ sk_token st n))],
       gr_body = json_copy (wr_body rq), gr_ip = sk_ip st\<rparr>)"

definition stack_http :: "stack \<Rightarrow> nat \<Rightarrow> web_request \<Rightarrow> web_reply" where
  "stack_http st n rq =
     (case gateway_handle (browser_request st n rq) (gateway_with_service st n) (sk_gateway_world st n) of
        (Inr answer, _) \<Rightarrow>
          if 200 \<le> gs_status answer \<and> gs_status answer < 300 then Resolves (json_copy (gs_body answer))
          else Rejects (AxiosError (Some (gs_status answer, json_copy (gs_body answer))))
      | (Inl _, _) \<Rightarrow> Rejects (AxiosError None))"

section \<open>A user who is signed in\<close>

text \<open>The gateway accepts the token of the page, and both processes have the same secret.\<close>

definition signed_in :: "stack \<Rightarrow> nat \<Rightarrow> bool" where
  "signed_in st n \<longleftrightarrow>
     (let g = sk_gateway st n in
      sk_token st n \<noteq> [] \<and> CHR '' '' \<notin> set (sk_token st n) \<and>
      (\<forall>t. \<exists>payload user. ge_verify g t (variable_or ''JWT_SECRET'' [] g) (variable_or ''JWT_ISSUER'' ''jira-like-iam'' g)
             (variable_or ''JWT_AUDIENCE'' ''jira-like-api'' g) (sk_token st n) = TokenPayload payload \<and>
           toGatewayUser payload = Inr user \<and> gu_id user \<noteq> []))"

definition shares_secret :: "stack \<Rightarrow> nat \<Rightarrow> bool" where
  "shares_secret st n \<longleftrightarrow>
     bootstrap_secret (sk_service st n) = Some (variable_or ''INTERNAL_SERVICE_SECRET'' [] (sk_gateway st n))"

text \<open>The parser of query strings undoes the serialiser, up to the texts of numbers.\<close>

definition stack_ok :: "stack \<Rightarrow> string \<Rightarrow> bool" where
  "stack_ok st p \<longleftrightarrow>
     canonical_uuid p \<and> (\<forall>n. signed_in st n \<and> shares_secret st n) \<and>
     (\<forall>ps. plain_query ps \<longrightarrow> sk_parse st (sk_serialise st ps) = arrived_query ps)"

section \<open>The way there and back\<close>

lemma uuid_chars:
  "hex_digit c \<Longrightarrow> url_unreserved c" "uuid_version c \<Longrightarrow> url_unreserved c"
  "uuid_variant c \<Longrightarrow> url_unreserved c" "lit CHR ''-'' c \<Longrightarrow> url_unreserved c"
  unfolding url_unreserved_def
proof -
  have "code CHR ''-'' = 45" by (simp add: code_def)
  then show "lit CHR ''-'' c \<Longrightarrow> is_digit c \<or> 65 \<le> code c \<and> code c \<le> 90 \<or> 97 \<le> code c \<and> code c \<le> 122 \<or>
      code c \<in> {45, 95, 46, 33, 126, 42, 39, 40, 41}" by (auto simp: lit_def)
qed (auto simp: hex_digit_def, auto simp: uuid_version_def uuid_variant_def is_digit_def)

lemma uuid_unreserved:
  assumes "match_re UUID_RE s" "c \<in> set s"
  shows "url_unreserved c"
proof (rule ccontr)
  assume c: "\<not> url_unreserved c"
  have "set UUID_RE \<subseteq> {hex_digit, uuid_version, uuid_variant, lit CHR ''-''}"
    by (auto simp: UUID_RE_def)
  then show False using match_re_set [OF assms(1), of c] assms(2) c uuid_chars [of c] by blast
qed

lemma canonical_uuid_encoded: "canonical_uuid p \<Longrightarrow> encodeURIComponent p = p"
proof -
  assume "canonical_uuid p"
  then have "\<forall>c\<in>set p. url_unreserved c" using uuid_unreserved by (auto simp: canonical_uuid_def)
  then show ?thesis by (induction p) (simp_all add: encodeURIComponent_def)
qed

lemma canonical_uuid_addressable:
  assumes "canonical_uuid p"
  shows "addressable p"
proof -
  have "length p = 36" using assms by (rule canonical_uuid_length)
  then show ?thesis using canonical_uuid_encoded [OF assms] by (auto simp: addressable_def)
qed

lemma json_copy_issue: "json_copy (issue_json i) = issue_json i"
  by (simp add: issue_json_def int_json_def date_json_def str_or_null_def split: option.split)

lemma json_copy_issue_list: "json_copy (issue_list_json l) = issue_list_json l"
proof -
  have "issue_json i \<noteq> Undefined" for i by (simp add: issue_json_def)
  then show ?thesis by (simp add: issue_list_json_def json_copy_issue str_or_null_def split: option.split)
qed

section \<open>Operations of the issue service\<close>

text \<open>The gateway's routes read the path of a request as it was put together.\<close>

lemma query_of_search: "CHR ''?'' \<notin> set path \<Longrightarrow> query_of_url (path @ (if search = [] then [] else ''?'' @ search)) = search"
proof -
  assume "CHR ''?'' \<notin> set path"
  then have "dropWhile (\<lambda>c. c \<noteq> CHR ''?'') (path @ tail) = dropWhile (\<lambda>c. c \<noteq> CHR ''?'') tail" for tail
    by (intro dropWhile_append2) auto
  then show ?thesis by (simp add: query_of_url_def)
qed

lemma browser_route:
  assumes "wr_path rq = path_of_segments ss" and "\<forall>s\<in>set ss. CHR ''/'' \<notin> set s \<and> CHR ''?'' \<notin> set s"
  shows "gateway_route_of (browser_request st n rq) = find_route gateway_routes (wr_method rq) ss"
    and "query_of_url (gr_url (browser_request st n rq)) = sk_serialise st (wr_params rq)"
proof -
  have "segments_of_url (path_of_segments ss @ (if search = [] then [] else ''?'' @ search)) = ss" for search
    using assms(2) by (intro segments_of_path) auto
  then show "gateway_route_of (browser_request st n rq) = find_route gateway_routes (wr_method rq) ss"
    by (simp add: gateway_route_of_def browser_request_def assms(1) Let_def del: append_Cons)
  have "CHR ''?'' \<notin> set (path_of_segments ss)" using assms(2) by (auto simp: path_of_segments_def)
  from query_of_search [OF this] show "query_of_url (gr_url (browser_request st n rq)) = sk_serialise st (wr_params rq)"
    by (simp add: browser_request_def assms(1) Let_def del: append_Cons)
qed

lemma uuid_segment:
  assumes "canonical_uuid p"
  shows "CHR ''/'' \<notin> set p \<and> CHR ''?'' \<notin> set p" "decodeURIComponent p = Some p" "p \<noteq> []" "length p \<le> 100"
  using encoded_has_no_separator [of p] decode_encodeURIComponent [of p] canonical_uuid_encoded [OF assms]
    canonical_uuid_length [OF assms] by auto

text \<open>The call of the gateway for an operation of the issue service.\<close>

fun operation_path :: "gateway_route \<Rightarrow> string \<Rightarrow> http_method \<times> string" where
  "operation_path (GwIssues operation) search = issue_path operation search"
| "operation_path (GwPlanning operation) search = planning_path operation"
| "operation_path _ search = (GET, [])"

fun operation_body :: "gateway_route \<Rightarrow> jsval \<Rightarrow> jsval" where
  "operation_body (GwPlanning (CompleteSprint i)) body = Undefined"
| "operation_body _ body = body"

definition operation_call :: "stack \<Rightarrow> nat \<Rightarrow> web_request \<Rightarrow> gateway_route \<Rightarrow> string \<Rightarrow> string \<Rightarrow> gateway_call" where
  "operation_call st n rq rt u cid =
     (let path = operation_path rt (query_of_url (gr_url (browser_request st n rq))) in
      client_call issue_client (fst path) (snd path) (operation_body rt (json_copy (wr_body rq)))
        \<lparr>cc_userId = Some u, cc_correlationId = cid\<rparr> (gateway_with_service st n))"

lemma wired_simps [simp]:
  "variable_or v d (gateway_with_service st n) = variable_or v d (sk_gateway st n)"
  "client_base c (gateway_with_service st n) = client_base c (sk_gateway st n)"
  "ge_verify (gateway_with_service st n) = ge_verify (sk_gateway st n)"
  "ge_uuid (gateway_with_service st n) = ge_uuid (sk_gateway st n)"
  by (simp_all add: gateway_with_service_def Let_def variable_or_def client_base_def)

lemma wired_fetch:
  "ge_fetch (gateway_with_service st n) t c =
     (if starts_with (client_base issue_client (sk_gateway st n)) (gc_url c) then service_fetch st n c
      else ge_fetch (sk_gateway st n) t c)"
  by (simp add: gateway_with_service_def Let_def)

lemma get_without_body: "forward issue_client GET path Undefined ctx = forward issue_client GET path body ctx"
  by (rule ext)+ (simp add: forward_run client_call_def Let_def)

lemma adapters_forward:
  "issue_adapter iop body search ctx = forward issue_client (fst (issue_path iop search)) (snd (issue_path iop search)) body ctx"
  "planning_adapter pop body ctx =
     forward issue_client (fst (planning_path pop)) (snd (planning_path pop)) (operation_body (GwPlanning pop) body) ctx"
  by (cases iop; simp add: get_without_body Let_def) (cases pop; simp add: get_without_body)

text \<open>What the gateway makes of the answer to its call.\<close>

definition relayed :: "gateway_route \<Rightarrow> http_method \<Rightarrow> string \<Rightarrow> fetch_reply \<Rightarrow> nat \<times> jsval" where
  "relayed rt m cid reply =
     (case client_result issue_client reply of
        Inl x \<Rightarrow> ApiExceptionFilter x cid
      | Inr body \<Rightarrow> (success_status rt m, body))"

lemma gateway_forwards:
  assumes "signed_in st n" and rt: "gateway_route_of (browser_request st n rq) = Some rt"
    and op: "issue_target rt = Some (target, i)"
  obtains u cid w' where "accepted_token (gr_headers (browser_request st n rq)) u (sk_gateway st n)" "u \<noteq> []" "cid \<noteq> []"
    "gateway_handle (browser_request st n rq) (gateway_with_service st n) (sk_gateway_world st n) =
       (let outcome = relayed rt (wr_method rq) cid (service_fetch st n (operation_call st n rq rt u cid))
        in (Inr \<lparr>gs_status = fst outcome, gs_body = snd outcome, gs_correlation = cid, gs_cookies = []\<rparr>, w'))"
    "gw_calls w' = gw_calls (sk_gateway_world st n) @ [operation_call st n rq rt u cid]"
proof -
  let ?rq = "browser_request st n rq" and ?g = "gateway_with_service st n" and ?w = "sk_gateway_world st n"
  define cid where "cid = ''req_'' @ filter (\<lambda>c. c \<noteq> CHR ''-'') (ge_uuid (sk_gateway st n) (gw_tick ?w))"
  obtain payload user where token: "ge_verify (sk_gateway st n) (Suc (gw_tick ?w)) (variable_or ''JWT_SECRET'' [] (sk_gateway st n))
        (variable_or ''JWT_ISSUER'' ''jira-like-iam'' (sk_gateway st n))
        (variable_or ''JWT_AUDIENCE'' ''jira-like-api'' (sk_gateway st n)) (sk_token st n) = TokenPayload payload"
      "toGatewayUser payload = Inr user" "gu_id user \<noteq> []"
    using assms(1) unfolding signed_in_def Let_def by blast
  have bearer: "extractBearerToken (Str (''Bearer '' @ sk_token st n)) = Some (sk_token st n)"
    using assms(1) by (auto simp: extractBearerToken_def signed_in_def Let_def split_on_append split_on_none)
  have headers: "gr_headers ?rq = [(''authorization'', Str (''Bearer '' @ sk_token st n))]"
    and body: "gr_body ?rq = json_copy (wr_body rq)" and verb: "gr_method ?rq = wr_method rq"
    by (simp_all add: browser_request_def Let_def)
  have accepted: "accepted_token (gr_headers ?rq) (gu_id user) (sk_gateway st n)"
    unfolding accepted_token_def headers using bearer token(1) toGatewayUser_Inr [OF token(2)] by (force simp: js_get_def)
  let ?c = "operation_call st n rq rt (gu_id user) cid"
  let ?w1 = "?w\<lparr>gw_set_cookie := [], gw_tick := Suc (gw_tick ?w)\<rparr>" and ?w2 = "?w\<lparr>gw_set_cookie := [], gw_tick := Suc (Suc (gw_tick ?w))\<rparr>"
  have correlation: "getCorrelationId (gr_headers ?rq) ?g (?w\<lparr>gw_set_cookie := []\<rparr>) = (Inr cid, ?w1)"
    by (simp add: getCorrelationId_def headers js_get_def gateway_uuid_def andThen_def cid_def)
  have guard: "canActivate (gr_headers ?rq) ?g ?w1 = (Inr user, ?w2)"
    using token bearer by (simp add: canActivate_def headers js_get_def verify_token_def andThen_def)
  have "starts_with (client_base issue_client (sk_gateway st n)) (gc_url ?c)"
    by (simp add: operation_call_def client_call_def starts_with_def Let_def)
  then have fetch: "ge_fetch ?g t ?c = service_fetch st n ?c" for t by (simp add: wired_fetch)
  have run: "gateway_dispatch rt ?rq cid ?g ?w1 =
      (client_result issue_client (service_fetch st n ?c), ?w2\<lparr>gw_tick := Suc (Suc (Suc (gw_tick ?w))), gw_calls := gw_calls ?w @ [?c]\<rparr>)"
  proof -
    have "forward issue_client (fst (operation_path rt (query_of_url (gr_url ?rq)))) (snd (operation_path rt (query_of_url (gr_url ?rq))))
        (operation_body rt (gr_body ?rq)) (user_context user cid) ?g ?w2 =
        (client_result issue_client (service_fetch st n ?c), ?w2\<lparr>gw_tick := Suc (Suc (Suc (gw_tick ?w))), gw_calls := gw_calls ?w @ [?c]\<rparr>)"
      using fetch by (simp add: forward_run operation_call_def user_context_def body Let_def)
    then show ?thesis
      using op by (cases rt) (simp_all add: guarded_def andThen_def guard gateway_issues_controller_def
          gateway_planning_controller_def adapters_forward)
  qed
  show thesis
  proof (rule that [OF accepted token(3)])
    show "cid \<noteq> []" by (simp add: cid_def)
    show "gateway_handle ?rq ?g ?w =
        (let outcome = relayed rt (wr_method rq) cid (service_fetch st n ?c)
         in (Inr \<lparr>gs_status = fst outcome, gs_body = snd outcome, gs_correlation = cid, gs_cookies = []\<rparr>,
             ?w2\<lparr>gw_tick := Suc (Suc (Suc (gw_tick ?w))), gw_calls := gw_calls ?w @ [?c]\<rparr>))"
      using rt correlation run
      by (simp add: gateway_handle_def fresh_reply_def reply_cookies_def andThen_def handler_outcome_def catching_def
          relayed_def verb Let_def split: sum.split)
  qed simp
qed

text \<open>The request the issue service sees, and its answer.\<close>

definition service_request :: "stack \<Rightarrow> nat \<Rightarrow> gateway_call \<Rightarrow> server_request" where
  "service_request st n c =
     arriving_request (client_base issue_client (sk_gateway st n)) (sk_parse st) (sk_request_id st n) c"

definition shared_secret :: "stack \<Rightarrow> nat \<Rightarrow> string" where
  "shared_secret st n = variable_or ''INTERNAL_SERVICE_SECRET'' [] (sk_gateway st n)"

lemma service_receives:
  assumes "issue_target rt = Some (target, i)" "addressable i" "u \<noteq> []"
    and c: "c = operation_call st n rq rt u cid"
  shows "rq_route (service_request st n c) = target"
    and "rq_query (service_request st n c) = sk_parse st (query_of_url (snd (operation_path rt (query_of_url (gr_url (browser_request st n rq))))))"
    and "rq_body (service_request st n c) =
      (if fst (operation_path rt []) \<in> {POST, PATCH} then body_or_empty (operation_body rt (json_copy (wr_body rq))) else Undefined)"
    and "header (rq_headers (service_request st n c)) ''x-authenticated-user-id'' = Some u"
    and "header (rq_headers (service_request st n c)) ''x-correlation-id'' = Some cid"
    and "secret_accepted (shared_secret st n) (rq_headers (service_request st n c))"
proof -
  let ?path = "operation_path rt (query_of_url (gr_url (browser_request st n rq)))"
  have path: "drop (length (client_base issue_client (sk_gateway st n))) (gc_url c) = snd ?path" and verb: "gc_method c = fst ?path"
    by (simp_all add: c operation_call_def client_call_def Let_def)
  have same: "fst ?path = fst (operation_path rt [])"
    using assms(1) by (cases rt; simp) (cases "case rt of GwIssues op \<Rightarrow> op"; simp)
  show "rq_route (service_request st n c) = target"
    using assms(1,2) issue_path_routes planning_path_routes path verb
    by (cases rt) (auto simp: service_request_def arriving_request_def Let_def)
  show "rq_query (service_request st n c) = sk_parse st (query_of_url (snd ?path))"
    by (simp add: service_request_def arriving_request_def path Let_def)
  show "rq_body (service_request st n c) =
      (if fst (operation_path rt []) \<in> {POST, PATCH} then body_or_empty (operation_body rt (json_copy (wr_body rq))) else Undefined)"
    unfolding same [symmetric]
    by (simp add: service_request_def arriving_request_def c operation_call_def client_call_def issue_client_def Let_def)
  have "speaks_for (Some u) cid (gateway_with_service st n) c"
    using client_call_speaks [of "\<lparr>cc_userId = Some u, cc_correlationId = cid\<rparr>"] by (simp add: c operation_call_def Let_def)
  then show "header (rq_headers (service_request st n c)) ''x-authenticated-user-id'' = Some u"
    "header (rq_headers (service_request st n c)) ''x-correlation-id'' = Some cid"
    "secret_accepted (shared_secret st n) (rq_headers (service_request st n c))"
    using assms(3) by (simp_all add: service_request_def header_def delivered_header speaks_for_def secret_accepted_def
        shared_secret_def Let_def)
qed

lemma service_answers:
  assumes "shares_secret st n" and "serve (shared_secret st n) (service_request st n c) (sk_service st n) (sk_world st n) = (Inr resp, w')"
  shows "service_fetch st n c = FetchAnswers (rs_status resp) (Some (json_copy (rs_body resp)))"
  using assms by (simp add: service_fetch_def shares_secret_def shared_secret_def service_request_def Let_def)

section \<open>The list\<close>

lemma list_route:
  assumes "canonical_uuid p"
  shows "gateway_route_of (browser_request st n (list_request p ps)) = Some (GwIssues (ListIssues p))"
    and "query_of_url (gr_url (browser_request st n (list_request p ps))) = sk_serialise st ps"
proof -
  note p = uuid_segment [OF assms]
  have "wr_path (list_request p ps) = path_of_segments [''api'', ''projects'', p, ''issues'']"
    by (simp add: list_request_def path_of_segments_def)
  note r = browser_route [OF this, of st n]
  show "gateway_route_of (browser_request st n (list_request p ps)) = Some (GwIssues (ListIssues p))"
    "query_of_url (gr_url (browser_request st n (list_request p ps))) = sk_serialise st ps"
    using r p by (simp_all add: list_request_def gateway_tables)
qed

text \<open>The gateway relays the page that the use case of the issue service returns.\<close>

lemma stack_relays:
  assumes "stack_ok st p" and "plain_query ps"
    and "\<forall>ctx. \<exists>w'. service_listIssues p (arrived_query ps) ctx (sk_service st n) (sk_world st n) = (Inr l, w')"
  shows "stack_http st n (list_request p ps) = Resolves (issue_list_json l)"
proof -
  have p: "canonical_uuid p" and si: "signed_in st n" and sh: "shares_secret st n"
    and parse: "sk_parse st (sk_serialise st ps) = arrived_query ps"
    using assms(1,2) by (auto simp: stack_ok_def)
  let ?rt = "GwIssues (ListIssues p)"
  obtain u cid gw where u: "u \<noteq> []" "cid \<noteq> []" and handle:
    "gateway_handle (browser_request st n (list_request p ps)) (gateway_with_service st n) (sk_gateway_world st n) =
       (let outcome = relayed ?rt (wr_method (list_request p ps)) cid (service_fetch st n (operation_call st n (list_request p ps) ?rt u cid))
        in (Inr \<lparr>gs_status = fst outcome, gs_body = snd outcome, gs_correlation = cid, gs_cookies = []\<rparr>, gw))"
    by (rule gateway_forwards [OF si list_route(1) [OF p] issue_target.simps(1)]) (rule that)
  define c where "c = operation_call st n (list_request p ps) ?rt u cid"
  have "issue_target ?rt = Some (Issues (ListIssues p), p)" by simp
  note got = service_receives [OF this canonical_uuid_addressable [OF p] u(1) c_def]
  have "CHR ''?'' \<notin> set (''/internal/projects/'' @ encodeURIComponent p @ ''/issues'')"
    using encoded_has_no_separator(3) [of p] by simp
  from query_of_search [OF this, of "sk_serialise st ps"]
  have query: "rq_query (service_request st n c) = arrived_query ps"
    using got(2) parse list_route(2) [OF p, of st n ps] by (simp split: if_splits)
  let ?h = "set_header ''x-correlation-id'' cid (rq_headers (service_request st n c))"
  have ctx: "requestContext ?h = returning \<lparr>rc_userId = u, rc_correlationId = cid\<rparr>"
    using got(4,5) u by (simp add: requestContext_def header_set)
  obtain w' where "service_listIssues p (arrived_query ps) \<lparr>rc_userId = u, rc_correlationId = cid\<rparr> (sk_service st n) (sk_world st n) = (Inr l, w')"
    using assms(3) by blast
  then have "serve (shared_secret st n) (service_request st n c) (sk_service st n) (sk_world st n) =
      (Inr \<lparr>rs_status = 200, rs_body = issue_list_json l, rs_correlation = Some cid\<rparr>, w')"
    using got u(2)
    by (simp add: serve_def correlation_hook_def Let_def query with_context_def ctx andThen_def catching_def)
  from service_answers [OF sh this] have "service_fetch st n c = FetchAnswers 200 (Some (issue_list_json l))"
    by (simp add: json_copy_issue_list)
  then have "relayed ?rt (wr_method (list_request p ps)) cid (service_fetch st n c) = (200, issue_list_json l)"
    by (simp add: relayed_def client_result_def issue_client_def list_request_def)
  then show ?thesis using handle by (simp add: stack_http_def c_def json_copy_issue_list Let_def)
qed

interpretation stack: list_transport stack_http stack_ok sk_service sk_world
  by unfold_locales (rule stack_relays)

section \<open>Property\<close>

text \<open>
  C6: A user who is signed in gets the whole list of a project. Through the gateway and the issue
  service, the web client's \<open>listIssues\<close> returns after finitely many page requests while other
  sessions write between them: the issues it returns are newest first, none twice, each matches
  the filters as it was read at one of the pages, and every issue that matches at all of the
  page queries is among them. The gateway accepts the page's token, the two services share
  their secret, the database and the project service answer, and only finitely many positions
  may ever be listed.
\<close>

theorem client_lists_every_issue:
  assumes "be_http e = stack_http st" and "stack_ok st p"
    and "\<forall>n. serves_from (sk_service st n) lower (dbs n) \<and> db_inv (dbs n) \<and> (\<forall>r\<in>set (t_issues (dbs n)). listable r)"
    and "\<forall>m n. m \<le> n \<longrightarrow> evolves (dbs m) (dbs n)"
    and "finite (\<Union>n. keyset_of ` set (t_issues (dbs n)))"
    and "{''limit'', ''cursor''} \<inter> fst ` set fs = {}" "distinct (map fst fs)"
    and "parseIssueListQuery (Obj (text_params (fs @ [(''limit'', ''50'')]))) = Inr q"
    and "opt_ok pg_text (f_q (lq_filter q))"
  shows "\<exists>k rows w'. api_listIssues p (text_params fs) e w = Some (Inr (map (\<lambda>r. issue_json (toIssue r)) rows), w') \<and>
    0 < k \<and> b_tick w' = b_tick w + k \<and> descending rows \<and> distinct (map r_id rows) \<and>
    (\<forall>r\<in>set rows. query_rows lower p q r \<and> (\<exists>n\<in>{b_tick w..<b_tick w + k}. r \<in> set (t_issues (dbs n)))) \<and>
    (\<forall>i. (\<forall>n\<in>{b_tick w..<b_tick w + k}. \<exists>r\<in>set (t_issues (dbs n)). query_rows lower p q r \<and> r_id r = i) \<longrightarrow>
         i \<in> r_id ` set rows)"
proof -
  have "canonical_uuid p" using assms(2) by (simp add: stack_ok_def)
  then show ?thesis by (rule stack.lists_everything [OF assms(1-5) _ assms(6-9)])
qed

section \<open>An instance\<close>

text \<open>A serialiser of query parameters and its parser.\<close>

definition form_encode :: "js_object \<Rightarrow> string" where
  "form_encode ps = join ''&'' (map (\<lambda>(k, v). encodeURIComponent k @ ''='' @ encodeURIComponent (query_text v)) ps)"

definition form_pair :: "string \<Rightarrow> string \<times> jsval" where
  "form_pair s =
     (case split_on (CHR ''='') s of
        [k, v] \<Rightarrow> (case (decodeURIComponent k, decodeURIComponent v) of (Some k, Some v) \<Rightarrow> (k, Str v) | _ \<Rightarrow> (s, Undefined))
      | _ \<Rightarrow> (s, Undefined))"

definition form_decode :: "string \<Rightarrow> jsval" where
  "form_decode s = Obj (if s = [] then [] else map form_pair (split_on (CHR ''&'') s))"

lemma form_separators: "CHR ''&'' \<notin> set (encodeURIComponent s)" "CHR ''='' \<notin> set (encodeURIComponent s)"
  by (auto dest!: encodeURIComponent_chars simp: url_unreserved_def is_digit_def code_def)

lemma split_join: "\<lbrakk>xs \<noteq> []; \<forall>x\<in>set xs. c \<notin> set x\<rbrakk> \<Longrightarrow> split_on c (join [c] xs) = xs"
proof (induction xs)
  case (Cons x xs)
  then show ?case by (cases xs) (simp_all add: split_on_none split_on_append)
qed simp

lemma form_decode_encode: "form_decode (form_encode ps) = arrived_query ps"
proof (cases "ps = []")
  case False
  let ?f = "\<lambda>(k, v). encodeURIComponent k @ ''='' @ encodeURIComponent (query_text v)"
  have "split_on (CHR ''&'') (form_encode ps) = map ?f ps"
    unfolding form_encode_def using False form_separators(1) by (intro split_join) auto
  moreover have "form_encode ps \<noteq> []"
    using False by (cases ps; cases "tl ps") (auto simp: form_encode_def)
  moreover have "form_pair (?f (k, v)) = (k, Str (query_text v))" for k v
    by (simp add: form_pair_def form_separators split_on_append split_on_none decode_encodeURIComponent)
  ultimately show ?thesis by (auto simp: form_decode_def arrived_query_def)
qed (simp add: form_encode_def form_decode_def arrived_query_def)

definition listing_service :: env where
  "listing_service = example_env\<lparr>e_others := (\<lambda>_ _. db3)\<rparr>"

definition listing_world :: world where
  "listing_world = \<lparr>w_db = db3, w_tick = 0, w_tx = None, w_connected = True, w_running = False\<rparr>"

definition listing_gateway :: gateway_env where
  "listing_gateway = (example_gateway (FetchFails [] []))\<lparr>ge_vars :=
     (\<lambda>v. if v = ''INTERNAL_SERVICE_SECRET'' then Some ''secret'' else None)\<rparr>"

definition listing_stack :: stack where
  "listing_stack = \<lparr>sk_gateway = (\<lambda>_. listing_gateway), sk_gateway_world = (\<lambda>_. idle_gateway),
     sk_service = (\<lambda>_. listing_service), sk_world = (\<lambda>_. listing_world), sk_token = (\<lambda>_. ''t''), sk_ip = None,
     sk_serialise = form_encode, sk_parse = form_decode, sk_request_id = (\<lambda>_. ''req-1'')\<rparr>"

definition listing_browser :: browser_env where
  "listing_browser = \<lparr>be_http = stack_http listing_stack,
     be_confirm = (\<lambda>_ _. True), be_currentTarget = (\<lambda>_. False), be_page = example_page\<rparr>"

lemma listing_stack_ok: "stack_ok listing_stack example_project"
proof -
  have "canonical_uuid example_project" by code_simp
  moreover have "signed_in listing_stack n" for n
    by (auto simp: signed_in_def listing_stack_def Let_def listing_gateway_def example_gateway_def example_payload_def
        toGatewayUser_def object_or_empty_def js_get_def)
  moreover have "shares_secret listing_stack n" for n
    by (simp add: shares_secret_def listing_stack_def bootstrap_secret_def listing_gateway_def variable_or_def
        listing_service_def) (simp add: example_env_def)
  moreover have "sk_parse listing_stack (sk_serialise listing_stack ps) = arrived_query ps" for ps
    by (simp add: listing_stack_def form_decode_encode)
  ultimately show ?thesis by (simp add: stack_ok_def)
qed

definition fresh_browser :: browser where
  "fresh_browser = \<lparr>b_tick = 0, b_requests = [], b_effects = [], b_auth = initial_auth None\<rparr>"

lemma listing_service_simps:
  "e_others listing_service n d = db3" "e_fault listing_service n = NoFault" "e_lower listing_service = lower_char"
  "e_http listing_service n rq = Reply 200 (Some example_access)" "e_uuid_in listing_service = e_uuid_in example_env"
  by (simp_all add: listing_service_def) (simp_all add: example_env_def)

lemma serves_from_db3: "serves_from listing_service lower_char db3"
proof -
  have "pg_uuid listing_service" using example_issue_env by (simp add: issue_env_def pg_uuid_def listing_service_simps)
  then show ?thesis by (simp add: serves_from_def listing_service_simps)
qed

lemma db3_rows: "t_issues db3 = [example_row 1 ''Login page'', example_row 2 ''100% coverage'', example_row 3 ''Late'']"
  by (simp add: db3_def Let_def empty_db_def numeral_eq_Suc)

lemma db3_listable: "\<forall>r\<in>set (t_issues db3). listable r"
  by (rule example_listable(2))

definition listing_query :: issue_list_query where
  "listing_query = \<lparr>lq_filter = \<lparr>f_status = None, f_assigneeUserId = None, f_sprintId = None, f_q = None\<rparr>,
     lq_limit = 50, lq_after = None\<rparr>"

lemma listing_query_parsed: "parseIssueListQuery (Obj (text_params ([] @ [(''limit'', ''50'')]))) = Inr listing_query"
  unfolding listing_query_def by code_simp

lemma db3_matches: "\<forall>r\<in>set (t_issues db3). query_rows lower_char example_project listing_query r"
  by (simp add: db3_rows query_rows_def Let_def listing_query_def list_where_def truthy_def example_row_def)

theorem client_lists_every_issue_witness:
  "\<exists>rows w'. api_listIssues example_project (text_params []) listing_browser fresh_browser =
     Some (Inr (map (\<lambda>r. issue_json (toIssue r)) rows), w') \<and> descending rows \<and>
     r_id ` set rows = r_id ` set (t_issues db3)"
proof -
  obtain k rows w' where r: "api_listIssues example_project (text_params []) listing_browser fresh_browser =
        Some (Inr (map (\<lambda>r. issue_json (toIssue r)) rows), w')" "descending rows" "0 < k"
      "\<forall>r\<in>set rows. query_rows lower_char example_project listing_query r \<and>
         (\<exists>n\<in>{b_tick fresh_browser..<b_tick fresh_browser + k}. r \<in> set (t_issues db3))"
      "\<forall>i. (\<forall>n\<in>{b_tick fresh_browser..<b_tick fresh_browser + k}.
         \<exists>r\<in>set (t_issues db3). query_rows lower_char example_project listing_query r \<and> r_id r = i) \<longrightarrow> i \<in> r_id ` set rows"
    using client_lists_every_issue [where p = example_project and e = listing_browser and w = fresh_browser and fs = "[]"
        and st = listing_stack and lower = lower_char and dbs = "\<lambda>_. db3" and q = listing_query]
      listing_stack_ok serves_from_db3 db3_listable example_dbs(2) listing_query_parsed
    by (simp add: listing_browser_def evolves_refl listing_query_def listing_stack_def) blast
  then have "r_id ` set rows = r_id ` set (t_issues db3)" using db3_matches by (auto 0 3)
  with r(1,2) show ?thesis by blast
qed

end
