(* ===== verification/Web_Hooks.thy ===== *)
theory Web_Hooks
  imports Web_Client Planning_Domain
begin

text \<open>
  The hooks of the web client (\<open>features/*/hooks\<close>): which function a query runs and under which
  key its result is cached, which function a mutation runs and what its callbacks invalidate.
  Running them is the query library's part; the components get its \<open>mutateAsync\<close> as an argument.
\<close>

section \<open>Queries and mutations\<close>

record 'f query_options =
  qo_key :: "jsval list"
  qo_fn :: 'f
  qo_enabled :: bool

text \<open>
  A mutation: its function on the variables, and the callbacks on data and variables, on error
  and variables, and at the end in any case.
\<close>

record mutation_options =
  mo_fn :: "jsval \<Rightarrow> jsval web"
  mo_onSuccess :: "jsval \<Rightarrow> jsval \<Rightarrow> unit web"
  mo_onError :: "web_error \<Rightarrow> jsval \<Rightarrow> unit web"
  mo_onSettled :: "unit web"

definition mutation :: "(jsval \<Rightarrow> jsval web) \<Rightarrow> mutation_options" where
  "mutation f = \<lparr>mo_fn = f, mo_onSuccess = (\<lambda>_ _. returning ()), mo_onError = (\<lambda>_ _. returning ()),
     mo_onSettled = returning ()\<rparr>"

definition and_then_undefined :: "unit web \<Rightarrow> jsval web" where
  "and_then_undefined p = andThen p (\<lambda>_. returning Undefined)"

fun invalidate_all :: "jsval list list \<Rightarrow> unit web" where
  "invalidate_all [] = returning ()"
| "invalidate_all (key # keys) = andThen (perform_effect (Invalidate key)) (\<lambda>_. invalidate_all keys)"

text \<open>
  An optional identifier: \<open>Boolean(v)\<close>, the value as a key part, and the text it gives in a path
  (the queries that would ask for \<open>undefined\<close> are not enabled).
\<close>

definition given :: "string option \<Rightarrow> bool" where
  "given v \<longleftrightarrow> v \<noteq> None \<and> v \<noteq> Some []"

definition key_part :: "string option \<Rightarrow> jsval" where
  "key_part v = (case v of None \<Rightarrow> Undefined | Some s \<Rightarrow> Str s)"

definition path_part :: "string option \<Rightarrow> string" where
  "path_part v = (case v of None \<Rightarrow> ''undefined'' | Some s \<Rightarrow> s)"

definition text_of :: "jsval \<Rightarrow> string" where
  "text_of v = (case v of Str s \<Rightarrow> s | _ \<Rightarrow> [])"

section \<open>\<open>features/issue/hooks/useIssue.ts\<close>\<close>

definition useIssue :: "string option \<Rightarrow> jsval web query_options" where
  "useIssue issueId = \<lparr>qo_key = [Str ''issue'', key_part issueId], qo_fn = api_getIssue (path_part issueId),
     qo_enabled = given issueId\<rparr>"

definition useComments :: "string option \<Rightarrow> jsval web query_options" where
  "useComments issueId = \<lparr>qo_key = [Str ''issue'', key_part issueId, Str ''comments''],
     qo_fn = api_listComments (path_part issueId), qo_enabled = given issueId\<rparr>"

definition useHistory :: "string option \<Rightarrow> jsval web query_options" where
  "useHistory issueId = \<lparr>qo_key = [Str ''issue'', key_part issueId, Str ''history''],
     qo_fn = api_listHistory (path_part issueId), qo_enabled = given issueId\<rparr>"

definition refreshCommentDependencies :: "string \<Rightarrow> string option \<Rightarrow> unit web" where
  "refreshCommentDependencies issueId projectId =
     invalidate_all
       ([[Str ''issue'', Str issueId], [Str ''issue'', Str issueId, Str ''comments''],
         [Str ''issue'', Str issueId, Str ''history'']]
        @ (if given projectId then [[Str ''issues'', Str ''list'', key_part projectId]] else []))"

definition useAddComment :: "string \<Rightarrow> string option \<Rightarrow> mutation_options" where
  "useAddComment issueId projectId =
     (mutation (api_addComment issueId))
       \<lparr>mo_onSuccess := (\<lambda>_ _. refreshCommentDependencies issueId projectId),
        mo_onError := (\<lambda>error _. if isConcurrentIssueModification error
                        then refreshCommentDependencies issueId projectId else returning ())\<rparr>"

section \<open>\<open>features/issue/hooks/useIssues.ts\<close>\<close>

definition useIssues ::
    "string option \<Rightarrow> js_object \<Rightarrow>
     (browser_env \<Rightarrow> browser \<Rightarrow> ((web_error + jsval list) \<times> browser) option) query_options" where
  "useIssues projectId filters = \<lparr>qo_key = [Str ''issues'', Str ''list'', key_part projectId, Obj filters],
     qo_fn = api_listIssues (path_part projectId) filters, qo_enabled = given projectId\<rparr>"

definition useCreateIssue :: "string \<Rightarrow> mutation_options" where
  "useCreateIssue projectId =
     (mutation (api_createIssue projectId))
       \<lparr>mo_onSuccess := (\<lambda>_ _. perform_effect (Invalidate [Str ''issues'', Str ''list'', Str projectId]))\<rparr>"

definition useEpics :: "string option \<Rightarrow> jsval web query_options" where
  "useEpics projectId = \<lparr>qo_key = [Str ''epics'', key_part projectId],
     qo_fn = api_listEpics (path_part projectId), qo_enabled = given projectId\<rparr>"

definition useCreateEpic :: "string \<Rightarrow> mutation_options" where
  "useCreateEpic projectId =
     (mutation (api_createEpic projectId))
       \<lparr>mo_onSuccess := (\<lambda>_ _. perform_effect (Invalidate [Str ''epics'', Str projectId]))\<rparr>"

definition useSprints :: "string option \<Rightarrow> jsval web query_options" where
  "useSprints projectId = \<lparr>qo_key = [Str ''sprints'', key_part projectId],
     qo_fn = api_listSprints (path_part projectId), qo_enabled = given projectId\<rparr>"

definition useCreateSprint :: "string \<Rightarrow> mutation_options" where
  "useCreateSprint projectId =
     (mutation (api_createSprint projectId))
       \<lparr>mo_onSuccess := (\<lambda>_ _. perform_effect (Invalidate [Str ''sprints'', Str projectId]))\<rparr>"

definition useCompleteSprint :: "string \<Rightarrow> mutation_options" where
  "useCompleteSprint projectId =
     (mutation (\<lambda>sprintId. api_completeSprint (text_of sprintId)))
       \<lparr>mo_onSuccess := (\<lambda>_ _. invalidate_all
          [[Str ''sprints'', Str projectId], [Str ''issues'', Str ''list'', Str projectId]])\<rparr>"

definition invalidateIssueQueries :: "string \<Rightarrow> string \<Rightarrow> unit web" where
  "invalidateIssueQueries projectId issueId =
     invalidate_all [[Str ''issues'', Str ''list'', Str projectId], [Str ''issue'', Str issueId]]"

text \<open>The variables of a transition are the object \<open>{issueId, status, expectedVersion}\<close>.\<close>

definition useTransitionIssue :: "string \<Rightarrow> mutation_options" where
  "useTransitionIssue projectId =
     (mutation (\<lambda>v. api_transitionIssue (text_of (maybe_property v ''issueId'')) (maybe_property v ''status'')
                (maybe_property v ''expectedVersion'')))
       \<lparr>mo_onSuccess := (\<lambda>_ v. invalidateIssueQueries projectId (text_of (maybe_property v ''issueId''))),
        mo_onError := (\<lambda>error v.
          andThen (invalidateIssueQueries projectId (text_of (maybe_property v ''issueId''))) (\<lambda>_.
          if getApiErrorCode error = Some ''PROJECT_ARCHIVED''
          then perform_effect (Invalidate [Str ''project'', Str projectId]) else returning ()))\<rparr>"

section \<open>\<open>features/project/hooks/useProjects.ts\<close>\<close>

definition useWorkspaces :: "jsval web query_options" where
  "useWorkspaces = \<lparr>qo_key = [Str ''workspaces''], qo_fn = api_listWorkspaces, qo_enabled = True\<rparr>"

definition useProjects :: "string option \<Rightarrow> jsval web query_options" where
  "useProjects workspaceId = \<lparr>qo_key = [Str ''projects'', key_part workspaceId],
     qo_fn = api_listProjects (path_part workspaceId), qo_enabled = given workspaceId\<rparr>"

definition useProject :: "string option \<Rightarrow> jsval web query_options" where
  "useProject projectId = \<lparr>qo_key = [Str ''project'', key_part projectId],
     qo_fn = api_getProject (path_part projectId), qo_enabled = given projectId\<rparr>"

definition useCreateWorkspace :: mutation_options where
  "useCreateWorkspace =
     (mutation api_createWorkspace)
       \<lparr>mo_onSuccess := (\<lambda>_ _. perform_effect (Invalidate [Str ''workspaces'']))\<rparr>"

definition useCreateProject :: "string option \<Rightarrow> mutation_options" where
  "useCreateProject workspaceId =
     (mutation (api_createProject (path_part workspaceId)))
       \<lparr>mo_onSuccess := (\<lambda>_ _. perform_effect (Invalidate [Str ''projects'', key_part workspaceId]))\<rparr>"

text \<open>The two mutations \<open>update\<close> and \<open>archive\<close> of a project and its workspace.\<close>

definition project_settled :: "string \<Rightarrow> string \<Rightarrow> unit web" where
  "project_settled projectId workspaceId =
     invalidate_all [[Str ''projects'', Str workspaceId], [Str ''project'', Str projectId]]"

definition useManageProject :: "string \<Rightarrow> string \<Rightarrow> mutation_options \<times> mutation_options" where
  "useManageProject projectId workspaceId =
     ((mutation (api_updateProject projectId))\<lparr>mo_onSettled := project_settled projectId workspaceId\<rparr>,
      (mutation (\<lambda>_. and_then_undefined (api_archiveProject projectId)))
        \<lparr>mo_onSettled := project_settled projectId workspaceId\<rparr>)"

definition useWorkspaceMembers :: "string option \<Rightarrow> jsval web query_options" where
  "useWorkspaceMembers workspaceId = \<lparr>qo_key = [Str ''workspace-members'', key_part workspaceId],
     qo_fn = api_listWorkspaceMembers (path_part workspaceId), qo_enabled = given workspaceId\<rparr>"

text \<open>The argument is the data of the project's query, when it has arrived.\<close>

definition useProjectMembers :: "jsval option \<Rightarrow> jsval web query_options" where
  "useProjectMembers project =
     useWorkspaceMembers
       (case project of
          None \<Rightarrow> None
        | Some data \<Rightarrow> (case maybe_property data ''workspaceId'' of Str s \<Rightarrow> Some s | _ \<Rightarrow> None))"

text \<open>The mutations \<open>add\<close>, \<open>changeRole\<close> (on \<open>{userId, role}\<close>) and \<open>remove\<close>.\<close>

definition members_changed :: "string \<Rightarrow> mutation_options \<Rightarrow> mutation_options" where
  "members_changed workspaceId m =
     m\<lparr>mo_onSuccess := (\<lambda>_ _. perform_effect (Invalidate [Str ''workspace-members'', Str workspaceId]))\<rparr>"

definition useManageWorkspaceMembers :: "string \<Rightarrow> mutation_options \<times> mutation_options \<times> mutation_options" where
  "useManageWorkspaceMembers workspaceId =
     (members_changed workspaceId
        (mutation (\<lambda>payload. and_then_undefined (api_addWorkspaceMember workspaceId payload))),
      members_changed workspaceId
        (mutation (\<lambda>v. and_then_undefined (api_changeWorkspaceMemberRole workspaceId
           (text_of (maybe_property v ''userId'')) (maybe_property v ''role'')))),
      members_changed workspaceId
        (mutation (\<lambda>userId. and_then_undefined (api_removeWorkspaceMember workspaceId (text_of userId)))))"

section \<open>Notifications and the session\<close>

text \<open>\<open>features/notification/hooks/useNotifications.ts\<close>; the list is asked for every five seconds.\<close>

definition useNotifications :: "jsval web query_options" where
  "useNotifications = \<lparr>qo_key = [Str ''notifications''], qo_fn = api_listNotifications, qo_enabled = True\<rparr>"

definition notifications_refetchInterval :: nat where
  "notifications_refetchInterval = 5000"

definition useNotificationActions :: "mutation_options \<times> mutation_options" where
  "useNotificationActions =
     (let refresh = (\<lambda>_ _. perform_effect (Invalidate [Str ''notifications''])) in
      ((mutation (\<lambda>i. and_then_undefined (api_markNotificationRead (text_of i))))\<lparr>mo_onSuccess := refresh\<rparr>,
       (mutation (\<lambda>_. and_then_undefined api_markAllNotificationsRead))\<lparr>mo_onSuccess := refresh\<rparr>))"

text \<open>\<open>features/auth/hooks/useAuth.ts\<close>: signing in stores the session, signing out always drops it.\<close>

definition store_session :: "jsval \<Rightarrow> unit web" where
  "store_session session e w =
     (case setSession (be_page e) session (b_auth w) of
        None \<Rightarrow> (Inl type_error, w)
      | Some auth \<Rightarrow> (Inr (), w\<lparr>b_auth := auth\<rparr>))"

definition drop_session :: "unit web" where
  "drop_session e w = (Inr (), w\<lparr>b_auth := clearSession (be_page e) (b_auth w)\<rparr>)"

definition hydrate_session :: "unit web" where
  "hydrate_session e w = (Inr (), w\<lparr>b_auth := hydrate (be_page e) (b_auth w)\<rparr>)"

definition loginMutation :: mutation_options where
  "loginMutation = (mutation api_login)\<lparr>mo_onSuccess := (\<lambda>session _. store_session session)\<rparr>"

definition logoutMutation :: mutation_options where
  "logoutMutation = (mutation (\<lambda>_. and_then_undefined api_logout))\<lparr>mo_onSettled := drop_session\<rparr>"

end
