(* ===== verification/Web_Elements.thy ===== *)
theory Web_Elements
  imports Web_Hooks Issue_Domain
begin

text \<open>
  What the components of the web client render and share. A rendered component is a list of
  elements with their attributes, their event handlers and their children; a handler is a value
  of the component's event type. Elements that only lay out (\<open>div\<close> and \<open>span\<close> without a role), icons
  and static \<open>className\<close>s are left out; a \<open>className\<close> that the code computes is kept.
\<close>

section \<open>Elements\<close>

datatype 'h ui = Words string | Element string "(string \<times> jsval) list" "(string \<times> 'h) list" "'h ui list"

type_synonym 'h view = "'h ui list"

definition elem :: "string \<Rightarrow> (string \<times> jsval) list \<Rightarrow> 'h view \<Rightarrow> 'h ui" where
  "elem tag attributes children = Element tag attributes [] children"

definition button :: "string \<Rightarrow> 'h \<Rightarrow> (string \<times> jsval) list \<Rightarrow> 'h ui" where
  "button label h attributes = Element ''Button'' attributes [(''onClick'', h)] [Words label]"

definition link :: "string \<Rightarrow> 'h view \<Rightarrow> 'h ui" where
  "link href children = Element ''Link'' [(''href'', Str href)] [] children"

definition input :: "string \<Rightarrow> (string \<times> jsval) list \<Rightarrow> 'h ui" where
  "input name attributes = Element ''Input'' ((''name'', Str name) # attributes) [] []"

definition options :: "(string \<times> string) list \<Rightarrow> 'h view" where
  "options vs = map (\<lambda>(v, label). Element ''option'' [(''value'', Str v)] [] [Words label]) vs"

text \<open>\<open>condition ? element : null\<close>.\<close>

definition shown :: "bool \<Rightarrow> 'h view \<Rightarrow> 'h view" where
  "shown b v = (if b then v else [])"

fun ui_events :: "'h ui \<Rightarrow> 'h list" where
  "ui_events (Words s) = []"
| "ui_events (Element tag attributes handlers children) = map snd handlers @ concat (map ui_events children)"

text \<open>The events that the controls of a view can raise.\<close>

definition view_events :: "'h view \<Rightarrow> 'h list" where
  "view_events v = concat (map ui_events v)"

lemma view_events_simps [simp]:
  "view_events [] = []" "view_events (x # v) = ui_events x @ view_events v"
  "view_events (v @ v') = view_events v @ view_events v'"
  by (simp_all add: view_events_def)

lemma view_events_concat [simp]: "view_events (concat vs) = concat (map view_events vs)"
  by (induction vs) simp_all

lemma ui_events_simps [simp]:
  "ui_events (Element tag attributes handlers children) = map snd handlers @ view_events children"
  "ui_events (elem tag attributes children) = view_events children"
  "ui_events (button label h attributes) = [h]"
  "ui_events (link href children) = view_events children" "ui_events (input name attributes) = []"
  by (simp_all add: view_events_def elem_def button_def link_def input_def)

declare ui_events.simps(2) [simp del]

lemma view_events_options [simp]: "view_events (options vs) = []"
  by (induction vs) (auto simp: options_def)

lemma view_events_shown [simp]: "view_events (shown b v) = (if b then view_events v else [])"
  by (simp add: shown_def)

lemma view_events_map [simp]: "view_events (map f xs) = concat (map (\<lambda>x. ui_events (f x)) xs)"
  by (simp add: view_events_def o_def)

section \<open>Forms\<close>

text \<open>\<open>FormData\<close>: the text of each named control; \<open>form.get\<close> of another name is null.\<close>

type_synonym form_data = "string \<Rightarrow> string option"

text \<open>\<open>String(form.get(name) ?? otherwise)\<close>, \<open>... || undefined\<close>, and \<open>String(form.get(name))\<close>.\<close>

definition form_text :: "form_data \<Rightarrow> string \<Rightarrow> string \<Rightarrow> string" where
  "form_text form name otherwise = (case form name of None \<Rightarrow> otherwise | Some s \<Rightarrow> s)"

definition form_optional :: "form_data \<Rightarrow> string \<Rightarrow> jsval" where
  "form_optional form name = (let s = form_text form name [] in if s = [] then Undefined else Str s)"

definition form_string :: "form_data \<Rightarrow> string \<Rightarrow> string" where
  "form_string form name = form_text form name ''null''"

text \<open>
  \<open>event.currentTarget.reset()\<close> after an \<open>await\<close>, and \<open>reset\<close> on an element kept from before it.
\<close>

definition reset_current_target :: "unit web" where
  "reset_current_target e w =
     (if be_currentTarget e (b_tick w) then perform_effect ResetForm e w else (Inl type_error, w))"

definition toast_success :: "string \<Rightarrow> unit web" where
  "toast_success title = perform_effect (ShowToast (SuccessToast title None))"

definition toast_error :: "string \<Rightarrow> unit web" where
  "toast_error title = perform_effect (ShowToast (ErrorToast title None None))"

definition toast_api_error :: "web_error \<Rightarrow> string \<Rightarrow> unit web" where
  "toast_api_error error fallback = perform_effect (ShowToast (toastApiError error fallback))"

section \<open>The data the components show\<close>

text \<open>\<open>features/issue/types.ts\<close>; dates are texts.\<close>

record web_issue =
  wi_id :: string
  wi_projectId :: string
  wi_number :: int
  wi_key :: string
  wi_summary :: string
  wi_description :: "string option"
  wi_type :: issue_type
  wi_priority :: issue_priority
  wi_status :: issue_status
  wi_reporterUserId :: string
  wi_assigneeUserId :: "string option"
  wi_epicId :: "string option"
  wi_sprintId :: "string option"
  wi_version :: int
  wi_createdAt :: string
  wi_updatedAt :: string

record web_comment =
  wc_id :: string
  wc_issueId :: string
  wc_authorUserId :: string
  wc_body :: string
  wc_createdAt :: string
  wc_updatedAt :: string

record web_history =
  wh_id :: string
  wh_issueId :: string
  wh_actorUserId :: string
  wh_action :: string
  wh_fromValue :: jsval
  wh_toValue :: jsval
  wh_createdAt :: string

record web_epic =
  we_id :: string
  we_projectId :: string
  we_name :: string
  we_color :: epic_color
  we_startDate :: "string option"
  we_targetDate :: "string option"
  we_createdAt :: string
  we_updatedAt :: string

record web_sprint =
  ws_id :: string
  ws_projectId :: string
  ws_name :: string
  ws_goal :: "string option"
  ws_startDate :: "string option"
  ws_endDate :: "string option"
  ws_status :: sprint_status
  ws_createdAt :: string
  ws_completedAt :: "string option"

text \<open>\<open>features/project/types.ts\<close> and \<open>features/notification/types.ts\<close>.\<close>

datatype workspace_role = OWNER | ADMIN | MEMBER
datatype project_status = ActiveProject | ArchivedProject

record workspace =
  wk_id :: string
  wk_name :: string
  wk_slug :: string
  wk_role :: workspace_role
  wk_ownerUserId :: "string option"
  wk_createdAt :: string

record web_project =
  wp_id :: string
  wp_workspaceId :: string
  wp_name :: string
  wp_key :: string
  wp_description :: "string option"
  wp_status :: project_status
  wp_createdByUserId :: string
  wp_createdAt :: string
  wp_updatedAt :: string

record workspace_member =
  wm_userId :: string
  wm_email :: "string option"
  wm_role :: workspace_role
  wm_joinedAt :: string
  wm_updatedAt :: string

record notification =
  n_id :: string
  n_userId :: string
  n_eventId :: string
  n_type :: string
  n_title :: string
  n_body :: string
  n_issueId :: string
  n_projectId :: string
  n_createdAt :: string
  n_readAt :: "string option"

text \<open>What \<open>useQuery\<close> returns.\<close>

record 'a query_result =
  qr_isPending :: bool
  qr_isError :: bool
  qr_data :: "'a option"
  qr_error :: "web_error option"

section \<open>Shared components\<close>

text \<open>
  \<open>QueryError\<close>: the errors of the failed queries; \<open>retry\<close> is the event of its button, which
  calls every query's \<open>refetch\<close>. A query without an error has kind \<open>unknown\<close>.
\<close>

definition query_kinds :: "web_error option list \<Rightarrow> api_error_kind list" where
  "query_kinds errors = map (\<lambda>error. case error of None \<Rightarrow> Unknown | Some x \<Rightarrow> getApiErrorKind x) errors"

definition QueryError :: "string \<Rightarrow> web_error option list \<Rightarrow> 'h \<Rightarrow> 'h view" where
  "QueryError resource errors retry =
     (let kinds = query_kinds errors in
      if Forbidden \<in> set kinds \<or> NotFound \<in> set kinds then
        [elem ''div'' [(''role'', Str ''alert'')]
           [Words (''This '' @ resource @ '' was not found, or you do not have access to it.''),
            link ''/projects'' [Words ''Back to projects'']]]
      else
        [elem ''div'' [(''role'', Str ''alert'')]
           [Words (''Could not load '' @ resource @ ''. ''
              @ (if Unavailable \<in> set kinds then ''The service is temporarily unavailable.'' else ''Please try again.'')),
            button ''Retry'' retry []]])"

fun refetch_all :: "nat list \<Rightarrow> unit web" where
  "refetch_all [] = returning ()"
| "refetch_all (n # ns) = andThen (perform_effect (Refetch n)) (\<lambda>_. refetch_all ns)"

text \<open>
  \<open>RequireAuth\<close>: what it shows, and the effects it runs when it is mounted and whenever the
  session's flags change.
\<close>

definition RequireAuth :: "auth_state \<Rightarrow> 'h view \<Rightarrow> 'h view" where
  "RequireAuth auth children =
     (if \<not> a_isHydrated auth then [Words ''Loading workspace...'']
      else if \<not> a_isAuthenticated auth then []
      else children)"

definition require_auth_redirect :: "auth_state \<Rightarrow> unit web" where
  "require_auth_redirect auth =
     (if a_isHydrated auth \<and> \<not> a_isAuthenticated auth then perform_effect (ReplaceRoute ''/login'') else returning ())"

lemma RequireAuth_hides: "\<not> a_isAuthenticated auth \<Longrightarrow> view_events (RequireAuth auth children) = []"
  by (simp add: RequireAuth_def)

section \<open>Choosing a member\<close>

text \<open>\<open>MemberSelect\<close>: an assignee who has left the workspace keeps an entry of its own.\<close>

definition isFormerMember :: "workspace_member list \<Rightarrow> string option \<Rightarrow> bool" where
  "isFormerMember members defaultValue \<longleftrightarrow>
     given defaultValue \<and> defaultValue \<notin> Some ` set (map wm_userId members)"

definition member_label :: "workspace_member \<Rightarrow> string" where
  "member_label m = (case wm_email m of None \<Rightarrow> wm_userId m | Some s \<Rightarrow> s)"

definition MemberSelect ::
    "workspace_member list \<Rightarrow> string \<Rightarrow> string option \<Rightarrow> bool \<Rightarrow> string \<Rightarrow> 'h ui" where
  "MemberSelect members name defaultValue disabled ariaLabel =
     elem ''select''
       [(''aria-label'', Str ariaLabel), (''defaultValue'', Str (case defaultValue of None \<Rightarrow> [] | Some v \<Rightarrow> v)),
        (''disabled'', Bool disabled), (''name'', Str name)]
       (options
         ([([], ''Unassigned'')]
          @ (if isFormerMember members defaultValue
             then [(case defaultValue of None \<Rightarrow> [] | Some v \<Rightarrow> v, ''Former member'')] else [])
          @ map (\<lambda>m. (wm_userId m, member_label m)) members))"

lemma MemberSelect_events [simp]: "ui_events (MemberSelect ms n d dis a) = []"
  by (simp add: MemberSelect_def)

text \<open>The current assignee is always among the entries.\<close>

lemma MemberSelect_offers_current:
  "given d \<Longrightarrow> isFormerMember ms d \<or> the d \<in> set (map wm_userId ms)"
  by (auto simp: isFormerMember_def given_def image_iff)

end
