(* ===== verification/Web_Board.thy ===== *)
theory Web_Board
  imports Web_Elements
begin

text \<open>
  The board (\<open>features/issue/components/Board\<close>): the issues of a project in three columns,
  filtered by a text and a priority, and moved from one column to the next; the create form
  (\<open>IssueForm\<close>) beside it.
\<close>

section \<open>Labels and moves\<close>

definition board_columns :: "(issue_status \<times> string) list" where
  "board_columns = [(TODO, ''To do''), (IN_PROGRESS, ''In progress''), (DONE, ''Done'')]"

definition priorityLabels :: "(string \<times> string) list" where
  "priorityLabels = [(''all'', ''All priorities''), (''LOW'', ''Low''), (''MEDIUM'', ''Medium''),
     (''HIGH'', ''High''), (''CRITICAL'', ''Highest'')]"

fun statusLabels :: "issue_status \<Rightarrow> string" where
  "statusLabels TODO = ''To do''"
| "statusLabels IN_PROGRESS = ''In progress''"
| "statusLabels DONE = ''Done''"

datatype direction = MoveLeft | MoveRight

fun validMoves :: "issue_status \<Rightarrow> (direction \<times> issue_status) list" where
  "validMoves TODO = [(MoveRight, IN_PROGRESS)]"
| "validMoves IN_PROGRESS = [(MoveLeft, TODO), (MoveRight, DONE)]"
| "validMoves DONE = [(MoveLeft, IN_PROGRESS)]"

definition transitionErrorMessage :: "web_error \<Rightarrow> string" where
  "transitionErrorMessage error =
     (let code = getApiErrorCode error in
      if code = Some ''CONCURRENT_ISSUE_MODIFICATION'' then ''Latest Issue data was reloaded.''
      else if code = Some ''INVALID_ISSUE_TRANSITION''
      then ''Action is no longer valid. Latest Issue data was reloaded.''
      else if code = Some ''PROJECT_ARCHIVED'' then ''Project is read-only.''
      else getApiErrorMessage error ''Could not move the issue. Check your connection and try again.'')"

fun priorityDotClass :: "issue_priority \<Rightarrow> string" where
  "priorityDotClass CRITICAL = ''bg-[#e2483d]''"
| "priorityDotClass HIGH = ''bg-[#f5cd47]''"
| "priorityDotClass _ = ''bg-[#0c66e4]''"

section \<open>The board\<close>

text \<open>\<open>haystack.includes(needle)\<close>.\<close>

fun text_includes :: "string \<Rightarrow> string \<Rightarrow> bool" where
  "text_includes [] needle = (needle = [])"
| "text_includes (c # cs) needle = (take (length needle) (c # cs) = needle \<or> text_includes cs needle)"

text \<open>The state of the board: the search text, and the priority (\<open>None\<close> is \<open>all\<close>).\<close>

record board_state =
  bs_query :: string
  bs_priority :: "issue_priority option"

definition visibleIssues :: "board_state \<Rightarrow> web_issue list \<Rightarrow> web_issue list" where
  "visibleIssues st issues =
     filter (\<lambda>issue.
       (bs_priority st = None \<or> Some (wi_priority issue) = bs_priority st) \<and>
       text_includes (toLowerCase (wi_key issue @ '' '' @ wi_summary issue)) (toLowerCase (trim (bs_query st)))) issues"

datatype board_event = SetQuery | ClearQuery | SetPriority | Move web_issue issue_status | CreateIssue

definition assignee_label :: "web_issue \<Rightarrow> string" where
  "assignee_label issue =
     (case wi_assigneeUserId issue of
        None \<Rightarrow> ''Unassigned''
      | Some u \<Rightarrow> if u = [] then ''Unassigned'' else ''Assignee '' @ u)"

definition move_buttons :: "bool \<Rightarrow> web_issue \<Rightarrow> board_event view" where
  "move_buttons isPending issue =
     map (\<lambda>(direction, status).
       Element ''Button''
         [(''aria-label'', Str (''Move '' @ wi_key issue @ '' to '' @ statusLabels status)),
          (''disabled'', Bool isPending),
          (''key'', Str (if direction = MoveLeft then ''left'' else ''right''))]
         [(''onClick'', Move issue status)]
         [elem (if direction = MoveLeft then ''ArrowLeftIcon'' else ''ArrowRightIcon'') [] []])
       (validMoves (wi_status issue))"

definition issue_card :: "string \<Rightarrow> bool \<Rightarrow> bool \<Rightarrow> web_issue \<Rightarrow> board_event ui" where
  "issue_card projectId isProjectWritable isPending issue =
     elem ''article'' [(''key'', Str (wi_id issue))]
       ([Words (wi_key issue),
         elem ''span'' [(''className'', Str (priorityDotClass (wi_priority issue))),
                        (''title'', Str (priority_name (wi_priority issue)))] [],
         link (''/projects/'' @ projectId @ ''/issues/'' @ wi_id issue) [Words (wi_summary issue)],
         elem ''span'' [(''aria-label'', Str (assignee_label issue)), (''role'', Str ''img'')] []]
        @ shown isProjectWritable (move_buttons isPending issue))"

definition board_column ::
    "string \<Rightarrow> bool \<Rightarrow> bool \<Rightarrow> web_issue list \<Rightarrow> issue_status \<times> string \<Rightarrow> board_event ui" where
  "board_column projectId isProjectWritable isPending visible column =
     (let columnIssues = filter (\<lambda>issue. wi_status issue = fst column) visible in
      elem ''Card'' [(''key'', Str (status_name (fst column)))]
        ([elem ''CardTitle'' [] [Words (snd column)],
          elem ''Badge'' [] [Words (dec_string (length columnIssues))],
          elem ''Button'' [(''aria-label'', Str (snd column @ '' actions''))] []]
         @ map (issue_card projectId isProjectWritable isPending) columnIssues
         @ shown (length columnIssues = 0) [Words ''No issues match this view'']
         @ shown isProjectWritable
             [Element ''button'' [(''type'', Str ''button'')] [(''onClick'', CreateIssue)] [Words ''Create issue'']]))"

definition Board :: "web_issue list \<Rightarrow> string \<Rightarrow> bool \<Rightarrow> bool \<Rightarrow> board_state \<Rightarrow> board_event view" where
  "Board issues projectId isProjectWritable isPending st =
     (let visible = visibleIssues st issues in
      [Element ''Input'' [(''aria-label'', Str ''Search issues''), (''placeholder'', Str ''Search this board''),
          (''type'', Str ''search''), (''value'', Str (bs_query st))] [(''onChange'', SetQuery)] []]
      @ shown (bs_query st \<noteq> [])
          [Element ''button'' [(''aria-label'', Str ''Clear search''), (''type'', Str ''button'')] [(''onClick'', ClearQuery)] []]
      @ [Words ''Priority'',
         Element ''select'' [(''aria-label'', Str ''Filter by priority''),
            (''value'', Str (case bs_priority st of None \<Rightarrow> ''all'' | Some p \<Rightarrow> priority_name p))]
          [(''onChange'', SetPriority)] (options priorityLabels),
         Words (dec_string (length visible) @ '' of '' @ dec_string (length issues) @ '' issues'')]
      @ shown isProjectWritable [button ''Create issue'' CreateIssue []]
      @ map (board_column projectId isProjectWritable isPending visible) board_columns)"

text \<open>
  \<open>transition.mutate(variables, {onError})\<close>; the second argument of \<open>mutate\<close> is the callback of
  this call.
\<close>

definition move ::
    "(jsval \<Rightarrow> (web_error \<Rightarrow> unit web) \<Rightarrow> unit web) \<Rightarrow> bool \<Rightarrow> web_issue \<Rightarrow> issue_status \<Rightarrow> unit web" where
  "move mutate isProjectWritable issue status =
     (if \<not> isProjectWritable then returning ()
      else mutate
             (Obj [(''issueId'', Str (wi_id issue)), (''status'', Str (status_name status)),
                   (''expectedVersion'', Num (Fin (of_int (wi_version issue))))])
             (\<lambda>error. toast_error (transitionErrorMessage error)))"

text \<open>The handlers; the argument \<open>v\<close> is \<open>event.target.value\<close>.\<close>

definition board_handler ::
    "(jsval \<Rightarrow> (web_error \<Rightarrow> unit web) \<Rightarrow> unit web) \<Rightarrow> bool \<Rightarrow> unit web \<Rightarrow> string \<Rightarrow> board_event \<Rightarrow> unit web" where
  "board_handler mutate isProjectWritable onCreateIssue v event =
     (case event of
        SetQuery \<Rightarrow> perform_effect (SetState ''query'' (Str v))
      | ClearQuery \<Rightarrow> perform_effect (SetState ''query'' (Str []))
      | SetPriority \<Rightarrow> perform_effect (SetState ''priority'' (Str v))
      | Move issue status \<Rightarrow> move mutate isProjectWritable issue status
      | CreateIssue \<Rightarrow> onCreateIssue)"

section \<open>The create form\<close>

definition submit_issue :: "(jsval \<Rightarrow> jsval web) \<Rightarrow> unit web \<Rightarrow> form_data \<Rightarrow> unit web" where
  "submit_issue mutateAsync onClose form =
     catching
       (andThen (mutateAsync (Obj
          [(''summary'', Str (form_text form ''summary'' [])), (''description'', form_optional form ''description''),
           (''type'', Str (form_string form ''type'')), (''priority'', Str (form_string form ''priority'')),
           (''assigneeUserId'', form_optional form ''assigneeUserId''), (''epicId'', form_optional form ''epicId''),
           (''sprintId'', form_optional form ''sprintId'')])) (\<lambda>_.
        andThen (perform_effect ResetForm) (\<lambda>_.
        andThen (toast_success ''Issue created'') (\<lambda>_. onClose))))
       (\<lambda>error. toast_api_error error ''Could not create issue'')"

datatype form_event = SubmitForm | CloseForm

definition IssueForm :: "web_epic list \<Rightarrow> web_sprint list \<Rightarrow> workspace_member list option \<Rightarrow> bool \<Rightarrow> form_event view" where
  "IssueForm epics sprints members isPending =
     [elem ''aside'' [(''aria-label'', Str ''Create issue'')]
        [Words ''New work item'', Words ''Create issue'',
         Element ''Button'' [(''aria-label'', Str ''Close create issue'')] [(''onClick'', CloseForm)] [],
         Element ''form'' [] [(''onSubmit'', SubmitForm)]
           [Words ''Summary'',
            input ''summary'' [(''autoFocus'', Bool True), (''maxLength'', Num (Fin 200)),
              (''placeholder'', Str ''What needs to be done?''), (''required'', Bool True)],
            Words ''Description'',
            elem ''textarea'' [(''name'', Str ''description''),
              (''placeholder'', Str ''Add context, acceptance criteria, or useful links.'')] [],
            Words ''Issue type'',
            elem ''select'' [(''defaultValue'', Str ''TASK''), (''name'', Str ''type'')]
              (options [(''TASK'', ''Task''), (''BUG'', ''Bug''), (''STORY'', ''Story'')]),
            Words ''Priority'',
            elem ''select'' [(''defaultValue'', Str ''MEDIUM''), (''name'', Str ''priority'')]
              (options [(''LOW'', ''Low''), (''MEDIUM'', ''Medium''), (''HIGH'', ''High''), (''CRITICAL'', ''Highest'')]),
            Words ''Epic'',
            elem ''select'' [(''defaultValue'', Str []), (''name'', Str ''epicId'')]
              (options (([], ''No epic'') # map (\<lambda>epic. (we_id epic, we_name epic)) epics)),
            Words ''Sprint'',
            elem ''select'' [(''defaultValue'', Str []), (''name'', Str ''sprintId'')]
              (options (([], ''Backlog'') #
                 map (\<lambda>sprint. (ws_id sprint, ws_name sprint)) (filter (\<lambda>sprint. ws_status sprint = ACTIVE) sprints))),
            Words ''Assignee'',
            MemberSelect (case members of None \<Rightarrow> [] | Some ms \<Rightarrow> ms) ''assigneeUserId'' None (members = None) ''Assignee'',
            Element ''Button'' [(''type'', Str ''button'')] [(''onClick'', CloseForm)] [Words ''Cancel''],
            elem ''Button'' [(''disabled'', Bool isPending), (''type'', Str ''submit'')] [Words ''Create issue'']]]]"

section \<open>The screen\<close>

text \<open>\<open>BoardScreen\<close>: the events of its board and of its form, and the retry of its queries.\<close>

datatype board_screen_event = BoardEvent board_event | FormEvent form_event | RetryBoard

fun map_ui :: "('a \<Rightarrow> 'b) \<Rightarrow> 'a ui \<Rightarrow> 'b ui" where
  "map_ui f (Words s) = Words s"
| "map_ui f (Element tag attributes handlers children) =
     Element tag attributes (map (\<lambda>(n, h). (n, f h)) handlers) (map (map_ui f) children)"

lemma ui_events_map [simp]: "ui_events (map_ui f x) = map f (ui_events x)"
  by (induction x) (simp_all add: view_events_def o_def case_prod_beta map_concat cong: map_cong)

definition query_failures :: "(bool \<times> web_error option) list \<Rightarrow> web_error option list" where
  "query_failures queries = map snd (filter fst queries)"

definition BoardScreen ::
    "string \<Rightarrow> bool \<Rightarrow> web_issue list query_result \<Rightarrow> web_epic list query_result \<Rightarrow> web_sprint list query_result \<Rightarrow>
     bool \<Rightarrow> workspace_member list option \<Rightarrow> bool \<Rightarrow> bool \<Rightarrow> board_state \<Rightarrow> board_screen_event view" where
  "BoardScreen projectId isProjectWritable issues epics sprints isCreating members movePending createPending st =
     (let failed = query_failures [(qr_isError issues, qr_error issues), (qr_isError epics, qr_error epics),
                                   (qr_isError sprints, qr_error sprints)] in
      if failed \<noteq> [] then QueryError ''board'' failed RetryBoard
      else if qr_isPending issues then [Words ''Loading board...'']
      else map (map_ui BoardEvent)
             (Board (case qr_data issues of None \<Rightarrow> [] | Some d \<Rightarrow> d) projectId isProjectWritable movePending st)
           @ shown (isProjectWritable \<and> isCreating)
               (map (map_ui FormEvent)
                 (IssueForm (case qr_data epics of None \<Rightarrow> [] | Some d \<Rightarrow> d)
                    (case qr_data sprints of None \<Rightarrow> [] | Some d \<Rightarrow> d) members createPending)))"

definition onCreateIssue :: "bool \<Rightarrow> unit web" where
  "onCreateIssue isProjectWritable =
     (if isProjectWritable then perform_effect (SetState ''isCreating'' (Bool True)) else returning ())"

definition onCloseForm :: "unit web" where
  "onCloseForm = perform_effect (SetState ''isCreating'' (Bool False))"

section \<open>What the board offers\<close>

lemma validMoves_transitions: "map snd (validMoves status) = transitions status"
  by (cases status) simp_all

lemma move_buttons_events: "view_events (move_buttons isPending issue) = map (Move issue) (transitions (wi_status issue))"
proof -
  have "view_events (move_buttons isPending issue) = map (\<lambda>m. Move issue (snd m)) (validMoves (wi_status issue))"
    by (induction "validMoves (wi_status issue)") (simp_all add: move_buttons_def case_prod_beta concat_map_singleton)
  then show ?thesis by (simp add: validMoves_transitions [symmetric])
qed

lemma issue_card_events:
  "ui_events (issue_card projectId writable isPending issue) =
     (if writable then map (Move issue) (transitions (wi_status issue)) else [])"
  by (simp add: issue_card_def move_buttons_events)

lemma board_column_events:
  "ui_events (board_column projectId writable isPending visible column) =
     (if writable
      then concat (map (\<lambda>issue. map (Move issue) (transitions (wi_status issue)))
             (filter (\<lambda>issue. wi_status issue = fst column) visible)) @ [CreateIssue]
      else [])"
  by (simp add: board_column_def Let_def issue_card_events)

lemma Board_events:
  "set (view_events (Board issues projectId writable isPending st)) =
     {SetQuery, SetPriority} \<union> (if bs_query st \<noteq> [] then {ClearQuery} else {}) \<union>
     (if writable
      then insert CreateIssue {Move issue status | issue status. issue \<in> set (visibleIssues st issues) \<and>
             status \<in> set (transitions (wi_status issue))}
      else {})"
proof -
  let ?moves = "\<lambda>vs. {Move issue status | issue status. issue \<in> set vs \<and> status \<in> set (transitions (wi_status issue))}"
  have col: "set (ui_events (board_column projectId writable isPending vs column)) =
      (if writable then insert CreateIssue (?moves (filter (\<lambda>issue. wi_status issue = fst column) vs)) else {})" for vs column
    by (auto simp: board_column_events)
  have "(\<Union>column\<in>set board_columns. ?moves (filter (\<lambda>issue. wi_status issue = fst column) vs)) = ?moves vs" for vs
  proof -
    have "wi_status issue \<in> fst ` set board_columns" for issue
      by (cases "wi_status issue") (simp_all add: board_columns_def)
    then show ?thesis by fastforce
  qed
  moreover have "board_columns \<noteq> []" by (simp add: board_columns_def)
  ultimately have cols: "(\<Union>column\<in>set board_columns. set (ui_events (board_column projectId writable isPending vs column))) =
      (if writable then insert CreateIssue (?moves vs) else {})" for vs
    unfolding col by auto
  show ?thesis unfolding Board_def Let_def by (simp add: cols)
qed

text \<open>Every visible issue is in exactly one column.\<close>

lemma columns_partition:
  "length (concat (map (\<lambda>column. filter (\<lambda>issue. wi_status issue = fst column) visible) board_columns)) = length visible"
  "set (concat (map (\<lambda>column. filter (\<lambda>issue. wi_status issue = fst column) visible) board_columns)) = set visible"
proof -
  have s: "s = TODO \<or> s = IN_PROGRESS \<or> s = DONE" for s by (cases s) auto
  show "length (concat (map (\<lambda>column. filter (\<lambda>issue. wi_status issue = fst column) visible) board_columns)) = length visible"
    using s by (induction visible) (auto simp: board_columns_def)
  show "set (concat (map (\<lambda>column. filter (\<lambda>issue. wi_status issue = fst column) visible) board_columns)) = set visible"
    using s by (auto simp: board_columns_def)
qed

end
