(* ===== verification/Web_System.thy ===== *)
theory Web_System
  imports Web_Stack Example_Run Web_Board Web_Interceptors
begin

text \<open>
  The three applications as one system: what the user of a page is told is what the issue
  service answered, whichever operation of it the page asked for; pages that change the same
  version of an issue; a move on a board that has gone stale.
\<close>

section \<open>The tables after a request\<close>

text \<open>What a call of the gateway leaves of the issue service's world, and the calls of a request.\<close>

definition service_after :: "stack \<Rightarrow> nat \<Rightarrow> gateway_call \<Rightarrow> world \<Rightarrow> world" where
  "service_after st n c w =
     (if starts_with (client_base issue_client (sk_gateway st n)) (gc_url c)
      then (case bootstrap_secret (sk_service st n) of
              None \<Rightarrow> w
            | Some secret \<Rightarrow> snd (serve secret (service_request st n c) (sk_service st n) w))
      else w)"

definition stack_world :: "stack \<Rightarrow> nat \<Rightarrow> web_request \<Rightarrow> world" where
  "stack_world st n rq =
     (let gw = snd (gateway_handle (browser_request st n rq) (gateway_with_service st n) (sk_gateway_world st n))
      in fold (service_after st n) (drop (length (gw_calls (sk_gateway_world st n))) (gw_calls gw)) (sk_world st n))"

section \<open>Answers\<close>

lemma success_status_ok: "200 \<le> success_status rt m \<and> success_status rt m < 300"
  by (cases "(rt, m)" rule: success_status.cases) auto

lemma strings_of_copy: "json_copy (Obj d) = Obj d' \<Longrightarrow> strings_of (map snd d') = strings_of (map snd d)"
proof (induction d arbitrary: d')
  case (Cons x d)
  obtain k v where x: "x = (k, v)" by (cases x)
  obtain e where e: "json_copy (Obj d) = Obj e" by simp
  have "strings_of (map snd e) = strings_of (map snd d)" using Cons.IH [OF e] .
  moreover have "d' = (if v = Undefined then e else (k, json_copy v) # e)" using Cons.prems e x by auto
  ultimately show ?case using x by (cases v) (auto split: jsnum.splits)
qed simp

text \<open>What the gateway relays of a success and of an error of the issue service.\<close>

lemma relayed_success:
  assumes "200 \<le> status" "status < 300"
  shows "relayed rt m cid (FetchAnswers status (Some body)) = (success_status rt m, body)"
  using assms by (simp add: relayed_def client_result_def issue_client_def)

lemma relayed_error:
  assumes "\<not> (200 \<le> status \<and> status < 300)" and "json_copy (Obj d) = Obj d'"
  shows "relayed rt m cid (FetchAnswers status (Some (json_copy (error_body err message d c)))) =
    (status, Obj [(''code'', Str (errorString (Str err) ''ISSUE_REQUEST_FAILED'')),
       (''message'', Str (errorString (Str message) ''Issue service request failed'')),
       (''correlationId'', Str cid), (''details'', Obj d')])"
  using assms by (simp add: relayed_def client_result_def issue_client_def error_body_def object_or_empty_def
      ApiExceptionFilter_def toApiError_def Let_def)

text \<open>An error as the page reads it: kind, code and text are those of the service's answer.\<close>

definition reports :: "web_error \<Rightarrow> http_response \<Rightarrow> bool" where
  "reports error resp \<longleftrightarrow>
     (\<exists>err message details c. rs_body resp = error_body err message details c \<and>
        getApiErrorKind error = status_kind (rs_status resp) \<and>
        (err \<noteq> [] \<longrightarrow> getApiErrorCode error = Some err) \<and>
        (message \<noteq> [] \<longrightarrow> (\<forall>fallback. getApiErrorMessage error fallback =
           getApiErrorMessage (AxiosError (Some (rs_status resp, rs_body resp))) fallback)))"

lemma relayed_reports:
  assumes "\<not> (200 \<le> rs_status resp \<and> rs_status resp < 300)" and "rs_body resp = error_body err message d c"
    and "relayed rt m cid (FetchAnswers (rs_status resp) (Some (json_copy (rs_body resp)))) = (status, body)"
  shows "status = rs_status resp" and "reports (AxiosError (Some (status, json_copy body))) resp"
proof -
  obtain d' where d': "json_copy (Obj d) = Obj d'" by simp
  have copied: "json_copy (Obj d') = Obj d'" using json_copy_idem [of "Obj d"] unfolding d' .
  note r = relayed_error [OF assms(1) d', of rt m cid err message c, folded assms(2), unfolded assms(3)]
  show "status = rs_status resp" using r by simp
  have "json_copy body = Obj [(''code'', Str (errorString (Str err) ''ISSUE_REQUEST_FAILED'')),
       (''message'', Str (errorString (Str message) ''Issue service request failed'')),
       (''correlationId'', Str cid), (''details'', Obj d')]"
    using r copied by simp
  then show "reports (AxiosError (Some (status, json_copy body))) resp"
    using \<open>status = rs_status resp\<close> strings_of_copy [OF d'] unfolding reports_def assms(2)
    by (intro exI [of _ err] exI [of _ message] exI [of _ d] exI [of _ c])
      (simp add: getApiErrorKind_def getApiErrorCode_def getApiErrorMessage_def body_message_def maybe_property_def
        error_body_def errorString_def js_get_def Let_def split: api_error_kind.split)
qed

lemma error_answer:
  assumes "serve secret rq e w = (Inr resp, w')" and "secret_accepted secret (rq_headers rq)"
  shows "rs_status resp \<in> {200, 201} \<or> \<not> (200 \<le> rs_status resp \<and> rs_status resp < 300) \<and>
    (\<exists>err m d c. rs_body resp = error_body err m d c)"
  using assms(1)
proof (cases rule: serve_cases)
  case rejected
  then show ?thesis using assms(2) by blast
next
  case (answered c v st body)
  then show ?thesis using dispatch_status [OF answered(3)] by simp
next
  case (failed c v x)
  have "served_error e x" using raises_dispatch failed(3) unfolding raises_def by blast
  moreover have "header (set_header ''x-correlation-id'' c (rq_headers rq)) ''x-correlation-id'' = Some c"
    by (simp add: header_set)
  ultimately show ?thesis using served_status [of e x _ c "rq_id rq"] failed(4) by (metis fst_conv snd_conv)
qed

section \<open>Every operation of the issue service\<close>

text \<open>An operation of the issue service as a page asks for it, and what the service makes of it.\<close>

lemma operation_round:
  assumes "signed_in st n" "shares_secret st n"
    and "gateway_route_of (browser_request st n rq) = Some rt" "issue_target rt = Some (target, i)" "addressable i"
  obtains u cid request resp w' where "accepted_token (gr_headers (browser_request st n rq)) u (sk_gateway st n)" "u \<noteq> []"
    "rq_route request = target" "header (rq_headers request) ''x-authenticated-user-id'' = Some u"
    "rq_body request = (if fst (operation_path rt []) \<in> {POST, PATCH}
       then body_or_empty (operation_body rt (json_copy (wr_body rq))) else Undefined)"
    "secret_accepted (shared_secret st n) (rq_headers request)"
    "serve (shared_secret st n) request (sk_service st n) (sk_world st n) = (Inr resp, w')"
    "stack_world st n rq = w'" "header (rq_headers request) ''x-correlation-id'' = Some cid" "cid \<noteq> []"
    "200 \<le> rs_status resp \<and> rs_status resp < 300 \<Longrightarrow> stack_http st n rq = Resolves (json_copy (rs_body resp))"
    "\<not> (200 \<le> rs_status resp \<and> rs_status resp < 300) \<Longrightarrow> \<exists>error. stack_http st n rq = Rejects error \<and> reports error resp"
proof -
  obtain u cid gw where u: "accepted_token (gr_headers (browser_request st n rq)) u (sk_gateway st n)" "u \<noteq> []" "cid \<noteq> []"
    and handle: "gateway_handle (browser_request st n rq) (gateway_with_service st n) (sk_gateway_world st n) =
       (let outcome = relayed rt (wr_method rq) cid (service_fetch st n (operation_call st n rq rt u cid))
        in (Inr \<lparr>gs_status = fst outcome, gs_body = snd outcome, gs_correlation = cid, gs_cookies = []\<rparr>, gw))"
    and calls: "gw_calls gw = gw_calls (sk_gateway_world st n) @ [operation_call st n rq rt u cid]"
    by (rule gateway_forwards [OF assms(1,3,4)]) (rule that)
  define c where "c = operation_call st n rq rt u cid"
  note got = service_receives [OF assms(4,5) u(2) c_def]
  obtain resp w' where run: "serve (shared_secret st n) (service_request st n c) (sk_service st n) (sk_world st n) = (Inr resp, w')"
    using serve_responds by blast
  note fetched = service_answers [OF assms(2) run]
  obtain status body where out: "relayed rt (wr_method rq) cid (service_fetch st n c) = (status, body)"
    by (cases "relayed rt (wr_method rq) cid (service_fetch st n c)")
  have http: "stack_http st n rq = (if 200 \<le> status \<and> status < 300 then Resolves (json_copy body)
      else Rejects (AxiosError (Some (status, json_copy body))))"
    using handle out by (simp add: stack_http_def c_def Let_def)
  have "starts_with (client_base issue_client (sk_gateway st n)) (gc_url c)"
    by (simp add: c_def operation_call_def client_call_def starts_with_def Let_def)
  then have world: "stack_world st n rq = w'"
    using handle calls run assms(2)
    by (simp add: stack_world_def c_def [symmetric] service_after_def shares_secret_def shared_secret_def Let_def)
  show thesis
  proof (rule that [OF u(1,2) got(1,4,3,6) run world got(5) u(3)])
    assume ok: "200 \<le> rs_status resp \<and> rs_status resp < 300"
    then have "(status, body) = (success_status rt (wr_method rq), json_copy (rs_body resp))"
      using out relayed_success unfolding fetched by metis
    then show "stack_http st n rq = Resolves (json_copy (rs_body resp))"
      using http success_status_ok [of rt "wr_method rq"] by simp
  next
    assume bad: "\<not> (200 \<le> rs_status resp \<and> rs_status resp < 300)"
    then obtain err m d k where "rs_body resp = error_body err m d k"
      using error_answer [OF run got(6)] by auto
    note rel = relayed_reports [OF bad this out [unfolded fetched]]
    then show "\<exists>error. stack_http st n rq = Rejects error \<and> reports error resp" using http bad by auto
  qed
qed

section \<open>A change of an issue\<close>

text \<open>A change that a page asks for on the version \<open>v\<close> it has read, with the client's functions.\<close>

datatype issue_change = MoveTo jsval | AssignTo jsval | EditTo js_object

fun change_call :: "string \<Rightarrow> int \<Rightarrow> issue_change \<Rightarrow> jsval web" where
  "change_call i v (MoveTo status) = api_transitionIssue i status (Num (Fin (of_int v)))"
| "change_call i v (AssignTo u) = api_assignIssue i u (Num (Fin (of_int v)))"
| "change_call i v (EditTo payload) = api_updateIssue i (Obj payload) (Num (Fin (of_int v)))"

text \<open>An edit changes something when one of the fields of the issue is given.\<close>

fun core_change :: "issue_change \<Rightarrow> bool" where
  "core_change (EditTo payload) = (\<exists>k\<in>{''summary'', ''description'', ''type'', ''priority''}. js_get payload k \<noteq> Undefined)"
| "core_change _ = True"

fun change_path :: "issue_change \<Rightarrow> string list" where
  "change_path (MoveTo status) = [''transitions'']"
| "change_path (AssignTo u) = [''assignee'']"
| "change_path (EditTo payload) = []"

fun change_route :: "string \<Rightarrow> issue_change \<Rightarrow> issue_route" where
  "change_route i (MoveTo status) = TransitionIssue i"
| "change_route i (AssignTo u) = AssignIssue i"
| "change_route i (EditTo payload) = UpdateIssue i"

fun change_body :: "int \<Rightarrow> issue_change \<Rightarrow> js_object" where
  "change_body v (MoveTo status) = [(''status'', status), (''expectedVersion'', Num (Fin (of_int v)))]"
| "change_body v (AssignTo u) = [(''assigneeUserId'', u), (''expectedVersion'', Num (Fin (of_int v)))]"
| "change_body v (EditTo payload) = put_property ''expectedVersion'' (Num (Fin (of_int v))) payload"

definition change_request :: "string \<Rightarrow> int \<Rightarrow> issue_change \<Rightarrow> web_request" where
  "change_request i v ch =
     \<lparr>wr_method = (case ch of MoveTo _ \<Rightarrow> POST | _ \<Rightarrow> PATCH),
      wr_path = path_of_segments ([''api'', ''issues'', i] @ change_path ch), wr_params = [], wr_body = Obj (change_body v ch)\<rparr>"

lemma change_asks:
  "change_call i v ch e w =
     (case be_http e (b_tick w) (change_request i v ch) of
        Resolves data \<Rightarrow>
          (get_property data ''issue'' e (w\<lparr>b_tick := b_tick w + 1, b_requests := b_requests w @ [change_request i v ch]\<rparr>))
      | Rejects error \<Rightarrow> (Inl error, w\<lparr>b_tick := b_tick w + 1, b_requests := b_requests w @ [change_request i v ch]\<rparr>))"
  by (cases ch; simp add: api_transitionIssue_def api_assignIssue_def api_updateIssue_def field_of_def http_call_def
      andThen_def change_request_def path_of_segments_def spread_properties_def Let_def split: web_reply.split)

lemma change_routed:
  assumes "canonical_uuid i"
  shows "gateway_route_of (browser_request st n (change_request i v ch)) = Some (GwIssues (change_route i ch))"
proof -
  note p = uuid_segment [OF assms]
  have "wr_path (change_request i v ch) = path_of_segments ([''api'', ''issues'', i] @ change_path ch)"
    by (simp add: change_request_def)
  from browser_route(1) [OF this, of st n] show ?thesis
    using p by (cases ch) (simp_all add: change_request_def gateway_tables)
qed

definition copied :: "js_object \<Rightarrow> js_object" where
  "copied ps = map (\<lambda>(k, v). (k, json_copy v)) (filter (\<lambda>(k, v). v \<noteq> Undefined) ps)"

lemma copied_has_own: "js_get ps k \<noteq> Undefined \<Longrightarrow> has_own (copied ps) k"
  by (induction ps) (auto simp: copied_def split: if_splits)

lemma copied_put: "v \<noteq> Undefined \<Longrightarrow> js_get (copied (put_property k v ps)) k = json_copy v"
proof (cases "has_own ps k")
  case True
  assume "v \<noteq> Undefined"
  have "has_own ps k \<Longrightarrow> js_get (copied (map (\<lambda>(k', v'). (k', if k' = k then v else v')) ps)) k = json_copy v"
    using \<open>v \<noteq> Undefined\<close> by (induction ps) (auto simp: copied_def)
  with True show ?thesis by (simp add: put_property_def)
next
  case False
  assume "v \<noteq> Undefined"
  have "\<not> has_own ps k \<Longrightarrow> js_get (copied (ps @ [(k, v)])) k = json_copy v"
    using \<open>v \<noteq> Undefined\<close> by (induction ps) (auto simp: copied_def)
  with False show ?thesis by (simp add: put_property_def)
qed

lemma get_put_other: "k \<noteq> k' \<Longrightarrow> js_get (put_property k' v ps) k = js_get ps k"
proof -
  assume k: "k \<noteq> k'"
  have "js_get (map (\<lambda>(a, b). (a, if a = k' then v else b)) ps) k = js_get ps k" "js_get (ps @ [(k', v)]) k = js_get ps k"
    using k by (induction ps) auto
  then show ?thesis by (simp add: put_property_def)
qed

lemma change_versioned:
  assumes "core_change ch" and "0 < v" "v \<le> int4_max"
  shows "versioned (Issues (change_route i ch)) (body_or_empty (json_copy (Obj (change_body v ch)))) i v"
proof -
  have body: "body_or_empty (json_copy (Obj (change_body v ch))) = Obj (copied (change_body v ch))"
    by (simp add: body_or_empty_def copied_def)
  have "js_get (copied (change_body v ch)) ''expectedVersion'' = Num (Fin (of_int v))"
    using copied_put [of "Num (Fin (of_int v))"] by (cases ch) (auto simp: copied_def)
  then have "expectedVersion (copied (change_body v ch)) = Inr v"
    using assms(2,3) by (simp add: expectedVersion_def int4_max_def)
  moreover have "hasCorePatchMutation (copied (change_body v ch))" if "ch = EditTo payload" for payload
    using assms(1) that copied_has_own get_put_other by (auto simp: hasCorePatchMutation_def)
  ultimately show ?thesis unfolding body versioned_def by (cases ch) auto
qed

section \<open>One round of a change\<close>

definition service_ready :: "stack \<Rightarrow> nat \<Rightarrow> bool" where
  "service_ready st n \<longleftrightarrow>
     signed_in st n \<and> shares_secret st n \<and> issue_env (sk_service st n) \<and> w_tx (sk_world st n) = None"

lemma change_round:
  assumes "service_ready st n" and "canonical_uuid i" "0 < v" "v \<le> int4_max" "core_change ch"
  obtains request resp w' where "versioned (rq_route request) (rq_body request) i v"
    "serve (shared_secret st n) request (sk_service st n) (sk_world st n) = (Inr resp, w')"
    "stack_world st n (change_request i v ch) = w'"
    "rs_status resp \<in> {200, 201} \<or> (\<exists>error. stack_http st n (change_request i v ch) = Rejects error)"
proof -
  let ?rt = "GwIssues (change_route i ch)"
  have ready: "signed_in st n" "shares_secret st n" using assms(1) by (simp_all add: service_ready_def)
  have target: "issue_target ?rt = Some (Issues (change_route i ch), i)" by (cases ch) simp_all
  obtain u request resp w' where r: "rq_route request = Issues (change_route i ch)"
      "rq_body request = (if fst (operation_path ?rt []) \<in> {POST, PATCH}
         then body_or_empty (operation_body ?rt (json_copy (wr_body (change_request i v ch)))) else Undefined)"
      "secret_accepted (shared_secret st n) (rq_headers request)"
      "serve (shared_secret st n) request (sk_service st n) (sk_world st n) = (Inr resp, w')"
      "stack_world st n (change_request i v ch) = w'"
      "\<not> (200 \<le> rs_status resp \<and> rs_status resp < 300) \<Longrightarrow>
         \<exists>error. stack_http st n (change_request i v ch) = Rejects error \<and> reports error resp"
    by (rule operation_round [OF ready change_routed [OF assms(2)] target canonical_uuid_addressable [OF assms(2)]]) (rule that)
  have "fst (operation_path ?rt []) \<in> {POST, PATCH}" by (cases ch) simp_all
  then have "rq_body request = body_or_empty (json_copy (Obj (change_body v ch)))"
    unfolding r(2) by (simp add: change_request_def)
  then have "versioned (rq_route request) (rq_body request) i v"
    using change_versioned [OF assms(5,3,4), of i] r(1) by simp
  moreover have "rs_status resp \<in> {200, 201} \<or> (\<exists>error. stack_http st n (change_request i v ch) = Rejects error)"
    using error_answer [OF r(4,3)] r(6) by blast
  ultimately show thesis using that r(4,5) by blast
qed

section \<open>A change on a version that is no longer the row's\<close>

text \<open>The project service lets the user write.\<close>

definition lets_write :: "env \<Rightarrow> bool" where
  "lets_write se \<longleftrightarrow>
     (\<forall>n rq access. e_http se n rq = Reply 200 (Some access) \<longrightarrow> (\<exists>s. property_of access ''projectStatus'' = Inr s \<and> s \<noteq> Str ''ARCHIVED''))"

lemma stale_transition:
  assumes "serves_from se lower d" "lets_write se" and "distinct (map r_id (t_issues d))" "r \<in> set (t_issues d)"
    and "canonical_uuid (r_id r)" and "enumValue (js_get ps ''status'') ''status'' ISSUE_STATUSES = Inr status"
    and "expectedVersion ps = Inr v" "r_version r \<noteq> v"
  shows "\<exists>w'. service_transitionIssue (r_id r) (Obj ps) ctx se w = (Inl concurrentIssueModification, w') \<and> w_db w' = d"
proof -
  have env: "pg_uuid se" "e_fault se n = NoFault" "e_others se n d' = d" for n d'
    using assms(1) by (simp_all add: serves_from_def)
  have only: "r' = r" if "r' \<in> set (t_issues d)" "r_id r' = r_id r" for r'
    using distinct_map_eqD [OF assms(3) that(1) assms(4) that(2)] .
  obtain rows where rows: "filter (\<lambda>x. r_id x = r_id r) (t_issues d) = r # rows"
  proof (cases "filter (\<lambda>x. r_id x = r_id r) (t_issues d)")
    case Nil
    then show ?thesis using assms(4) by (auto simp: filter_empty_conv)
  next
    case (Cons x xs)
    then have "x \<in> set (t_issues d)" "r_id x = r_id r" using filter_eq_ConsD [OF Cons] by auto
    then show ?thesis using that Cons only by auto
  qed
  have found: "findIssue (r_id r) se u = (Inr (Some (toIssue r)), (tick (others se u))\<lparr>w_db := d\<rparr>)" for u
    using rows by (simp add: findIssue_def andThen_def query_def client_query_def find_stmt_def uuid_param_def env
        pg_uuid_canonical [OF env(1) assms(5)])
  let ?u = "(tick (others se w))\<lparr>w_db := d\<rparr>"
  obtain access s where a: "e_http se (w_tick ?u)
      (access_request (i_projectId (toIssue r)) (rc_userId ctx) (rc_correlationId ctx) se) = Reply 200 (Some access)"
    "property_of access ''projectStatus'' = Inr s" "s \<noteq> Str ''ARCHIVED''"
    using assms(1,2) unfolding serves_from_def lets_write_def by metis
  have "requireVisibleIssue (r_id r) ctx True se w = (Inr (toIssue r), tick ?u)"
    using a uuid_of_canonical [OF assms(5)]
    by (simp add: requireVisibleIssue_def andThen_def found catching_def getAccess_eval access_result_def assertWritable_def Let_def)
  moreover have "i_version (toIssue r) = r_version r" by (simp add: toIssue_def)
  ultimately show ?thesis
    using assms(6-8)
    by (simp add: service_transitionIssue_def andThen_def body_of_def assertExpectedVersion_def tick_def)
qed

lemma context_made:
  assumes "header h ''x-authenticated-user-id'' = Some u" "u \<noteq> []"
  shows "\<exists>ctx w'. requestContext h e w = (Inr ctx, w')"
  using assms by (auto simp: requestContext_def andThen_def randomUUID_def split: option.split)

lemma stale_served:
  assumes "serves_from se lower d" "lets_write se" and "distinct (map r_id (t_issues d))" "r \<in> set (t_issues d)"
    and "canonical_uuid (r_id r)" and "enumValue (js_get ps ''status'') ''status'' ISSUE_STATUSES = Inr status"
    and "expectedVersion ps = Inr v" "r_version r \<noteq> v"
    and "rq_route rq = Issues (TransitionIssue (r_id r))" "rq_body rq = Obj ps" "secret_accepted secret (rq_headers rq)"
    and "header (rq_headers rq) ''x-authenticated-user-id'' = Some u" "u \<noteq> []" and "serve secret rq se w = (Inr resp, w')"
  shows "\<exists>c. rs_status resp = 409 \<and> rs_body resp = error_body ''CONCURRENT_ISSUE_MODIFICATION''
      ''Issue changed since it was last loaded'' [] c \<and> w_db w' = d"
proof -
  have run: "\<exists>w''. dispatch (rq_route rq) (set_header ''x-correlation-id'' c (rq_headers rq)) (rq_query rq) (rq_body rq) se x =
      (Inl concurrentIssueModification, w'') \<and> w_db w'' = d" for c x
  proof -
    have "header (set_header ''x-correlation-id'' c (rq_headers rq)) ''x-authenticated-user-id'' = Some u"
      using assms(12) by (simp add: header_set)
    from context_made [OF this assms(13), of se x] obtain ctx x'
      where ctx: "requestContext (set_header ''x-correlation-id'' c (rq_headers rq)) se x = (Inr ctx, x')" by blast
    from stale_transition [OF assms(1-8), of ctx x'] show ?thesis
      by (auto simp: assms(9,10) with_context_def andThen_def ctx)
  qed
  from assms(14) show ?thesis
  proof (cases rule: serve_cases)
    case rejected
    then show ?thesis using assms(11) by simp
  next
    case (answered c v st body)
    then show ?thesis using run [of c v] by auto
  next
    case (failed c v x)
    then show ?thesis using run [of c v] by (auto simp: DomainExceptionFilter_def concurrentIssueModification_def Let_def)
  qed
qed

lemma status_parsed: "enumValue (Str (status_name status)) ''status'' ISSUE_STATUSES = Inr status"
proof -
  have "enumValue (Str (status_name TODO)) ''status'' ISSUE_STATUSES = Inr TODO" by code_simp
  moreover have "enumValue (Str (status_name IN_PROGRESS)) ''status'' ISSUE_STATUSES = Inr IN_PROGRESS" by code_simp
  moreover have "enumValue (Str (status_name DONE)) ''status'' ISSUE_STATUSES = Inr DONE" by code_simp
  ultimately show ?thesis by (cases status) simp_all
qed

lemma reports_conflict:
  "\<lbrakk>reports error resp; rs_body resp = error_body err m d c; err \<noteq> []\<rbrakk> \<Longrightarrow> getApiErrorCode error = Some err"
  by (auto simp: reports_def error_body_def)

section \<open>Properties\<close>

text \<open>
  C7: Every operation of the issue service, end to end: a signed-in page's request for it is
  served by the service with this operation, the body the page sent, the user of the accepted
  token and the shared secret; when the service answers a success, the page gets the body of
  that answer, otherwise an error with the status kind, code and message of that answer.
\<close>

theorem browser_sees_the_service_answer:
  assumes "signed_in st n" "shares_secret st n"
    and "gateway_route_of (browser_request st n rq) = Some rt" "issue_target rt = Some (target, i)" "addressable i"
  shows "\<exists>u request resp.
    accepted_token (gr_headers (browser_request st n rq)) u (sk_gateway st n) \<and>
    rq_route request = target \<and> header (rq_headers request) ''x-authenticated-user-id'' = Some u \<and>
    rq_body request = (if fst (operation_path rt []) \<in> {POST, PATCH}
      then body_or_empty (operation_body rt (json_copy (wr_body rq))) else Undefined) \<and>
    secret_accepted (shared_secret st n) (rq_headers request) \<and>
    serve (shared_secret st n) request (sk_service st n) (sk_world st n) = (Inr resp, stack_world st n rq) \<and>
    (if 200 \<le> rs_status resp \<and> rs_status resp < 300 then stack_http st n rq = Resolves (json_copy (rs_body resp))
     else \<exists>error. stack_http st n rq = Rejects error \<and> reports error resp)"
  by (rule operation_round [OF assms]) (metis (no_types, lifting))

text \<open>
  C2: No lost update between two pages: when a move, an assignment or an edit of an issue has
  succeeded on the version a page had read, a later one that names the same version fails,
  whichever of the three it is, whoever asks for it through whichever gateway and instance of
  the service, and whatever other processes commit in between.
\<close>

theorem pages_do_not_overwrite:
  assumes "be_http e1 = stack_http st1" "service_ready st1 (b_tick w1)" "db_inv (w_db (sk_world st1 (b_tick w1)))"
    and "canonical_uuid i" "0 < v" "v \<le> int4_max" "core_change ch1" "core_change ch2"
    and "change_call i v ch1 e1 w1 = (Inr issue, w1')"
    and "be_http e2 = stack_http st2" "service_ready st2 (b_tick w2)"
    and "db_steps (w_db (stack_world st1 (b_tick w1) (last (b_requests w1')))) (w_db (sk_world st2 (b_tick w2)))"
  shows "\<exists>error w2'. change_call i v ch2 e2 w2 = (Inl error, w2')"
proof -
  have first: "\<nexists>error. stack_http st1 (b_tick w1) (change_request i v ch1) = Rejects error"
    "last (b_requests w1') = change_request i v ch1"
    using assms(1,9) by (auto simp: change_asks get_property_def split: web_reply.splits option.splits)
  obtain rq1 resp1 w1s where one: "versioned (rq_route rq1) (rq_body rq1) i v"
      "serve (shared_secret st1 (b_tick w1)) rq1 (sk_service st1 (b_tick w1)) (sk_world st1 (b_tick w1)) = (Inr resp1, w1s)"
      "stack_world st1 (b_tick w1) (change_request i v ch1) = w1s" "rs_status resp1 \<in> {200, 201}"
    by (rule change_round [OF assms(2,4-7)]) (use first(1) that in blast)
  obtain rq2 resp2 w2s where two: "versioned (rq_route rq2) (rq_body rq2) i v"
      "serve (shared_secret st2 (b_tick w2)) rq2 (sk_service st2 (b_tick w2)) (sk_world st2 (b_tick w2)) = (Inr resp2, w2s)"
      "rs_status resp2 \<in> {200, 201} \<or> (\<exists>error. stack_http st2 (b_tick w2) (change_request i v ch2) = Rejects error)"
    by (rule change_round [OF assms(11,4-6,8)]) (rule that)
  have "db_inv (w_db w1s) \<and> past i v (w_db w1s)"
    using assms(2,3) by (intro served_moves [OF _ _ _ one(1,2,4)]) (simp_all add: service_ready_def)
  then have "db_inv (w_db (sk_world st2 (b_tick w2))) \<and> past i v (w_db (sk_world st2 (b_tick w2)))"
    by (rule stableD [OF stable_past _ assms(12), unfolded first(2) one(3)])
  then have "rs_status resp2 \<notin> {200, 201}"
    using assms(11) by (intro served_stale [OF _ _ _ two(1,2)]) (simp_all add: service_ready_def)
  then obtain error where "stack_http st2 (b_tick w2) (change_request i v ch2) = Rejects error" using two(3) by blast
  then show ?thesis using assms(10) by (simp add: change_asks)
qed

text \<open>
  What the query library does when the function of a mutation fails: the callback of the
  mutation, its last callback, then the callback of the call.
\<close>

definition reports_failures :: "(jsval \<Rightarrow> (web_error \<Rightarrow> unit web) \<Rightarrow> unit web) \<Rightarrow> mutation_options \<Rightarrow> bool" where
  "reports_failures mutate m \<longleftrightarrow>
     (\<forall>v onError e w error w1. mo_fn m v e w = (Inl error, w1) \<longrightarrow>
        mutate v onError e w =
          andThen (mo_onError m error v) (\<lambda>_. andThen (mo_onSettled m) (\<lambda>_. onError error)) e w1)"

text \<open>
  C20: A move on a board that has gone stale: when another user has changed the issue since the
  board was loaded, the move fails, the tables stay as they are, the list and the issue are
  read again, and the message says so; no other error is shown, whatever column was chosen.
\<close>

theorem stale_move_reloads_the_board:
  assumes "be_http e = stack_http st" "signed_in st (b_tick w)" "shares_secret st (b_tick w)"
    and "serves_from (sk_service st (b_tick w)) lower d" "lets_write (sk_service st (b_tick w))" "db_inv d"
    and "r \<in> set (t_issues d)" "canonical_uuid (r_id r)"
    and "wi_id issue = r_id r" "wi_version issue \<noteq> r_version r" "0 < wi_version issue" "wi_version issue \<le> int4_max"
    and "reports_failures mutate (useTransitionIssue p)"
  shows "\<exists>w'. move mutate True issue status e w = (Inr (), w') \<and>
    b_effects w' = b_effects w @ [Invalidate [Str ''issues'', Str ''list'', Str p], Invalidate [Str ''issue'', Str (r_id r)],
      ShowToast (ErrorToast ''Latest Issue data was reloaded.'' None None)] \<and>
    w_db (stack_world st (b_tick w) (last (b_requests w'))) = d"
proof -
  let ?n = "b_tick w" and ?v = "wi_version issue" and ?ch = "MoveTo (Str (status_name status))"
  let ?rq = "change_request (r_id r) ?v ?ch" and ?rt = "GwIssues (TransitionIssue (r_id r))"
  have ready: "signed_in st ?n" "shares_secret st ?n" using assms(2,3) by blast+
  have route: "gateway_route_of (browser_request st ?n ?rq) = Some ?rt" using change_routed [OF assms(8)] by simp
  obtain u request resp w' where r: "u \<noteq> []" "rq_route request = Issues (TransitionIssue (r_id r))"
      "header (rq_headers request) ''x-authenticated-user-id'' = Some u"
      "rq_body request = body_or_empty (json_copy (Obj (change_body ?v ?ch)))"
      "secret_accepted (shared_secret st ?n) (rq_headers request)"
      "serve (shared_secret st ?n) request (sk_service st ?n) (sk_world st ?n) = (Inr resp, w')" "stack_world st ?n ?rq = w'"
      "\<not> (200 \<le> rs_status resp \<and> rs_status resp < 300) \<Longrightarrow>
         \<exists>error. stack_http st ?n ?rq = Rejects error \<and> reports error resp"
    by (rule operation_round [OF ready route issue_target.simps(1) canonical_uuid_addressable]) (simp_all add: assms(8) change_request_def that)
  have ver: "expectedVersion (change_body ?v ?ch) = Inr ?v" using assms(11,12) by (simp add: expectedVersion_def int4_max_def)
  have enum: "enumValue (js_get (change_body ?v ?ch) ''status'') ''status'' ISSUE_STATUSES = Inr status"
    using status_parsed by simp
  have "rq_body request = Obj (change_body ?v ?ch)" using r(4) by (simp add: body_or_empty_def)
  from stale_served [OF assms(4,5) _ assms(7,8) enum ver _ r(2) this r(5,3,1,6)] assms(6,10) obtain c
    where c: "rs_status resp = 409" "rs_body resp = error_body ''CONCURRENT_ISSUE_MODIFICATION''
      ''Issue changed since it was last loaded'' [] c" "w_db w' = d"
    by (auto simp: db_inv_def)
  then obtain error where error: "stack_http st ?n ?rq = Rejects error" "reports error resp" using r(8) by auto
  from reports_conflict [OF error(2) c(2)] have conflict: "getApiErrorCode error = Some ''CONCURRENT_ISSUE_MODIFICATION''" by simp
  let ?w1 = "w\<lparr>b_tick := b_tick w + 1, b_requests := b_requests w @ [?rq]\<rparr>"
  let ?vars = "Obj [(''issueId'', Str (wi_id issue)), (''status'', Str (status_name status)), (''expectedVersion'', Num (Fin (of_int ?v)))]"
  have "change_call (r_id r) ?v ?ch e w = (Inl error, ?w1)" unfolding change_asks using error(1) assms(1) by simp
  then have "mo_fn (useTransitionIssue p) ?vars e w = (Inl error, ?w1)"
    by (simp add: useTransitionIssue_def mutation_def text_of_def maybe_property_def assms(9))
  then have "move mutate True issue status e w =
      andThen (mo_onError (useTransitionIssue p) error ?vars)
        (\<lambda>_. andThen (mo_onSettled (useTransitionIssue p)) (\<lambda>_. toast_error (transitionErrorMessage error))) e ?w1"
    using assms(13) by (simp add: move_def reports_failures_def)
  then show ?thesis
    using conflict c(3) r(7) by (simp add: useTransitionIssue_def mutation_def invalidateIssueQueries_def andThen_def
        perform_effect_def toast_error_def transitionErrorMessage_def text_of_def maybe_property_def assms(9))
qed

section \<open>Instances\<close>

theorem browser_sees_the_service_answer_witness:
  "\<exists>request resp. rq_route request = Issues (ListIssues example_project) \<and>
     serve ''secret'' request listing_service listing_world =
       (Inr resp, stack_world listing_stack 0 (list_request example_project [])) \<and>
     (if 200 \<le> rs_status resp \<and> rs_status resp < 300
      then stack_http listing_stack 0 (list_request example_project []) = Resolves (json_copy (rs_body resp))
      else \<exists>error. stack_http listing_stack 0 (list_request example_project []) = Rejects error \<and> reports error resp)"
proof -
  have p: "canonical_uuid example_project" "signed_in listing_stack 0" "shares_secret listing_stack 0"
    using listing_stack_ok by (simp_all add: stack_ok_def)
  have "shared_secret listing_stack 0 = ''secret''" "sk_service listing_stack 0 = listing_service" "sk_world listing_stack 0 = listing_world"
    by (simp_all add: shared_secret_def listing_stack_def listing_gateway_def variable_or_def)
  moreover have "issue_target (GwIssues (ListIssues example_project)) = Some (Issues (ListIssues example_project), example_project)"
    by simp
  from browser_sees_the_service_answer [OF p(2,3) list_route(1) [OF p(1), of listing_stack 0 "[]"] this canonical_uuid_addressable [OF p(1)]]
  obtain request resp where "rq_route request = Issues (ListIssues example_project)"
     "serve (shared_secret listing_stack 0) request (sk_service listing_stack 0) (sk_world listing_stack 0) =
       (Inr resp, stack_world listing_stack 0 (list_request example_project []))"
     "if 200 \<le> rs_status resp \<and> rs_status resp < 300
      then stack_http listing_stack 0 (list_request example_project []) = Resolves (json_copy (rs_body resp))
      else \<exists>error. stack_http listing_stack 0 (list_request example_project []) = Rejects error \<and> reports error resp"
    by (elim exE conjE) (rule that)
  ultimately show ?thesis by (intro exI [of _ request] exI [of _ resp]) simp
qed

text \<open>A user who may work on the second issue of \<open>world2\<close>, as seen by the service at each tick.\<close>

definition busy_gateway :: gateway_env where
  "busy_gateway = listing_gateway\<lparr>ge_verify := (\<lambda>n s i a t.
     TokenPayload (Obj [(''sub'', Str example_user), (''email'', Str ''a@b''), (''roles'', Arr [])]))\<rparr>"

definition busy_stack :: "world \<Rightarrow> stack" where
  "busy_stack w = listing_stack\<lparr>sk_gateway := (\<lambda>_. busy_gateway), sk_service := (\<lambda>_. example_env), sk_world := (\<lambda>_. w)\<rparr>"

definition page_of :: "stack \<Rightarrow> browser_env" where
  "page_of st = listing_browser\<lparr>be_http := stack_http st\<rparr>"

lemma page_http: "be_http (page_of st) = stack_http st"
  by (simp add: page_of_def)

lemma busy_simps:
  "sk_service (busy_stack w) n = example_env" "sk_world (busy_stack w) n = w" "sk_gateway (busy_stack w) n = busy_gateway"
  "sk_token (busy_stack w) n = ''t''"
  by (simp_all add: busy_stack_def listing_stack_def)

lemma busy_vars: "variable_or v x busy_gateway = variable_or v x listing_gateway"
  by (simp add: busy_gateway_def variable_or_def)

lemma busy_ready:
  assumes "w_tx w = None"
  shows "service_ready (busy_stack w) n" "shared_secret (busy_stack w) n = ''secret''"
proof -
  have "example_user \<noteq> []" by (simp add: example_user_def)
  then have "signed_in (busy_stack w) n"
    by (simp add: signed_in_def busy_simps Let_def busy_gateway_def toGatewayUser_def object_or_empty_def js_get_def)
  moreover have "shares_secret (busy_stack w) n"
    using listing_stack_ok by (simp add: stack_ok_def shares_secret_def listing_stack_def busy_simps busy_vars bootstrap_secret_def
        listing_service_def)
  ultimately show "service_ready (busy_stack w) n"
    using assms example_issue_env by (simp add: service_ready_def busy_simps)
  show "shared_secret (busy_stack w) n = ''secret''"
    by (simp add: shared_secret_def busy_simps busy_vars) (simp add: listing_gateway_def variable_or_def)
qed

lemma busy_user: "accepted_token h u (sk_gateway (busy_stack w) n) \<Longrightarrow> u = example_user"
  by (auto simp: accepted_token_def busy_simps busy_gateway_def object_or_empty_def js_get_def)

lemma busy_move:
  "\<exists>issue w1'. change_call (uuid_of_nat 2) 1 (MoveTo (Str ''IN_PROGRESS'')) (page_of (busy_stack world2)) fresh_browser = (Inr issue, w1') \<and>
     last (b_requests w1') = change_request (uuid_of_nat 2) 1 (MoveTo (Str ''IN_PROGRESS'')) \<and>
     w_tx (stack_world (busy_stack world2) 0 (last (b_requests w1'))) = None"
proof -
  let ?st = "busy_stack world2" and ?rq = "change_request (uuid_of_nat 2) 1 (MoveTo (Str ''IN_PROGRESS''))"
  have id2: "canonical_uuid (uuid_of_nat 2)" by code_simp
  have ready: "signed_in ?st 0" "shares_secret ?st 0" using busy_ready(1) [of world2 0] by (simp_all add: service_ready_def)
  have route: "gateway_route_of (browser_request ?st 0 ?rq) = Some (GwIssues (TransitionIssue (uuid_of_nat 2)))"
    using change_routed [OF id2] by simp
  obtain u cid request resp w' where r: "accepted_token (gr_headers (browser_request ?st 0 ?rq)) u (sk_gateway ?st 0)"
      "rq_route request = Issues (TransitionIssue (uuid_of_nat 2))"
      "header (rq_headers request) ''x-authenticated-user-id'' = Some u" "rq_body request = Obj start_body"
      "secret_accepted (shared_secret ?st 0) (rq_headers request)"
      "serve (shared_secret ?st 0) request (sk_service ?st 0) (sk_world ?st 0) = (Inr resp, w')" "stack_world ?st 0 ?rq = w'"
      "header (rq_headers request) ''x-correlation-id'' = Some cid" "cid \<noteq> []"
      "200 \<le> rs_status resp \<and> rs_status resp < 300 \<Longrightarrow> stack_http ?st 0 ?rq = Resolves (json_copy (rs_body resp))"
    by (rule operation_round [OF ready route issue_target.simps(1) canonical_uuid_addressable])
      (simp_all add: id2 change_request_def body_or_empty_def start_body_def that)
  have "header (rq_headers request) ''x-authenticated-user-id'' = Some example_user" using r(1,3) busy_user by simp
  from start_work_served [OF r(2,4) this r(8,9,5)] r(6) obtain ps where ok: "rs_status resp = 201" "rs_body resp = Obj ps"
    by (auto simp: busy_simps)
  have "w_tx w' = None"
    using runsD(1) [OF serve_runs example_issue_env _ _ r(6) [unfolded busy_simps]] by (simp add: example_dbs)
  moreover obtain ps' where "json_copy (Obj ps) = Obj ps'" by simp
  then have "stack_http ?st 0 ?rq = Resolves (Obj ps')" using r(10) ok by simp
  then have "\<exists>issue w1'. change_call (uuid_of_nat 2) 1 (MoveTo (Str ''IN_PROGRESS'')) (page_of ?st) fresh_browser = (Inr issue, w1') \<and>
      last (b_requests w1') = ?rq"
    unfolding change_asks by (simp add: page_http fresh_browser_def get_property_def property_def maybe_property_def)
  ultimately show ?thesis using r(7) by auto
qed

theorem pages_do_not_overwrite_witness:
  "\<exists>issue w1' error w2'.
     change_call (uuid_of_nat 2) 1 (MoveTo (Str ''IN_PROGRESS'')) (page_of (busy_stack world2)) fresh_browser = (Inr issue, w1') \<and>
     change_call (uuid_of_nat 2) 1 (AssignTo Null)
       (page_of (busy_stack (stack_world (busy_stack world2) 0 (last (b_requests w1'))))) fresh_browser = (Inl error, w2')"
proof -
  have id2: "canonical_uuid (uuid_of_nat 2)" by code_simp
  obtain issue w1' where first:
    "change_call (uuid_of_nat 2) 1 (MoveTo (Str ''IN_PROGRESS'')) (page_of (busy_stack world2)) fresh_browser = (Inr issue, w1')"
    "w_tx (stack_world (busy_stack world2) 0 (last (b_requests w1'))) = None"
    using busy_move by blast
  let ?w = "stack_world (busy_stack world2) 0 (last (b_requests w1'))"
  have "\<exists>error w2'. change_call (uuid_of_nat 2) 1 (AssignTo Null) (page_of (busy_stack ?w)) fresh_browser = (Inl error, w2')"
    by (rule pages_do_not_overwrite [OF page_http _ _ id2 _ _ _ _ first(1) page_http])
      (simp_all add: busy_ready first(2) busy_simps example_dbs int4_max_def fresh_browser_def)
  with first(1) show ?thesis by blast
qed

definition run_mutation :: "mutation_options \<Rightarrow> jsval \<Rightarrow> (web_error \<Rightarrow> unit web) \<Rightarrow> unit web" where
  "run_mutation m v onError e w =
     (case mo_fn m v e w of
        (Inr data, w1) \<Rightarrow> andThen (mo_onSuccess m data v) (\<lambda>_. mo_onSettled m) e w1
      | (Inl error, w1) \<Rightarrow> andThen (mo_onError m error v) (\<lambda>_. andThen (mo_onSettled m) (\<lambda>_. onError error)) e w1)"

definition stale_issue :: web_issue where
  "stale_issue = \<lparr>wi_id = uuid_of_nat 1, wi_projectId = example_project, wi_number = 1, wi_key = ''LAB-1'',
     wi_summary = ''Login page'', wi_description = None, wi_type = TASK, wi_priority = HIGH, wi_status = TODO,
     wi_reporterUserId = example_user, wi_assigneeUserId = None, wi_epicId = None, wi_sprintId = None, wi_version = 2,
     wi_createdAt = '''', wi_updatedAt = ''''\<rparr>"

theorem stale_move_reloads_the_board_witness:
  "\<exists>w'. move (run_mutation (useTransitionIssue example_project)) True stale_issue IN_PROGRESS listing_browser fresh_browser = (Inr (), w') \<and>
    b_effects w' = [Invalidate [Str ''issues'', Str ''list'', Str example_project], Invalidate [Str ''issue'', Str (uuid_of_nat 1)],
      ShowToast (ErrorToast ''Latest Issue data was reloaded.'' None None)]"
proof -
  have st: "sk_service listing_stack n = listing_service" "signed_in listing_stack n" "shares_secret listing_stack n" for n
    using listing_stack_ok by (simp_all add: stack_ok_def listing_stack_def)
  have "lets_write listing_service"
    by (simp add: lets_write_def listing_service_simps example_access_def property_of_def)
  moreover have "canonical_uuid (uuid_of_nat 1)" by code_simp
  moreover have "r_id (example_row 1 ''Login page'') = uuid_of_nat 1" "r_version (example_row 1 ''Login page'') = 1"
    by (simp_all add: example_row_def)
  moreover have "reports_failures (run_mutation m) m" for m by (simp add: reports_failures_def run_mutation_def)
  ultimately show ?thesis
    using stale_move_reloads_the_board [where e = listing_browser and st = listing_stack and w = fresh_browser
        and lower = lower_char and d = db3 and r = "example_row 1 ''Login page''" and issue = stale_issue and status = IN_PROGRESS
        and mutate = "run_mutation (useTransitionIssue example_project)" and p = example_project]
      st serves_from_db3 example_dbs(2)
    by (auto simp: db3_rows listing_browser_def stale_issue_def fresh_browser_def int4_max_def)
qed

end
