(* ===== verification/Web_Renewal.thy ===== *)
theory Web_Renewal
  imports Web_System Gateway_Session
begin

text \<open>
  A page whose access token has expired: its request is refused by the gateway, the session
  code of the client asks for a new token with the refresh cookie, the gateway gets it from
  the identity service, and the request goes out again. Client, gateway and issue service are
  those of the earlier theories; the identity service is given by its answer.
\<close>

section \<open>The network of a page\<close>

text \<open>A request of the page goes out with the header that its interceptor has set.\<close>

definition sent_token :: "request \<Rightarrow> string" where
  "sent_token r = (case rq_authorization r of None \<Rightarrow> [] | Some h \<Rightarrow> drop (length ''Bearer '') h)"

definition with_token :: "stack \<Rightarrow> string \<Rightarrow> stack" where
  "with_token st token = st\<lparr>sk_token := (\<lambda>_. token)\<rparr>"

definition answer_event :: "stack \<Rightarrow> nat \<Rightarrow> web_request \<Rightarrow> nat \<Rightarrow> interceptors \<Rightarrow> event" where
  "answer_event st n rq i s =
     (case stack_http (with_token st (sent_token (it_requests s ! i))) n rq of
        Resolves data \<Rightarrow> Answered i data
      | Rejects error \<Rightarrow> Refused i error True)"

text \<open>The call of \<open>refreshSession\<close> has no body and no token, but the cookies of the browser.\<close>

definition refresh_request :: "string \<Rightarrow> string option \<Rightarrow> gateway_request" where
  "refresh_request cookies ip =
     \<lparr>gr_method = POST, gr_url = ''/api/auth/refresh'', gr_headers = [(''cookie'', Str cookies)], gr_body = Undefined, gr_ip = ip\<rparr>"

definition refresh_event :: "stack \<Rightarrow> nat \<Rightarrow> string \<Rightarrow> event" where
  "refresh_event st n cookies =
     (case gateway_handle (refresh_request cookies (sk_ip st)) (gateway_with_service st n) (sk_gateway_world st n) of
        (Inr answer, _) \<Rightarrow>
          if 200 \<le> gs_status answer \<and> gs_status answer < 300 then RefreshAnswered (json_copy (gs_body answer)) else RefreshFailed
      | (Inl _, _) \<Rightarrow> RefreshFailed)"

text \<open>One request of the page, the answers at three ticks.\<close>

definition renewal :: "page \<Rightarrow> stack \<Rightarrow> nat \<Rightarrow> string \<Rightarrow> web_request \<Rightarrow> interceptors \<Rightarrow> interceptors option" where
  "renewal pg st n cookies rq s =
     (let i = length (it_requests s) in
      Option.bind (react pg Start s) (\<lambda>s1.
      Option.bind (react pg (answer_event st n rq i s1) s1) (\<lambda>s2.
      Option.bind (react pg (refresh_event st (n + 1) cookies) s2) (\<lambda>s3.
      react pg (answer_event st (n + 2) rq i s3) s3))))"

section \<open>The refusal\<close>

definition expired_token :: "stack \<Rightarrow> nat \<Rightarrow> string \<Rightarrow> bool" where
  "expired_token st n token \<longleftrightarrow>
     (let g = sk_gateway st n in
      token \<noteq> [] \<and> CHR '' '' \<notin> set token \<and>
      (\<forall>t. ge_verify g t (variable_or ''JWT_SECRET'' [] g) (variable_or ''JWT_ISSUER'' ''jira-like-iam'' g)
             (variable_or ''JWT_AUDIENCE'' ''jira-like-api'' g) token = TokenExpired))"

lemma with_token_simps [simp]:
  "sk_gateway (with_token st token) = sk_gateway st" "sk_gateway_world (with_token st token) = sk_gateway_world st"
  "sk_service (with_token st token) = sk_service st" "sk_world (with_token st token) = sk_world st"
  "sk_token (with_token st token) n = token"
  by (simp_all add: with_token_def)

lemma expired_refused:
  assumes "expired_token st n token"
    and route: "gateway_route_of (browser_request (with_token st token) n rq) = Some rt" and op: "issue_target rt = Some (target, i)"
  shows "\<exists>body. stack_http (with_token st token) n rq = Rejects (AxiosError (Some (401, body)))"
    and "stack_world (with_token st token) n rq = sk_world st n"
proof -
  let ?st = "with_token st token"
  let ?rq = "browser_request ?st n rq" and ?g = "gateway_with_service ?st n" and ?w = "sk_gateway_world st n"
  have bearer: "extractBearerToken (Str (''Bearer '' @ token)) = Some token"
    using assms(1) by (auto simp: extractBearerToken_def expired_token_def Let_def split_on_append split_on_none)
  have headers: "gr_headers ?rq = [(''authorization'', Str (''Bearer '' @ token))]"
    by (simp add: browser_request_def Let_def)
  obtain cid v where cid: "getCorrelationId (gr_headers ?rq) ?g (?w\<lparr>gw_set_cookie := []\<rparr>) = (Inr cid, v)" "gw_calls v = gw_calls ?w"
    by (simp add: getCorrelationId_def headers js_get_def gateway_uuid_def andThen_def)
  let ?x = "AppException 401 ''TOKEN_EXPIRED'' ''Access token has expired'' []"
  let ?v = "v\<lparr>gw_tick := gw_tick v + 1\<rparr>"
  have guard: "canActivate (gr_headers ?rq) ?g v = (Inl ?x, ?v)"
    using assms(1) bearer by (simp add: canActivate_def headers js_get_def verify_token_def andThen_def expired_token_def Let_def)
  have "gateway_dispatch rt ?rq cid ?g v = (Inl ?x, ?v)"
    using op by (cases rt) (simp_all add: guarded_def andThen_def guard)
  then have run: "gateway_handle ?rq ?g ?w =
      (Inr \<lparr>gs_status = 401, gs_body = snd (ApiExceptionFilter ?x cid), gs_correlation = cid, gs_cookies = gw_set_cookie ?v\<rparr>, ?v)"
    using route cid(1)
    by (simp add: gateway_handle_def fresh_reply_def reply_cookies_def andThen_def handler_outcome_def catching_def
        ApiExceptionFilter_def toApiError_def Let_def)
  then show "\<exists>body. stack_http ?st n rq = Rejects (AxiosError (Some (401, body)))"
    by (simp add: stack_http_def)
  show "stack_world ?st n rq = sk_world st n"
    using run cid(2) by (simp add: stack_world_def Let_def)
qed

section \<open>The refresh\<close>

text \<open>
  The identity service grants the refresh of the token in the cookies, and the limiter lets it
  pass.
\<close>

definition refresh_call :: "stack \<Rightarrow> nat \<Rightarrow> string \<Rightarrow> string \<Rightarrow> gateway_call" where
  "refresh_call st n t cid =
     client_call iam_client POST ''/auth/refresh'' (Obj [(''refreshToken'', Str t)])
       \<lparr>cc_userId = None, cc_correlationId = cid\<rparr> (gateway_with_service st n)"

definition grants_refresh :: "stack \<Rightarrow> nat \<Rightarrow> string \<Rightarrow> js_object \<Rightarrow> bool" where
  "grants_refresh st n t ps \<longleftrightarrow>
     (\<forall>k cid. ge_fetch (gateway_with_service st n) k (refresh_call st n t cid) = FetchAnswers 200 (Some (Obj ps))) \<and>
     (\<exists>r. js_get ps ''refreshToken'' = Str r \<and> r \<noteq> []) \<and>
     (\<forall>w. gw_redis w = gw_redis (sk_gateway_world st n) \<longrightarrow>
        (\<exists>res w'. hit (''rate:auth:refresh:ip:'' @ clientIp (sk_ip st)) 10 60 (gateway_with_service st n) w = (Inr res, w') \<and>
            \<not> rl_limited res))"

lemma refresh_granted:
  assumes "grants_refresh st n t ps" and "refreshTokenFromRequest [(''cookie'', Str cookies)] = Some t" "t \<noteq> []"
  shows "refresh_event st n cookies = RefreshAnswered (json_copy (Obj (filter (\<lambda>(k, v). k \<noteq> ''refreshToken'') ps)))"
proof -
  let ?rq = "refresh_request cookies (sk_ip st)" and ?g = "gateway_with_service st n" and ?w = "sk_gateway_world st n"
  obtain cid v where cid: "getCorrelationId (gr_headers ?rq) ?g (?w\<lparr>gw_set_cookie := []\<rparr>) = (Inr cid, v)" "gw_redis v = gw_redis ?w"
    by (simp add: getCorrelationId_def refresh_request_def js_get_def gateway_uuid_def andThen_def)
  obtain res u where hit: "hit (''rate:auth:refresh:ip:'' @ clientIp (sk_ip st)) 10 60 ?g v = (Inr res, u)" "\<not> rl_limited res"
    using assms(1) cid(2) unfolding grants_refresh_def by blast
  have fetched: "ge_fetch ?g k (refresh_call st n t cid) = FetchAnswers 200 (Some (Obj ps))" for k
    using assms(1) by (simp add: grants_refresh_def)
  have iam: "iam_refresh (Obj [(''refreshToken'', Str t)]) cid ?g u =
      (Inr (Obj ps), u\<lparr>gw_tick := gw_tick u + 1, gw_calls := gw_calls u @ [refresh_call st n t cid]\<rparr>)"
    using fetched by (simp add: iam_refresh_def forwardToIam_def forward_run refresh_call_def client_result_def object_or_empty_def Let_def)
  have "auth_refresh (Obj [(''refreshToken'', Str t)]) cid (clientIp (sk_ip st)) ?g v =
      (Inr (Obj ps), u\<lparr>gw_tick := gw_tick u + 1, gw_calls := gw_calls u @ [refresh_call st n t cid]\<rparr>)"
    using hit iam by (simp add: auth_refresh_def andThen_def refuse_limited_def)
  moreover obtain r where "js_get ps ''refreshToken'' = Str r" "r \<noteq> []" using assms(1) by (auto simp: grants_refresh_def)
  ultimately have ctl: "\<exists>u'. controller_refresh (gr_headers ?rq) (gr_ip ?rq) cid ?g v =
      (Inr (Obj (filter (\<lambda>(k, v). k \<noteq> ''refreshToken'') ps)), u')"
    using assms(2,3)
    by (simp add: controller_refresh_def refresh_request_def catching_def andThen_def withRefreshCookie_def setRefreshCookie_def
        set_cookie_def)
  have "segments_of_url ''/api/auth/refresh'' = [''api'', ''auth'', ''refresh'']"
    by (simp add: segments_of_url_def path_of_url_def)
  then have "gateway_route_of ?rq = Some (GwAuth Refresh)"
    by (simp add: gateway_route_of_def refresh_request_def gateway_tables)
  then have "\<exists>answer w'. gateway_handle ?rq ?g ?w = (Inr answer, w') \<and> gs_status answer = 200 \<and>
      gs_body answer = Obj (filter (\<lambda>(k, v). k \<noteq> ''refreshToken'') ps)"
    using cid(1) ctl
    by (auto simp: gateway_handle_def fresh_reply_def reply_cookies_def andThen_def handler_outcome_def catching_def)
  then show ?thesis by (auto simp: refresh_event_def)
qed

section \<open>The session code\<close>

lemma copied_get: "js_get ps k \<noteq> Undefined \<Longrightarrow> js_get (copied ps) k = json_copy (js_get ps k)"
  by (induction ps) (auto simp: copied_def split: if_splits)

lemma get_filter_other: "k \<noteq> k' \<Longrightarrow> js_get (filter (\<lambda>(n, _). n \<noteq> k') ps) k = js_get ps k"
  by (induction ps) auto

definition renewed :: "js_object \<Rightarrow> jsval" where
  "renewed ps = json_copy (Obj (filter (\<lambda>(k, v). k \<noteq> ''refreshToken'') ps))"

lemma renewed_token:
  assumes "js_get ps ''accessToken'' = Str new"
  shows "maybe_property (renewed ps) ''accessToken'' = Str new" "property (renewed ps) ''accessToken'' = Some (Str new)"
proof -
  let ?qs = "filter (\<lambda>(k, v). k \<noteq> ''refreshToken'') ps"
  have "js_get ?qs ''accessToken'' = Str new" using assms get_filter_other [of "''accessToken''" "''refreshToken''" ps] by simp
  then have "js_get (copied ?qs) ''accessToken'' = Str new" using copied_get [of ?qs "''accessToken''"] by simp
  moreover have "renewed ps = Obj (copied ?qs)" by (simp add: renewed_def copied_def)
  ultimately show "maybe_property (renewed ps) ''accessToken'' = Str new" "property (renewed ps) ''accessToken'' = Some (Str new)"
    by (simp_all add: maybe_property_def property_def)
qed

text \<open>A page with a token and no refresh under way, and its session after the renewal.\<close>

definition holds_token :: "interceptors \<Rightarrow> string \<Rightarrow> bool" where
  "holds_token s token \<longleftrightarrow>
     \<not> it_refreshing s \<and> a_isAuthenticated (it_auth s) \<and> a_accessToken (it_auth s) = Str token \<and> token \<noteq> []"

definition in_flight :: "string \<Rightarrow> bool \<Rightarrow> nat \<Rightarrow> request" where
  "in_flight token retry sent =
     \<lparr>rq_authorization = Some (''Bearer '' @ token), rq_retry = retry, rq_phase = OnTheWire, rq_sends = sent\<rparr>"

lemma sent_in_flight [simp]: "sent_token (in_flight token retry sent) = token"
  by (simp add: sent_token_def in_flight_def)

lemma page_starts:
  assumes "holds_token s token"
  shows "start_request pg s = s\<lparr>it_requests := it_requests s @ [in_flight token False 1]\<rparr>"
  using assms
  by (simp add: start_request_def send_request_def request_interceptor_def new_request_def bearer_def holds_token_def
      in_flight_def Let_def)

lemma page_waits:
  assumes "holds_token s token"
  shows "\<exists>s2. react pg (Refused (length (it_requests s)) (AxiosError (Some (401, body))) True)
      (s\<lparr>it_requests := it_requests s @ [in_flight token False 1]\<rparr>) = Some s2 \<and>
    it_requests s2 = it_requests s @ [(in_flight token True 1)\<lparr>rq_phase := AwaitsRefresh (AxiosError (Some (401, body)))\<rparr>] \<and>
    it_auth s2 = it_auth s \<and> it_unanswered s2 = it_unanswered s + 1 \<and> it_toasts s2 = it_toasts s"
  using assms
  by (simp add: on_the_wire_def in_flight_def response_error_def response_status_def refreshSession_def put_request_def
      holds_token_def)

lemma page_replays:
  assumes "it_requests s2 = rs @ [(in_flight token True 1)\<lparr>rq_phase := AwaitsRefresh error\<rparr>]" "0 < it_unanswered s2"
    and "js_get ps ''accessToken'' = Str new" "new \<noteq> []" and "pg_quota pg"
  shows "\<exists>s3. react pg (RefreshAnswered (renewed ps)) s2 = Some s3 \<and>
    it_requests s3 ! length rs = in_flight new True 2 \<and> length (it_requests s3) = length rs + 1 \<and>
    a_isAuthenticated (it_auth s3) \<and> a_accessToken (it_auth s3) = Str new \<and> it_toasts s3 = it_toasts s2"
  using assms renewed_token [OF assms(3)]
  by (simp add: refresh_answered_def setSession_def Let_def nth_append replay_request_def send_request_def
      request_interceptor_def bearer_def in_flight_def)

definition phase_of :: "web_reply \<Rightarrow> phase" where
  "phase_of reply = (case reply of Resolves data \<Rightarrow> Succeeded data | Rejects error \<Rightarrow> Failed error)"

lemma page_settles:
  assumes "it_requests s3 ! i = in_flight new True 2" "i < length (it_requests s3)"
  shows "\<exists>t. react pg (case reply of Resolves data \<Rightarrow> Answered i data | Rejects error \<Rightarrow> Refused i error True) s3 = Some t \<and>
    it_requests t ! i = (in_flight new True 2)\<lparr>rq_phase := phase_of reply\<rparr> \<and> it_auth t = it_auth s3 \<and> it_toasts t = it_toasts s3"
  using assms
  by (cases reply) (simp_all add: on_the_wire_def in_flight_def put_request_def response_error_def phase_of_def)

lemma renewal_run:
  assumes "holds_token s old" and "expired_token st n old"
    and "gateway_route_of (browser_request (with_token st old) n rq) = Some rt" "issue_target rt = Some (target, i)"
    and "refreshTokenFromRequest [(''cookie'', Str cookies)] = Some t" "t \<noteq> []" "grants_refresh st (n + 1) t ps"
    and "js_get ps ''accessToken'' = Str new" "new \<noteq> []" and "pg_quota pg"
  shows "\<exists>s'. renewal pg st n cookies rq s = Some s' \<and>
    it_requests s' ! length (it_requests s) =
      (in_flight new True 2)\<lparr>rq_phase := phase_of (stack_http (with_token st new) (n + 2) rq)\<rparr> \<and>
    a_isAuthenticated (it_auth s') \<and> a_accessToken (it_auth s') = Str new \<and> it_toasts s' = it_toasts s"
proof -
  let ?i = "length (it_requests s)" and ?s1 = "s\<lparr>it_requests := it_requests s @ [in_flight old False 1]\<rparr>"
  obtain body where refused: "stack_http (with_token st old) n rq = Rejects (AxiosError (Some (401, body)))"
    using expired_refused(1) [OF assms(2-4)] by blast
  have one: "answer_event st n rq ?i ?s1 = Refused ?i (AxiosError (Some (401, body))) True"
    by (simp add: answer_event_def refused)
  obtain s2 where two: "react pg (Refused ?i (AxiosError (Some (401, body))) True) ?s1 = Some s2"
      "it_requests s2 = it_requests s @ [(in_flight old True 1)\<lparr>rq_phase := AwaitsRefresh (AxiosError (Some (401, body)))\<rparr>]"
      "it_unanswered s2 = it_unanswered s + 1" "it_toasts s2 = it_toasts s"
    using page_waits [OF assms(1)] by blast
  have event: "refresh_event st (n + 1) cookies = RefreshAnswered (renewed ps)"
    using refresh_granted [OF assms(7,5,6)] by (simp add: renewed_def)
  obtain s3 where three: "react pg (RefreshAnswered (renewed ps)) s2 = Some s3" "it_requests s3 ! ?i = in_flight new True 2"
      "length (it_requests s3) = ?i + 1" "a_isAuthenticated (it_auth s3)" "a_accessToken (it_auth s3) = Str new"
      "it_toasts s3 = it_toasts s"
    using page_replays [OF two(2) _ assms(8-10)] two(3,4) by auto
  have "?i < length (it_requests s3)" using three(3) by simp
  from page_settles [OF three(2) this, of pg "stack_http (with_token st new) (n + 2) rq"] obtain s4 where
    four: "react pg (answer_event st (n + 2) rq ?i s3) s3 = Some s4"
      "it_requests s4 ! ?i = (in_flight new True 2)\<lparr>rq_phase := phase_of (stack_http (with_token st new) (n + 2) rq)\<rparr>"
      "it_auth s4 = it_auth s3" "it_toasts s4 = it_toasts s3"
    by (auto simp: answer_event_def three(2))
  have "renewal pg st n cookies rq s = Some s4"
    using one two(1) event three(1) four(1) by (simp add: renewal_def page_starts [OF assms(1)] Let_def)
  then show ?thesis using four three by simp
qed

section \<open>Property\<close>

lemma route_any_token: "gateway_route_of (browser_request (with_token st token) n rq) = gateway_route_of (browser_request st m rq)"
  by (simp add: gateway_route_of_def browser_request_def with_token_def Let_def)

lemma secret_any_token:
  "shares_secret (with_token st token) n = shares_secret st n" "shared_secret (with_token st token) n = shared_secret st n"
  by (simp_all add: shares_secret_def shared_secret_def)

text \<open>
  C8: An expired session is renewed unnoticed. A page whose access token has expired asks for an
  operation of the issue service: the refused attempt does not touch the service, the refresh
  cookie gets a new token from the identity service, and the request goes out exactly once
  more. It is then served with the operation and the user of the new token, and settles with
  the service's answer: its body, or an error that reports it. The page stays signed in with
  the new token and shows no message about the session.
\<close>

theorem expired_session_is_renewed:
  assumes "holds_token s old" "expired_token st n old"
    and "gateway_route_of (browser_request st n rq) = Some rt" "issue_target rt = Some (target, i)" "addressable i"
    and "refreshTokenFromRequest [(''cookie'', Str cookies)] = Some t" "t \<noteq> []" "grants_refresh st (n + 1) t ps"
    and "js_get ps ''accessToken'' = Str new" "signed_in (with_token st new) (n + 2)" "shares_secret st (n + 2)" "pg_quota pg"
  shows "\<exists>s' u request resp.
    renewal pg st n cookies rq s = Some s' \<and>
    stack_world (with_token st old) n rq = sk_world st n \<and>
    accepted_token (gr_headers (browser_request (with_token st new) (n + 2) rq)) u (sk_gateway st (n + 2)) \<and>
    rq_route request = target \<and> header (rq_headers request) ''x-authenticated-user-id'' = Some u \<and>
    serve (shared_secret st (n + 2)) request (sk_service st (n + 2)) (sk_world st (n + 2)) =
      (Inr resp, stack_world (with_token st new) (n + 2) rq) \<and>
    (let r = it_requests s' ! length (it_requests s) in
      rq_sends r = 2 \<and>
      (if 200 \<le> rs_status resp \<and> rs_status resp < 300 then rq_phase r = Succeeded (json_copy (rs_body resp))
       else \<exists>error. rq_phase r = Failed error \<and> reports error resp)) \<and>
    a_isAuthenticated (it_auth s') \<and> a_accessToken (it_auth s') = Str new \<and> it_toasts s' = it_toasts s"
proof -
  let ?st = "with_token st new"
  have "new \<noteq> []" using assms(10) by (simp add: signed_in_def Let_def)
  have route: "gateway_route_of (browser_request (with_token st token) m rq) = Some rt" for token m
    using route_any_token assms(3) by metis
  obtain s' where run: "renewal pg st n cookies rq s = Some s'"
      "it_requests s' ! length (it_requests s) = (in_flight new True 2)\<lparr>rq_phase := phase_of (stack_http ?st (n + 2) rq)\<rparr>"
      "a_isAuthenticated (it_auth s')" "a_accessToken (it_auth s') = Str new" "it_toasts s' = it_toasts s"
    using renewal_run [OF assms(1,2) route assms(4,6,7,8,9) \<open>new \<noteq> []\<close> assms(12)] by blast
  have secret: "shares_secret ?st (n + 2)" using assms(11) by (simp add: secret_any_token)
  obtain u request resp w' where round: "accepted_token (gr_headers (browser_request ?st (n + 2) rq)) u (sk_gateway st (n + 2))"
      "rq_route request = target" "header (rq_headers request) ''x-authenticated-user-id'' = Some u"
      "serve (shared_secret st (n + 2)) request (sk_service st (n + 2)) (sk_world st (n + 2)) = (Inr resp, w')"
      "stack_world ?st (n + 2) rq = w'"
      "200 \<le> rs_status resp \<and> rs_status resp < 300 \<Longrightarrow> stack_http ?st (n + 2) rq = Resolves (json_copy (rs_body resp))"
      "\<not> (200 \<le> rs_status resp \<and> rs_status resp < 300) \<Longrightarrow> \<exists>error. stack_http ?st (n + 2) rq = Rejects error \<and> reports error resp"
    by (rule operation_round [OF assms(10) secret route assms(4,5)]) (simp add: secret_any_token that)
  have "stack_world (with_token st old) n rq = sk_world st n" by (rule expired_refused(2) [OF assms(2) route assms(4)])
  moreover have "if 200 \<le> rs_status resp \<and> rs_status resp < 300
      then phase_of (stack_http ?st (n + 2) rq) = Succeeded (json_copy (rs_body resp))
      else \<exists>error. phase_of (stack_http ?st (n + 2) rq) = Failed error \<and> reports error resp"
    using round(6,7) by (auto simp: phase_of_def)
  ultimately show ?thesis
    using run round(1-5) by (intro exI [of _ s'] exI [of _ u] exI [of _ request] exI [of _ resp]) (simp add: in_flight_def Let_def del: add_2_eq_Suc')
qed

section \<open>An instance\<close>

definition granting_gateway :: gateway_env where
  "granting_gateway = listing_gateway\<lparr>
     ge_verify := (\<lambda>k s i a t. if t = ''old'' then TokenExpired else TokenPayload example_payload),
     ge_fetch := (\<lambda>k c. FetchAnswers 200 (Some (Obj [(''accessToken'', Str ''new''), (''refreshToken'', Str ''r'')])))\<rparr>"

definition granting_stack :: stack where
  "granting_stack = listing_stack\<lparr>sk_gateway := (\<lambda>_. granting_gateway)\<rparr>"

definition signed_in_page :: interceptors where
  "signed_in_page = (initial_interceptors None)\<lparr>it_auth := (initial_auth None)
     \<lparr>a_isAuthenticated := True, a_accessToken := Str ''old'', a_isHydrated := True\<rparr>\<rparr>"

lemma granting_bases: "client_base issue_client granting_gateway = ''http://localhost:8083''"
  "client_base iam_client granting_gateway = ''http://localhost:8081''"
  by (simp_all add: client_base_def issue_client_def iam_client_def variable_or_def granting_gateway_def listing_gateway_def
      without_trailing_slashes_def)

theorem expired_session_is_renewed_witness:
  "\<exists>s'. renewal example_page granting_stack 0 ''refresh_token=r'' (list_request example_project []) signed_in_page = Some s' \<and>
     rq_sends (it_requests s' ! 0) = 2 \<and> a_accessToken (it_auth s') = Str ''new'' \<and> it_toasts s' = []"
proof -
  have p: "canonical_uuid example_project" using listing_stack_ok by (simp add: stack_ok_def)
  have cookie: "refreshTokenFromRequest [(''cookie'', Str ''refresh_token=r'')] = Some ''r''" by code_simp
  have gate: "sk_gateway granting_stack n = granting_gateway" "sk_gateway_world granting_stack n = idle_gateway"
    "sk_ip granting_stack = None" for n
    by (simp_all add: granting_stack_def listing_stack_def)
  have page: "holds_token signed_in_page ''old''" by (simp add: holds_token_def signed_in_page_def initial_interceptors_def)
  have old: "expired_token granting_stack 0 ''old''"
    by (simp add: expired_token_def gate granting_gateway_def Let_def)
  have grants: "grants_refresh granting_stack (0 + 1) ''r'' [(''accessToken'', Str ''new''), (''refreshToken'', Str ''r'')]"
  proof -
    have "ge_fetch (gateway_with_service granting_stack n) k (refresh_call granting_stack n t cid) =
        FetchAnswers 200 (Some (Obj [(''accessToken'', Str ''new''), (''refreshToken'', Str ''r'')]))" for k n t cid
    proof -
      have "\<not> starts_with (client_base issue_client (sk_gateway granting_stack n)) (gc_url (refresh_call granting_stack n t cid))"
        by (simp add: refresh_call_def client_call_def gate granting_bases starts_with_def Let_def)
      then show ?thesis by (simp add: wired_fetch gate) (simp add: granting_gateway_def)
    qed
    moreover have "ge_redis (gateway_with_service granting_stack n) = counting_redis" for n
      by (simp add: gateway_with_service_def gate granting_gateway_def listing_gateway_def Let_def)
    then have "\<exists>res w'. hit key 10 60 (gateway_with_service granting_stack n) w = (Inr res, w') \<and> \<not> rl_limited res"
      if "gw_redis w = []" for key n w
      using that by (simp add: limiter_simps andThen_def catching_def counting_redis_def counted_def)
    ultimately show ?thesis by (simp add: grants_refresh_def gate)
  qed
  have accepts: "signed_in (with_token granting_stack ''new'') n" for n
    by (simp add: signed_in_def gate granting_gateway_def example_payload_def toGatewayUser_def object_or_empty_def js_get_def Let_def)
  have secret: "shares_secret granting_stack n" for n
    using listing_stack_ok
    by (simp add: stack_ok_def shares_secret_def granting_stack_def listing_stack_def granting_gateway_def variable_or_def)
  have quota: "pg_quota example_page" by (simp add: example_page_def)
  have target: "issue_target (GwIssues (ListIssues example_project)) = Some (Issues (ListIssues example_project), example_project)"
    by simp
  have new: "js_get [(''accessToken'', Str ''new''), (''refreshToken'', Str ''r'')] ''accessToken'' = Str ''new''" by simp
  have "length (it_requests signed_in_page) = 0" "it_toasts signed_in_page = []"
    by (simp_all add: signed_in_page_def initial_interceptors_def)
  with expired_session_is_renewed [OF page old list_route(1) [OF p] target canonical_uuid_addressable [OF p] cookie _ grants new accepts secret quota]
  show ?thesis by (simp add: Let_def) blast
qed

end
