(* ===== verification/Web_Kit.thy ===== *)
theory Web_Kit
  imports Web_Elements
begin

text \<open>
  The basic controls of the web client (\<open>components/ui\<close>: buttons, badges, inputs, cards, avatars,
  the toaster): functions from properties to elements of a component library. The library, the
  composition of class names (\<open>clsx\<close>, \<open>twMerge\<close>, \<open>cva\<close>) and \<open>mergeProps\<close> are third-party code, hence
  parameters.
\<close>

section \<open>Properties\<close>

text \<open>
  The properties of an element: values, event handlers, and the children. An element given as a
  value (\<open>render\<close>, an icon) is a child named after its property.
\<close>

record 'h props =
  p_attributes :: js_object
  p_handlers :: "(string \<times> 'h) list"
  p_children :: "'h view"

type_synonym variants = "(string \<times> (string \<times> string) list) list"

record styles =
  st_clsx :: "jsval list \<Rightarrow> string"
  st_twMerge :: "string \<Rightarrow> string"
  st_cva :: "string \<Rightarrow> variants \<Rightarrow> (string \<times> string) list \<Rightarrow> js_object \<Rightarrow> string"
  st_mergeProps :: "js_object \<Rightarrow> js_object \<Rightarrow> js_object"
  st_useRender :: "js_object \<Rightarrow> jsval \<Rightarrow> js_object \<Rightarrow> js_object"

text \<open>\<open>cn\<close> of \<open>lib/utils.ts\<close>.\<close>

definition cn :: "styles \<Rightarrow> jsval list \<Rightarrow> string" where
  "cn sty inputs = st_twMerge sty (st_clsx sty inputs)"

definition given_prop :: "'h props \<Rightarrow> string \<Rightarrow> jsval" where
  "given_prop props k = js_get (p_attributes props) k"

text \<open>A destructured property with a default; the properties that remain.\<close>

definition prop_or :: "'h props \<Rightarrow> string \<Rightarrow> jsval \<Rightarrow> jsval" where
  "prop_or props k otherwise = (let v = given_prop props k in if v = Undefined then otherwise else v)"

definition without :: "string list \<Rightarrow> 'h props \<Rightarrow> 'h props" where
  "without ks props = props\<lparr>p_attributes := filter (\<lambda>(k, v). k \<notin> set ks) (p_attributes props)\<rparr>"

text \<open>\<open><tag own {...props} />\<close>: what is spread comes last, so it replaces the element's own properties.\<close>

definition spread_props :: "js_object \<Rightarrow> js_object \<Rightarrow> js_object" where
  "spread_props own given_ps =
     map (\<lambda>(k, v). (k, if has_own given_ps k then js_get given_ps k else v)) own @
     filter (\<lambda>(k, v). \<not> has_own own k) given_ps"

definition jsx :: "string \<Rightarrow> js_object \<Rightarrow> 'h props \<Rightarrow> 'h ui" where
  "jsx tag own props = Element tag (spread_props own (p_attributes props)) (p_handlers props) (p_children props)"

text \<open>A component that only names its slot, and one that also joins its classes with the given ones.\<close>

definition plain :: "string \<Rightarrow> string \<Rightarrow> 'h props \<Rightarrow> 'h ui" where
  "plain tag slot props = jsx tag [(''data-slot'', Str slot)] props"

definition class_name :: "styles \<Rightarrow> string \<Rightarrow> 'h props \<Rightarrow> string \<times> jsval" where
  "class_name sty classes props = (''className'', Str (cn sty [Str classes, given_prop props ''className'']))"

definition wrapper :: "styles \<Rightarrow> string \<Rightarrow> string \<Rightarrow> string \<Rightarrow> 'h props \<Rightarrow> 'h ui" where
  "wrapper sty tag slot classes props =
     jsx tag [(''data-slot'', Str slot), class_name sty classes props] (without [''className''] props)"

section \<open>Button, badge and input\<close>

definition buttonVariants :: "styles \<Rightarrow> js_object \<Rightarrow> string" where
  "buttonVariants sty = st_cva sty
     ''group/button inline-flex shrink-0 items-center justify-center rounded-md border border-transparent bg-clip-padding text-sm font-medium whitespace-nowrap transition-colors outline-none select-none focus-visible:border-ring focus-visible:ring-3 focus-visible:ring-ring/50 active:not-aria-[haspopup]:translate-y-px disabled:pointer-events-none disabled:opacity-50 aria-invalid:border-destructive aria-invalid:ring-3 aria-invalid:ring-destructive/20 dark:aria-invalid:border-destructive/50 dark:aria-invalid:ring-destructive/40 [&_svg]:pointer-events-none [&_svg]:shrink-0 [&_svg:not([class*='size-'])]:size-4''
     [(''variant'', [(''default'', ''bg-primary text-primary-foreground hover:bg-[#0055cc]''),
         (''outline'', ''border-border bg-background hover:bg-muted hover:text-foreground aria-expanded:bg-muted aria-expanded:text-foreground dark:border-input dark:bg-input/30 dark:hover:bg-input/50''),
         (''secondary'', ''bg-secondary text-secondary-foreground hover:bg-[color-mix(in_oklch,var(--secondary),var(--foreground)_5%)] aria-expanded:bg-secondary aria-expanded:text-secondary-foreground''),
         (''ghost'', ''hover:bg-muted hover:text-foreground aria-expanded:bg-muted aria-expanded:text-foreground dark:hover:bg-muted/50''),
         (''destructive'', ''bg-destructive/10 text-destructive hover:bg-destructive/20 focus-visible:border-destructive/40 focus-visible:ring-destructive/20 dark:bg-destructive/20 dark:hover:bg-destructive/30 dark:focus-visible:ring-destructive/40''),
         (''link'', ''text-primary underline-offset-4 hover:underline'')]),
      (''size'', [(''default'', ''h-8 gap-1.5 px-2.5 has-data-[icon=inline-end]:pr-2 has-data-[icon=inline-start]:pl-2''),
         (''xs'', ''h-6 gap-1 rounded-[min(var(--radius-md),10px)] px-2 text-xs in-data-[slot=button-group]:rounded-lg has-data-[icon=inline-end]:pr-1.5 has-data-[icon=inline-start]:pl-1.5 [&_svg:not([class*='size-'])]:size-3''),
         (''sm'', ''h-7 gap-1 rounded-[min(var(--radius-md),12px)] px-2.5 text-[0.8rem] in-data-[slot=button-group]:rounded-lg has-data-[icon=inline-end]:pr-1.5 has-data-[icon=inline-start]:pl-1.5 [&_svg:not([class*='size-'])]:size-3.5''),
         (''lg'', ''h-9 gap-1.5 px-2.5 has-data-[icon=inline-end]:pr-2 has-data-[icon=inline-start]:pl-2''),
         (''icon'', ''size-8''),
         (''icon-xs'', ''size-6 rounded-[min(var(--radius-md),10px)] in-data-[slot=button-group]:rounded-lg [&_svg:not([class*='size-'])]:size-3''),
         (''icon-sm'', ''size-7 rounded-[min(var(--radius-md),12px)] in-data-[slot=button-group]:rounded-lg''),
         (''icon-lg'', ''size-9'')])]
     [(''variant'', ''default''), (''size'', ''default'')]"

definition Button :: "styles \<Rightarrow> 'h props \<Rightarrow> 'h ui" where
  "Button sty props =
     jsx ''ButtonPrimitive''
       [(''data-slot'', Str ''button''),
        (''className'', Str (cn sty [Str (buttonVariants sty
           [(''variant'', prop_or props ''variant'' (Str ''default'')), (''size'', prop_or props ''size'' (Str ''default'')),
            (''className'', given_prop props ''className'')])]))]
       (without [''className'', ''variant'', ''size''] props)"

definition badgeVariants :: "styles \<Rightarrow> js_object \<Rightarrow> string" where
  "badgeVariants sty = st_cva sty
     ''group/badge inline-flex h-5 w-fit shrink-0 items-center justify-center gap-1 overflow-hidden rounded-sm border border-transparent px-1.5 py-0.5 text-[10px] font-semibold whitespace-nowrap transition-all focus-visible:border-ring focus-visible:ring-[3px] focus-visible:ring-ring/50 has-data-[icon=inline-end]:pr-1.5 has-data-[icon=inline-start]:pl-1.5 aria-invalid:border-destructive aria-invalid:ring-destructive/20 dark:aria-invalid:ring-destructive/40 [&>svg]:pointer-events-none [&>svg]:size-3!''
     [(''variant'', [(''default'', ''bg-primary text-primary-foreground [a]:hover:bg-primary/80''),
         (''secondary'', ''bg-secondary text-secondary-foreground [a]:hover:bg-secondary/80''),
         (''destructive'', ''bg-destructive/10 text-destructive focus-visible:ring-destructive/20 dark:bg-destructive/20 dark:focus-visible:ring-destructive/40 [a]:hover:bg-destructive/20''),
         (''outline'', ''border-border text-foreground [a]:hover:bg-muted [a]:hover:text-muted-foreground''),
         (''ghost'', ''hover:bg-muted hover:text-muted-foreground dark:hover:bg-muted/50''),
         (''link'', ''text-primary underline-offset-4 hover:underline'')])]
     [(''variant'', ''default'')]"

text \<open>\<open>useRender\<close> makes the attributes of the element from the properties, \<open>render\<close> and the state.\<close>

definition Badge :: "styles \<Rightarrow> 'h props \<Rightarrow> 'h ui" where
  "Badge sty props =
     (let variant = prop_or props ''variant'' (Str ''default'');
          rest = without [''className'', ''variant'', ''render''] props
      in Element ''span''
           (st_useRender sty
              (st_mergeProps sty
                 [(''className'', Str (cn sty [Str (badgeVariants sty [(''variant'', variant)]), given_prop props ''className'']))]
                 (p_attributes rest))
              (given_prop props ''render'') [(''slot'', Str ''badge''), (''variant'', variant)])
           (p_handlers rest) (p_children rest))"

definition Input :: "styles \<Rightarrow> 'h props \<Rightarrow> 'h ui" where
  "Input sty props =
     jsx ''InputPrimitive''
       [(''type'', given_prop props ''type''), (''data-slot'', Str ''input''),
        class_name sty
          ''h-8 w-full min-w-0 rounded-md border border-input bg-background px-2.5 py-1 text-base transition-colors outline-none file:inline-flex file:h-6 file:border-0 file:bg-transparent file:text-sm file:font-medium file:text-foreground placeholder:text-muted-foreground focus-visible:border-ring focus-visible:ring-2 focus-visible:ring-ring/25 disabled:pointer-events-none disabled:cursor-not-allowed disabled:bg-input/50 disabled:opacity-50 aria-invalid:border-destructive aria-invalid:ring-3 aria-invalid:ring-destructive/20 md:text-sm dark:bg-input/30 dark:disabled:bg-input/80 dark:aria-invalid:border-destructive/50 dark:aria-invalid:ring-destructive/40'' props]
       (without [''className'', ''type''] props)"

section \<open>Cards\<close>

definition sized :: "styles \<Rightarrow> string \<Rightarrow> string \<Rightarrow> string \<Rightarrow> 'h props \<Rightarrow> 'h ui" where
  "sized sty tag slot classes props =
     jsx tag
       [(''data-slot'', Str slot), (''data-size'', prop_or props ''size'' (Str ''default'')), class_name sty classes props]
       (without [''className'', ''size''] props)"

definition Card :: "styles \<Rightarrow> 'h props \<Rightarrow> 'h ui" where
  "Card sty = sized sty ''div'' ''card''
    ''group/card flex flex-col gap-(--card-spacing) overflow-hidden rounded-md border border-border bg-card py-(--card-spacing) text-sm text-card-foreground shadow-[0_1px_2px_rgb(9_30_66/0.08)] [--card-spacing:--spacing(4)] has-data-[slot=card-footer]:pb-0 has-[>img:first-child]:pt-0 data-[size=sm]:[--card-spacing:--spacing(3)] data-[size=sm]:has-data-[slot=card-footer]:pb-0''"

definition CardHeader :: "styles \<Rightarrow> 'h props \<Rightarrow> 'h ui" where
  "CardHeader sty = wrapper sty ''div'' ''card-header''
    ''group/card-header @container/card-header grid auto-rows-min items-start gap-1 px-(--card-spacing) has-data-[slot=card-action]:grid-cols-[1fr_auto] has-data-[slot=card-description]:grid-rows-[auto_auto] [.border-b]:pb-(--card-spacing)''"

definition CardTitle :: "styles \<Rightarrow> 'h props \<Rightarrow> 'h ui" where
  "CardTitle sty = wrapper sty ''div'' ''card-title''
    ''font-heading text-base leading-snug font-semibold group-data-[size=sm]/card:text-sm''"

definition CardDescription :: "styles \<Rightarrow> 'h props \<Rightarrow> 'h ui" where
  "CardDescription sty = wrapper sty ''div'' ''card-description''
    ''text-sm text-muted-foreground''"

definition CardAction :: "styles \<Rightarrow> 'h props \<Rightarrow> 'h ui" where
  "CardAction sty = wrapper sty ''div'' ''card-action''
    ''col-start-2 row-span-2 row-start-1 self-start justify-self-end''"

definition CardContent :: "styles \<Rightarrow> 'h props \<Rightarrow> 'h ui" where
  "CardContent sty = wrapper sty ''div'' ''card-content''
    ''px-(--card-spacing)''"

definition CardFooter :: "styles \<Rightarrow> 'h props \<Rightarrow> 'h ui" where
  "CardFooter sty = wrapper sty ''div'' ''card-footer''
    ''flex items-center border-t bg-muted/50 p-(--card-spacing)''"

section \<open>Avatars\<close>

definition Avatar :: "styles \<Rightarrow> 'h props \<Rightarrow> 'h ui" where
  "Avatar sty = sized sty ''AvatarPrimitive.Root'' ''avatar''
    ''group/avatar relative flex size-8 shrink-0 rounded-full select-none after:absolute after:inset-0 after:rounded-full after:border after:border-border after:mix-blend-darken data-[size=lg]:size-10 data-[size=sm]:size-6 dark:after:mix-blend-lighten''"

definition AvatarImage :: "styles \<Rightarrow> 'h props \<Rightarrow> 'h ui" where
  "AvatarImage sty = wrapper sty ''AvatarPrimitive.Image'' ''avatar-image''
    ''aspect-square size-full rounded-full object-cover''"

definition AvatarFallback :: "styles \<Rightarrow> 'h props \<Rightarrow> 'h ui" where
  "AvatarFallback sty = wrapper sty ''AvatarPrimitive.Fallback'' ''avatar-fallback''
    ''flex size-full items-center justify-center rounded-full bg-muted text-sm text-muted-foreground group-data-[size=sm]/avatar:text-xs''"

definition AvatarBadge :: "styles \<Rightarrow> 'h props \<Rightarrow> 'h ui" where
  "AvatarBadge sty props =
     jsx ''span''
       [(''data-slot'', Str ''avatar-badge''),
        (''className'', Str (cn sty
           [Str ''absolute right-0 bottom-0 z-10 inline-flex items-center justify-center rounded-full bg-primary text-primary-foreground bg-blend-color ring-2 ring-background select-none'',
            Str ''group-data-[size=sm]/avatar:size-2 group-data-[size=sm]/avatar:[&>svg]:hidden'',
            Str ''group-data-[size=default]/avatar:size-2.5 group-data-[size=default]/avatar:[&>svg]:size-2'',
            Str ''group-data-[size=lg]/avatar:size-3 group-data-[size=lg]/avatar:[&>svg]:size-2'',
            given_prop props ''className'']))]
       (without [''className''] props)"

definition AvatarGroup :: "styles \<Rightarrow> 'h props \<Rightarrow> 'h ui" where
  "AvatarGroup sty = wrapper sty ''div'' ''avatar-group''
    ''group/avatar-group flex -space-x-2 *:data-[slot=avatar]:ring-2 *:data-[slot=avatar]:ring-background''"

definition AvatarGroupCount :: "styles \<Rightarrow> 'h props \<Rightarrow> 'h ui" where
  "AvatarGroupCount sty = wrapper sty ''div'' ''avatar-group-count''
    ''relative flex size-8 shrink-0 items-center justify-center rounded-full bg-muted text-sm text-muted-foreground ring-2 ring-background group-has-data-[size=lg]/avatar-group:size-10 group-has-data-[size=sm]/avatar-group:size-6 [&>svg]:size-4 group-has-data-[size=lg]/avatar-group:[&>svg]:size-5 group-has-data-[size=sm]/avatar-group:[&>svg]:size-3''"

section \<open>The toaster\<close>

text \<open>The theme as \<open>useTheme\<close> gives it; the icons are children named after their kind.\<close>

definition toast_icon :: "string \<Rightarrow> string \<Rightarrow> string \<Rightarrow> 'h ui" where
  "toast_icon kind icon classes = elem (''icons.'' @ kind) [] [elem icon [(''className'', Str classes)] []]"

definition Toaster :: "jsval \<Rightarrow> 'h props \<Rightarrow> 'h ui" where
  "Toaster theme props =
     jsx ''Sonner''
       [(''theme'', if theme = Undefined then Str ''system'' else theme), (''className'', Str ''toaster group''),
        (''style'', Obj [(''--normal-bg'', Str ''var(--popover)''), (''--normal-text'', Str ''var(--popover-foreground)''),
           (''--normal-border'', Str ''var(--border)''), (''--border-radius'', Str ''var(--radius)'')]),
        (''toastOptions'', Obj [(''classNames'', Obj [(''toast'', Str ''cn-toast'')])])]
       (props\<lparr>p_children := p_children props @
          [toast_icon ''success'' ''CircleCheckIcon'' ''size-4'', toast_icon ''info'' ''InfoIcon'' ''size-4'',
           toast_icon ''warning'' ''TriangleAlertIcon'' ''size-4'', toast_icon ''error'' ''OctagonXIcon'' ''size-4'',
           toast_icon ''loading'' ''Loader2Icon'' ''size-4 animate-spin'']\<rparr>)"

end
