(* ===== verification/Web_Overlays.thy ===== *)
theory Web_Overlays
  imports Web_Kit
begin

text \<open>
  The overlays of the web client's component kit (\<open>components/ui\<close>): dialogs and dropdown menus.
  A control that the component library works by itself (the close button, the indicator of a
  checked item) has no handler of the program.
\<close>

section \<open>Dialogs\<close>

definition no_props :: "js_object \<Rightarrow> 'h view \<Rightarrow> 'h props" where
  "no_props attributes children = \<lparr>p_attributes = attributes, p_handlers = [], p_children = children\<rparr>"

definition with_children :: "'h view \<Rightarrow> 'h props \<Rightarrow> 'h props" where
  "with_children children props = props\<lparr>p_children := children\<rparr>"

text \<open>\<open>render={<Button ... />}\<close>.\<close>

definition render_button :: "styles \<Rightarrow> js_object \<Rightarrow> 'h ui" where
  "render_button sty attributes = elem ''render'' [] [Button sty (no_props attributes [])]"

text \<open>A flag that is shown when it is truthy, \<open>flag && element\<close>.\<close>

definition shown_if :: "jsval \<Rightarrow> 'h view \<Rightarrow> 'h view" where
  "shown_if flag v = shown (js_truthy flag) v"

definition Dialog :: "'h props \<Rightarrow> 'h ui" where
  "Dialog = plain ''DialogPrimitive.Root'' ''dialog''"

definition DialogTrigger :: "'h props \<Rightarrow> 'h ui" where
  "DialogTrigger = plain ''DialogPrimitive.Trigger'' ''dialog-trigger''"

definition DialogPortal :: "'h props \<Rightarrow> 'h ui" where
  "DialogPortal = plain ''DialogPrimitive.Portal'' ''dialog-portal''"

definition DialogClose :: "'h props \<Rightarrow> 'h ui" where
  "DialogClose = plain ''DialogPrimitive.Close'' ''dialog-close''"

definition DialogOverlay :: "styles \<Rightarrow> 'h props \<Rightarrow> 'h ui" where
  "DialogOverlay sty = wrapper sty ''DialogPrimitive.Backdrop'' ''dialog-overlay''
    ''fixed inset-0 isolate z-50 bg-black/10 duration-100 supports-backdrop-filter:backdrop-blur-xs data-open:animate-in data-open:fade-in-0 data-closed:animate-out data-closed:fade-out-0''"

definition DialogContent :: "styles \<Rightarrow> 'h props \<Rightarrow> 'h ui" where
  "DialogContent sty props =
     DialogPortal (no_props []
       [DialogOverlay sty (no_props [] []),
        jsx ''DialogPrimitive.Popup''
          [(''data-slot'', Str ''dialog-content''),
           class_name sty
             ''fixed top-1/2 left-1/2 z-50 grid w-full max-w-[calc(100%-2rem)] -translate-x-1/2 -translate-y-1/2 gap-4 rounded-xl bg-popover p-4 text-sm text-popover-foreground ring-1 ring-foreground/10 duration-100 outline-none sm:max-w-sm data-open:animate-in data-open:fade-in-0 data-open:zoom-in-95 data-closed:animate-out data-closed:fade-out-0 data-closed:zoom-out-95'' props]
          (with_children
             (p_children props @
              shown_if (prop_or props ''showCloseButton'' (Bool True))
                [elem ''DialogPrimitive.Close'' [(''data-slot'', Str ''dialog-close'')]
                   [render_button sty [(''variant'', Str ''ghost''), (''className'', Str ''absolute top-2 right-2''),
                      (''size'', Str ''icon-sm'')],
                    elem ''XIcon'' [] [], elem ''span'' [(''className'', Str ''sr-only'')] [Words ''Close'']]])
             (without [''className'', ''showCloseButton''] props))])"

definition DialogHeader :: "styles \<Rightarrow> 'h props \<Rightarrow> 'h ui" where
  "DialogHeader sty = wrapper sty ''div'' ''dialog-header''
    ''flex flex-col gap-2''"

definition DialogFooter :: "styles \<Rightarrow> 'h props \<Rightarrow> 'h ui" where
  "DialogFooter sty props =
     jsx ''div''
       [(''data-slot'', Str ''dialog-footer''),
        class_name sty
          ''-mx-4 -mb-4 flex flex-col-reverse gap-2 rounded-b-xl border-t bg-muted/50 p-4 sm:flex-row sm:justify-end'' props]
       (with_children
          (p_children props @
           shown_if (prop_or props ''showCloseButton'' (Bool False))
             [elem ''DialogPrimitive.Close'' [] [render_button sty [(''variant'', Str ''outline'')], Words ''Close'']])
          (without [''className'', ''showCloseButton''] props))"

definition DialogTitle :: "styles \<Rightarrow> 'h props \<Rightarrow> 'h ui" where
  "DialogTitle sty = wrapper sty ''DialogPrimitive.Title'' ''dialog-title''
    ''font-heading text-base leading-none font-medium''"

definition DialogDescription :: "styles \<Rightarrow> 'h props \<Rightarrow> 'h ui" where
  "DialogDescription sty = wrapper sty ''DialogPrimitive.Description'' ''dialog-description''
    ''text-sm text-muted-foreground *:[a]:underline *:[a]:underline-offset-3 *:[a]:hover:text-foreground''"

section \<open>Dropdown menus\<close>

definition DropdownMenu :: "'h props \<Rightarrow> 'h ui" where
  "DropdownMenu = plain ''MenuPrimitive.Root'' ''dropdown-menu''"

definition DropdownMenuPortal :: "'h props \<Rightarrow> 'h ui" where
  "DropdownMenuPortal = plain ''MenuPrimitive.Portal'' ''dropdown-menu-portal''"

definition DropdownMenuTrigger :: "'h props \<Rightarrow> 'h ui" where
  "DropdownMenuTrigger = plain ''MenuPrimitive.Trigger'' ''dropdown-menu-trigger''"

text \<open>The properties that place the popup, with the defaults of the component.\<close>

definition placement :: "'h props \<Rightarrow> jsval \<Rightarrow> jsval \<Rightarrow> jsval \<Rightarrow> jsval \<Rightarrow> js_object" where
  "placement props align alignOffset side sideOffset =
     [(''align'', prop_or props ''align'' align), (''alignOffset'', prop_or props ''alignOffset'' alignOffset),
      (''side'', prop_or props ''side'' side), (''sideOffset'', prop_or props ''sideOffset'' sideOffset)]"

definition placing :: "string list" where
  "placing = [''align'', ''alignOffset'', ''side'', ''sideOffset'', ''className'']"

definition DropdownMenuContent :: "styles \<Rightarrow> 'h props \<Rightarrow> 'h ui" where
  "DropdownMenuContent sty props =
     elem ''MenuPrimitive.Portal'' []
       [elem ''MenuPrimitive.Positioner''
          ((''className'', Str ''isolate z-50 outline-none'') #
           placement props (Str ''start'') (Num (Fin 0)) (Str ''bottom'') (Num (Fin 4)))
          [jsx ''MenuPrimitive.Popup''
             [(''data-slot'', Str ''dropdown-menu-content''),
              class_name sty
                ''z-50 max-h-(--available-height) w-(--anchor-width) min-w-32 origin-(--transform-origin) overflow-x-hidden overflow-y-auto rounded-lg bg-popover p-1 text-popover-foreground shadow-md ring-1 ring-foreground/10 duration-100 outline-none data-[side=bottom]:slide-in-from-top-2 data-[side=inline-end]:slide-in-from-left-2 data-[side=inline-start]:slide-in-from-right-2 data-[side=left]:slide-in-from-right-2 data-[side=right]:slide-in-from-left-2 data-[side=top]:slide-in-from-bottom-2 data-open:animate-in data-open:fade-in-0 data-open:zoom-in-95 data-closed:animate-out data-closed:overflow-hidden data-closed:fade-out-0 data-closed:zoom-out-95'' props]
             (without placing props)]]"

definition DropdownMenuGroup :: "'h props \<Rightarrow> 'h ui" where
  "DropdownMenuGroup = plain ''MenuPrimitive.Group'' ''dropdown-menu-group''"

definition DropdownMenuLabel :: "styles \<Rightarrow> 'h props \<Rightarrow> 'h ui" where
  "DropdownMenuLabel sty props =
     jsx ''MenuPrimitive.GroupLabel''
       [(''data-slot'', Str ''dropdown-menu-label''), (''data-inset'', given_prop props ''inset''),
        class_name sty
          ''px-1.5 py-1 text-xs font-medium text-muted-foreground data-inset:pl-7'' props]
       (without [''className'', ''inset''] props)"

definition DropdownMenuItem :: "styles \<Rightarrow> 'h props \<Rightarrow> 'h ui" where
  "DropdownMenuItem sty props =
     jsx ''MenuPrimitive.Item''
       [(''data-slot'', Str ''dropdown-menu-item''), (''data-inset'', given_prop props ''inset''),
        (''data-variant'', prop_or props ''variant'' (Str ''default'')),
        class_name sty
          ''group/dropdown-menu-item relative flex cursor-default items-center gap-1.5 rounded-md px-1.5 py-1 text-sm outline-hidden select-none focus:bg-accent focus:text-accent-foreground not-data-[variant=destructive]:focus:**:text-accent-foreground data-inset:pl-7 data-[variant=destructive]:text-destructive data-[variant=destructive]:focus:bg-destructive/10 data-[variant=destructive]:focus:text-destructive dark:data-[variant=destructive]:focus:bg-destructive/20 data-disabled:pointer-events-none data-disabled:opacity-50 [&_svg]:pointer-events-none [&_svg]:shrink-0 [&_svg:not([class*='size-'])]:size-4 data-[variant=destructive]:*:[svg]:text-destructive'' props]
       (without [''className'', ''inset'', ''variant''] props)"

definition DropdownMenuSub :: "'h props \<Rightarrow> 'h ui" where
  "DropdownMenuSub = plain ''MenuPrimitive.SubmenuRoot'' ''dropdown-menu-sub''"

definition DropdownMenuSubTrigger :: "styles \<Rightarrow> 'h props \<Rightarrow> 'h ui" where
  "DropdownMenuSubTrigger sty props =
     jsx ''MenuPrimitive.SubmenuTrigger''
       [(''data-slot'', Str ''dropdown-menu-sub-trigger''), (''data-inset'', given_prop props ''inset''),
        class_name sty
          ''flex cursor-default items-center gap-1.5 rounded-md px-1.5 py-1 text-sm outline-hidden select-none focus:bg-accent focus:text-accent-foreground not-data-[variant=destructive]:focus:**:text-accent-foreground data-inset:pl-7 data-popup-open:bg-accent data-popup-open:text-accent-foreground data-open:bg-accent data-open:text-accent-foreground [&_svg]:pointer-events-none [&_svg]:shrink-0 [&_svg:not([class*='size-'])]:size-4'' props]
       (with_children (p_children props @ [elem ''ChevronRightIcon'' [(''className'', Str ''ml-auto'')] []])
          (without [''className'', ''inset''] props))"

definition DropdownMenuSubContent :: "styles \<Rightarrow> 'h props \<Rightarrow> 'h ui" where
  "DropdownMenuSubContent sty props =
     DropdownMenuContent sty
       ((without placing props)\<lparr>p_attributes := spread_props
          ([(''data-slot'', Str ''dropdown-menu-sub-content''),
            class_name sty
              ''w-auto min-w-[96px] rounded-lg bg-popover p-1 text-popover-foreground shadow-lg ring-1 ring-foreground/10 duration-100 data-[side=bottom]:slide-in-from-top-2 data-[side=left]:slide-in-from-right-2 data-[side=right]:slide-in-from-left-2 data-[side=top]:slide-in-from-bottom-2 data-open:animate-in data-open:fade-in-0 data-open:zoom-in-95 data-closed:animate-out data-closed:fade-out-0 data-closed:zoom-out-95'' props]
           @ placement props (Str ''start'') (Num (Fin (- 3))) (Str ''right'') (Num (Fin 0)))
          (p_attributes (without placing props))\<rparr>)"

text \<open>The mark of a checked item, before its children.\<close>

definition item_indicator :: "string \<Rightarrow> string \<Rightarrow> 'h ui" where
  "item_indicator slot tag =
     elem ''span''
       [(''className'', Str ''pointer-events-none absolute right-2 flex items-center justify-center''), (''data-slot'', Str slot)]
       [elem tag [] [elem ''CheckIcon'' [] []]]"

definition DropdownMenuCheckboxItem :: "styles \<Rightarrow> 'h props \<Rightarrow> 'h ui" where
  "DropdownMenuCheckboxItem sty props =
     jsx ''MenuPrimitive.CheckboxItem''
       [(''data-slot'', Str ''dropdown-menu-checkbox-item''), (''data-inset'', given_prop props ''inset''),
        class_name sty
          ''relative flex cursor-default items-center gap-1.5 rounded-md py-1 pr-8 pl-1.5 text-sm outline-hidden select-none focus:bg-accent focus:text-accent-foreground focus:**:text-accent-foreground data-inset:pl-7 data-disabled:pointer-events-none data-disabled:opacity-50 [&_svg]:pointer-events-none [&_svg]:shrink-0 [&_svg:not([class*='size-'])]:size-4'' props,
        (''checked'', given_prop props ''checked'')]
       (with_children (item_indicator ''dropdown-menu-checkbox-item-indicator'' ''MenuPrimitive.CheckboxItemIndicator'' # p_children props)
          (without [''className'', ''inset'', ''checked''] props))"

definition DropdownMenuRadioGroup :: "'h props \<Rightarrow> 'h ui" where
  "DropdownMenuRadioGroup = plain ''MenuPrimitive.RadioGroup'' ''dropdown-menu-radio-group''"

definition DropdownMenuRadioItem :: "styles \<Rightarrow> 'h props \<Rightarrow> 'h ui" where
  "DropdownMenuRadioItem sty props =
     jsx ''MenuPrimitive.RadioItem''
       [(''data-slot'', Str ''dropdown-menu-radio-item''), (''data-inset'', given_prop props ''inset''),
        class_name sty
          ''relative flex cursor-default items-center gap-1.5 rounded-md py-1 pr-8 pl-1.5 text-sm outline-hidden select-none focus:bg-accent focus:text-accent-foreground focus:**:text-accent-foreground data-inset:pl-7 data-disabled:pointer-events-none data-disabled:opacity-50 [&_svg]:pointer-events-none [&_svg]:shrink-0 [&_svg:not([class*='size-'])]:size-4'' props]
       (with_children (item_indicator ''dropdown-menu-radio-item-indicator'' ''MenuPrimitive.RadioItemIndicator'' # p_children props)
          (without [''className'', ''inset''] props))"

definition DropdownMenuSeparator :: "styles \<Rightarrow> 'h props \<Rightarrow> 'h ui" where
  "DropdownMenuSeparator sty = wrapper sty ''MenuPrimitive.Separator'' ''dropdown-menu-separator''
    ''-mx-1 my-1 h-px bg-border''"

definition DropdownMenuShortcut :: "styles \<Rightarrow> 'h props \<Rightarrow> 'h ui" where
  "DropdownMenuShortcut sty = wrapper sty ''span'' ''dropdown-menu-shortcut''
    ''ml-auto text-xs tracking-widest text-muted-foreground group-focus/dropdown-menu-item:text-accent-foreground''"

end
