(* ===== verification/Web_Planning.thy ===== *)
theory Web_Planning
  imports Web_Board
begin

text \<open>
  The backlog and the roadmap (\<open>features/issue/components/Backlog\<close> and \<open>.../Roadmap\<close>) and the pages
  of a project that show them and the board. An ellipsis character in a text is written as
  three dots.
\<close>

section \<open>The backlog\<close>

fun issueTypeDotClass :: "issue_type \<Rightarrow> string" where
  "issueTypeDotClass BUG = ''bg-[#e2483d]''"
| "issueTypeDotClass STORY = ''bg-[#22a06b]''"
| "issueTypeDotClass _ = ''bg-[#0c66e4]''"

definition activeSprint :: "web_sprint list \<Rightarrow> web_sprint option" where
  "activeSprint sprints = find (\<lambda>sprint. ws_status sprint = ACTIVE) sprints"

definition startSprint :: "(jsval \<Rightarrow> jsval web) \<Rightarrow> bool \<Rightarrow> form_data \<Rightarrow> unit web" where
  "startSprint mutateAsync isProjectWritable form =
     (if \<not> isProjectWritable then returning ()
      else catching
        (andThen (mutateAsync (Obj
           [(''name'', Str (form_text form ''name'' [])), (''goal'', form_optional form ''goal''),
            (''startDate'', form_optional form ''startDate''), (''endDate'', form_optional form ''endDate'')])) (\<lambda>_.
         andThen reset_current_target (\<lambda>_. toast_success ''Sprint started'')))
        (\<lambda>error. toast_api_error error ''Could not start sprint''))"

definition finishSprint :: "(jsval \<Rightarrow> jsval web) \<Rightarrow> bool \<Rightarrow> web_sprint option \<Rightarrow> unit web" where
  "finishSprint mutateAsync isProjectWritable active =
     (case active of
        None \<Rightarrow> returning ()
      | Some sprint \<Rightarrow>
          if \<not> isProjectWritable then returning ()
          else catching
            (andThen (mutateAsync (Str (ws_id sprint))) (\<lambda>_. toast_success ''Sprint completed''))
            (\<lambda>error. toast_api_error error ''Could not complete sprint''))"

datatype backlog_event = StartSprint | FinishSprint

definition sprint_form :: "bool \<Rightarrow> backlog_event ui" where
  "sprint_form createPending =
     elem ''details'' []
       [elem ''summary'' [] [Words ''Start sprint''],
        Element ''form'' [] [(''onSubmit'', StartSprint)]
          [input ''name'' [(''placeholder'', Str ''Sprint name''), (''required'', Bool True)],
           input ''goal'' [(''placeholder'', Str ''Sprint goal'')],
           input ''startDate'' [(''type'', Str ''date'')], input ''endDate'' [(''type'', Str ''date'')],
           elem ''Button'' [(''disabled'', Bool createPending), (''type'', Str ''submit'')] [Words ''Start sprint'']]]"

definition backlog_row :: "string \<Rightarrow> web_issue \<Rightarrow> backlog_event ui" where
  "backlog_row projectId issue =
     elem ''div'' [(''key'', Str (wi_id issue))]
       [elem ''span'' [(''className'', Str (''size-2 rounded-full '' @ issueTypeDotClass (wi_type issue)))] [],
        elem ''Badge'' [] [Words (wi_key issue)],
        link (''/projects/'' @ projectId @ ''/issues/'' @ wi_id issue) [Words (wi_summary issue)],
        Words (priority_name (wi_priority issue)),
        elem ''span'' [(''aria-label'', Str (assignee_label issue)), (''role'', Str ''img'')] []]"

definition text_or_else :: "string option \<Rightarrow> string \<Rightarrow> string" where
  "text_or_else v otherwise = (case v of None \<Rightarrow> otherwise | Some s \<Rightarrow> s)"

definition sprint_counts :: "web_issue list \<Rightarrow> web_sprint list \<Rightarrow> string" where
  "sprint_counts issues sprints =
     dec_string (length issues) @ '' '' @ (if length issues = 1 then ''issue'' else ''issues'') @ '' '' @ [CHR 0xB7]
     @ '' '' @ dec_string (length (filter (\<lambda>sprint. ws_status sprint = COMPLETED) sprints)) @ '' completed''"

definition Backlog ::
    "web_issue list \<Rightarrow> web_epic list \<Rightarrow> web_sprint list \<Rightarrow> string \<Rightarrow> bool \<Rightarrow> bool \<Rightarrow> bool \<Rightarrow> backlog_event view" where
  "Backlog issues epics sprints projectId isProjectWritable createPending completePending =
     (let active = activeSprint sprints; goal = Option.bind active ws_goal in
      [elem ''CardTitle'' [] [Words (text_or_else (map_option ws_name active) ''Backlog'')],
       Words (text_or_else goal ''Prioritize and refine the work your team will take on next.'')]
      @ shown (isProjectWritable \<and> active \<noteq> None)
          [button ''Complete sprint'' FinishSprint [(''disabled'', Bool completePending)]]
      @ shown (isProjectWritable \<and> active = None) [sprint_form createPending]
      @ (if issues \<noteq> [] then map (backlog_row projectId) issues
         else [Words (if active \<noteq> None then ''No issues have been planned into this sprint.''
                      else ''No issues in this project yet.'')])
      @ shown isProjectWritable [link (''/projects/'' @ projectId @ ''/board'') [Words ''Create issue'']]
      @ [elem ''CardTitle'' [] [Words ''Epic panel'']]
      @ (if epics \<noteq> []
         then map (\<lambda>epic. elem ''p'' [(''key'', Str (we_id epic))] [Words (we_name epic)]) (take 4 epics)
         else [Words ''No epics yet.''])
      @ shown isProjectWritable [link (''/projects/'' @ projectId @ ''/roadmap'') [Words ''+ Create epic'']]
      @ [elem ''CardTitle'' [] [Words ''Sprint details''],
         Words (text_or_else goal ''Start a sprint when the team is ready to commit.''),
         Words (sprint_counts issues sprints)])"

definition backlog_handler ::
    "(jsval \<Rightarrow> jsval web) \<Rightarrow> (jsval \<Rightarrow> jsval web) \<Rightarrow> bool \<Rightarrow> web_sprint list \<Rightarrow> form_data \<Rightarrow> backlog_event \<Rightarrow> unit web" where
  "backlog_handler createAsync completeAsync isProjectWritable sprints form event =
     (case event of
        StartSprint \<Rightarrow> startSprint createAsync isProjectWritable form
      | FinishSprint \<Rightarrow> finishSprint completeAsync isProjectWritable (activeSprint sprints))"

section \<open>The roadmap\<close>

definition roadmap_colors :: "epic_color \<Rightarrow> string" where
  "roadmap_colors color =
     (case color of
        PURPLE \<Rightarrow> ''bg-[#e9e0ff] text-[#5e4db2]''
      | BLUE \<Rightarrow> ''bg-[#d9eaff] text-[#0c66e4]''
      | GREEN \<Rightarrow> ''bg-[#d6f7e7] text-[#216e4e]''
      | YELLOW \<Rightarrow> ''bg-[#fff0b8] text-[#7f5f01]''
      | ORANGE \<Rightarrow> ''bg-[#ffebe6] text-[#ae2e24]'')"

definition months :: "string list" where
  "months = [''Jul'', ''Aug'', ''Sep'', ''Oct'', ''Nov'', ''Dec'']"

text \<open>
  \<open>new Date(text).getUTCMonth()\<close>: a text of the ISO format \<open>YYYY-MM-DDTHH:mm:ssZ\<close> is read as
  such; what any other text gives is the implementation's, the argument \<open>other\<close>. \<open>None\<close> is NaN.
\<close>

definition ISO_SECONDS_RE :: "(char \<Rightarrow> bool) list" where
  "ISO_SECONDS_RE =
     replicate 4 is_digit @ lit CHR ''-'' # replicate 2 is_digit @ lit CHR ''-'' # replicate 2 is_digit
     @ lit CHR ''T'' # replicate 2 is_digit @ lit CHR '':'' # replicate 2 is_digit @ lit CHR '':'' # replicate 2 is_digit
     @ [lit CHR ''Z'']"

definition utc_month :: "(string \<Rightarrow> int option) \<Rightarrow> string \<Rightarrow> int option" where
  "utc_month other s =
     map_option (\<lambda>t. case civil_of_day (t div ms_per_day) of (y, m, d) \<Rightarrow> int m - 1)
       (if match_re ISO_SECONDS_RE s then date_parse s else other s)"

text \<open>
  The lane's first column and its width; \<open>None\<close> is NaN, which \<open>Math.min\<close>, \<open>Math.max\<close> and the
  arithmetic pass on.
\<close>

definition laneFor :: "(string \<Rightarrow> int option) \<Rightarrow> web_epic \<Rightarrow> nat \<Rightarrow> int option \<times> int option" where
  "laneFor other epic index =
     (let month = (\<lambda>date. utc_month other (date @ ''T00:00:00Z''));
          startMonth = (case we_startDate epic of
              None \<Rightarrow> Some (int (index mod 4) + 6)
            | Some s \<Rightarrow> if s = [] then Some (int (index mod 4) + 6) else month s);
          endMonth = (case we_targetDate epic of
              None \<Rightarrow> map_option (\<lambda>m. m + 1) startMonth
            | Some s \<Rightarrow> if s = [] then map_option (\<lambda>m. m + 1) startMonth else month s)
      in case startMonth of
           None \<Rightarrow> (None, None)
         | Some a \<Rightarrow>
             let start = max 1 (min 6 (a - 5)) in
             (Some start,
              map_option (\<lambda>b. let endColumn = max (start + 1) (min 7 (b - 5 + 1)) in max 1 (endColumn - start)) endMonth))"

definition submit_epic :: "(jsval \<Rightarrow> jsval web) \<Rightarrow> bool \<Rightarrow> form_data \<Rightarrow> unit web" where
  "submit_epic mutateAsync isProjectWritable form =
     (if \<not> isProjectWritable then returning ()
      else catching
        (andThen (mutateAsync (Obj
           [(''name'', Str (form_text form ''name'' [])), (''color'', Str (form_text form ''color'' ''BLUE'')),
            (''startDate'', form_optional form ''startDate''), (''targetDate'', form_optional form ''targetDate'')])) (\<lambda>_.
         andThen reset_current_target (\<lambda>_. toast_success ''Epic created'')))
        (\<lambda>error. toast_api_error error ''Could not create epic''))"

datatype roadmap_event = SubmitEpic

definition epic_form :: "bool \<Rightarrow> roadmap_event ui" where
  "epic_form isPending =
     elem ''details'' []
       [elem ''summary'' [] [Words ''Create epic''],
        Element ''form'' [] [(''onSubmit'', SubmitEpic)]
          [input ''name'' [(''placeholder'', Str ''Epic name''), (''required'', Bool True)],
           input ''startDate'' [(''type'', Str ''date'')], input ''targetDate'' [(''type'', Str ''date'')],
           elem ''select'' [(''defaultValue'', Str ''BLUE''), (''name'', Str ''color'')]
             (options [(''BLUE'', ''Blue''), (''PURPLE'', ''Purple''), (''GREEN'', ''Green''), (''YELLOW'', ''Yellow''),
                       (''ORANGE'', ''Orange'')]),
           elem ''Button'' [(''disabled'', Bool isPending), (''type'', Str ''submit'')] [Words ''Save epic'']]]"

definition js_int_text :: "int \<Rightarrow> string" where
  "js_int_text i = (if i < 0 then ''-'' @ dec_string (nat (- i)) else dec_string (nat i))"

text \<open>\<open>String(start) + " / span " + String(span)\<close>.\<close>

definition js_number_text :: "int option \<Rightarrow> string" where
  "js_number_text n = (case n of None \<Rightarrow> ''NaN'' | Some i \<Rightarrow> js_int_text i)"

definition grid_column :: "int option \<times> int option \<Rightarrow> string" where
  "grid_column lane = js_number_text (fst lane) @ '' / span '' @ js_number_text (snd lane)"

definition epic_lane :: "(string \<Rightarrow> int option) \<Rightarrow> nat \<times> web_epic \<Rightarrow> roadmap_event ui" where
  "epic_lane other = (\<lambda>(index, epic).
     elem ''div'' [(''className'', Str (roadmap_colors (we_color epic))),
         (''gridColumn'', Str (grid_column (laneFor other epic index)))] [Words (we_name epic)])"

definition Roadmap :: "(string \<Rightarrow> int option) \<Rightarrow> web_epic list \<Rightarrow> bool \<Rightarrow> bool \<Rightarrow> roadmap_event view" where
  "Roadmap other epics isProjectWritable isPending =
     [Words ''Timeline'', elem ''Badge'' [] [Words ''H2'']]
     @ shown isProjectWritable [epic_form isPending]
     @ [Words ''Initiative''] @ map Words months
     @ (if length epics = 0
        then [Words ''Create an epic to start mapping delivery work on the roadmap.'']
        else map (\<lambda>epic. elem ''div'' [(''key'', Str (we_id epic))]
                   [Words (we_name epic), Words (text_or_else (we_targetDate epic) ''No target date'')]) epics
             @ [Words ''Today''] @ map (epic_lane other) (enumerate 0 epics))"

section \<open>The pages of a project\<close>

definition query_success :: "'a query_result \<Rightarrow> bool" where
  "query_success q \<longleftrightarrow> \<not> qr_isPending q \<and> \<not> qr_isError q"

definition project_writable :: "web_project query_result \<Rightarrow> bool" where
  "project_writable q = (case qr_data q of None \<Rightarrow> False | Some p \<Rightarrow> wp_status p = ActiveProject)"

definition list_data :: "'a list query_result \<Rightarrow> 'a list" where
  "list_data q = (case qr_data q of None \<Rightarrow> [] | Some d \<Rightarrow> d)"

text \<open>What \<open>ProjectBacklogPage\<close> asks for: the issues of the active sprint, or all of them.\<close>

definition backlog_query :: "string \<Rightarrow> web_sprint list query_result \<Rightarrow> string option \<times> js_object" where
  "backlog_query projectId sprints =
     (if query_success sprints then Some projectId else None,
      case Option.bind (qr_data sprints) activeSprint of
        None \<Rightarrow> [] | Some sprint \<Rightarrow> [(''sprintId'', Str (ws_id sprint))])"

datatype 'h page_event = Inside 'h | RetryPage

text \<open>
  A page: the error when one of its queries failed, a text while one of them is pending, else
  its component.
\<close>

definition query_page :: "string \<Rightarrow> string \<Rightarrow> (bool \<times> bool \<times> web_error option) list \<Rightarrow> 'h view \<Rightarrow> 'h page_event view" where
  "query_page resource loading queries component =
     (let failed = query_failures (map (\<lambda>(pending, isError, error). (isError, error)) queries) in
      if failed \<noteq> [] then QueryError resource failed RetryPage
      else if \<exists>(pending, isError, error) \<in> set queries. pending then [Words loading]
      else map (map_ui Inside) component)"

definition query_state :: "'a query_result \<Rightarrow> bool \<times> bool \<times> web_error option" where
  "query_state q = (qr_isPending q, qr_isError q, qr_error q)"

text \<open>\<open>components/shared/ProjectNavigation.tsx\<close>: the views of a project, the current one marked.\<close>

definition projectViews :: "(string \<times> string) list" where
  "projectViews = [(''Board'', ''/board''), (''Backlog'', ''/backlog''), (''Roadmap'', ''/roadmap'')]"

definition ProjectNavigation :: "string \<Rightarrow> string \<Rightarrow> 'h view" where
  "ProjectNavigation pathname projectId =
     [elem ''nav'' [(''aria-label'', Str ''Project views'')]
        (map (\<lambda>(label, suffix).
           let href = ''/projects/'' @ projectId @ suffix in
           elem ''Link'' [(''href'', Str href), (''className'', Str (if pathname = href
               then ''border-b-2 px-3 py-2 text-sm border-primary font-semibold text-primary''
               else ''border-b-2 px-3 py-2 text-sm border-transparent text-muted-foreground hover:bg-muted hover:text-foreground''))]
             [Words label]) projectViews)]"

definition page_heading :: "string \<Rightarrow> string \<Rightarrow> string \<Rightarrow> web_project query_result \<Rightarrow> 'h view" where
  "page_heading heading pathname projectId project =
     [elem ''title'' [] [Words ((if heading = ''Sprint board'' then ''Board'' else heading) @ '' '' @ [CHR 0xB7] @ '' ''
        @ text_or_else (map_option wp_name (qr_data project)) ''Project'' @ '' '' @ [CHR 0xB7] @ '' Orbit'')],
      Words (''Projects / '' @ text_or_else (map_option wp_name (qr_data project)) ''...''),
      elem ''h1'' [] [Words heading]]
     @ ProjectNavigation pathname projectId"

definition ProjectBoardPage ::
    "string \<Rightarrow> string \<Rightarrow> web_project query_result \<Rightarrow> (bool \<Rightarrow> 'h view) \<Rightarrow> 'h page_event view" where
  "ProjectBoardPage pathname projectId project boardScreen =
     page_heading ''Sprint board'' pathname projectId project @
     query_page ''project'' ''Loading project...'' [query_state project] (boardScreen (project_writable project))"

definition ProjectBacklogPage ::
    "string \<Rightarrow> string \<Rightarrow> web_epic list query_result \<Rightarrow> web_sprint list query_result \<Rightarrow> web_issue list query_result \<Rightarrow>
     web_project query_result \<Rightarrow> bool \<Rightarrow> bool \<Rightarrow> backlog_event page_event view" where
  "ProjectBacklogPage pathname projectId epics sprints issues project createPending completePending =
     page_heading ''Backlog'' pathname projectId project @
     query_page ''backlog'' ''Loading backlog...''
       [query_state issues, query_state epics, query_state sprints, query_state project]
       (Backlog (list_data issues) (list_data epics) (list_data sprints) projectId (project_writable project)
          createPending completePending)"

definition ProjectRoadmapPage ::
    "(string \<Rightarrow> int option) \<Rightarrow> string \<Rightarrow> string \<Rightarrow> web_epic list query_result \<Rightarrow> web_project query_result \<Rightarrow> bool \<Rightarrow>
     roadmap_event page_event view" where
  "ProjectRoadmapPage other pathname projectId epics project isPending =
     page_heading ''Roadmap'' pathname projectId project @
     query_page ''roadmap'' ''Loading roadmap...'' [query_state epics, query_state project]
       (Roadmap other (list_data epics) (project_writable project) isPending)"

end
