(* ===== verification/Web_Shell.thy ===== *)
theory Web_Shell
  imports Web_Planning
begin

text \<open>
  What surrounds the screens: signing in and registering (\<open>features/auth/components\<close>), the header
  with the notifications, and the navigation (\<open>components/shared\<close>).
\<close>

section \<open>Signing in\<close>

text \<open>
  The form's schema; \<open>valid_email\<close> is the validation library's check. Each failing field has its
  message, and \<open>onSubmit\<close> runs only when there is none.
\<close>

definition loginSchema :: "(string \<Rightarrow> bool) \<Rightarrow> string \<Rightarrow> string \<Rightarrow> (string \<times> string) list" where
  "loginSchema valid_email email password =
     (if valid_email email then [] else [(''email'', ''Enter a valid email address'')])
     @ (if 1 \<le> length password then [] else [(''password'', ''Password is required'')])"

definition submit_login :: "(jsval \<Rightarrow> jsval web) \<Rightarrow> string \<Rightarrow> string \<Rightarrow> unit web" where
  "submit_login login email password =
     catching
       (andThen (login (Obj [(''email'', Str email), (''password'', Str password)])) (\<lambda>_.
        perform_effect (PushRoute ''/projects'')))
       (\<lambda>error.
          if getApiErrorKind error = Unauthorized
          then perform_effect (ShowToast (ErrorToast ''Unable to sign in'' (Some ''Check your credentials and try again.'') None))
          else toast_api_error error ''Unable to sign in'')"

text \<open>The effect of the form: who is signed in already goes to the projects.\<close>

definition login_redirect :: "auth_state \<Rightarrow> unit web" where
  "login_redirect auth =
     (if a_isHydrated auth \<and> a_isAuthenticated auth then perform_effect (ReplaceRoute ''/projects'') else returning ())"

datatype auth_event = SubmitLogin | SubmitRegister

definition field_message :: "(string \<times> string) list \<Rightarrow> string \<Rightarrow> 'h view" where
  "field_message errors field = (case map_of errors field of None \<Rightarrow> [] | Some m \<Rightarrow> [Words m])"

definition LoginForm :: "(string \<times> string) list \<Rightarrow> bool \<Rightarrow> auth_event view" where
  "LoginForm errors isLoggingIn =
     [Words ''Welcome back'', elem ''CardTitle'' [] [Words ''Sign in''],
      elem ''CardDescription'' [] [Words ''Pick up where the important work left off.''],
      Element ''form'' [] [(''onSubmit'', SubmitLogin)]
        ([Words ''Email'',
          input ''email'' [(''id'', Str ''email''), (''type'', Str ''email''), (''autoComplete'', Str ''email''),
            (''aria-invalid'', Bool (map_of errors ''email'' \<noteq> None))]]
         @ field_message errors ''email''
         @ [Words ''Password'',
            input ''password'' [(''id'', Str ''password''), (''type'', Str ''password''), (''autoComplete'', Str ''current-password''),
              (''aria-invalid'', Bool (map_of errors ''password'' \<noteq> None))]]
         @ field_message errors ''password''
         @ [elem ''Button'' [(''disabled'', Bool isLoggingIn), (''type'', Str ''submit'')]
              [Words (if isLoggingIn then ''Signing in...'' else ''Sign in'')],
            Words ''New here? '', link ''/register'' [Words ''Create an account'']])]"

text \<open>The form of a new account; \<open>finally\<close> ends the pending state in either case.\<close>

definition submit_register :: "form_data \<Rightarrow> unit web" where
  "submit_register form =
     andThen (perform_effect (SetState ''pending'' (Bool True))) (\<lambda>_.
     andThen
       (catching
          (andThen (api_register (Obj [(''email'', Str (form_text form ''email'' [])),
             (''password'', Str (form_text form ''password'' []))])) (\<lambda>_.
           andThen (perform_effect (ShowToast (SuccessToast ''Account created'' (Some ''Sign in to continue.'')))) (\<lambda>_.
           perform_effect (PushRoute ''/login''))))
          (\<lambda>error. toast_api_error error ''Could not create account'')) (\<lambda>_.
     perform_effect (SetState ''pending'' (Bool False))))"

definition RegisterForm :: "bool \<Rightarrow> auth_event view" where
  "RegisterForm pending =
     [Words ''Begin a new workspace'', elem ''CardTitle'' [] [Words ''Create account''],
      elem ''CardDescription'' [] [Words ''Bring your projects into one considered place.''],
      Element ''form'' [] [(''onSubmit'', SubmitRegister)]
        [Words ''Email'', input ''email'' [(''id'', Str ''email''), (''type'', Str ''email''), (''required'', Bool True)],
         Words ''Password'', input ''password'' [(''id'', Str ''password''), (''minLength'', Num (Fin 8)),
           (''type'', Str ''password''), (''required'', Bool True)],
         elem ''Button'' [(''disabled'', Bool pending), (''type'', Str ''submit'')]
           [Words (if pending then ''Creating...'' else ''Create account'')],
         Words ''Already registered? '', link ''/login'' [Words ''Sign in'']]]"

section \<open>Notifications\<close>

definition is_unread :: "notification \<Rightarrow> bool" where
  "is_unread item \<longleftrightarrow> \<not> given (n_readAt item)"

definition unread_count :: "notification list query_result \<Rightarrow> nat" where
  "unread_count notifications = length (filter is_unread (list_data notifications))"

datatype bell_event = ToggleBell | MarkAllRead | OpenNotification notification

definition notification_entry :: "notification \<Rightarrow> bell_event ui" where
  "notification_entry item =
     Element ''Link''
       [(''className'', Str (''block rounded-lg p-3 text-sm hover:bg-muted '' @
           (if is_unread item then ''bg-muted/60'' else ''opacity-60''))),
        (''href'', Str (''/projects/'' @ n_projectId item @ ''/issues/'' @ n_issueId item)), (''key'', Str (n_id item))]
       [(''onClick'', OpenNotification item)] [Words (n_title item), Words (n_body item)]"

definition NotificationBell :: "notification list query_result \<Rightarrow> bool \<Rightarrow> bool \<Rightarrow> bell_event view" where
  "NotificationBell notifications opened markAllPending =
     (let unread = unread_count notifications in
      [Element ''Button'' [(''aria-label'', Str ''Notifications'')] [(''onClick'', ToggleBell)]
         (shown (unread > 0) [Words (dec_string (min unread 9))])]
      @ shown opened
          ([Words ''Notifications'', button ''Mark all read'' MarkAllRead [(''disabled'', Bool (unread = 0 \<or> markAllPending))]]
           @ map notification_entry (list_data notifications)
           @ shown (qr_isPending notifications) [Words ''Loading notifications...'']
           @ shown (qr_isError notifications \<and> qr_data notifications = None)
               [elem ''p'' [(''role'', Str ''alert'')] [Words ''Notifications are unavailable right now.'']]
           @ shown (qr_data notifications = Some []) [Words ''No notifications yet.'']))"

definition bell_handler :: "(jsval \<Rightarrow> unit web) \<Rightarrow> (jsval \<Rightarrow> unit web) \<Rightarrow> bool \<Rightarrow> bell_event \<Rightarrow> unit web" where
  "bell_handler markRead markAllRead opened event =
     (case event of
        ToggleBell \<Rightarrow> perform_effect (SetState ''open'' (Bool (\<not> opened)))
      | MarkAllRead \<Rightarrow> markAllRead Undefined
      | OpenNotification item \<Rightarrow>
          andThen (if is_unread item then markRead (Str (n_id item)) else returning ()) (\<lambda>_.
          perform_effect (SetState ''open'' (Bool False))))"

section \<open>Header and navigation\<close>

text \<open>The e-mail address of the signed-in user, when there is one.\<close>

definition initials :: "string option \<Rightarrow> string" where
  "initials email = (case email of None \<Rightarrow> ''UI'' | Some s \<Rightarrow> toUpperCase (take 2 s))"

definition signOut :: "unit web \<Rightarrow> unit web" where
  "signOut logout = andThen logout (\<lambda>_. perform_effect (ReplaceRoute ''/login''))"

datatype header_event = BellEvent bell_event | SignOut

definition AppHeader :: "string option \<Rightarrow> bool \<Rightarrow> bell_event view \<Rightarrow> header_event view" where
  "AppHeader email isLoggingOut bell =
     [Words ''ORBIT''] @ map (\<lambda>label. elem ''button'' [(''type'', Str ''button'')] [Words label])
        [''Your work'', ''Projects'', ''Filters'', ''Dashboards'', ''People'', ''Apps'']
     @ [elem ''Input'' [(''aria-label'', Str ''Search''), (''placeholder'', Str ''Search''), (''type'', Str ''search'')] []]
     @ map (map_ui BellEvent) bell
     @ [elem ''Button'' [(''aria-label'', Str ''Help'')] [],
        elem ''div'' [(''title'', key_part email)] [Words (initials email)],
        Element ''Button'' [(''aria-label'', Str ''Sign out''), (''disabled'', Bool isLoggingOut)] [(''onClick'', SignOut)] []]"

text \<open>The identifier in a path that matches \<open>^\\/projects\\/([^/]+)\<close>.\<close>

definition project_in_path :: "string \<Rightarrow> string option" where
  "project_in_path pathname =
     (let p = ''/projects/''; i = takeWhile (\<lambda>c. c \<noteq> CHR ''/'') (drop (length p) pathname) in
      if take (length p) pathname = p \<and> i \<noteq> [] then Some i else None)"

definition projectPath :: "string \<Rightarrow> string \<Rightarrow> string" where
  "projectPath pathname suffix =
     (case project_in_path pathname of None \<Rightarrow> ''/projects'' | Some i \<Rightarrow> ''/projects/'' @ i @ suffix)"

definition ends_with :: "string \<Rightarrow> string \<Rightarrow> bool" where
  "ends_with s suffix \<longleftrightarrow> length suffix \<le> length s \<and> drop (length s - length suffix) s = suffix"

definition MobileNav :: "string \<Rightarrow> 'h view" where
  "MobileNav pathname =
     [elem ''nav'' [(''aria-label'', Str ''Project navigation'')]
        (map (\<lambda>(label, suffix).
           elem ''Link''
             [(''className'', Str (''flex flex-1 flex-col items-center justify-center gap-1 text-[10px] '' @
                 (if ends_with pathname suffix then ''font-semibold text-primary'' else ''text-muted-foreground''))),
              (''href'', Str (projectPath pathname suffix))] [Words label]) projectViews)]"

definition sidebar_active :: "string \<Rightarrow> string \<Rightarrow> bool" where
  "sidebar_active pathname label \<longleftrightarrow>
     text_includes pathname (toLowerCase label) \<or> label = ''Board'' \<and> pathname = ''/projects''"

definition Sidebar :: "string \<Rightarrow> 'h view" where
  "Sidebar pathname =
     [link ''/projects'' [Words ''Orbit software''], Words ''Orbit Launch'', Words ''Software project'',
      elem ''nav'' []
        (map (\<lambda>label.
           elem ''Link''
             [(''className'', Str (''flex h-8 items-center gap-2 rounded-sm px-2.5 text-xs transition-colors '' @
                 (if sidebar_active pathname label then ''bg-secondary font-semibold text-primary''
                  else ''text-foreground hover:bg-muted''))),
              (''href'', Str (case project_in_path pathname of
                 None \<Rightarrow> ''/projects'' | Some i \<Rightarrow> ''/projects/'' @ i @ ''/'' @ toLowerCase label))] [Words label])
         [''Board'', ''Backlog'', ''Roadmap'']),
      Words ''Project shortcuts'', elem ''button'' [(''type'', Str ''button'')] [Words ''Releases''],
      elem ''button'' [(''type'', Str ''button'')] [Words ''Project settings'']]"

section \<open>The layout of the signed-in pages\<close>

definition DashboardLayout ::
    "auth_state \<Rightarrow> string \<Rightarrow> header_event view \<Rightarrow> 'h view \<Rightarrow> (header_event + 'h) view" where
  "DashboardLayout auth pathname header children =
     RequireAuth auth (Sidebar pathname @ map (map_ui Inl) header @ map (map_ui Inr) children @ MobileNav pathname)"

text \<open>Nothing of a page can be used while nobody is signed in.\<close>

lemma signed_out_shows_nothing:
  "\<not> a_isAuthenticated auth \<Longrightarrow> view_events (DashboardLayout auth pathname header children) = []"
  by (simp add: DashboardLayout_def RequireAuth_hides)

text \<open>The links of the mobile navigation lead to the views of the project one is in.\<close>

lemma project_in_path_of: "i \<noteq> [] \<Longrightarrow> CHR ''/'' \<notin> set i \<Longrightarrow> project_in_path (''/projects/'' @ i @ CHR ''/'' # s) = Some i"
  by (auto simp: project_in_path_def takeWhile_append)

lemma unread_count_shown: "unread_count q = 0 \<longleftrightarrow> (\<forall>item\<in>set (list_data q). \<not> is_unread item)"
  by (simp add: unread_count_def filter_empty_conv)

end
