(* ===== verification/Web_Frame.thy ===== *)
theory Web_Frame
  imports Web_Overlays Web_Shell
begin

text \<open>
  The frame of the web client's pages: the document and its providers (\<open>app/layout.tsx\<close>,
  \<open>app/providers.tsx\<close>), the pages of the two account forms and of the projects, the placeholder of a
  notification list; and what the component kit makes of the elements of the screens.
\<close>

section \<open>The document\<close>

text \<open>The theme is \<open>useTheme\<close>'s; the two fonts give the names of their variables.\<close>

definition Providers :: "jsval \<Rightarrow> 'h view \<Rightarrow> 'h view" where
  "Providers theme children =
     [elem ''QueryClientProvider'' []
        [elem ''ThemeProvider''
           [(''attribute'', Str ''class''), (''defaultTheme'', Str ''light''), (''enableSystem'', Bool False)]
           (children @ [Toaster theme (no_props [(''closeButton'', Bool True), (''richColors'', Bool True)] [])])]]"

definition RootLayout :: "string \<Rightarrow> string \<Rightarrow> jsval \<Rightarrow> 'h view \<Rightarrow> 'h view" where
  "RootLayout geistSans geistMono theme children =
     [elem ''html''
        [(''lang'', Str ''en''), (''suppressHydrationWarning'', Bool True),
         (''className'', Str (geistSans @ '' '' @ geistMono))]
        [elem ''body'' [] (Providers theme children)]]"

section \<open>Pages\<close>

definition AuthShell :: "'h view \<Rightarrow> 'h view" where
  "AuthShell children =
     [elem ''main'' []
        [elem ''section'' []
           [elem ''Link'' [(''className'', Str ''brand-mark''), (''href'', Str ''/projects'')] [Words ''POLYGLOT''],
            Words ''WORKSPACE SYSTEM'',
            elem ''p'' [] [Words ''Intentional work, clearly arranged''],
            elem ''h1'' [] [Words ''Make the work feel considered.''],
            elem ''p'' [] [Words ''A quiet command center for the projects, decisions, and details that move your team forward.''],
            elem ''p'' [] [Words ''Built for focused collaboration'']],
         elem ''section'' [] children]]"

definition LoginPage :: "'h view \<Rightarrow> 'h view" where
  "LoginPage form = AuthShell (elem ''title'' [] [Words (''Login '' @ [CHR 0xB7] @ '' Orbit'')] # form)"

definition RegisterPage :: "'h view \<Rightarrow> 'h view" where
  "RegisterPage form = AuthShell form"

definition ProjectsPage :: "'h view \<Rightarrow> 'h view" where
  "ProjectsPage dashboard =
     [elem ''section'' []
        ([elem ''p'' [] [Words ''Project command center''], elem ''h1'' [] [Words ''Workspaces & projects''],
          elem ''p'' [] [Words ''A considered view of the spaces and projects your team is moving through.'']]
         @ dashboard)]"

definition NotificationList :: "'h view" where
  "NotificationList =
     [elem ''Card'' []
        [elem ''CardHeader'' [] [elem ''CardTitle'' [] [Words ''Notifications'']],
         elem ''CardContent'' [(''className'', Str ''text-sm text-muted-foreground'')]
           [Words ''Realtime notification UI wiring is intentionally not implemented yet.'']]]"

text \<open>The frame has no control of its own.\<close>

lemma frame_events:
  "view_events (RootLayout fs fm theme v) = view_events v" "view_events (AuthShell v) = view_events v"
  "view_events (ProjectsPage v) = view_events v" "view_events (NotificationList :: 'h view) = []"
  by (simp_all add: RootLayout_def Providers_def Toaster_def jsx_def no_props_def toast_icon_def AuthShell_def
      ProjectsPage_def NotificationList_def)

section \<open>The kit\<close>

text \<open>
  The components by the names that the screens use, and a view with its components replaced by
  what they return.
\<close>

definition kit_table :: "styles \<Rightarrow> (string \<times> ('h props \<Rightarrow> 'h ui)) list" where
  "kit_table sty =
     [(''Button'', Button sty), (''Badge'', Badge sty), (''Input'', Input sty), (''Card'', Card sty),
      (''CardHeader'', CardHeader sty), (''CardTitle'', CardTitle sty), (''CardDescription'', CardDescription sty),
      (''CardAction'', CardAction sty), (''CardContent'', CardContent sty), (''CardFooter'', CardFooter sty),
      (''Avatar'', Avatar sty), (''AvatarImage'', AvatarImage sty), (''AvatarFallback'', AvatarFallback sty),
      (''AvatarBadge'', AvatarBadge sty), (''AvatarGroup'', AvatarGroup sty), (''AvatarGroupCount'', AvatarGroupCount sty),
      (''Dialog'', Dialog), (''DialogTrigger'', DialogTrigger), (''DialogPortal'', DialogPortal), (''DialogClose'', DialogClose),
      (''DialogOverlay'', DialogOverlay sty), (''DialogContent'', DialogContent sty), (''DialogHeader'', DialogHeader sty),
      (''DialogFooter'', DialogFooter sty), (''DialogTitle'', DialogTitle sty), (''DialogDescription'', DialogDescription sty),
      (''DropdownMenu'', DropdownMenu), (''DropdownMenuPortal'', DropdownMenuPortal),
      (''DropdownMenuTrigger'', DropdownMenuTrigger), (''DropdownMenuContent'', DropdownMenuContent sty),
      (''DropdownMenuGroup'', DropdownMenuGroup), (''DropdownMenuLabel'', DropdownMenuLabel sty),
      (''DropdownMenuItem'', DropdownMenuItem sty), (''DropdownMenuSub'', DropdownMenuSub),
      (''DropdownMenuSubTrigger'', DropdownMenuSubTrigger sty), (''DropdownMenuSubContent'', DropdownMenuSubContent sty),
      (''DropdownMenuCheckboxItem'', DropdownMenuCheckboxItem sty), (''DropdownMenuRadioGroup'', DropdownMenuRadioGroup),
      (''DropdownMenuRadioItem'', DropdownMenuRadioItem sty), (''DropdownMenuSeparator'', DropdownMenuSeparator sty),
      (''DropdownMenuShortcut'', DropdownMenuShortcut sty)]"

fun kit_render :: "styles \<Rightarrow> 'h ui \<Rightarrow> 'h ui" where
  "kit_render sty (Words s) = Words s"
| "kit_render sty (Element tag attributes handlers children) =
     (let children = map (kit_render sty) children in
      case map_of (kit_table sty) tag of
        None \<Rightarrow> Element tag attributes handlers children
      | Some component \<Rightarrow> component \<lparr>p_attributes = attributes, p_handlers = handlers, p_children = children\<rparr>)"

text \<open>The controls of a view in order: their handlers, and what decides whether and how they act.\<close>

definition control_attributes :: "string list" where
  "control_attributes = [''disabled'', ''type'', ''value'', ''name'', ''required'', ''href'', ''aria-label'']"

fun controls :: "'h ui \<Rightarrow> ((string \<times> 'h) list \<times> jsval list) list" where
  "controls (Words s) = []"
| "controls (Element tag attributes handlers children) =
     (if handlers = [] then [] else [(handlers, map (js_get attributes) control_attributes)]) @ concat (map controls children)"

section \<open>Components keep their controls\<close>

definition own_control :: "'h props \<Rightarrow> ((string \<times> 'h) list \<times> jsval list) list" where
  "own_control props =
     (if p_handlers props = [] then [] else [(p_handlers props, map (given_prop props) control_attributes)])"

definition faithful :: "('h props \<Rightarrow> 'h ui) \<Rightarrow> bool" where
  "faithful component \<longleftrightarrow>
     (\<forall>props. controls (component props) = own_control props @ concat (map controls (p_children props)))"

lemma js_get_spread: "js_get (spread_props own ps) k = (if has_own ps k then js_get ps k else js_get own k)"
proof -
  have own: "map_of (map (\<lambda>(k, v). (k, if has_own ps k then js_get ps k else v)) own) k =
      (if has_own own k then Some (if has_own ps k then js_get ps k else js_get own k) else None)"
    by (induction own) auto
  have rest: "\<not> has_own own k \<Longrightarrow> map_of (filter (\<lambda>(k, v). \<not> has_own own k) ps) k = map_of ps k"
    by (induction ps) auto
  show ?thesis
    by (cases "has_own own k")
      (auto simp: spread_props_def js_get_def map_add_def own rest not_has_own_get, auto simp: has_own_def)
qed

lemma has_own_filter: "has_own (filter (\<lambda>(k, v). k \<notin> K) ps) k \<longleftrightarrow> k \<notin> K \<and> has_own ps k"
  by (induction ps) auto

lemma js_get_filter: "js_get (filter (\<lambda>(k, v). k \<notin> K) ps) k = (if k \<in> K then Undefined else js_get ps k)"
  by (induction ps) (auto split: if_splits)

lemma without_simps [simp]:
  "p_handlers (without ks props) = p_handlers props" "p_children (without ks props) = p_children props"
  "p_handlers (with_children c props) = p_handlers props" "p_children (with_children c props) = c"
  "p_attributes (with_children c props) = p_attributes props"
  by (simp_all add: without_def with_children_def)

lemma spread_without:
  "js_get (spread_props own (p_attributes (without ks props))) k =
     (if k \<in> set ks then js_get own k else if has_own (p_attributes props) k then given_prop props k else js_get own k)"
  by (simp add: js_get_spread without_def has_own_filter js_get_filter given_prop_def)

lemma without_get: "k \<notin> set ks \<Longrightarrow> js_get (p_attributes (without ks props)) k = given_prop props k"
  by (simp add: without_def js_get_filter given_prop_def)

lemma controls_jsx:
  assumes "\<And>k. k \<in> set control_attributes \<Longrightarrow> js_get (spread_props own (p_attributes props')) k = given_prop props k"
    and "p_handlers props' = p_handlers props" and "concat (map controls (p_children props')) = concat (map controls (p_children props))"
  shows "controls (jsx tag own props') = own_control props @ concat (map controls (p_children props))"
  using assms by (simp add: jsx_def own_control_def cong: map_cong)

text \<open>Attributes that do not meet those of a control.\<close>

definition apart :: "string list \<Rightarrow> bool" where
  "apart ks \<longleftrightarrow> set ks \<inter> set control_attributes = {}"

lemma controls_own:
  assumes "apart (map fst own)" "apart ks" and "p_attributes props' = p_attributes (without ks props)"
    and "p_handlers props' = p_handlers props" and "concat (map controls (p_children props')) = concat (map controls (p_children props))"
  shows "controls (jsx tag own props') = own_control props @ concat (map controls (p_children props))"
proof (rule controls_jsx [OF _ assms(4,5)])
  fix k assume k: "k \<in> set control_attributes"
  then have "js_get own k = Undefined" using assms(1) by (intro not_has_own_get) (force simp: has_own_def apart_def dest: map_of_SomeD)
  then show "js_get (spread_props own (p_attributes props')) k = given_prop props k"
    using k assms(2) by (auto simp: assms(3) spread_without apart_def given_prop_def not_has_own_get)
qed

lemma apart_simps:
  "apart []" "apart (k # ks) \<longleftrightarrow>
     k \<noteq> ''disabled'' \<and> k \<noteq> ''type'' \<and> k \<noteq> ''value'' \<and> k \<noteq> ''name'' \<and> k \<noteq> ''required'' \<and> k \<noteq> ''href'' \<and> k \<noteq> ''aria-label'' \<and> apart ks"
  by (auto simp: apart_def control_attributes_def)

lemma faithful_plain: "faithful (plain tag slot)"
  unfolding faithful_def plain_def
proof
  fix props :: "'a props"
  have "p_attributes props = p_attributes (without [] props)" by (simp add: without_def)
  then show "controls (jsx tag [(''data-slot'', Str slot)] props) = own_control props @ concat (map controls (p_children props))"
    by (intro controls_own [of _ "[]"]) (simp_all add: apart_simps)
qed

lemma faithful_wrapper: "faithful (wrapper sty tag slot classes)"
  unfolding faithful_def wrapper_def class_name_def
  by (intro allI controls_own [of _ "[''className'']"]) (simp_all add: apart_simps)

lemma faithful_sized: "faithful (sized sty tag slot classes)"
  unfolding faithful_def sized_def class_name_def
  by (intro allI controls_own [of _ "[''className'', ''size'']"]) (simp_all add: apart_simps)

text \<open>\<open>mergeProps\<close> and \<open>useRender\<close> hand the given properties on.\<close>

definition hands_on :: "styles \<Rightarrow> bool" where
  "hands_on sty \<longleftrightarrow>
     (\<forall>own ps render state. \<forall>k\<in>set control_attributes. \<not> has_own own k \<and> \<not> has_own state k \<longrightarrow>
        js_get (st_useRender sty (st_mergeProps sty own ps) render state) k = js_get ps k)"

lemma faithful_Button: "faithful (Button sty)"
  unfolding faithful_def Button_def
  by (intro allI controls_own [of _ "[''className'', ''variant'', ''size'']"]) (simp_all add: apart_simps)

lemma faithful_Badge: "hands_on sty \<Longrightarrow> faithful (Badge sty)"
proof -
  assume h: "hands_on sty"
  have "map (js_get (st_useRender sty (st_mergeProps sty [(''className'', c)]
       (p_attributes (without [''className'', ''variant'', ''render''] props))) r [(''slot'', Str ''badge''), (''variant'', v)])) control_attributes =
     map (given_prop props) control_attributes" for c r v and props :: "'a props"
  proof (rule map_cong [OF refl])
    fix k assume k: "k \<in> set control_attributes"
    then have "k \<noteq> ''className''" "k \<noteq> ''variant''" "k \<noteq> ''render''" "k \<noteq> ''slot''" by (auto simp: control_attributes_def)
    then show "js_get (st_useRender sty (st_mergeProps sty [(''className'', c)]
         (p_attributes (without [''className'', ''variant'', ''render''] props))) r [(''slot'', Str ''badge''), (''variant'', v)]) k = given_prop props k"
      using h k by (simp add: hands_on_def without_get)
  qed
  then show ?thesis by (simp add: faithful_def Badge_def own_control_def Let_def)
qed

lemma faithful_Input: "faithful (Input sty)"
  unfolding faithful_def Input_def class_name_def
proof (intro allI controls_jsx)
  fix props :: "'a props" and c k
  assume "k \<in> set control_attributes"
  then show "js_get (spread_props [(''type'', given_prop props ''type''), (''data-slot'', Str ''input''), (''className'', c)]
      (p_attributes (without [''className'', ''type''] props))) k = given_prop props k"
    by (auto simp: spread_without control_attributes_def given_prop_def not_has_own_get)
qed simp_all

lemma faithful_AvatarBadge: "faithful (AvatarBadge sty)"
  unfolding faithful_def AvatarBadge_def
  by (intro allI controls_own [of _ "[''className'']"]) (simp_all add: apart_simps)

lemma no_control [simp]:
  "controls (elem tag attributes children) = concat (map controls children)"
  "controls (jsx tag own (no_props attributes children)) = concat (map controls children)"
  "controls (plain tag slot (no_props attributes children)) = concat (map controls children)"
  "controls (wrapper sty tag slot classes (no_props attributes children)) = concat (map controls children)"
  "controls (Button sty (no_props attributes children)) = concat (map controls children)"
  "controls (render_button sty attributes) = []"
  by (simp_all add: elem_def plain_def wrapper_def Button_def render_button_def jsx_def no_props_def without_def)

lemma controls_shown_if: "concat (map controls (shown_if flag v)) = (if js_truthy flag then concat (map controls v) else [])"
  by (simp add: shown_if_def shown_def)

lemma faithful_DialogContent: "faithful (DialogContent sty)"
  unfolding faithful_def DialogContent_def DialogPortal_def DialogOverlay_def class_name_def no_control
proof
  fix props :: "'a props"
  show "concat (map controls [wrapper sty t s c (no_props [] []),
      jsx u [(''data-slot'', Str ''dialog-content''), (''className'', d)]
        (with_children (p_children props @ shown_if f [elem x y [render_button sty z, elem i j [], elem k l [Words m]]])
          (without [''className'', ''showCloseButton''] props))]) =
      own_control props @ concat (map controls (p_children props))" for t s c u d f x y z i j k l m
    using controls_own [of "[(''data-slot'', Str ''dialog-content''), (''className'', d)]" "[''className'', ''showCloseButton'']"
        "with_children (p_children props @ shown_if f [elem x y [render_button sty z, elem i j [], elem k l [Words m]]])
          (without [''className'', ''showCloseButton''] props)" props u]
    by (simp add: apart_simps controls_shown_if)
qed

lemma faithful_DialogFooter: "faithful (DialogFooter sty)"
  unfolding faithful_def DialogFooter_def class_name_def
  by (intro allI controls_own [of _ "[''className'', ''showCloseButton'']"]) (simp_all add: apart_simps controls_shown_if)

lemma faithful_marked:
  assumes "apart (map fst own)" "apart ks"
  shows "faithful (\<lambda>props. jsx tag own (without ks props))"
  using assms unfolding faithful_def by (intro allI controls_own [of _ ks]) simp_all

text \<open>Menus: the items with their marks, and the popups inside their portals.\<close>

lemma controls_indicator [simp]: "controls (item_indicator slot tag) = []"
  by (simp add: item_indicator_def)

lemma faithful_items:
  "faithful (DropdownMenuLabel sty)" "faithful (DropdownMenuItem sty)" "faithful (DropdownMenuSubTrigger sty)"
  "faithful (DropdownMenuCheckboxItem sty)" "faithful (DropdownMenuRadioItem sty)"
  unfolding faithful_def DropdownMenuLabel_def DropdownMenuItem_def DropdownMenuSubTrigger_def
    DropdownMenuCheckboxItem_def DropdownMenuRadioItem_def class_name_def
  by (intro allI controls_own [of _ "[''className'', ''inset'']"], simp_all add: apart_simps)
    (intro allI controls_own [of _ "[''className'', ''inset'', ''variant'']"], simp_all add: apart_simps,
     intro allI controls_own [of _ "[''className'', ''inset'']"], simp_all add: apart_simps,
     intro allI controls_own [of _ "[''className'', ''inset'', ''checked'']"], simp_all add: apart_simps,
     intro allI controls_own [of _ "[''className'', ''inset'']"], simp_all add: apart_simps)

lemma faithful_DropdownMenuContent: "faithful (DropdownMenuContent sty)"
  unfolding faithful_def DropdownMenuContent_def class_name_def
proof
  fix props :: "'a props"
  show "controls (elem t a [elem u b [jsx v [(''data-slot'', s), (''className'', d)] (without placing props)]]) =
      own_control props @ concat (map controls (p_children props))" for t a u b v s d
    using controls_own [of "[(''data-slot'', s), (''className'', d)]" placing "without placing props" props v]
    by (simp add: apart_simps placing_def)
qed

lemma faithful_DropdownMenuSubContent: "faithful (DropdownMenuSubContent sty)"
  unfolding faithful_def
proof
  fix props :: "'a props"
  let ?given = "\<lambda>own. (without placing props)\<lparr>p_attributes := spread_props own (p_attributes (without placing props))\<rparr>"
  have "own_control (?given own) = own_control props" if "apart (map fst own)" for own
  proof -
    have "js_get (spread_props own (p_attributes (without placing props))) k = given_prop props k"
      if k: "k \<in> set control_attributes" for k
    proof -
      have "\<not> has_own own k" using \<open>apart (map fst own)\<close> k by (force simp: has_own_def apart_def dest: map_of_SomeD)
      moreover have "apart placing" by (simp add: placing_def apart_simps)
      ultimately show ?thesis using k by (auto simp: spread_without apart_def given_prop_def not_has_own_get)
    qed
    then show ?thesis by (simp add: own_control_def given_prop_def cong: map_cong)
  qed
  then have "controls (DropdownMenuContent sty (?given own)) = own_control props @ concat (map controls (p_children props))"
    if "apart (map fst own)" for own
    using that faithful_DropdownMenuContent [unfolded faithful_def, THEN spec, of sty "?given own"] by simp
  then show "controls (DropdownMenuSubContent sty props) = own_control props @ concat (map controls (p_children props))"
    unfolding DropdownMenuSubContent_def placement_def class_name_def by (simp add: apart_simps)
qed

section \<open>Property\<close>

lemmas faithful_simple = CardHeader_def CardTitle_def CardDescription_def CardAction_def CardContent_def CardFooter_def
  AvatarImage_def AvatarFallback_def AvatarGroup_def AvatarGroupCount_def Card_def Avatar_def
  Dialog_def DialogTrigger_def DialogPortal_def DialogClose_def DialogOverlay_def DialogHeader_def DialogTitle_def
  DialogDescription_def DropdownMenu_def DropdownMenuPortal_def DropdownMenuTrigger_def DropdownMenuGroup_def
  DropdownMenuSub_def DropdownMenuRadioGroup_def DropdownMenuSeparator_def DropdownMenuShortcut_def

lemma kit_faithful: "hands_on sty \<Longrightarrow> \<forall>(tag, component)\<in>set (kit_table sty). faithful component"
  unfolding kit_table_def list.set faithful_simple
  by (simp add: faithful_Button faithful_Badge faithful_Input faithful_AvatarBadge faithful_DialogContent faithful_DialogFooter
      faithful_items faithful_DropdownMenuContent faithful_DropdownMenuSubContent faithful_plain faithful_wrapper faithful_sized)

lemma kit_controls: "hands_on sty \<Longrightarrow> controls (kit_render sty (x :: 'h ui)) = controls x"
proof (induction x)
  case (Element tag attributes handlers children)
  let ?children = "map (kit_render sty) children"
  have kids: "concat (map controls ?children) = concat (map controls children)"
    using Element by (intro arg_cong [of _ _ concat]) (simp add: o_def)
  show ?case
  proof (cases "map_of (kit_table sty) tag :: ('h props \<Rightarrow> 'h ui) option")
    case None
    then show ?thesis using kids by (simp add: Let_def)
  next
    case (Some component)
    then have "faithful component" using kit_faithful [OF Element(2)] by (auto dest: map_of_SomeD)
    then show ?thesis using Some kids by (simp add: faithful_def own_control_def given_prop_def Let_def)
  qed
qed simp

text \<open>
  C21: The component kit and the frame change no control: in the document that a screen becomes,
  with every component of the kit replaced by what it returns, the elements with handlers are
  those of the screen, in order, with the same handlers and the same \<open>disabled\<close>, \<open>type\<close>, \<open>value\<close>,
  \<open>name\<close>, \<open>required\<close>, \<open>href\<close> and \<open>aria-label\<close>. So what is proved of a screen's controls holds
  of the page.
\<close>

theorem page_keeps_controls:
  assumes "hands_on sty"
  shows "concat (map controls (map (kit_render sty) (RootLayout fs fm theme v))) = concat (map controls v)"
proof -
  have "map controls (map (kit_render sty) (RootLayout fs fm theme v)) = map controls (RootLayout fs fm theme v)"
    by (simp add: kit_controls [OF assms] o_def)
  moreover have "controls (Toaster theme (no_props a []) :: 'a ui) = []" for a
    by (simp add: Toaster_def jsx_def no_props_def toast_icon_def)
  ultimately show ?thesis by (simp add: RootLayout_def Providers_def)
qed

definition plain_styles :: styles where
  "plain_styles = \<lparr>st_clsx = (\<lambda>vs. join '' '' (strings_of vs)), st_twMerge = (\<lambda>s. s), st_cva = (\<lambda>base vs defaults props. base),
     st_mergeProps = (\<lambda>own ps. spread_props own ps), st_useRender = (\<lambda>ps render state. state @ ps)\<rparr>"

theorem page_keeps_controls_witness:
  "concat (map controls (map (kit_render plain_styles) (RootLayout ''sans'' ''mono'' Undefined
     [elem ''Card'' [] [Element ''Button'' [(''variant'', Str ''ghost''), (''disabled'', Bool True)] [(''onClick'', (1::nat))] [Words ''Save'']]]))) =
   [([(''onClick'', 1)], [Bool True, Undefined, Undefined, Undefined, Undefined, Undefined, Undefined])]"
proof -
  have "js_get (state @ spread_props own ps) k = js_get ps k" if "\<not> has_own own k" "\<not> has_own state k" for state own ps k
  proof -
    have "map_of state k = None" using that(2) by (simp add: has_own_def)
    then have "js_get (state @ spread_props own ps) k = js_get (spread_props own ps) k" by (simp add: js_get_def map_add_def)
    then show ?thesis using that(1) by (simp add: js_get_spread not_has_own_get)
  qed
  then have ok: "hands_on plain_styles" by (simp add: hands_on_def plain_styles_def)
  show ?thesis unfolding page_keeps_controls [OF ok] by (simp add: elem_def control_attributes_def)
qed

end
