(* ===== verification/Web_Issue_Detail.thy ===== *)
theory Web_Issue_Detail
  imports Web_Planning
begin

text \<open>
  The page of an issue (\<open>features/issue/components/IssueDetailModal\<close>): its fields, comments,
  assignment and history, with the three forms that change it under optimistic concurrency.
\<close>

section \<open>Mutations\<close>

definition issue_project :: "web_issue option \<Rightarrow> string option" where
  "issue_project issue = map_option wi_projectId issue"

definition refreshProjectIfArchived :: "web_issue option \<Rightarrow> web_error \<Rightarrow> unit web" where
  "refreshProjectIfArchived issue error =
     (if given (issue_project issue) \<and> getApiErrorCode error = Some ''PROJECT_ARCHIVED''
      then perform_effect (Invalidate [Str ''project'', key_part (issue_project issue)]) else returning ())"

definition refreshIssue :: "web_issue option \<Rightarrow> string \<Rightarrow> unit web" where
  "refreshIssue issue issueId =
     andThen (perform_effect (Invalidate [Str ''issue'', Str issueId])) (\<lambda>_.
     if given (issue_project issue)
     then perform_effect (Invalidate [Str ''issues'', Str ''list'', key_part (issue_project issue)]) else returning ())"

text \<open>\<open>issue?.version ?? 0\<close>.\<close>

definition expected_version :: "web_issue option \<Rightarrow> jsval" where
  "expected_version issue = Num (Fin (of_int (case issue of None \<Rightarrow> 0 | Some i \<Rightarrow> wi_version i)))"

definition versioned_mutation :: "web_issue option \<Rightarrow> string \<Rightarrow> (jsval \<Rightarrow> jsval web) \<Rightarrow> mutation_options" where
  "versioned_mutation issue issueId f =
     (mutation f)
       \<lparr>mo_onSuccess := (\<lambda>_ _. refreshIssue issue issueId),
        mo_onError := (\<lambda>error _.
          andThen (if isConcurrentIssueModification error then refreshIssue issue issueId else returning ()) (\<lambda>_.
          refreshProjectIfArchived issue error))\<rparr>"

definition update_mutation :: "web_issue option \<Rightarrow> string \<Rightarrow> mutation_options" where
  "update_mutation issue issueId =
     versioned_mutation issue issueId (\<lambda>payload. api_updateIssue issueId payload (expected_version issue))"

definition assign_mutation :: "web_issue option \<Rightarrow> string \<Rightarrow> mutation_options" where
  "assign_mutation issue issueId =
     versioned_mutation issue issueId (\<lambda>userId. api_assignIssue issueId userId (expected_version issue))"

section \<open>Handlers\<close>

definition conflict_message :: "web_error \<Rightarrow> string \<Rightarrow> string" where
  "conflict_message error fallback =
     (if isConcurrentIssueModification error then ''Issue changed elsewhere. Latest data has been loaded.''
      else getApiErrorMessage error fallback)"

definition submitEdit :: "(jsval \<Rightarrow> jsval web) \<Rightarrow> bool \<Rightarrow> form_data \<Rightarrow> unit web" where
  "submitEdit mutateAsync isProjectWritable form =
     (if \<not> isProjectWritable then returning ()
      else catching
        (andThen (mutateAsync (Obj
           [(''summary'', Str (form_text form ''summary'' [])), (''description'', Str (form_text form ''description'' [])),
            (''type'', Str (form_string form ''type'')), (''priority'', Str (form_string form ''priority''))])) (\<lambda>_.
         toast_success ''Issue updated''))
        (\<lambda>error. toast_error (conflict_message error ''Could not update issue'')))"

definition submitAssignment :: "(jsval \<Rightarrow> jsval web) \<Rightarrow> bool \<Rightarrow> form_data \<Rightarrow> unit web" where
  "submitAssignment mutateAsync isProjectWritable form =
     (if \<not> isProjectWritable then returning ()
      else let v = form_text form ''assigneeUserId'' [] in
        catching
          (andThen (mutateAsync (if v \<noteq> [] then Str v else Null)) (\<lambda>_.
           toast_success (if v \<noteq> [] then ''Assignee updated'' else ''Issue unassigned'')))
          (\<lambda>error. toast_error (conflict_message error ''Could not change assignee'')))"

definition submitComment :: "(jsval \<Rightarrow> jsval web) \<Rightarrow> web_issue option \<Rightarrow> bool \<Rightarrow> form_data \<Rightarrow> unit web" where
  "submitComment mutateAsync issue isProjectWritable form =
     (if \<not> isProjectWritable then returning ()
      else let trimmedBody = trim (form_text form ''body'' []) in
        if trimmedBody = [] then toast_error ''Comment cannot be blank''
        else if length trimmedBody > 5000 then toast_error ''Comment must be 5,000 characters or fewer''
        else catching
          (andThen (mutateAsync (Str trimmedBody)) (\<lambda>_. perform_effect ResetForm))
          (\<lambda>error.
             andThen (refreshProjectIfArchived issue error) (\<lambda>_.
             toast_error
               (if isConcurrentIssueModification error
                then ''Issue changed elsewhere. Latest data has been loaded; your comment is still in the form.''
                else if getApiErrorCode error = Some ''PROJECT_ARCHIVED'' then ''Project is read-only.''
                else getApiErrorMessage error ''Could not add comment''))))"

section \<open>The view\<close>

datatype detail_event = SubmitEdit | SubmitAssignment | SubmitComment | RetryComments | RetryMembers | RetryHistory

text \<open>\<open>new Map(entries).get(key) ?? key\<close>: the last entry of a key counts.\<close>

definition memberLabels :: "workspace_member list option \<Rightarrow> string \<Rightarrow> string" where
  "memberLabels members user =
     (case map_of (rev (map (\<lambda>m. (wm_userId m, member_label m)) (case members of None \<Rightarrow> [] | Some ms \<Rightarrow> ms))) user of
        None \<Rightarrow> user | Some label \<Rightarrow> label)"

definition plain_options :: "string list \<Rightarrow> 'h view" where
  "plain_options vs = map (\<lambda>v. elem ''option'' [] [Words v]) vs"

definition edit_card :: "web_issue \<Rightarrow> bool \<Rightarrow> bool \<Rightarrow> detail_event view" where
  "edit_card issue isProjectWritable isPending =
     (let disabled = Bool (\<not> isProjectWritable) in
      [elem ''CardTitle'' [] [Words (wi_summary issue)],
       elem ''Badge'' [] [Words (status_name (wi_status issue))],
       elem ''CardDescription'' [] [Words (wi_key issue @ '' '' @ [CHR 0xB7] @ '' version '' @ js_int_text (wi_version issue))],
       Element ''form'' [(''key'', Str (wi_id issue @ '':'' @ js_int_text (wi_version issue)))] [(''onSubmit'', SubmitEdit)]
         [input ''summary'' [(''disabled'', disabled), (''defaultValue'', Str (wi_summary issue)),
            (''maxLength'', Num (Fin 200)), (''required'', Bool True)],
          elem ''textarea'' [(''defaultValue'', Str (text_or_else (wi_description issue) [])), (''disabled'', disabled),
            (''name'', Str ''description''), (''placeholder'', Str ''Description'')] [],
          elem ''select'' [(''defaultValue'', Str (type_name (wi_type issue))), (''disabled'', disabled),
            (''name'', Str ''type'')] (plain_options [''TASK'', ''BUG'', ''STORY'']),
          elem ''select'' [(''defaultValue'', Str (priority_name (wi_priority issue))), (''disabled'', disabled),
            (''name'', Str ''priority'')] (plain_options [''LOW'', ''MEDIUM'', ''HIGH'', ''CRITICAL'']),
          elem ''Button'' [(''disabled'', Bool (\<not> isProjectWritable \<or> isPending)), (''type'', Str ''submit'')]
            [Words ''Save issue'']]])"

definition comments_card ::
    "(string \<Rightarrow> string) \<Rightarrow> bool \<Rightarrow> bool \<Rightarrow> web_comment list query_result \<Rightarrow> workspace_member list option \<Rightarrow>
     detail_event view" where
  "comments_card locale_text isProjectWritable isPending comments members =
     [elem ''CardTitle'' [] [Words ''Comments''],
      Element ''form'' [] [(''onSubmit'', SubmitComment)]
        [elem ''textarea'' [(''disabled'', Bool (\<not> isProjectWritable)), (''maxLength'', Num (Fin 5000)),
           (''name'', Str ''body''), (''placeholder'', Str ''Write a comment''), (''required'', Bool True)] [],
         elem ''Button'' [(''disabled'', Bool (\<not> isProjectWritable \<or> isPending)), (''type'', Str ''submit'')]
           [Words ''Add'']]]
     @ shown (qr_isPending comments) [Words ''Loading comments...'']
     @ shown (qr_isError comments) (QueryError ''comments'' [qr_error comments] RetryComments)
     @ map (\<lambda>c. elem ''div'' [(''key'', Str (wc_id c))]
         [Words (wc_body c),
          Words (memberLabels members (wc_authorUserId c) @ '' '' @ [CHR 0xB7] @ '' '' @ locale_text (wc_createdAt c))])
       (list_data comments)
     @ shown (qr_data comments = Some []) [Words ''No comments yet.'']"

definition assignment_card ::
    "web_issue \<Rightarrow> bool \<Rightarrow> bool \<Rightarrow> workspace_member list query_result \<Rightarrow> detail_event view" where
  "assignment_card issue isProjectWritable isPending members =
     elem ''CardTitle'' [] [Words ''Assignment''] #
     (if qr_isError members then QueryError ''members'' [qr_error members] RetryMembers
      else case qr_data members of
        None \<Rightarrow> [Words ''Loading members...'']
      | Some ms \<Rightarrow>
          [Element ''form'' [(''key'', Str (wi_id issue @ '':'' @ js_int_text (wi_version issue)))]
             [(''onSubmit'', SubmitAssignment)]
             [MemberSelect ms ''assigneeUserId'' (wi_assigneeUserId issue) (\<not> isProjectWritable) ''Assignee'',
              elem ''Button'' [(''disabled'', Bool (\<not> isProjectWritable \<or> isPending)), (''type'', Str ''submit'')]
                [Words ''Update assignee'']]])"

definition history_card :: "(string \<Rightarrow> string) \<Rightarrow> web_history list query_result \<Rightarrow> detail_event view" where
  "history_card locale_text history =
     [elem ''CardTitle'' [] [Words ''History'']]
     @ shown (qr_isPending history) [Words ''Loading history...'']
     @ shown (qr_isError history) (QueryError ''history'' [qr_error history] RetryHistory)
     @ map (\<lambda>entry. elem ''div'' [(''key'', Str (wh_id entry))]
         [Words (map (\<lambda>c. if c = CHR ''_'' then CHR '' '' else c) (wh_action entry)),
          Words (locale_text (wh_createdAt entry))])
       (list_data history)
     @ shown (qr_data history = Some []) [Words ''No history yet.'']"

text \<open>
  The whole component; the three flags are \<open>isPending\<close> of the update, the assignment and the
  comment. \<open>locale_text\<close> is \<open>new Date(text).toLocaleString()\<close>.
\<close>

definition IssueDetailModal ::
    "(string \<Rightarrow> string) \<Rightarrow> web_issue option \<Rightarrow> bool \<Rightarrow> bool \<Rightarrow> bool \<Rightarrow> bool \<Rightarrow> web_comment list query_result \<Rightarrow>
     web_history list query_result \<Rightarrow> workspace_member list query_result \<Rightarrow> detail_event view" where
  "IssueDetailModal locale_text issue isProjectWritable updatePending assignPending commentPending
     comments history members =
     (case issue of
        None \<Rightarrow> [Words ''Issue could not be loaded.'']
      | Some i \<Rightarrow>
          edit_card i isProjectWritable updatePending
          @ comments_card locale_text isProjectWritable commentPending comments (qr_data members)
          @ assignment_card i isProjectWritable assignPending members
          @ history_card locale_text history)"

definition detail_handler ::
    "(jsval \<Rightarrow> jsval web) \<Rightarrow> (jsval \<Rightarrow> jsval web) \<Rightarrow> (jsval \<Rightarrow> jsval web) \<Rightarrow> web_issue option \<Rightarrow> bool \<Rightarrow> form_data \<Rightarrow>
     detail_event \<Rightarrow> unit web" where
  "detail_handler update assign comment issue isProjectWritable form event =
     (case event of
        SubmitEdit \<Rightarrow> submitEdit update isProjectWritable form
      | SubmitAssignment \<Rightarrow> submitAssignment assign isProjectWritable form
      | SubmitComment \<Rightarrow> submitComment comment issue isProjectWritable form
      | RetryComments \<Rightarrow> refetch_all [0]
      | RetryMembers \<Rightarrow> refetch_all [0]
      | RetryHistory \<Rightarrow> refetch_all [0])"

section \<open>The page\<close>

definition IssueDetailPage ::
    "web_issue query_result \<Rightarrow> web_project query_result \<Rightarrow> (web_issue option \<Rightarrow> bool \<Rightarrow> detail_event view) \<Rightarrow>
     detail_event page_event view" where
  "IssueDetailPage issue project modal =
     [elem ''title'' [] [Words (text_or_else (map_option wi_key (qr_data issue)) ''Issue'' @ '' '' @ [CHR 0xB7] @ '' Orbit'')]]
     @ shown (qr_isError project) (QueryError ''project'' [qr_error project] RetryPage)
     @ (if qr_isError issue then QueryError ''issue'' [qr_error issue] RetryPage
        else if qr_isPending issue then [Words ''Loading issue...'']
        else map (map_ui Inside) (modal (qr_data issue) (project_writable project)))"

section \<open>Read-only projects\<close>

lemma submits_nothing:
  "move mutate False issue status = returning ()" "startSprint mutateAsync False form = returning ()"
  "finishSprint mutateAsync False active = returning ()" "submit_epic mutateAsync False form = returning ()"
  "submitEdit mutateAsync False form = returning ()" "submitAssignment mutateAsync False form = returning ()"
  "submitComment mutateAsync issue' False form = returning ()" "onCreateIssue False = returning ()"
  by (simp_all add: move_def startSprint_def finishSprint_def submit_epic_def submitEdit_def submitAssignment_def
      submitComment_def onCreateIssue_def split: option.split)

end
