(* ===== verification/Web_Projects.thy ===== *)
theory Web_Projects
  imports Web_Planning
begin

text \<open>
  Workspaces, their projects and their members (\<open>features/project/components\<close>).
\<close>

section \<open>A project card\<close>

text \<open>The presence-aware payload of an edit: only what changed.\<close>

definition edit_payload :: "web_project \<Rightarrow> form_data \<Rightarrow> js_object" where
  "edit_payload project form =
     (let name = trim (form_text form ''name'' []); description = trim (form_text form ''description'' []) in
      (if name \<noteq> wp_name project then [(''name'', Str name)] else [])
      @ (if description \<noteq> text_or_else (wp_description project) []
         then [(''description'', if description \<noteq> [] then Str description else Null)] else []))"

definition submit_project_edit :: "(jsval \<Rightarrow> jsval web) \<Rightarrow> web_project \<Rightarrow> form_data \<Rightarrow> unit web" where
  "submit_project_edit mutateAsync project form =
     (let payload = edit_payload project form in
      catching
        (andThen
           (if payload \<noteq> [] then
              andThen (mutateAsync (Obj payload)) (\<lambda>_. toast_success ''Project updated'')
            else returning ()) (\<lambda>_.
         perform_effect (SetState ''editing'' (Bool False))))
        (\<lambda>error. toast_api_error error ''Could not update project''))"

definition archiveProject :: "(jsval \<Rightarrow> jsval web) \<Rightarrow> web_project \<Rightarrow> unit web" where
  "archiveProject mutateAsync project =
     andThen (confirm (''Archive '' @ wp_name project
        @ ''? This cannot be undone: there is no way to restore an archived project. It stays readable, but its issues and planning can no longer change.''))
       (\<lambda>confirmed.
        if \<not> confirmed then returning ()
        else catching
          (andThen (mutateAsync Undefined) (\<lambda>_. toast_success ''Project archived''))
          (\<lambda>error. toast_api_error error ''Could not archive project''))"

datatype project_event = SubmitProjectEdit web_project | EditProject web_project | CancelEdit web_project
  | ArchiveProject web_project

text \<open>\<open>locale_date\<close> is \<open>new Date(text).toLocaleDateString()\<close>.\<close>

definition ProjectCard ::
    "(string \<Rightarrow> string) \<Rightarrow> web_project \<Rightarrow> bool \<Rightarrow> bool \<Rightarrow> bool \<Rightarrow> bool \<Rightarrow> project_event view" where
  "ProjectCard locale_date project canManage editing updatePending archivePending =
     (let archived = wp_status project = ArchivedProject in
      [elem ''CardTitle'' [] [link (''/projects/'' @ wp_id project @ ''/board'') [Words (wp_name project)]]]
      @ shown archived [elem ''Badge'' [] [Words ''Archived'']]
      @ [elem ''Badge'' [] [Words (wp_key project)]]
      @ shown (\<not> editing)
          [elem ''CardDescription'' [] [Words (text_or_else (wp_description project) ''No project description yet.'')]]
      @ (if editing then
           [Element ''form'' [] [(''onSubmit'', SubmitProjectEdit project)]
              [input ''name'' [(''aria-label'', Str ''Edit project name''), (''defaultValue'', Str (wp_name project)),
                 (''maxLength'', Num (Fin 120)), (''required'', Bool True)],
               input ''description'' [(''aria-label'', Str ''Edit project description''),
                 (''defaultValue'', Str (text_or_else (wp_description project) [])),
                 (''maxLength'', Num (Fin 2000)), (''placeholder'', Str ''What is this project for?'')],
               elem ''Button'' [(''disabled'', Bool updatePending), (''type'', Str ''submit'')] [Words ''Save''],
               button ''Cancel'' (CancelEdit project) [(''type'', Str ''button'')]]]
         else [Words (''Updated '' @ locale_date (wp_updatedAt project))])
      @ shown (canManage \<and> \<not> archived \<and> \<not> editing)
          [button ''Edit'' (EditProject project) [(''aria-label'', Str (''Edit '' @ wp_name project)), (''type'', Str ''button'')],
           button ''Archive'' (ArchiveProject project) [(''aria-label'', Str (''Archive '' @ wp_name project)),
             (''disabled'', Bool archivePending), (''type'', Str ''button'')]])"

text \<open>The list; the state of each card is given by its project.\<close>

definition ProjectList ::
    "(string \<Rightarrow> string) \<Rightarrow> web_project list \<Rightarrow> bool \<Rightarrow> (web_project \<Rightarrow> bool) \<Rightarrow> (web_project \<Rightarrow> bool) \<Rightarrow>
     (web_project \<Rightarrow> bool) \<Rightarrow> project_event view" where
  "ProjectList locale_date projects canManage editing updatePending archivePending =
     (if length projects = 0 then
        [elem ''CardTitle'' [] [Words ''No projects yet''],
         elem ''CardDescription'' [] [Words ''Create the first project in this workspace.'']]
      else concat (map (\<lambda>project.
             ProjectCard locale_date project canManage (editing project) (updatePending project) (archivePending project))
           projects))"

section \<open>The members of a workspace\<close>

fun role_name :: "workspace_role \<Rightarrow> string" where
  "role_name OWNER = ''OWNER''"
| "role_name ADMIN = ''ADMIN''"
| "role_name MEMBER = ''MEMBER''"

definition canManage :: "workspace_role \<Rightarrow> bool" where
  "canManage actorRole \<longleftrightarrow> actorRole = OWNER \<or> actorRole = ADMIN"

definition assignableRoles :: "workspace_role \<Rightarrow> workspace_role list" where
  "assignableRoles actorRole = (if actorRole = OWNER then [MEMBER, ADMIN, OWNER] else [MEMBER, ADMIN])"

definition canManageMember :: "workspace_role \<Rightarrow> workspace_member \<Rightarrow> bool" where
  "canManageMember actorRole member \<longleftrightarrow> canManage actorRole \<and> (actorRole = OWNER \<or> wm_role member \<noteq> OWNER)"

definition submitAdd :: "(jsval \<Rightarrow> jsval web) \<Rightarrow> form_data \<Rightarrow> unit web" where
  "submitAdd mutateAsync form =
     catching
       (andThen (mutateAsync (Obj [(''email'', Str (trim (form_text form ''email'' []))),
          (''role'', Str (form_text form ''role'' ''MEMBER''))])) (\<lambda>_.
        andThen (perform_effect ResetForm) (\<lambda>_. toast_success ''Member added'')))
       (\<lambda>error. toast_api_error error ''Could not add member'')"

definition updateRole :: "(jsval \<Rightarrow> jsval web) \<Rightarrow> workspace_member \<Rightarrow> string \<Rightarrow> unit web" where
  "updateRole mutateAsync member role =
     catching
       (andThen (mutateAsync (Obj [(''userId'', Str (wm_userId member)), (''role'', Str role)])) (\<lambda>_.
        toast_success ''Role updated''))
       (\<lambda>error. toast_api_error error ''Could not change role'')"

definition removeMember :: "(jsval \<Rightarrow> jsval web) \<Rightarrow> workspace_member \<Rightarrow> unit web" where
  "removeMember mutateAsync member =
     andThen (confirm (''Remove '' @ member_label member @ '' from this workspace?'')) (\<lambda>confirmed.
     if \<not> confirmed then returning ()
     else catching
       (andThen (mutateAsync (Str (wm_userId member))) (\<lambda>_. toast_success ''Member removed''))
       (\<lambda>error. toast_api_error error ''Could not remove member''))"

datatype members_event = SubmitAdd | UpdateRole workspace_member | RemoveMember workspace_member | RetryMemberList

definition role_options :: "workspace_role \<Rightarrow> 'h view" where
  "role_options actorRole = options (map (\<lambda>role. (role_name role, role_name role)) (assignableRoles actorRole))"

definition member_row :: "workspace_role \<Rightarrow> bool \<Rightarrow> bool \<Rightarrow> workspace_member \<Rightarrow> members_event ui" where
  "member_row actorRole changePending removePending member =
     elem ''li'' [(''key'', Str (wm_userId member))]
       (Words (member_label member) #
        (if canManageMember actorRole member then
           [Element ''select'' [(''aria-label'', Str (''Role for '' @ member_label member)),
               (''disabled'', Bool changePending), (''value'', Str (role_name (wm_role member)))]
              [(''onChange'', UpdateRole member)] (role_options actorRole),
            button ''Remove'' (RemoveMember member) [(''disabled'', Bool removePending), (''type'', Str ''button'')]]
         else [Words (role_name (wm_role member))]))"

definition WorkspaceMembers ::
    "workspace_role \<Rightarrow> workspace_member list query_result \<Rightarrow> bool \<Rightarrow> bool \<Rightarrow> bool \<Rightarrow> members_event view" where
  "WorkspaceMembers actorRole members addPending changePending removePending =
     [Words ''People'', elem ''CardTitle'' [] [Words ''Workspace members'']]
     @ shown (canManage actorRole)
         [Element ''form'' [] [(''onSubmit'', SubmitAdd)]
            [input ''email'' [(''aria-label'', Str ''Member email''), (''placeholder'', Str ''teammate@example.com''),
               (''required'', Bool True), (''type'', Str ''email'')],
             elem ''select'' [(''aria-label'', Str ''New member role''), (''defaultValue'', Str ''MEMBER''),
               (''name'', Str ''role'')] (role_options actorRole),
             elem ''Button'' [(''disabled'', Bool addPending), (''type'', Str ''submit'')] [Words ''Add member'']]]
     @ shown (qr_isPending members) [Words ''Loading members...'']
     @ shown (qr_isError members) (QueryError ''members'' [qr_error members] RetryMemberList)
     @ [elem ''ul'' [] (map (member_row actorRole changePending removePending) (list_data members))]"

section \<open>The dashboard\<close>

definition activeWorkspaceId :: "string option \<Rightarrow> workspace list query_result \<Rightarrow> string option" where
  "activeWorkspaceId workspaceId workspaces =
     (case workspaceId of
        Some w \<Rightarrow> Some w
      | None \<Rightarrow> (case qr_data workspaces of Some (w # _) \<Rightarrow> Some (wk_id w) | _ \<Rightarrow> None))"

definition activeWorkspace :: "string option \<Rightarrow> workspace list query_result \<Rightarrow> workspace option" where
  "activeWorkspace workspaceId workspaces =
     find (\<lambda>w. Some (wk_id w) = activeWorkspaceId workspaceId workspaces) (list_data workspaces)"

definition canManageProjects :: "string option \<Rightarrow> workspace list query_result \<Rightarrow> bool" where
  "canManageProjects workspaceId workspaces =
     (case activeWorkspace workspaceId workspaces of None \<Rightarrow> False | Some w \<Rightarrow> wk_role w = OWNER \<or> wk_role w = ADMIN)"

definition submitWorkspace :: "(jsval \<Rightarrow> jsval web) \<Rightarrow> form_data \<Rightarrow> unit web" where
  "submitWorkspace mutateAsync form =
     catching
       (andThen (mutateAsync (Obj [(''name'', Str (form_text form ''name'' [])), (''slug'', Str (form_text form ''slug'' []))]))
          (\<lambda>workspace.
        andThen (get_property workspace ''id'') (\<lambda>i.
        andThen (perform_effect (SetState ''workspaceId'' i)) (\<lambda>_.
        andThen (perform_effect ResetForm) (\<lambda>_. toast_success ''Workspace created'')))))
       (\<lambda>error. toast_api_error error ''Could not create workspace'')"

definition submitProject :: "(jsval \<Rightarrow> jsval web) \<Rightarrow> form_data \<Rightarrow> unit web" where
  "submitProject mutateAsync form =
     catching
       (andThen (mutateAsync (Obj [(''name'', Str (form_text form ''name'' [])), (''key'', Str (form_text form ''key'' [])),
          (''description'', Str (form_text form ''description'' []))])) (\<lambda>_.
        andThen (perform_effect ResetForm) (\<lambda>_. toast_success ''Project created'')))
       (\<lambda>error. toast_api_error error ''Could not create project'')"

datatype dashboard_event =
    SelectWorkspace string
  | SubmitWorkspace
  | SubmitProject
  | RetryWorkspaces
  | RetryProjects
  | ProjectEvent project_event
  | MembersEvent members_event

definition workspace_entry :: "string option \<Rightarrow> workspace \<Rightarrow> dashboard_event ui" where
  "workspace_entry active w =
     Element ''button''
       [(''className'', Str (if Some (wk_id w) = active
           then ''w-full border px-3 py-3 text-left text-sm transition-all border-primary bg-primary text-primary-foreground shadow-[3px_3px_0_rgb(0_0_0/0.16)]''
           else ''w-full border px-3 py-3 text-left text-sm transition-all border-foreground/12 bg-background/55 hover:border-foreground hover:bg-background'')),
        (''key'', Str (wk_id w))]
       [(''onClick'', SelectWorkspace (wk_id w))]
       [Words (wk_name w), Words (role_name (wk_role w) @ '' '' @ [CHR 0xB7] @ '' '' @ wk_slug w)]"

definition WorkspaceProjectDashboard ::
    "string option \<Rightarrow> workspace list query_result \<Rightarrow> web_project list query_result \<Rightarrow> bool \<Rightarrow> bool \<Rightarrow>
     (web_project list \<Rightarrow> bool \<Rightarrow> project_event view) \<Rightarrow> (workspace_role \<Rightarrow> members_event view) \<Rightarrow> dashboard_event view" where
  "WorkspaceProjectDashboard workspaceId workspaces projects workspacePending projectPending projectList membersView =
     (let active = activeWorkspaceId workspaceId workspaces; canManage = canManageProjects workspaceId workspaces in
      [Words ''Your spaces'', elem ''CardTitle'' [] [Words ''Workspaces'']]
      @ shown (qr_isPending workspaces) [Words ''Loading...'']
      @ shown (qr_isError workspaces) (QueryError ''workspaces'' [qr_error workspaces] RetryWorkspaces)
      @ shown (qr_data workspaces = Some []) [Words ''No workspaces yet. Create your first one below.'']
      @ map (workspace_entry active) (list_data workspaces)
      @ [Words ''Add a container'', elem ''CardTitle'' [] [Words ''New workspace''],
         Element ''form'' [] [(''onSubmit'', SubmitWorkspace)]
           [input ''name'' [(''placeholder'', Str ''Workspace name''), (''required'', Bool True)],
            input ''slug'' [(''pattern'', Str ''[a-z0-9-]+''), (''placeholder'', Str ''workspace-slug''), (''required'', Bool True)],
            elem ''Button'' [(''disabled'', Bool workspacePending), (''type'', Str ''submit'')] [Words ''Create workspace'']]]
      @ shown canManage
          [Words ''Start with purpose'', elem ''CardTitle'' [] [Words ''New project''],
           Element ''form'' [] [(''onSubmit'', SubmitProject)]
             [input ''name'' [(''placeholder'', Str ''Project name''), (''required'', Bool True)],
              input ''key'' [(''maxLength'', Num (Fin 20)), (''placeholder'', Str ''KEY''), (''required'', Bool True)],
              input ''description'' [(''placeholder'', Str ''What is this project for?'')],
              elem ''Button'' [(''disabled'', Bool (\<not> given active \<or> projectPending)), (''type'', Str ''submit'')]
                [Words ''Create'']]]
      @ (if qr_isError workspaces then []
         else if \<not> given active then
           [Words (if qr_isPending workspaces then ''Loading projects...'' else ''Create or select a workspace first.'')]
         else if qr_isPending projects then [Words ''Loading projects...'']
         else if qr_isError projects then QueryError ''projects'' [qr_error projects] RetryProjects
         else map (map_ui ProjectEvent) (projectList (list_data projects) canManage))
      @ (case activeWorkspace workspaceId workspaces of
           None \<Rightarrow> []
         | Some w \<Rightarrow> map (map_ui MembersEvent) (membersView (wk_role w))))"

section \<open>What a role may do\<close>

lemma view_events_role_options [simp]: "view_events (role_options r) = []"
  by (simp add: role_options_def)

lemma QueryError_events: "set (view_events (QueryError resource errors retry)) \<subseteq> {retry}"
  by (simp add: QueryError_def Let_def)

lemma WorkspaceMembers_events:
  "set (view_events (WorkspaceMembers actorRole members a b c)) \<subseteq>
     {RetryMemberList} \<union> (if canManage actorRole then {SubmitAdd} else {}) \<union>
     (\<Union>m\<in>{m \<in> set (list_data members). canManageMember actorRole m}. {UpdateRole m, RemoveMember m})"
  using QueryError_events [of "''members''" "[qr_error members]" RetryMemberList]
  by (auto simp: WorkspaceMembers_def member_row_def split: if_splits)

text \<open>Only an owner is offered to change an owner or to make one; a member is offered nothing.\<close>

lemma owners_are_safe:
  assumes "UpdateRole m \<in> set (view_events (WorkspaceMembers actorRole members a b c)) \<or>
    RemoveMember m \<in> set (view_events (WorkspaceMembers actorRole members a b c))"
  shows "actorRole \<noteq> MEMBER" and "actorRole = OWNER \<or> wm_role m \<noteq> OWNER \<and> OWNER \<notin> set (assignableRoles actorRole)"
  using assms WorkspaceMembers_events [of actorRole members a b c]
  by (auto simp: canManageMember_def canManage_def assignableRoles_def split: if_splits)

text \<open>An edit sends only what changed, and nothing when nothing did.\<close>

lemma edit_payload_empty:
  "edit_payload project form = [] \<longleftrightarrow>
     trim (form_text form ''name'' []) = wp_name project \<and>
     trim (form_text form ''description'' []) = text_or_else (wp_description project) []"
  by (simp add: edit_payload_def Let_def)

end
