(* ===== verification/Web_Promises.thy ===== *)
theory Web_Promises
  imports Web_Issue_Detail Web_Projects Web_Shell "HOL-Library.Multiset"
begin

text \<open>
  What the screens of the web client guarantee: the board offers the workflow of the issue
  service, a read-only project offers no change, the roadmap draws inside its grid.
\<close>

section \<open>Read-only projects\<close>

lemma view_events_map_ui [simp]: "view_events (map (map_ui f) v) = map f (view_events v)"
  by (induction v) simp_all

lemma ProjectNavigation_events [simp]: "view_events (ProjectNavigation pathname projectId) = []"
  by (simp add: ProjectNavigation_def case_prod_beta Let_def concat_eq_Nil_conv)

lemma page_heading_events [simp]: "view_events (page_heading heading pathname projectId project) = []"
  by (simp add: page_heading_def)

lemma query_page_events:
  "set (view_events (query_page resource loading queries component)) \<subseteq> {RetryPage} \<union> Inside ` set (view_events component)"
  using QueryError_events [of resource _ RetryPage] by (auto simp: query_page_def Let_def simp del: view_events_map)

lemma Backlog_events:
  "set (view_events (Backlog issues epics sprints projectId writable a b)) =
     (if writable then (if activeSprint sprints = None then {StartSprint} else {FinishSprint}) else {})"
  by (auto simp: Backlog_def Let_def sprint_form_def backlog_row_def concat_eq_Nil_conv)

lemma Roadmap_events:
  "set (view_events (Roadmap other epics writable isPending)) = (if writable then {SubmitEpic} else {})"
  by (auto simp: Roadmap_def epic_form_def epic_lane_def case_prod_beta)

lemma IssueForm_events: "set (view_events (IssueForm epics sprints members isPending)) \<subseteq> {SubmitForm, CloseForm}"
  by (auto simp: IssueForm_def)

lemma BoardScreen_read_only:
  "set (view_events (BoardScreen projectId False issues epics sprints creating members a b st)) \<subseteq>
     {RetryBoard} \<union> BoardEvent ` {SetQuery, ClearQuery, SetPriority}"
  using QueryError_events [of "''board''" _ RetryBoard] Board_events [of _ projectId False a st]
  by (auto simp: BoardScreen_def Let_def simp del: view_events_map split: if_splits)

lemma refetch_all_keeps: "keeps b_requests (refetch_all ns)"
proof (induction ns)
  case Nil
  show ?case unfolding refetch_all.simps by (rule keeps_basic)
next
  case (Cons n ns)
  have "keeps b_requests (perform_effect (Refetch n))" by (simp add: keeps_def perform_effect_def)
  then show ?case unfolding refetch_all.simps by (rule keeps_andThen) (rule Cons)
qed

lemma detail_handler_read_only: "keeps b_requests (detail_handler update assign comment issue False form event)"
  unfolding detail_handler_def submits_nothing
  by (cases event) (simp_all only: detail_event.case keeps_basic refetch_all_keeps)

text \<open>
  C18: While a project is archived, or not yet known to be active, its pages offer no control
  that changes it: the backlog and the roadmap offer at most a retry, the board only its
  filters, and whatever form of an issue's page is submitted sends nothing, whatever the
  mutations would do.
\<close>

theorem read_only_project:
  assumes "\<not> project_writable project"
  shows "set (view_events (ProjectBacklogPage pathname projectId epics sprints issues project a b)) \<subseteq> {RetryPage} \<and>
    set (view_events (ProjectRoadmapPage other pathname projectId epics project a)) \<subseteq> {RetryPage} \<and>
    set (view_events (ProjectBoardPage pathname projectId project (\<lambda>writable.
        BoardScreen projectId writable issues epics sprints creating members a b st))) \<subseteq>
      {RetryPage, Inside RetryBoard} \<union> (Inside \<circ> BoardEvent) ` {SetQuery, ClearQuery, SetPriority} \<and>
    (\<forall>event. keeps b_requests (detail_handler update assign comment issue (project_writable project) form event))"
proof (intro conjI allI)
  have ro: "project_writable project = False" using assms by simp
  show "set (view_events (ProjectBacklogPage pathname projectId epics sprints issues project a b)) \<subseteq> {RetryPage}"
    using query_page_events [of "''backlog''"] Backlog_events [of _ _ _ projectId False a b]
    unfolding ProjectBacklogPage_def ro by fastforce
  show "set (view_events (ProjectRoadmapPage other pathname projectId epics project a)) \<subseteq> {RetryPage}"
    using query_page_events [of "''roadmap''"] Roadmap_events [of other _ False a]
    unfolding ProjectRoadmapPage_def ro by fastforce
  show "set (view_events (ProjectBoardPage pathname projectId project (\<lambda>writable.
        BoardScreen projectId writable issues epics sprints creating members a b st))) \<subseteq>
      {RetryPage, Inside RetryBoard} \<union> (Inside \<circ> BoardEvent) ` {SetQuery, ClearQuery, SetPriority}"
    using query_page_events [of "''project''"] BoardScreen_read_only [of projectId issues epics sprints creating members a b st]
    unfolding ProjectBoardPage_def ro by fastforce
  show "keeps b_requests (detail_handler update assign comment issue (project_writable project) form event)" for event
    unfolding ro by (rule detail_handler_read_only)
qed

section \<open>The board and the workflow\<close>

text \<open>The addresses a view links to, in order.\<close>

fun ui_links :: "'h ui \<Rightarrow> string list" where
  "ui_links (Words s) = []"
| "ui_links (Element tag attributes handlers children) =
     (case map_of attributes ''href'' of Some (Str h) \<Rightarrow> [h] | _ \<Rightarrow> []) @ concat (map ui_links children)"

definition issue_address :: "string \<Rightarrow> web_issue \<Rightarrow> string" where
  "issue_address projectId issue = ''/projects/'' @ projectId @ ''/issues/'' @ wi_id issue"

lemma ui_links_basic [simp]:
  "ui_links (elem tag attrs vs) = (case map_of attrs ''href'' of Some (Str h) \<Rightarrow> [h] | _ \<Rightarrow> []) @ concat (map ui_links vs)"
  "ui_links (button label h attrs) = (case map_of attrs ''href'' of Some (Str x) \<Rightarrow> [x] | _ \<Rightarrow> [])"
  "ui_links (link a vs) = a # concat (map ui_links vs)"
  "concat (map ui_links (options os)) = []"
  "concat (map ui_links (shown b us)) = (if b then concat (map ui_links us) else [])"
  by (simp_all add: elem_def button_def link_def options_def shown_def concat_eq_Nil_conv case_prod_beta)

lemma issue_card_links: "ui_links (issue_card projectId writable isPending issue) = [issue_address projectId issue]"
proof -
  have "concat (map ui_links (move_buttons isPending issue)) = []"
    by (auto simp: move_buttons_def case_prod_beta)
  then show ?thesis by (simp add: issue_card_def issue_address_def)
qed

lemma board_column_links:
  "ui_links (board_column projectId writable isPending visible column) =
     map (issue_address projectId) (filter (\<lambda>i. wi_status i = fst column) visible)"
proof -
  have "concat (map ui_links (map (issue_card projectId writable isPending) vs)) = map (issue_address projectId) vs" for vs
    by (induction vs) (simp_all add: issue_card_links)
  then show ?thesis by (simp add: board_column_def Let_def)
qed

lemma Board_links:
  "concat (map ui_links (Board issues projectId writable isPending st)) =
     map (issue_address projectId)
       (concat (map (\<lambda>column. filter (\<lambda>i. wi_status i = fst column) (visibleIssues st issues)) board_columns))"
proof -
  have "concat (map ui_links (map (board_column projectId writable isPending vs) cs)) =
      map (issue_address projectId) (concat (map (\<lambda>column. filter (\<lambda>i. wi_status i = fst column) vs) cs))" for vs cs
    by (induction cs) (simp_all add: board_column_links)
  then show ?thesis by (simp add: Board_def Let_def)
qed

text \<open>
  C19: The board offers exactly the moves that the issue service's workflow accepts: a control
  that moves an issue to a status is on the board of a writable project if and only if the issue
  is visible and \<open>assertTransition\<close> lets it pass; every visible issue is in exactly one column,
  and the links of the board as it is rendered are one for each visible issue.
\<close>

theorem board_offers_the_workflow:
  "(Move issue status \<in> set (view_events (Board issues projectId writable isPending st)) \<longleftrightarrow>
      writable \<and> issue \<in> set (visibleIssues st issues) \<and> (\<exists>t. assertTransition (wi_status issue) status = Inr t)) \<and>
   mset (concat (map (\<lambda>column. filter (\<lambda>i. wi_status i = fst column) (visibleIssues st issues)) board_columns)) =
     mset (visibleIssues st issues) \<and>
   mset (concat (map ui_links (Board issues projectId writable isPending st))) =
     mset (map (\<lambda>i. ''/projects/'' @ projectId @ ''/issues/'' @ wi_id i) (visibleIssues st issues))"
proof (intro conjI)
  show "Move issue status \<in> set (view_events (Board issues projectId writable isPending st)) \<longleftrightarrow>
      writable \<and> issue \<in> set (visibleIssues st issues) \<and> (\<exists>t. assertTransition (wi_status issue) status = Inr t)"
    by (auto simp: Board_events assertTransition_Inr_iff)
  have m: "mset (concat (map (\<lambda>column. filter (\<lambda>i. wi_status i = fst column) vs) board_columns)) = mset vs" for vs
  proof (induction vs)
    case (Cons v vs)
    then show ?case by (cases "wi_status v") (simp_all add: board_columns_def)
  qed (simp add: board_columns_def)
  then show "mset (concat (map (\<lambda>column. filter (\<lambda>i. wi_status i = fst column) (visibleIssues st issues)) board_columns)) =
     mset (visibleIssues st issues)" .
  show "mset (concat (map ui_links (Board issues projectId writable isPending st))) =
     mset (map (\<lambda>i. ''/projects/'' @ projectId @ ''/issues/'' @ wi_id i) (visibleIssues st issues))"
    unfolding Board_links mset_map m by (simp add: issue_address_def [abs_def])
qed

section \<open>The roadmap\<close>

text \<open>A date as \<open>YYYY-MM-DD\<close> with a month and a day of the calendar.\<close>

definition date_only :: "string \<Rightarrow> bool" where
  "date_only s \<longleftrightarrow> match_re DATE_RE s \<and>
     valid_date (int (dec_value 0 (slice 0 4 s))) (dec_value 0 (slice 5 7 s)) (int (dec_value 0 (slice 8 10 s)))"

lemma date_only_month:
  assumes "date_only s"
  obtains m where "utc_month other (s @ ''T00:00:00Z'') = Some m" "0 \<le> m" "m \<le> 11"
proof -
  let ?y = "dec_value 0 (slice 0 4 s)" and ?mo = "dec_value 0 (slice 5 7 s)" and ?d = "dec_value 0 (slice 8 10 s)"
  have re: "match_re DATE_RE s" and v: "valid_date (int ?y) ?mo (int ?d)" using assms by (auto simp: date_only_def)
  have len: "length s = 10" using match_re_length [OF re] by (simp add: DATE_RE_def)
  define clock_re where "clock_re = lit CHR ''T'' # replicate 2 is_digit @ lit CHR '':'' # replicate 2 is_digit
      @ lit CHR '':'' # replicate 2 is_digit @ [lit CHR ''Z'']"
  have "ISO_SECONDS_RE = DATE_RE @ clock_re" by (simp add: ISO_SECONDS_RE_def DATE_RE_def clock_re_def)
  moreover have "match_re clock_re ''T00:00:00Z''" unfolding clock_re_def by code_simp
  moreover have "match_re (DATE_RE @ clock_re) (s @ ''T00:00:00Z'') = (match_re DATE_RE s \<and> match_re clock_re ''T00:00:00Z'')"
    by (rule match_re_append) (simp add: len DATE_RE_def)
  ultimately have iso: "match_re ISO_SECONDS_RE (s @ ''T00:00:00Z'')" using re by simp
  have parts: "slice a b (s @ t) = slice a b s" if "b \<le> 10" for a b t
    using that len by (simp add: slice_def)
  have md: "1 \<le> ?mo" "?mo \<le> 12" "1 \<le> ?d" "?d \<le> 31"
    using v days_in_month_bounds [of ?mo "int ?y"] by (auto simp: valid_date_def)
  have clock: "slice 11 13 (s @ ''T00:00:00Z'') = ''00''" "slice 14 16 (s @ ''T00:00:00Z'') = ''00''"
    "slice 17 19 (s @ ''T00:00:00Z'') = ''00''" "slice 20 23 (s @ ''T00:00:00Z'') = []"
    using len by (simp_all add: slice_def)
  have zero: "dec_value 0 ''00'' = 0" by code_simp
  have "date_parse (s @ ''T00:00:00Z'') = Some (make_day (int ?y) ?mo (int ?d) * ms_per_day)"
    unfolding date_parse_def Let_def clock zero using md by (simp add: parts)
  moreover obtain y m d where c: "civil_of_day (make_day (int ?y) ?mo (int ?d) * ms_per_day div ms_per_day) = (y, m, d)"
    using prod_cases3 by blast
  ultimately have "utc_month other (s @ ''T00:00:00Z'') = Some (int m - 1)" using iso by (simp add: utc_month_def)
  moreover have "1 \<le> m" "m \<le> 12" using make_day_of_civil(1) [OF c] by (simp_all add: valid_date_def)
  ultimately show thesis using that by simp
qed

lemma month_known:
  "v = None \<or> v = Some [] \<or> opt_ok date_only v \<Longrightarrow>
   \<exists>a. (case v of None \<Rightarrow> Some k | Some s \<Rightarrow> if s = [] then Some k else utc_month other (s @ ''T00:00:00Z'')) = Some a"
  by (cases v) (auto elim: date_only_month)

lemma length_iso: "24 \<le> length (to_iso_string t)"
  by (simp add: to_iso_string_def Let_def iso_date_def iso_year_def pad6_def split: prod.split)

text \<open>
  C40: The lanes of the roadmap: an epic whose dates are \<open>YYYY-MM-DD\<close> or missing has a lane of
  at least one column inside the six columns of the grid; an epic with a start date as the
  issue service sends it (a \<open>Date\<close> of the database, so a full timestamp) has neither a first
  column nor a width when the browser does not read the text that \<open>laneFor\<close> makes of it, and one
  with only such a target date has a first column inside the grid but no width.
\<close>

theorem roadmap_lanes:
  "(opt_ok (\<lambda>s. s = [] \<or> date_only s) (we_startDate epic) \<and> opt_ok (\<lambda>s. s = [] \<or> date_only s) (we_targetDate epic) \<longrightarrow>
     (\<exists>start width. laneFor other epic index = (Some start, Some width) \<and>
        1 \<le> start \<and> start \<le> 6 \<and> 1 \<le> width \<and> start + width \<le> 7)) \<and>
   (we_startDate epic = Some (to_iso_string t) \<and> other (to_iso_string t @ ''T00:00:00Z'') = None \<longrightarrow>
     laneFor other epic index = (None, None)) \<and>
   (opt_ok (\<lambda>s. s = [] \<or> date_only s) (we_startDate epic) \<and> we_targetDate epic = Some (to_iso_string t) \<and>
      other (to_iso_string t @ ''T00:00:00Z'') = None \<longrightarrow>
     (\<exists>start. laneFor other epic index = (Some start, None) \<and> 1 \<le> start \<and> start \<le> 6))"
proof -
  let ?ok = "opt_ok (\<lambda>s. s = [] \<or> date_only s)"
  let ?start = "case we_startDate epic of None \<Rightarrow> Some (int (index mod 4) + 6)
      | Some s \<Rightarrow> if s = [] then Some (int (index mod 4) + 6) else utc_month other (s @ ''T00:00:00Z'')"
  let ?stop = "case we_targetDate epic of None \<Rightarrow> map_option (\<lambda>m. m + 1) ?start
      | Some s \<Rightarrow> if s = [] then map_option (\<lambda>m. m + 1) ?start else utc_month other (s @ ''T00:00:00Z'')"
  have start: "\<exists>a. ?start = Some a" if "?ok (we_startDate epic)"
    using that by (intro month_known) (cases "we_startDate epic", auto)
  have stop: "\<exists>b. ?stop = Some b" if "?ok (we_targetDate epic)" "?start = Some a" for a
    unfolding that(2) option.map using that(1) by (intro month_known) (cases "we_targetDate epic", auto)
  have unread: "to_iso_string t \<noteq> [] \<and> utc_month other (to_iso_string t @ ''T00:00:00Z'') = None"
    if "other (to_iso_string t @ ''T00:00:00Z'') = None"
  proof -
    have len: "24 \<le> length (to_iso_string t)" by (rule length_iso)
    then have "\<not> match_re ISO_SECONDS_RE (to_iso_string t @ ''T00:00:00Z'')"
      using match_re_length [of ISO_SECONDS_RE "to_iso_string t @ ''T00:00:00Z''"] by (auto simp: ISO_SECONDS_RE_def)
    then show ?thesis using that len by (auto simp: utc_month_def)
  qed
  have lane: "laneFor other epic index = (Some (max 1 (min 6 (a - 5))),
      map_option (\<lambda>b. max 1 (max (max 1 (min 6 (a - 5)) + 1) (min 7 (b - 5 + 1)) - max 1 (min 6 (a - 5)))) ?stop)"
    if "?start = Some a" for a
    unfolding laneFor_def Let_def that by simp
  show ?thesis
  proof (intro conjI impI)
    assume dates: "?ok (we_startDate epic) \<and> ?ok (we_targetDate epic)"
    obtain a where a: "?start = Some a" using start dates by blast
    obtain b where b: "?stop = Some b" using stop [OF _ a] dates by blast
    show "\<exists>start width. laneFor other epic index = (Some start, Some width) \<and>
        1 \<le> start \<and> start \<le> 6 \<and> 1 \<le> width \<and> start + width \<le> 7"
      unfolding lane [OF a] b by simp
  next
    assume "we_startDate epic = Some (to_iso_string t) \<and> other (to_iso_string t @ ''T00:00:00Z'') = None"
    then show "laneFor other epic index = (None, None)" using unread by (simp add: laneFor_def Let_def)
  next
    assume h: "?ok (we_startDate epic) \<and> we_targetDate epic = Some (to_iso_string t) \<and>
      other (to_iso_string t @ ''T00:00:00Z'') = None"
    obtain a where a: "?start = Some a" using start h by blast
    have "?stop = None" using h unread by simp
    then show "\<exists>start. laneFor other epic index = (Some start, None) \<and> 1 \<le> start \<and> start \<le> 6"
      unfolding lane [OF a] by simp
  qed
qed

definition example_epic :: web_epic where
  "example_epic = \<lparr>we_id = ''e'', we_projectId = ''p'', we_name = ''Launch'', we_color = BLUE,
     we_startDate = Some ''2026-07-01'', we_targetDate = Some ''2026-12-31'', we_createdAt = [], we_updatedAt = []\<rparr>"

theorem roadmap_lanes_witness:
  "date_only ''2026-07-01'' \<and> date_only ''2026-12-31'' \<and> laneFor (\<lambda>_. None) example_epic 0 = (Some 1, Some 6) \<and>
   (\<exists>start width. laneFor (\<lambda>_. None) example_epic 0 = (Some start, Some width) \<and> 1 \<le> start \<and> start + width \<le> 7)"
proof -
  have ok: "date_only ''2026-07-01''" "date_only ''2026-12-31''" by code_simp+
  moreover have "laneFor (\<lambda>_. None) example_epic 0 = (Some 1, Some 6)" unfolding example_epic_def by code_simp
  ultimately show ?thesis
    using conjunct1 [OF roadmap_lanes [of example_epic "\<lambda>_. None" 0 0]] by (simp add: example_epic_def)
qed

definition archived_project :: web_project where
  "archived_project = \<lparr>wp_id = ''p'', wp_workspaceId = ''w'', wp_name = ''Lab'', wp_key = ''LAB'', wp_description = None,
     wp_status = ArchivedProject, wp_createdByUserId = ''u'', wp_createdAt = [], wp_updatedAt = []\<rparr>"

definition loaded :: "'a \<Rightarrow> 'a query_result" where
  "loaded d = \<lparr>qr_isPending = False, qr_isError = False, qr_data = Some d, qr_error = None\<rparr>"

theorem read_only_project_witness:
  "wp_status archived_project = ArchivedProject \<and>
   set (view_events (ProjectRoadmapPage (\<lambda>_. None) ''/projects/p/roadmap'' ''p'' (loaded [example_epic]) (loaded archived_project) False))
     \<subseteq> {RetryPage}"
proof
  show "wp_status archived_project = ArchivedProject" by (simp add: archived_project_def)
  have "\<not> project_writable (loaded archived_project)"
    by (simp add: project_writable_def loaded_def archived_project_def)
  from read_only_project [OF this]
  show "set (view_events (ProjectRoadmapPage (\<lambda>_. None) ''/projects/p/roadmap'' ''p'' (loaded [example_epic])
      (loaded archived_project) False)) \<subseteq> {RetryPage}" by blast
qed

end
