(* ===== verification/Startup.thy ===== *)
theory Startup
  imports Transition_System
begin

text \<open>
  \<open>Database.onModuleInit\<close> (\<open>apps/issue-service-nest/src/infrastructure/database.ts\<close>): several
  replicas of the issue service start together and each applies the SQL files of the migrations
  directory in the order of their names, under an advisory lock. A step is what one \<open>await\<close>
  of one replica does; the server frees the lock of a session that ends.
\<close>

section \<open>The files\<close>

definition MIGRATION_LOCK_KEY :: nat where
  "MIGRATION_LOCK_KEY = 7004001"

definition is_sql :: "string \<Rightarrow> bool" where
  "is_sql name \<longleftrightarrow> 4 \<le> length name \<and> drop (length name - 4) name = ''.sql''"

definition migrationFiles :: "string list \<Rightarrow> string list" where
  "migrationFiles directory = sort (filter is_sql directory)"

text \<open>The constructor: \<open>None\<close> is the thrown error. An empty variable counts as missing.\<close>

definition connection_string :: "string option \<Rightarrow> string option" where
  "connection_string DATABASE_URL =
     (case DATABASE_URL of None \<Rightarrow> None | Some url \<Rightarrow> if url = [] then None else Some url)"

section \<open>One replica\<close>

text \<open>
  Where a replica is: before \<open>pool.connect()\<close>, waiting for \<open>pg_advisory_lock\<close>, in the loop with the
  files still to run, in the inner \<open>finally\<close> (with whether the loop failed), and done.
\<close>

datatype replica = Connecting | AwaitingLock | Migrating "string list" | Unlocking bool | Started | StartFailed

text \<open>
  \<open>su_holder\<close> is the session that holds the lock; \<open>su_log\<close> lists the committed migrations with
  the replica that ran them. A migration file runs as one implicit transaction.
\<close>

record startup =
  su_replicas :: "nat \<Rightarrow> replica"
  su_holder :: "nat option"
  su_log :: "(nat \<times> string) list"

definition set_replica :: "nat \<Rightarrow> replica \<Rightarrow> startup \<Rightarrow> startup" where
  "set_replica i r s = s\<lparr>su_replicas := (su_replicas s)(i := r)\<rparr>"

datatype startup_event =
    ConnectOk
  | ConnectFails
  | LockGranted
  | LockFails
  | FileOk
  | FileFails
  | FileAnswerLost
  | LoopEnds
  | UnlockOk
  | UnlockFails

text \<open>
  \<open>LockGranted\<close> needs a free lock. \<open>FileFails\<close>: the file cannot be read or its SQL is rejected and
  rolled back; \<open>FileAnswerLost\<close>: it was committed but the connection broke. After the inner
  \<open>finally\<close>, \<open>client.release(true)\<close> ends the session, so the lock is free in either case. When the
  connection broke, the rest of the replica's code touches nothing that is shared, so its
  \<open>UnlockFails\<close> stands for the moment at which the server ends the session.
\<close>

fun startup_step :: "string list \<Rightarrow> nat \<Rightarrow> startup_event \<Rightarrow> startup \<Rightarrow> startup option" where
  "startup_step files i ConnectOk s =
     (if su_replicas s i = Connecting then Some (set_replica i AwaitingLock s) else None)"
| "startup_step files i ConnectFails s =
     (if su_replicas s i = Connecting then Some (set_replica i StartFailed s) else None)"
| "startup_step files i LockGranted s =
     (if su_replicas s i = AwaitingLock \<and> su_holder s = None
      then Some (set_replica i (Migrating files) (s\<lparr>su_holder := Some i\<rparr>)) else None)"
| "startup_step files i LockFails s =
     (if su_replicas s i = AwaitingLock then Some (set_replica i StartFailed s) else None)"
| "startup_step files i FileOk s =
     (case su_replicas s i of
        Migrating (f # fs) \<Rightarrow> Some (set_replica i (Migrating fs) (s\<lparr>su_log := su_log s @ [(i, f)]\<rparr>))
      | _ \<Rightarrow> None)"
| "startup_step files i FileFails s =
     (case su_replicas s i of
        Migrating (f # fs) \<Rightarrow> Some (set_replica i (Unlocking True) s)
      | _ \<Rightarrow> None)"
| "startup_step files i FileAnswerLost s =
     (case su_replicas s i of
        Migrating (f # fs) \<Rightarrow> Some (set_replica i (Unlocking True) (s\<lparr>su_log := su_log s @ [(i, f)]\<rparr>))
      | _ \<Rightarrow> None)"
| "startup_step files i LoopEnds s =
     (if su_replicas s i = Migrating [] then Some (set_replica i (Unlocking False) s) else None)"
| "startup_step files i UnlockOk s =
     (case su_replicas s i of
        Unlocking failed \<Rightarrow>
          Some (set_replica i (if failed then StartFailed else Started) (s\<lparr>su_holder := None\<rparr>))
      | _ \<Rightarrow> None)"
| "startup_step files i UnlockFails s =
     (case su_replicas s i of
        Unlocking failed \<Rightarrow> Some (set_replica i StartFailed (s\<lparr>su_holder := None\<rparr>))
      | _ \<Rightarrow> None)"

definition deployment :: startup where
  "deployment = \<lparr>su_replicas = (\<lambda>_. Connecting), su_holder = None, su_log = []\<rparr>"

section \<open>The serial specification\<close>

text \<open>
  Replicas one after the other: a step of replica \<open>i\<close> appends the first \<open>n\<close> files; when these
  are all, it may count as started.
\<close>

inductive serial_step ::
    "string list \<Rightarrow> (nat \<times> string) list \<times> nat set \<Rightarrow> (nat \<times> string) list \<times> nat set \<Rightarrow> bool" for files where
  serially: "\<lbrakk>i \<notin> fst ` set applied; i \<notin> started; n \<le> length files;
    started' = started \<or> (n = length files \<and> started' = insert i started)\<rbrakk> \<Longrightarrow>
    serial_step files (applied, started) (applied @ map (Pair i) (take n files), started')"

text \<open>What has been settled: the work of the replica that holds the lock is still to come.\<close>

definition settled :: "startup \<Rightarrow> (nat \<times> string) list \<times> nat set" where
  "settled s = (filter (\<lambda>(i, f). Some i \<noteq> su_holder s) (su_log s), {i. su_replicas s i = Started})"

section \<open>Invariant\<close>

definition in_section :: "replica \<Rightarrow> bool" where
  "in_section r \<longleftrightarrow> (\<exists>fs. r = Migrating fs) \<or> (\<exists>failed. r = Unlocking failed)"

text \<open>What a replica has applied so far, as a number of files, fits its place in the code.\<close>

definition progress_ok :: "string list \<Rightarrow> replica \<Rightarrow> nat \<Rightarrow> bool" where
  "progress_ok files r n \<longleftrightarrow>
     n \<le> length files \<and> (\<forall>fs. r = Migrating fs \<longrightarrow> fs = drop n files) \<and>
     (r = Unlocking False \<or> r = Started \<longrightarrow> n = length files) \<and> (r = Connecting \<or> r = AwaitingLock \<longrightarrow> n = 0)"

definition startup_inv :: "string list \<Rightarrow> startup \<Rightarrow> bool" where
  "startup_inv files s \<longleftrightarrow>
     (\<forall>i. in_section (su_replicas s i) \<longleftrightarrow> su_holder s = Some i) \<and>
     (\<forall>i. \<exists>n. progress_ok files (su_replicas s i) n \<and>
        filter (\<lambda>(j, f). j = i) (su_log s) = map (Pair i) (take n files)) \<and>
     (\<forall>i. su_holder s = Some i \<longrightarrow>
        su_log s = filter (\<lambda>(j, f). j \<noteq> i) (su_log s) @ filter (\<lambda>(j, f). j = i) (su_log s))"


abbreviation entries_of :: "nat \<Rightarrow> (nat \<times> string) list \<Rightarrow> (nat \<times> string) list" where
  "entries_of i \<equiv> filter (\<lambda>(j, f). j = i)"

abbreviation entries_of_others :: "nat \<Rightarrow> (nat \<times> string) list \<Rightarrow> (nat \<times> string) list" where
  "entries_of_others i \<equiv> filter (\<lambda>(j, f). j \<noteq> i)"

lemma entries_Pair [simp]:
  "entries_of i (map (Pair j) xs) = (if i = j then map (Pair j) xs else [])"
  "entries_of_others i (map (Pair j) xs) = (if i = j then [] else map (Pair j) xs)"
  by (auto simp: filter_empty_conv filter_True)

lemma no_entries: "entries_of i xs = [] \<Longrightarrow> entries_of_others i xs = xs"
  by (auto simp: filter_empty_conv filter_id_conv)

text \<open>A step of replica \<open>i\<close> that appends its next files and perhaps takes or frees the lock.\<close>

lemma inv_update:
  assumes inv: "startup_inv files s"
    and t: "t = set_replica i r (s\<lparr>su_holder := h, su_log := su_log s @ map (Pair i) xs\<rparr>)"
    and place: "in_section r \<longleftrightarrow> h = Some i" "\<And>j. j \<noteq> i \<Longrightarrow> su_holder s = Some j \<longleftrightarrow> h = Some j"
    and files: "\<And>n. progress_ok files (su_replicas s i) n \<Longrightarrow>
      progress_ok files r (n + length xs) \<and> take (n + length xs) files = take n files @ xs"
    and lock: "su_holder s = Some i \<or> xs = [] \<and> (h = Some i \<longrightarrow> su_replicas s i = AwaitingLock)"
  shows "startup_inv files t"
proof -
  obtain n where n: "progress_ok files (su_replicas s i) n" "entries_of i (su_log s) = map (Pair i) (take n files)"
    using inv unfolding startup_inv_def by meson
  have "\<exists>n. progress_ok files (su_replicas t j) n \<and> entries_of j (su_log t) = map (Pair j) (take n files)" for j
  proof (cases "j = i")
    case True
    then show ?thesis using n files [OF n(1)] by (intro exI [of _ "n + length xs"]) (simp add: t set_replica_def)
  next
    case False
    then show ?thesis using inv by (auto simp: t set_replica_def startup_inv_def)
  qed
  moreover have "in_section (su_replicas t j) \<longleftrightarrow> su_holder t = Some j" for j
    using inv place by (cases "j = i") (auto simp: t set_replica_def startup_inv_def)
  moreover have "su_log t = entries_of_others j (su_log t) @ entries_of j (su_log t)" if "su_holder t = Some j" for j
  proof (cases "j = i")
    case True
    show ?thesis
    proof (cases "su_holder s = Some i")
      case True
      then show ?thesis using inv \<open>j = i\<close> by (simp add: t set_replica_def startup_inv_def)
    next
      case False
      then have "su_replicas s i = AwaitingLock" "xs = []" using lock that \<open>j = i\<close> by (auto simp: t set_replica_def)
      then have "entries_of i (su_log s) = []" using n by (simp add: progress_ok_def)
      then show ?thesis using \<open>j = i\<close> \<open>xs = []\<close> no_entries by (simp add: t set_replica_def)
    qed
  next
    case False
    then have "su_holder s = Some j" "xs = []" using place(2) [OF False] that lock by (auto simp: t set_replica_def)
    then show ?thesis using inv by (simp add: t set_replica_def startup_inv_def)
  qed
  ultimately show ?thesis by (simp add: startup_inv_def)
qed

lemma progress_simps [simp]:
  "progress_ok files Connecting n \<longleftrightarrow> n = 0" "progress_ok files AwaitingLock n \<longleftrightarrow> n = 0"
  "progress_ok files (Migrating fs) n \<longleftrightarrow> n \<le> length files \<and> fs = drop n files"
  "progress_ok files (Unlocking failed) n \<longleftrightarrow> n \<le> length files \<and> (\<not> failed \<longrightarrow> n = length files)"
  "progress_ok files Started n \<longleftrightarrow> n = length files" "progress_ok files StartFailed n \<longleftrightarrow> n \<le> length files"
  by (auto simp: progress_ok_def)

lemma in_section_simps [simp]:
  "\<not> in_section Connecting" "\<not> in_section AwaitingLock" "in_section (Migrating fs)" "in_section (Unlocking b)"
  "\<not> in_section Started" "\<not> in_section StartFailed"
  by (simp_all add: in_section_def)

lemma next_file: "f # fs = drop n files \<Longrightarrow> n < length files \<and> take (Suc n) files = take n files @ [f] \<and> fs = drop (Suc n) files"
  by (metis Cons_nth_drop_Suc drop_eq_Nil leI list.distinct(1) list.inject take_Suc_conv_app_nth)

lemma holder_of: "startup_inv files s \<Longrightarrow> in_section (su_replicas s i) \<longleftrightarrow> su_holder s = Some i"
  by (simp add: startup_inv_def)

lemma same_holder [simp]: "su_holder s = h \<Longrightarrow> s\<lparr>su_holder := h\<rparr> = s"
  by auto

lemma step_inv:
  assumes inv: "startup_inv files s" and step: "startup_step files i ev s = Some t"
  shows "startup_inv files t"
proof -
  note holder = holder_of [OF inv, of i]
  show ?thesis
  proof (cases ev)
    case ConnectOk
    then show ?thesis using step holder
      by (intro inv_update [OF inv, where t = t and i = i and r = AwaitingLock and h = "su_holder s" and xs = "[]"]) (auto split: if_splits)
  next
    case ConnectFails
    then show ?thesis using step holder
      by (intro inv_update [OF inv, where t = t and i = i and r = StartFailed and h = "su_holder s" and xs = "[]"]) (auto split: if_splits)
  next
    case LockGranted
    then show ?thesis using step holder
      by (intro inv_update [OF inv, where t = t and i = i and r = "Migrating files" and h = "Some i" and xs = "[]"]) (auto split: if_splits)
  next
    case LockFails
    then show ?thesis using step holder
      by (intro inv_update [OF inv, where t = t and i = i and r = StartFailed and h = "su_holder s" and xs = "[]"]) (auto split: if_splits)
  next
    case FileOk
    then obtain f fs where r: "su_replicas s i = Migrating (f # fs)"
      using step by (auto split: replica.splits list.splits)
    then show ?thesis using step holder FileOk next_file [of f fs _ files, THEN conjunct1, THEN Suc_leI]
        next_file [of f fs _ files, THEN conjunct2]
      by (intro inv_update [OF inv, where t = t and i = i and r = "Migrating fs" and h = "su_holder s" and xs = "[f]"]) auto
  next
    case FileFails
    then obtain f fs where r: "su_replicas s i = Migrating (f # fs)"
      using step by (auto split: replica.splits list.splits)
    then show ?thesis using step holder FileFails
      by (intro inv_update [OF inv, where t = t and i = i and r = "Unlocking True" and h = "su_holder s" and xs = "[]"]) auto
  next
    case FileAnswerLost
    then obtain f fs where r: "su_replicas s i = Migrating (f # fs)"
      using step by (auto split: replica.splits list.splits)
    then show ?thesis using step holder FileAnswerLost next_file [of f fs _ files, THEN conjunct1, THEN Suc_leI]
        next_file [of f fs _ files, THEN conjunct2]
      by (intro inv_update [OF inv, where t = t and i = i and r = "Unlocking True" and h = "su_holder s" and xs = "[f]"]) auto
  next
    case LoopEnds
    then show ?thesis using step holder
      by (intro inv_update [OF inv, where t = t and i = i and r = "Unlocking False" and h = "su_holder s" and xs = "[]"]) (auto split: if_splits)
  next
    case UnlockOk
    then obtain failed where r: "su_replicas s i = Unlocking failed" using step by (auto split: replica.splits)
    then show ?thesis using step holder UnlockOk
      by (intro inv_update [OF inv, where t = t and i = i and r = "if failed then StartFailed else Started" and h = None and xs = "[]"]) auto
  next
    case UnlockFails
    then obtain failed where r: "su_replicas s i = Unlocking failed" using step by (auto split: replica.splits)
    then show ?thesis using step holder UnlockFails
      by (intro inv_update [OF inv, where t = t and i = i and r = StartFailed and h = None and xs = "[]"]) auto
  qed
qed

lemma deployment_inv: "startup_inv files deployment"
  by (auto simp: startup_inv_def deployment_def)

section \<open>The simulation\<close>

lemma settled_set_replica:
  "fst (settled (set_replica i r s)) = fst (settled s)"
  "snd (settled (set_replica i r s)) = (if r = Started then insert i (snd (settled s)) else snd (settled s) - {i})"
  by (auto simp: settled_def set_replica_def)

text \<open>When the lock is freed, the holder's entries follow what was settled before.\<close>

lemma release_settles:
  assumes inv: "startup_inv files s" and "su_replicas s i = Unlocking failed"
    and "r = StartFailed \<or> r = Started \<and> \<not> failed"
  shows "serial_step files (settled s) (settled (set_replica i r (s\<lparr>su_holder := None\<rparr>)))"
proof -
  have h: "su_holder s = Some i" using holder_of [OF inv, of i] assms(2) by simp
  obtain n where n: "n \<le> length files" "\<not> failed \<longrightarrow> n = length files" "entries_of i (su_log s) = map (Pair i) (take n files)"
    using inv assms(2) unfolding startup_inv_def by (metis progress_simps(4))
  have log: "su_log s = entries_of_others i (su_log s) @ map (Pair i) (take n files)"
    using inv h n(3) unfolding startup_inv_def by metis
  have before: "settled s = (entries_of_others i (su_log s), {j. su_replicas s j = Started})"
    by (auto simp: settled_def h intro!: filter_cong)
  have after: "settled (set_replica i r (s\<lparr>su_holder := None\<rparr>)) =
      (entries_of_others i (su_log s) @ map (Pair i) (take n files),
       if r = Started then insert i {j. su_replicas s j = Started} else {j. su_replicas s j = Started})"
    using log assms(2,3) by (auto simp: settled_def set_replica_def)
  show ?thesis
    unfolding before after using n assms(2,3)
    by (intro serial_step.serially) auto
qed

lemma step_simulates:
  assumes inv: "startup_inv files s" and step: "startup_step files i ev s = Some t"
  shows "settled t = settled s \<or> serial_step files (settled s) (settled t)"
proof -
  note h = holder_of [OF inv, of i]
  obtain n where n: "progress_ok files (su_replicas s i) n" "entries_of i (su_log s) = map (Pair i) (take n files)"
    using inv unfolding startup_inv_def by meson
  show ?thesis
  proof (cases ev)
    case LockGranted
    then have "su_holder s = None" "entries_of i (su_log s) = []" "t = set_replica i (Migrating files) (s\<lparr>su_holder := Some i\<rparr>)"
      using step n by (auto split: if_splits)
    moreover have "entries_of_others i (su_log s) = su_log s" using calculation(2) by (rule no_entries)
    ultimately show ?thesis using step LockGranted by (auto simp: settled_def set_replica_def split: if_splits)
  next
    case UnlockOk
    then obtain failed where "su_replicas s i = Unlocking failed"
      "t = set_replica i (if failed then StartFailed else Started) (s\<lparr>su_holder := None\<rparr>)"
      using step by (auto split: replica.splits)
    then show ?thesis using release_settles [OF inv] by auto
  next
    case UnlockFails
    then obtain failed where "su_replicas s i = Unlocking failed"
      "t = set_replica i StartFailed (s\<lparr>su_holder := None\<rparr>)"
      using step by (auto split: replica.splits)
    then show ?thesis using release_settles [OF inv] by auto
  qed (use step h in \<open>auto simp: settled_def set_replica_def split: if_splits replica.splits list.splits\<close>)
qed

definition replica_step :: "string list \<Rightarrow> nat \<times> startup_event \<Rightarrow> startup \<Rightarrow> startup option" where
  "replica_step files = (\<lambda>(i, ev). startup_step files i ev)"

lemma replica_step_simp [simp]: "replica_step files (i, ev) s = startup_step files i ev s"
  by (simp add: replica_step_def)

interpretation start: simulation "replica_step files" "startup_inv files" settled "serial_step files" for files
  by unfold_locales (auto simp: step_inv dest: step_simulates)

text \<open>The steps replica \<open>j\<close> can still take.\<close>

definition steps_left :: "string list \<Rightarrow> replica \<Rightarrow> nat" where
  "steps_left files r = (case r of Connecting \<Rightarrow> length files + 4 | AwaitingLock \<Rightarrow> length files + 3
     | Migrating fs \<Rightarrow> length fs + 2 | Unlocking failed \<Rightarrow> 1 | _ \<Rightarrow> 0)"

lemma startup_step_works:
  "startup_step files i ev s = Some t \<Longrightarrow>
   steps_left files (su_replicas t j) + of_bool (i = j) \<le> steps_left files (su_replicas s j)"
  by (cases ev) (auto simp: steps_left_def set_replica_def split: if_splits replica.splits list.splits)

interpretation progress: settling "replica_step files" "startup_inv files"
    "\<lambda>s. steps_left files (su_replicas s j)" "\<lambda>(i, ev). i = j" "\<lambda>_. 0" for files j
proof unfold_locales
  fix s t :: startup and ev :: "nat \<times> startup_event"
  assume "replica_step files ev s = Some t"
  then show "steps_left files (su_replicas t j) + of_bool (case ev of (i, ev) \<Rightarrow> i = j)
      \<le> steps_left files (su_replicas s j) + 0"
    using startup_step_works [of files "fst ev" "snd ev" s t j] by (cases ev) simp
qed

section \<open>Property\<close>

text \<open>
  C14: However many replicas start together, their migrations are serial: every run implements a
  run of the specification in which a replica runs an initial part of the files, in their order
  and without another replica between, and counts as started only after all of them. A replica
  that has started has run every file, and each start ends after at most four steps more than
  there are files.
\<close>

theorem startup_refines_serial:
  assumes "run_events (replica_step files) evs deployment = Some s"
  shows "(serial_step files)\<^sup>*\<^sup>* ([], {}) (settled s) \<and>
    (su_replicas s j = Started \<longrightarrow> entries_of j (su_log s) = map (Pair j) files) \<and>
    length (filter (\<lambda>(i, ev). i = j) evs) \<le> length files + 4"
proof (intro conjI impI)
  have "settled deployment = ([], {})" by (simp add: settled_def deployment_def)
  then show "(serial_step files)\<^sup>*\<^sup>* ([], {}) (settled s)"
    using start.run_refines [OF deployment_inv assms] by simp
  show "entries_of j (su_log s) = map (Pair j) files" if "su_replicas s j = Started"
  proof -
    obtain n where "progress_ok files (su_replicas s j) n" "entries_of j (su_log s) = map (Pair j) (take n files)"
      using start.run_inv [OF deployment_inv assms] unfolding startup_inv_def by meson
    then show ?thesis using that by simp
  qed
  show "length (filter (\<lambda>(i, ev). i = j) evs) \<le> length files + 4"
    using progress.run_works [OF deployment_inv assms, of j] by (simp add: deployment_def steps_left_def)
qed

definition example_files :: "string list" where
  "example_files = migrationFiles [''003_planning.sql'', ''README.md'', ''001_init.sql'']"

lemma example_files_order: "example_files = [''001_init.sql'', ''003_planning.sql'']"
  unfolding example_files_def by code_simp

definition example_start :: "(nat \<times> startup_event) list" where
  "example_start = [(0, ConnectOk), (1, ConnectOk), (0, LockGranted), (0, FileOk), (0, FileOk), (0, LoopEnds), (0, UnlockOk)]"

definition first_started :: startup where
  "first_started = the (run_events (replica_step example_files) example_start deployment)"

lemma first_started_run:
  "run_events (replica_step example_files) example_start deployment = Some first_started"
  "su_replicas first_started 0 = Started" "su_replicas first_started 1 = AwaitingLock"
proof -
  have "\<exists>s. run_events (replica_step example_files) example_start deployment = Some s \<and>
      su_replicas s 0 = Started \<and> su_replicas s 1 = AwaitingLock"
    by (simp add: example_start_def example_files_order deployment_def set_replica_def)
  then show "run_events (replica_step example_files) example_start deployment = Some first_started"
    "su_replicas first_started 0 = Started" "su_replicas first_started 1 = AwaitingLock"
    unfolding first_started_def by auto
qed

theorem startup_refines_serial_witness:
  "run_events (replica_step example_files) example_start deployment = Some first_started \<and>
   (serial_step example_files)\<^sup>*\<^sup>* ([], {}) (settled first_started) \<and> su_replicas first_started 0 = Started \<and>
   entries_of 0 (su_log first_started) = [(0, ''001_init.sql''), (0, ''003_planning.sql'')]"
  using startup_refines_serial [OF first_started_run(1), of 0] first_started_run by (simp add: example_files_order)

end
