(* ===== verification/Processes.thy ===== *)
theory Processes
  imports Outbox Issue_Server Gateway_Server
begin

text \<open>
  The processes around the services: what they read from their environment, the timer that
  polls the outbox (\<open>infrastructure/outbox.publisher.ts\<close>), and the access logs of the issue
  service (\<open>main.ts\<close>) and of the gateway (\<open>presentation/common/logging/http-observability.ts\<close>).
\<close>

section \<open>The poll timer\<close>

text \<open>\<open>filter(Boolean)\<close> keeps the texts that are not empty.\<close>

definition kafka_brokers :: "string option \<Rightarrow> string list" where
  "kafka_brokers KAFKA_BROKERS =
     filter (\<lambda>broker. broker \<noteq> [])
       (map trim (split_on (CHR '','') (case KAFKA_BROKERS of None \<Rightarrow> ''localhost:9092'' | Some s \<Rightarrow> s)))"

text \<open>
  The fields of the publisher; \<open>pb_polls\<close> counts the polls in flight and \<open>pb_disconnected\<close> the
  calls of \<open>disconnect\<close>. A poll that has begun runs on while other events come in.
\<close>

record publisher =
  pb_timer :: bool
  pb_running :: bool
  pb_connected :: bool
  pb_polls :: nat
  pb_disconnected :: nat

definition new_publisher :: publisher where
  "new_publisher = \<lparr>pb_timer = False, pb_running = False, pb_connected = False, pb_polls = 0, pb_disconnected = 0\<rparr>"

definition begin_poll :: "publisher \<Rightarrow> publisher" where
  "begin_poll p = (if pb_running p then p else p\<lparr>pb_running := True, pb_polls := pb_polls p + 1\<rparr>)"

definition onModuleInit :: "publisher \<Rightarrow> publisher" where
  "onModuleInit p = begin_poll (p\<lparr>pb_timer := True\<rparr>)"

text \<open>A timer that was cleared does not fire.\<close>

definition timer_fires :: "publisher \<Rightarrow> publisher" where
  "timer_fires p = (if pb_timer p then begin_poll p else p)"

definition poll_connects :: "publisher \<Rightarrow> publisher" where
  "poll_connects p = (if pb_polls p = 0 \<or> pb_connected p then p else p\<lparr>pb_connected := True\<rparr>)"

text \<open>The end of \<open>publishBatch\<close>: its \<open>catch\<close> when it failed, and its \<open>finally\<close>.\<close>

definition poll_ends :: "bool \<Rightarrow> publisher \<Rightarrow> publisher" where
  "poll_ends failed p =
     (if pb_polls p = 0 then p
      else p\<lparr>pb_connected := pb_connected p \<and> \<not> failed, pb_running := False, pb_polls := pb_polls p - 1\<rparr>)"

definition onModuleDestroy :: "publisher \<Rightarrow> publisher" where
  "onModuleDestroy p =
     (let stopped = p\<lparr>pb_timer := False\<rparr> in
      if pb_connected p then stopped\<lparr>pb_disconnected := pb_disconnected p + 1\<rparr> else stopped)"

datatype publisher_event = ModuleInit | TimerFires | PollConnects | PollEnds bool | ModuleDestroy

fun publisher_step :: "publisher_event \<Rightarrow> publisher \<Rightarrow> publisher" where
  "publisher_step ModuleInit p = onModuleInit p"
| "publisher_step TimerFires p = timer_fires p"
| "publisher_step PollConnects p = poll_connects p"
| "publisher_step (PollEnds failed) p = poll_ends failed p"
| "publisher_step ModuleDestroy p = onModuleDestroy p"

definition publisher_run :: "publisher_event list \<Rightarrow> publisher \<Rightarrow> publisher" where
  "publisher_run events p = fold publisher_step events p"

lemmas publisher_defs = begin_poll_def onModuleInit_def timer_fires_def poll_connects_def poll_ends_def onModuleDestroy_def Let_def

definition one_poll :: "publisher \<Rightarrow> bool" where
  "one_poll p \<longleftrightarrow> pb_polls p = (if pb_running p then 1 else 0)"

lemma one_poll_step: "one_poll p \<Longrightarrow> one_poll (publisher_step event p)"
  by (cases event) (auto simp: one_poll_def publisher_defs split: if_splits)

text \<open>However often the timer fires, there is at most one poll in flight.\<close>

lemma polls_never_overlap: "one_poll p \<Longrightarrow> one_poll (publisher_run events p)"
  by (induction events arbitrary: p) (simp_all add: publisher_run_def one_poll_step)

text \<open>After the module is destroyed no poll begins, until it is set up again.\<close>

definition settling :: "publisher \<Rightarrow> publisher \<Rightarrow> bool" where
  "settling p q \<longleftrightarrow> \<not> pb_timer q \<and> pb_polls q \<le> pb_polls p"

lemma settling_step: "\<lbrakk>settling p q; event \<noteq> ModuleInit\<rbrakk> \<Longrightarrow> settling p (publisher_step event q)"
  by (cases event) (auto simp: settling_def publisher_defs)

lemma no_poll_after_destroy:
  "ModuleInit \<notin> set events \<Longrightarrow> settling p (publisher_run (ModuleDestroy # events) p)"
proof -
  assume events: "ModuleInit \<notin> set events"
  have "settling p q \<Longrightarrow> ModuleInit \<notin> set events \<Longrightarrow> settling p (publisher_run events q)" for q
  proof (induction events arbitrary: q)
    case (Cons event events)
    then have "settling p (publisher_step event q)" by (intro settling_step) auto
    then show ?case using Cons by (simp add: publisher_run_def)
  qed (simp add: publisher_run_def)
  moreover have "settling p (onModuleDestroy p)" by (simp add: settling_def publisher_defs)
  ultimately show ?thesis using events by (simp add: publisher_run_def)
qed

section \<open>Access logs\<close>

text \<open>
  The record of the issue service for a request; the times are in milliseconds. Requests that the
  secret check refused have no start time, and keep the correlation id they came with.
\<close>

definition optional_number :: "int option \<Rightarrow> jsval" where
  "optional_number v = (case v of None \<Rightarrow> Undefined | Some n \<Rightarrow> Num (Fin (of_int n)))"

definition issue_access_log :: "string \<Rightarrow> server_request \<Rightarrow> http_response \<Rightarrow> int option \<Rightarrow> int \<Rightarrow> jsval" where
  "issue_access_log verb rq answer startedAt now =
     Obj [(''service'', Str ''issue-service''),
          (''correlationId'', case rs_correlation answer of Some c \<Rightarrow> Str c | None \<Rightarrow> js_get (rq_headers rq) ''x-correlation-id''),
          (''method'', Str verb), (''path'', Str (rq_url rq)), (''status'', Num (Fin (of_nat (rs_status answer)))),
          (''durationMs'', case startedAt of
             None \<Rightarrow> Undefined
           | Some t \<Rightarrow> if t = 0 then Undefined else Num (Fin (of_int (now - t))))]"

text \<open>The record of the gateway; the correlation id is kept with the request.\<close>

definition gateway_access_log :: "string \<Rightarrow> gateway_request \<Rightarrow> gateway_response \<Rightarrow> int option \<Rightarrow> int \<Rightarrow> jsval" where
  "gateway_access_log verb rq answer startedAt now =
     (let start = (case startedAt of None \<Rightarrow> now | Some t \<Rightarrow> t) in
      Obj [(''service'', Str ''api-gateway''), (''correlationId'', Str (gs_correlation answer)),
           (''method'', Str verb), (''path'', Str (gr_url rq)), (''status'', Num (Fin (of_nat (gs_status answer)))),
           (''durationMs'', Num (Fin (of_int (now - start))))])"

section \<open>The gateway's start\<close>

definition cors_options :: "(string \<Rightarrow> string option) \<Rightarrow> jsval" where
  "cors_options env =
     Obj [(''origin'', Arr (map Str (allowedOrigins env))),
          (''methods'', Arr (map Str [''GET'', ''POST'', ''PUT'', ''PATCH'', ''DELETE'', ''OPTIONS''])),
          (''allowedHeaders'', Arr (map Str [''content-type'', ''authorization'', ''x-correlation-id''])),
          (''exposedHeaders'', Arr [Str ''x-correlation-id'']), (''credentials'', Bool True)]"

text \<open>How the limiter connects to Redis.\<close>

definition redis_options :: "string option \<Rightarrow> string \<times> jsval" where
  "redis_options REDIS_URL =
     (case REDIS_URL of None \<Rightarrow> ''redis://localhost:6379'' | Some url \<Rightarrow> url,
      Obj [(''lazyConnect'', Bool True), (''maxRetriesPerRequest'', Num (Fin 1)), (''enableOfflineQueue'', Bool False),
           (''connectTimeout'', Num (Fin 500))])"

text \<open>Every verb of a route of the gateway is one that its CORS options allow.\<close>

fun verb_name :: "http_method \<Rightarrow> string" where
  "verb_name GET = ''GET''" | "verb_name POST = ''POST''" | "verb_name PATCH = ''PATCH''"
| "verb_name DELETE = ''DELETE''"

lemma cors_allows_every_verb:
  "\<exists>ps ms. cors_options env = Obj ps \<and> js_get ps ''methods'' = Arr ms \<and> (\<forall>m. Str (verb_name m) \<in> set ms)"
proof -
  have "Str (verb_name m) \<in> Str ` {''GET'', ''POST'', ''PUT'', ''PATCH'', ''DELETE'', ''OPTIONS''}" for m
    by (cases m) auto
  then show ?thesis by (simp add: cors_options_def)
qed

end
