(* ===== verification/Spec2Isabelle.thy ===== *)
theory Spec2Isabelle
  imports Issue_Paging Outbox_Properties Issue_Promises Gateway_Session Web_Interceptors Web_Renewal Web_Frame Web_Promises Startup
    Processes
begin

text \<open>
  A verification of the TypeScript part of a Jira-like system: the issue service
  (\<open>apps/issue-service-nest\<close>), the API gateway (\<open>apps/api-gateway-nest\<close>) and the web client
  (\<open>apps/web-client\<close>). Every file name below is relative to the \<open>src\<close> directory of its application.

  The parts and how they interact. The browser runs the web client; all its requests go to
  the gateway, which checks the access token, counts attempts in Redis, and forwards each
  operation over HTTP to one of four services with the user, a correlation id and a shared
  secret in headers. The issue service keeps issues, comments, history, epics and sprints in
  PostgreSQL, asks the project service whether a user may see a project, and writes an event
  for every change into an outbox table in the same transaction; a publisher polls the
  outbox and sends the events to Kafka in the order of each issue.

  Common ground. \<open>Prelude\<close> has the result type of code that may throw (\<open>'e + 'a\<close>, \<open>Inl\<close> the error)
  and list facts; \<open>Program\<close> the combinators of asynchronous code: a program is a function of an
  environment and a world to a result and a new world. The environment gives, for each tick,
  what the code cannot decide: the clock, the UUID drawn, the answer of another service,
  what other sessions commit in between. \<open>JsText\<close>, \<open>JsValue\<close>, \<open>Dates\<close>, \<open>Codec\<close> and \<open>Url\<close> model what the
  code uses of JavaScript's strings, \<open>unknown\<close> values, \<open>Date\<close>, \<open>Buffer\<close> and
  \<open>encodeURIComponent\<close>. The contract of an encoder and its decoder is the locale \<open>partial_codec\<close>,
  interpreted on UTF-8, on base64url, on their composition (\<open>codec_chain\<close>) and on the URL code.
  \<open>Transition_System\<close> has the locales of state machines (an invariant, a simulation, a bound on
  the steps of a run), interpreted on the start of the replicas and on the client's session.

  The issue service.

  \<^item> \<open>Domain_Errors\<close>, \<open>Issue_Domain\<close>, \<open>Planning_Domain\<close> (\<open>domain/errors.ts\<close>, \<open>domain/issue.ts\<close>,
    \<open>domain/planning.ts\<close>): data, validators, the workflow, the order of dates.
  \<^item> \<open>Issue_List_Query\<close> (\<open>application/issue-list-query.ts\<close>): the list parameters and the cursor.
  \<^item> \<open>Schema\<close> (\<open>migrations\<close>): tables as lists of rows, with the constraints an INSERT checks.
  \<^item> \<open>Database\<close> (\<open>query\<close> and \<open>transaction\<close> of \<open>infrastructure/database.ts\<close>) and \<open>Startup\<close> (the constructor
    and \<open>onModuleInit\<close> of the same file, for replicas that start together).
  \<^item> \<open>Issue_Repository\<close>, \<open>Issue_Queries\<close>, \<open>Outbox\<close> (\<open>infrastructure/postgres-issue.repository.ts\<close> and
    \<open>outbox.publisher.ts\<close>), \<open>Planning_Repository\<close> (\<open>postgres-planning.repository.ts\<close>), \<open>Project_Access\<close>
    (\<open>project-access.client.ts\<close>). One SQL statement is one function on the tables and is atomic.
  \<^item> \<open>Issue_Service\<close>, \<open>Planning_Service\<close> (\<open>application\<close>) and \<open>Issue_Server\<close> (\<open>main.ts\<close>, \<open>presentation\<close>,
    \<open>health\<close>): the use cases and the HTTP face; \<open>serve\<close> is one request.
  \<^item> \<open>Issue_Store\<close> is the abstract specification: \<open>db_step\<close> lists the steps a committed operation may
    take, \<open>db_inv\<close> is the invariant they keep, \<open>evolves\<close> what survives between two reads. \<open>Protocol\<close>
    is the rely-guarantee reasoning: \<open>runs R E P p Q\<close> says that a program changes the tables
    only along \<open>R\<close>, while the other sessions (\<open>e_others\<close>, the commits before each tick) change
    them along \<open>R\<close> too. Its locale \<open>protocol\<close> is the contract of such an \<open>R\<close>; it is interpreted
    on \<open>db_steps\<close> (\<open>Issue_Refinement\<close>) and on the relations of requests that must not write
    (\<open>Issue_Guarantees\<close>), and for processes that draw UUIDs of a given set (\<open>Issue_Conflicts\<close>).
    \<open>Issue_Refinement\<close>, \<open>Outbox_Order\<close> and the \<open>_runs\<close> lemmas of the later
    theories show that every operation takes only steps of the specification; \<open>Issue_System\<close>
    puts requests and polls of several processes together.
  \<^item> \<open>Issue_Guarantees\<close>, \<open>Service_Errors\<close>, \<open>Issue_Concurrency\<close>, \<open>Issue_Conflicts\<close>, \<open>Issue_Promises\<close>,
    \<open>Issue_Paging\<close>, \<open>Outbox_Properties\<close>: the properties. No lost update, a complete audit trail,
    numbering without gaps, nothing for users without access, archived projects, answers for
    every request, traversal of the list under concurrent writes, order and leases of the outbox.
    \<open>Issue_Concurrency\<close> has requests that follow each other; \<open>Issue_Conflicts\<close> has requests that
    overlap, told apart by the UUID of the event each writes: an issue has one event of each
    version. \<open>Issue_Paging\<close> follows the calls of \<open>listIssues\<close> (\<open>follow\<close>); \<open>walk\<close> is what they come to
    on the tables that each finds. \<open>Example_World\<close> and \<open>Example_Run\<close> are the concrete worlds of
    the instances.

  The gateway.

  \<^item> \<open>Gateway_Client\<close>, \<open>Gateway_Adapters\<close> (\<open>infrastructure/http-clients\<close>), \<open>Gateway_Services\<close>
    (\<open>infrastructure/rate-limit\<close>, \<open>services\<close>), \<open>Gateway_Auth\<close> (the guard, the refresh cookie and
    \<open>auth.controller.ts\<close>), \<open>Gateway_Server\<close> (controllers, health, the exception filter, \<open>main.ts\<close>).
    \<open>gateway_handle\<close> is one request whose path decodes; \<open>gateway_serve\<close> adds the 400 with which the
    framework answers any other before a hook or filter runs. Requests are handled one after
    the other: the gateway keeps no state of its own, and the only state its requests share is
    in Redis.
  \<^item> Redis is a function of the history of commands, so that any server is covered; what a counter
    with an expiry must answer is the hypothesis \<open>counts_since\<close> of
    \<open>Gateway_Limits\<close>. \<open>jwt.verify\<close> and \<open>fetch\<close> are fields of the environment.
  \<^item> \<open>Gateway_Guarantees\<close> (which calls a program makes), \<open>Gateway_Routing\<close> (the path of every
    adapter, read by the other side's router), \<open>Gateway_Errors\<close> (which errors the handlers raise),
    \<open>Gateway_Promises\<close> and \<open>Gateway_Session\<close>: the properties. Identity, routing to the issue
    service, limits, errors and where they come from, the refresh cookie with its attributes,
    the health report.

  The web client.

  \<^item> \<open>Web_Errors\<close> (\<open>lib/apiError.ts\<close>, \<open>lib/queryClient.ts\<close>).
  \<^item> \<open>Web_Session\<close> (\<open>features/auth/store.ts\<close>, \<open>lib/interceptors.ts\<close>): requests overlap, so this is a
    state machine whose events are what one callback does before it yields; \<open>reachable\<close> is the
    inductive set of its states. \<open>Web_Interceptors\<close> has its invariant, the measure by which
    requests settle, and the properties. A request takes at most three answers: its
    refusal, the refresh, the answer to its replay.
  \<^item> \<open>Web_Client\<close> (\<open>features/*/api.ts\<close>): programs that send requests and leave effects on the page. The
    loop of \<open>listIssues\<close> is \<open>partial_function\<close>, since nothing in the client bounds it; \<open>Web_Listing\<close>
    proves that it returns, from the issue service's own answers with pages of 50, behind any
    transport that keeps the contract of its locale \<open>list_transport\<close>. \<open>Web_Stack\<close> wires client,
    gateway and issue service together and interprets the locale on this composition; \<open>Web_System\<close>
    follows every operation of the issue service through it: what the page is told is what the
    service answered, two pages do not overwrite each other's changes, and a move on a stale
    board reloads it. \<open>Web_Renewal\<close> adds the session code: a request with an expired token is
    served once, with the token that the refresh cookie has bought.
  \<^item> \<open>Web_Hooks\<close> (\<open>features/*/hooks\<close>), \<open>Web_Elements\<close>, \<open>Web_Board\<close>, \<open>Web_Planning\<close>, \<open>Web_Issue_Detail\<close>,
    \<open>Web_Projects\<close>, \<open>Web_Shell\<close> (the components and pages): a component is a function from its
    props, state and query results to a view (elements, attributes, handlers) and its
    handlers are programs. Elements that only lay out, icons and constant class names
    are left out of a view; an ellipsis is written as three dots. \<open>Web_Promises\<close> has the properties.
  \<^item> \<open>Web_Kit\<close>, \<open>Web_Overlays\<close> (\<open>components/ui\<close>, \<open>lib/utils.ts\<close>): the component kit, from properties to elements
    of the library below it, class names included. \<open>Web_Frame\<close> (\<open>app/layout.tsx\<close>, \<open>app/providers.tsx\<close>,
    \<open>components/shared/AuthShell.tsx\<close> and the static pages): the document around a screen, and the
    proof that kit and frame keep every control of the screens.

  The processes. \<open>Processes\<close>: the poll timer and its life cycle, at most one poll in flight and none
  begun after the end; the records of the access logs; the CORS and Redis options.

  What is assumed of code that is not here, always as a parameter or a named hypothesis: the
  serialiser of query parameters and the parser of query strings are inverse (\<open>stack_ok\<close>), and
  JSON keeps what \<open>json_copy\<close> keeps; the query library
  runs the options of \<open>Web_Hooks\<close>, components get its \<open>mutateAsync\<close> as an argument; the form
  and validation libraries are arguments of the account forms; the browser clears an event's
  \<open>currentTarget\<close> when its dispatch ends (\<open>be_currentTarget\<close>); \<open>localStorage\<close> holds a text given by
  what \<open>JSON.parse\<close> makes of it. Characters are those of HOL's \<open>char\<close>, the first 256 code points;
  the text functions of the database (\<open>lower\<close>) are parameters.

  In the component kit, \<open>clsx\<close>, \<open>twMerge\<close>, \<open>cva\<close>, \<open>mergeProps\<close> and \<open>useRender\<close> are parameters (\<open>styles\<close>).

  Not modelled: tracing; the log messages besides the access logs; module wiring; the ports the
  processes listen on; the closing of the pool at shutdown; page titles given as metadata; the
  services in Java, .NET and Go, which the models meet through their HTTP answers and the
  event records only; tests, documents and infrastructure. The interfaces of
  \<open>application/ports.ts\<close> have no code of their own: their methods are the definitions of the
  repositories.
\<close>

end
